(* ===== verification/Prelude.thy ===== *)
theory Prelude
  imports Main "HOL-Library.Char_ord" "HOL-Library.List_Lexorder" "HOL-Library.Word"
begin

text \<open>
  Vocabulary shared by all components: results that are either a thrown exception or a
  value, the functions on \<open>std::string\<close> and \<open>std::multimap\<close> that several components use, and
  the lemma collections \<open>result_simps\<close> and \<open>mm_simps\<close> that carry the component proofs.
\<close>

section \<open>Exceptions and results\<close>

text \<open>
  Every \<open>throw\<close> of the modelled code is a value \<open>Inl (Thrown code tag)\<close>: the code is the
  WFS exception code attached with \<open>addParameter(WFS_EXCEPTION_CODE, ...)\<close> (\<open>NoCode\<close> where
  the source attaches none) and the tag names the throw.  The \<open>Trace\<close> wrappers of the source
  keep both.  \<open>Undefined\<close> marks an execution that reaches undefined behaviour of C++.
\<close>

datatype err_code =
    NoCode
  | ParsingFailed
  | ProcessingFailed
  | NotSupported
  | InvalidParameterValue
  | MissingParameterValue

datatype error =
    Thrown err_code string
  | Undefined string

type_synonym 'a result = "error + 'a"

named_theorems result_simps

definition rbind :: "'a result \<Rightarrow> ('a \<Rightarrow> 'b result) \<Rightarrow> 'b result" where
  "rbind m f = (case m of Inl e \<Rightarrow> Inl e | Inr x \<Rightarrow> f x)"

lemma rbind_Inl [simp]: "rbind (Inl e) f = Inl e"
  by (simp add: rbind_def)

lemma rbind_Inr [simp]: "rbind (Inr x) f = f x"
  by (simp add: rbind_def)

lemma rbind_eq_Inr [result_simps]:
  "rbind m f = Inr y \<longleftrightarrow> (\<exists>x. m = Inr x \<and> f x = Inr y)"
  by (simp add: rbind_def split: sum.splits)

lemma rbind_eq_Inl [result_simps]:
  "rbind m f = Inl e \<longleftrightarrow> m = Inl e \<or> (\<exists>x. m = Inr x \<and> f x = Inl e)"
  by (simp add: rbind_def split: sum.splits)

lemma rbind_cong [fundef_cong]:
  "m = m' \<Longrightarrow> (\<And>x. m' = Inr x \<Longrightarrow> f x = g x) \<Longrightarrow> rbind m f = rbind m' g"
  by (simp add: rbind_def split: sum.splits)

lemma rbind_assoc: "rbind (rbind m f) g = rbind m (\<lambda>x. rbind (f x) g)"
  by (simp add: rbind_def split: sum.splits)

definition isOK :: "'a result \<Rightarrow> bool" where
  "isOK r = (case r of Inl _ \<Rightarrow> False | Inr _ \<Rightarrow> True)"

lemma isOK_simps [simp]: "isOK (Inr x)" "\<not> isOK (Inl e)"
  by (simp_all add: isOK_def)

lemma isOK_iff: "isOK r \<longleftrightarrow> (\<exists>x. r = Inr x)"
  by (cases r) simp_all

text \<open>Traversal of a list by a computation that may throw; the first exception wins.\<close>

fun map_result :: "('a \<Rightarrow> 'b result) \<Rightarrow> 'a list \<Rightarrow> 'b list result" where
  "map_result f [] = Inr []"
| "map_result f (x # xs) = rbind (f x) (\<lambda>y. rbind (map_result f xs) (\<lambda>ys. Inr (y # ys)))"

fun fold_result :: "('a \<Rightarrow> 's \<Rightarrow> 's result) \<Rightarrow> 'a list \<Rightarrow> 's \<Rightarrow> 's result" where
  "fold_result f [] s = Inr s"
| "fold_result f (x # xs) s = rbind (f x s) (fold_result f xs)"

lemma map_result_Inr_iff:
  "map_result f xs = Inr ys \<longleftrightarrow> list_all2 (\<lambda>x y. f x = Inr y) xs ys"
  by (induction xs arbitrary: ys) (auto simp: result_simps list_all2_Cons1)

lemma map_result_length: "map_result f xs = Inr ys \<Longrightarrow> length ys = length xs"
  by (auto simp: map_result_Inr_iff list_all2_lengthD)

lemma map_result_pure [simp]: "map_result (\<lambda>x. Inr (f x)) xs = Inr (map f xs)"
  by (induction xs) simp_all

lemma fold_result_append:
  "fold_result f (xs @ ys) s = rbind (fold_result f xs s) (fold_result f ys)"
proof (induction xs arbitrary: s)
  case Nil
  then show ?case by simp
next
  case (Cons x xs)
  then show ?case by (simp add: rbind_def split: sum.splits)
qed

lemma fold_result_invariant:
  assumes "fold_result f xs s = Inr t" and "P s"
    and "\<And>x s t. x \<in> set xs \<Longrightarrow> P s \<Longrightarrow> f x s = Inr t \<Longrightarrow> P t"
  shows "P t"
  using assms
proof (induction xs arbitrary: s)
  case Nil
  then show ?case by simp
next
  case (Cons x xs)
  from Cons.prems(1) obtain u where u: "f x s = Inr u" and rest: "fold_result f xs u = Inr t"
    by (auto simp: result_simps)
  have "P u"
    by (rule Cons.prems(3) [OF _ Cons.prems(2) u]) simp
  with rest show ?case
    by (rule Cons.IH) (rule Cons.prems(3), simp_all)
qed

section \<open>Strings\<close>

text \<open>
  A \<open>std::string\<close> is a list of bytes, here \<open>char list\<close>; \<open>std::string::operator<\<close> compares the
  bytes as unsigned numbers lexicographically, which is the order of \<open>HOL-Library.Char_ord\<close>
  and \<open>HOL-Library.List_Lexorder\<close>.  A C string ends at its first zero byte.
\<close>

type_synonym byte = "8 word"

definition char_byte :: "char \<Rightarrow> byte" where
  "char_byte c = of_nat (of_char c)"

definition byte_char :: "byte \<Rightarrow> char" where
  "byte_char b = char_of (unat b)"

lemma unat_char_byte: "unat (char_byte c) = of_char c"
  by (simp add: char_byte_def unat_of_nat take_bit_nat_def)

lemma byte_char_byte [simp]: "byte_char (char_byte c) = c"
  by (simp add: byte_char_def unat_char_byte)

definition c_str :: "string \<Rightarrow> string" where
  "c_str s = takeWhile (\<lambda>c. c \<noteq> CHR 0x00) s"

definition isalnum :: "char \<Rightarrow> bool" where
  "isalnum c \<longleftrightarrow>
     (let n = (of_char c :: nat)
      in 48 \<le> n \<and> n \<le> 57 \<or> 65 \<le> n \<and> n \<le> 90 \<or> 97 \<le> n \<and> n \<le> 122)"

definition isdigit :: "char \<Rightarrow> bool" where
  "isdigit c \<longleftrightarrow> (let n = (of_char c :: nat) in 48 \<le> n \<and> n \<le> 57)"

definition isspace :: "char \<Rightarrow> bool" where
  "isspace c \<longleftrightarrow> (let n = (of_char c :: nat) in n = 32 \<or> 9 \<le> n \<and> n \<le> 13)"

text \<open>\<open>boost::algorithm::trim_copy\<close> and \<open>boost::algorithm::split\<close> with one separator.\<close>

definition trim_copy :: "string \<Rightarrow> string" where
  "trim_copy s = rev (dropWhile isspace (rev (dropWhile isspace s)))"

fun split_at :: "char \<Rightarrow> string \<Rightarrow> string list" where
  "split_at sep [] = [[]]"
| "split_at sep (c # cs) =
     (if c = sep then [] # split_at sep cs
      else (case split_at sep cs of [] \<Rightarrow> [[c]] | w # ws \<Rightarrow> (c # w) # ws))"

lemma split_at_nonempty: "split_at sep s \<noteq> []"
  by (induction s) (auto split: list.splits)

lemma split_at_free: "w \<in> set (split_at sep s) \<Longrightarrow> sep \<notin> set w"
proof (induction s arbitrary: w)
  case Nil
  then show ?case by simp
next
  case (Cons c cs)
  then show ?case
    by (cases "split_at sep cs") (auto split: if_splits)
qed

text \<open>
  \<open>ascii_lower\<close> is a concrete instance for the parameter \<open>lc\<close> of the model
  (\<open>Fmi::ascii_tolower_copy\<close> of the macgyver library); only witnesses use it.
\<close>

definition ascii_lower_char :: "char \<Rightarrow> char" where
  "ascii_lower_char c =
     (let n = (of_char c :: nat) in if 65 \<le> n \<and> n \<le> 90 then char_of (n + 32) else c)"

definition ascii_lower :: "string \<Rightarrow> string" where
  "ascii_lower s = map ascii_lower_char s"

section \<open>Multimaps\<close>

text \<open>
  A \<open>std::multimap\<close> is the list of its items in iteration order: sorted by key, and, since
  C++11, items with equal keys in the order of their insertion (\<open>insert\<close> puts a new item at
  the upper bound of its key).
\<close>

type_synonym ('k, 'v) mmap = "('k \<times> 'v) list"

named_theorems mm_simps

fun mm_insert :: "'k::linorder \<Rightarrow> 'v \<Rightarrow> ('k, 'v) mmap \<Rightarrow> ('k, 'v) mmap" where
  "mm_insert k v [] = [(k, v)]"
| "mm_insert k v (p # m) = (if k < fst p then (k, v) # p # m else p # mm_insert k v m)"

definition mm_values :: "('k, 'v) mmap \<Rightarrow> 'k \<Rightarrow> 'v list" where
  "mm_values m k = map snd (filter (\<lambda>p. fst p = k) m)"

definition mm_count :: "('k, 'v) mmap \<Rightarrow> 'k \<Rightarrow> nat" where
  "mm_count m k = length (filter (\<lambda>p. fst p = k) m)"

definition mm_erase :: "'k \<Rightarrow> ('k, 'v) mmap \<Rightarrow> ('k, 'v) mmap" where
  "mm_erase k m = filter (\<lambda>p. fst p \<noteq> k) m"

definition mm_keys :: "('k, 'v) mmap \<Rightarrow> 'k list" where
  "mm_keys m = remdups_adj (map fst m)"

definition mm_sorted :: "('k::linorder, 'v) mmap \<Rightarrow> bool" where
  "mm_sorted m \<longleftrightarrow> sorted (map fst m)"

lemma set_mm_insert: "set (mm_insert k v m) = insert (k, v) (set m)"
  by (induction m) auto

lemma mm_sorted_Nil [simp]: "mm_sorted []"
  by (simp add: mm_sorted_def)

lemma mm_sorted_insert [mm_simps]: "mm_sorted m \<Longrightarrow> mm_sorted (mm_insert k v m)"
  by (induction m) (auto simp: mm_sorted_def set_mm_insert)

lemma mm_sorted_erase [mm_simps]: "mm_sorted m \<Longrightarrow> mm_sorted (mm_erase k m)"
  by (induction m) (auto simp: mm_sorted_def mm_erase_def)

lemma mm_values_Nil [simp]: "mm_values [] k = []"
  by (simp add: mm_values_def)

lemma mm_values_append: "mm_values (m @ m') k = mm_values m k @ mm_values m' k"
  by (simp add: mm_values_def)

lemma mm_values_greater:
  "sorted (map fst m) \<Longrightarrow> \<forall>p \<in> set m. k < fst p \<Longrightarrow> mm_values m k = []"
  by (auto simp: mm_values_def filter_empty_conv)

lemma mm_values_insert [mm_simps]:
  "mm_sorted m \<Longrightarrow>
   mm_values (mm_insert k v m) k' = mm_values m k' @ (if k = k' then [v] else [])"
proof (induction m)
  case Nil
  then show ?case by (simp add: mm_values_def)
next
  case (Cons p m)
  show ?case
  proof (cases "k < fst p")
    case True
    with Cons.prems have "mm_values (p # m) k = []"
      by (intro mm_values_greater) (auto simp: mm_sorted_def)
    with True show ?thesis by (auto simp: mm_values_def)
  next
    case False
    with Cons show ?thesis by (auto simp: mm_values_def mm_sorted_def)
  qed
qed

lemma mm_values_erase [mm_simps]:
  "mm_values (mm_erase k m) k' = (if k = k' then [] else mm_values m k')"
  by (induction m) (auto simp: mm_values_def mm_erase_def)

lemma mm_count_values [mm_simps]: "mm_count m k = length (mm_values m k)"
  by (simp add: mm_count_def mm_values_def)

lemma set_mm_keys [simp]: "set (mm_keys m) = fst ` set m"
  by (simp add: mm_keys_def)

lemma mm_insert_last:
  "\<forall>p \<in> set m. fst p \<le> k \<Longrightarrow> mm_insert k v m = m @ [(k, v)]"
  by (induction m) auto

text \<open>
  The interface of a container of values under string keys, as the request parameter
  code relies on it, and what follows from its laws.
\<close>

locale value_store =
  fixes lookup :: "'s \<Rightarrow> 'k \<Rightarrow> 'v list"
    and ins :: "'k \<Rightarrow> 'v \<Rightarrow> 's \<Rightarrow> 's"
    and del :: "'k \<Rightarrow> 's \<Rightarrow> 's"
    and inv :: "'s \<Rightarrow> bool"
    and same :: "'s \<Rightarrow> 'k \<Rightarrow> 'k \<Rightarrow> bool"
  assumes inv_ins: "inv s \<Longrightarrow> inv (ins k v s)"
    and inv_del: "inv s \<Longrightarrow> inv (del k s)"
    and same_ins: "same (ins k v s) = same s"
    and same_del: "same (del k s) = same s"
    and lookup_ins: "inv s \<Longrightarrow> lookup (ins k v s) k' = lookup s k' @ (if same s k k' then [v] else [])"
    and lookup_del: "inv s \<Longrightarrow> lookup (del k s) k' = (if same s k k' then [] else lookup s k')"
begin

lemma inv_fold: "inv s \<Longrightarrow> inv (fold (ins k) vs s)"
  by (induction vs arbitrary: s) (simp_all add: inv_ins)

lemma same_fold: "same (fold (ins k) vs s) = same s"
  by (induction vs arbitrary: s) (simp_all add: same_ins)

lemma lookup_fold:
  "inv s \<Longrightarrow> lookup (fold (ins k) vs s) k' = lookup s k' @ (if same s k k' then vs else [])"
  by (induction vs arbitrary: s) (simp_all add: inv_ins lookup_ins same_ins)

lemma lookup_replace:
  "inv s \<Longrightarrow> lookup (fold (ins k) vs (del k s)) k' =
    (if same s k k' then vs else lookup s k')"
  by (simp add: lookup_fold inv_del lookup_del same_del)

end

interpretation mm_store: value_store mm_values mm_insert mm_erase mm_sorted "\<lambda>_ k k'. k = k'"
  by unfold_locales (simp_all add: mm_simps)

text \<open>Two sorted multimaps with the same values under every key are equal.\<close>

lemma mm_values_Cons: "mm_values (p # m) k = (if fst p = k then [snd p] else []) @ mm_values m k"
  by (simp add: mm_values_def)

lemma mm_ext:
  "mm_sorted m \<Longrightarrow> mm_sorted m' \<Longrightarrow> (\<And>k. mm_values m k = mm_values m' k) \<Longrightarrow> m = m'"
proof (induction m arbitrary: m')
  case Nil
  then have "mm_values m' (fst (hd m')) = []" by simp
  then show ?case
    by (cases m') (auto simp: mm_values_Cons)
next
  case (Cons p m)
  note eq = Cons.prems(3)
  from eq [of "fst p"] obtain p' n where m': "m' = p' # n"
    by (cases m') (auto simp: mm_values_Cons)
  have absent: "mm_values (q # l) k = []" if "mm_sorted (q # l)" "k < fst q" for q l and k
    using that by (intro mm_values_greater) (auto simp: mm_sorted_def)
  have key: "fst p = fst p'"
  proof (cases "fst p" "fst p'" rule: linorder_cases)
    case less
    then have "mm_values m' (fst p) = []"
      using absent [of p' n] Cons.prems(2) m' by simp
    then show ?thesis using eq [of "fst p"] by (simp add: mm_values_Cons)
  next
    case greater
    then have "mm_values (p # m) (fst p') = []"
      using absent [of p m] Cons.prems(1) by simp
    then show ?thesis using eq [of "fst p'"] m' by (simp add: mm_values_Cons)
  qed
  with eq [of "fst p"] m' have "snd p = snd p'"
    by (simp add: mm_values_Cons)
  moreover have "m = n"
  proof (rule Cons.IH)
    show "mm_sorted m" "mm_sorted n"
      using Cons.prems m' by (simp_all add: mm_sorted_def)
    show "mm_values m k = mm_values n k" for k
      using eq [of k] key m' by (simp add: mm_values_Cons split: if_splits)
  qed
  ultimately show ?case
    using key m' by (simp add: prod_eq_iff)
qed

lemma distinct_mm_keys: "mm_sorted m \<Longrightarrow> distinct (mm_keys m)"
proof (induction m rule: induct_list012)
  case (3 p q m)
  then show ?case
    by (cases "fst p = fst q") (auto simp: mm_keys_def mm_sorted_def)
qed (simp_all add: mm_keys_def)

text \<open>Inserting the items of a multimap key by key rebuilds it.\<close>

lemma fold_mm_keys:
  assumes "mm_sorted m" "distinct ks"
  shows "mm_sorted (fold (\<lambda>k. fold (mm_insert k) (vals k)) ks m)"
    and "mm_values (fold (\<lambda>k. fold (mm_insert k) (vals k)) ks m) k' =
      mm_values m k' @ (if k' \<in> set ks then vals k' else [])"
  using assms
  by (induction ks arbitrary: m) (auto simp: mm_store.inv_fold mm_store.lookup_fold)

lemma mm_rebuild:
  assumes "mm_sorted m"
  shows "fold (\<lambda>k. fold (mm_insert k) (mm_values m k)) (mm_keys m) [] = m"
proof (rule mm_ext)
  have keys: "mm_values m k = []" if "k \<notin> fst ` set m" for k
    using that by (force simp: mm_values_def filter_empty_conv)
  show "mm_sorted (fold (\<lambda>k. fold (mm_insert k) (mm_values m k)) (mm_keys m) [])"
    by (rule fold_mm_keys) (simp_all add: assms distinct_mm_keys)
  show "mm_values (fold (\<lambda>k. fold (mm_insert k) (mm_values m k)) (mm_keys m) []) k = mm_values m k" for k
    using keys by (simp add: fold_mm_keys assms distinct_mm_keys)
qed (fact assms)

section \<open>Ordered maps and sets\<close>

text \<open>
  A \<open>std::map\<close> is the list of its items sorted by key, each key once; \<open>map_of\<close> looks a key up.
  \<open>sm_emplace\<close> is \<open>emplace\<close> or \<open>insert\<close> of a new key, \<open>None\<close> if the key is there already;
  \<open>sm_put\<close> is an assignment through \<open>operator[]\<close>.
\<close>

definition sm_ok :: "('k::linorder \<times> 'v) list \<Rightarrow> bool" where
  "sm_ok m \<longleftrightarrow> sorted (map fst m) \<and> distinct (map fst m)"

definition sm_emplace :: "'k::linorder \<Rightarrow> 'v \<Rightarrow> ('k \<times> 'v) list \<Rightarrow> ('k \<times> 'v) list option" where
  "sm_emplace k v m = (case map_of m k of None \<Rightarrow> Some (mm_insert k v m) | Some _ \<Rightarrow> None)"

definition sm_update :: "'k \<Rightarrow> ('v \<Rightarrow> 'v) \<Rightarrow> ('k \<times> 'v) list \<Rightarrow> ('k \<times> 'v) list" where
  "sm_update k f m = map (\<lambda>(k', v). (k', if k' = k then f v else v)) m"

definition sm_put :: "'k::linorder \<Rightarrow> 'v \<Rightarrow> ('k \<times> 'v) list \<Rightarrow> ('k \<times> 'v) list" where
  "sm_put k v m = (case map_of m k of None \<Rightarrow> mm_insert k v m | Some _ \<Rightarrow> sm_update k (\<lambda>_. v) m)"

definition sset_insert :: "'a::linorder \<Rightarrow> 'a list \<Rightarrow> 'a list" where
  "sset_insert x xs = (if x \<in> set xs then xs else insort x xs)"

named_theorems sm_simps

lemma map_of_mm_insert [sm_simps]:
  "map_of m k = None \<Longrightarrow> map_of (mm_insert k v m) k' = (if k' = k then Some v else map_of m k')"
  by (induction m) (auto split: if_splits)

lemma keys_mm_insert [sm_simps]: "set (map fst (mm_insert k v m)) = insert k (set (map fst m))"
  by (induction m) auto

lemma sm_ok_Nil [simp]: "sm_ok []"
  by (simp add: sm_ok_def)

lemma sm_ok_insert [sm_simps]: "sm_ok m \<Longrightarrow> map_of m k = None \<Longrightarrow> sm_ok (mm_insert k v m)"
  by (induction m) (auto simp: sm_ok_def map_of_eq_None_iff keys_mm_insert set_mm_insert split: if_splits)

lemma map_of_sm_update [sm_simps]:
  "map_of (sm_update k f m) k' = (if k' = k then map_option f (map_of m k) else map_of m k')"
  by (induction m) (auto simp: sm_update_def)

lemma keys_sm_update [simp]: "map fst (sm_update k f m) = map fst m"
  by (induction m) (auto simp: sm_update_def)

lemma sm_ok_update [sm_simps]: "sm_ok (sm_update k f m) = sm_ok m"
  by (simp add: sm_ok_def)

lemma map_of_sm_put [sm_simps]: "map_of (sm_put k v m) k' = (if k' = k then Some v else map_of m k')"
  by (auto simp: sm_put_def sm_simps split: option.splits)

lemma sm_ok_put [sm_simps]: "sm_ok m \<Longrightarrow> sm_ok (sm_put k v m)"
  by (auto simp: sm_put_def sm_simps split: option.splits)

lemma sm_ok_filter [sm_simps]: "sm_ok m \<Longrightarrow> sm_ok (filter P m)"
  by (induction m) (auto simp: sm_ok_def)

lemma sm_emplace_Some [sm_simps]:
  "sm_emplace k v m = Some m' \<longleftrightarrow> map_of m k = None \<and> m' = mm_insert k v m"
  by (auto simp: sm_emplace_def split: option.splits)

lemma sm_emplace_None [sm_simps]: "sm_emplace k v m = None \<longleftrightarrow> map_of m k \<noteq> None"
  by (auto simp: sm_emplace_def split: option.splits)

lemma map_of_in: "sm_ok m \<Longrightarrow> (k, v) \<in> set m \<longleftrightarrow> map_of m k = Some v"
  by (simp add: sm_ok_def)

lemma set_sset_insert [simp]: "set (sset_insert x xs) = insert x (set xs)"
  by (auto simp: sset_insert_def set_insort_key)

lemma distinct_sset_insert: "distinct xs \<Longrightarrow> distinct (sset_insert x xs)"
  by (simp add: sset_insert_def distinct_insort)

end
