(* ===== verification/BitStream.thy ===== *)
theory BitStream
  imports Prelude
begin

unbundle bit_operations_syntax

text \<open>
  \<open>libwfs/BStream.cpp\<close>: the bit streams \<open>OBStream\<close> and \<open>IBStream\<close>, up to \<open>put_bit\<close> and
  \<open>get_bit\<close>.  The abstraction \<open>obits\<close> is the sequence of bits written so far, \<open>ibits\<close> the
  sequence of bits not yet read; the other operations of both classes touch the stream
  only through \<open>put_bit\<close> and \<open>get_bit\<close>.
\<close>

section \<open>The stream states\<close>

record ostream =
  o_reserved :: nat
  o_data :: "byte list"
  o_ind :: nat
  o_num_bits :: nat

record istream =
  i_length :: nat
  i_data :: "byte list"
  i_pos :: nat
  i_bit_pos :: nat

definition BLOCK_SIZE :: nat where
  "BLOCK_SIZE = 256"

definition new_ostream :: ostream where
  "new_ostream = \<lparr>o_reserved = BLOCK_SIZE, o_data = replicate BLOCK_SIZE 0, o_ind = 0, o_num_bits = 0\<rparr>"

definition new_istream :: "byte list \<Rightarrow> istream" where
  "new_istream d =
     \<lparr>i_length = length d, i_data = (if d = [] then [0] else d), i_pos = 0, i_bit_pos = 0\<rparr>"

definition raw_data :: "ostream \<Rightarrow> byte list" where
  "raw_data st = take (o_ind st + 1) (o_data st)"

text \<open>\<open>put_bit\<close>: move to the next byte when eight bits are used, growing the buffer by a block.\<close>

definition next_byte :: "ostream \<Rightarrow> ostream" where
  "next_byte st =
     (if 8 \<le> o_num_bits st
      then let i = o_ind st + 1 in
        (if o_reserved st \<le> i
         then st\<lparr>o_ind := i,
                 o_data := take (o_reserved st) (o_data st) @ replicate BLOCK_SIZE 0,
                 o_reserved := o_reserved st + BLOCK_SIZE,
                 o_num_bits := 0\<rparr>
         else st\<lparr>o_ind := i, o_num_bits := 0\<rparr>)
      else st)"

definition put_bit :: "bool \<Rightarrow> ostream \<Rightarrow> ostream" where
  "put_bit val st =
     (let st1 = next_byte st;
          st2 = (if val
                 then st1\<lparr>o_data := (o_data st1)[o_ind st1 :=
                        (o_data st1 ! o_ind st1) OR drop_bit (o_num_bits st1) 0x80]\<rparr>
                 else st1)
      in st2\<lparr>o_num_bits := o_num_bits st2 + 1\<rparr>)"

definition get_bit :: "istream \<Rightarrow> (bool \<times> istream) result" where
  "get_bit st =
     (let st1 = (if 8 \<le> i_bit_pos st then st\<lparr>i_pos := i_pos st + 1, i_bit_pos := 0\<rparr> else st)
      in if i_length st1 \<le> i_pos st1 then Inl (Thrown NoCode ''unexpected end of bitstream'')
         else Inr ((i_data st1 ! i_pos st1) AND drop_bit (i_bit_pos st1) 0x80 \<noteq> 0,
                   st1\<lparr>i_bit_pos := i_bit_pos st1 + 1\<rparr>))"

section \<open>The bits of a stream\<close>

definition sbit :: "byte list \<Rightarrow> nat \<Rightarrow> bool" where
  "sbit d p \<longleftrightarrow> bit (d ! (p div 8)) (7 - p mod 8)"

definition opos :: "ostream \<Rightarrow> nat" where
  "opos st = 8 * o_ind st + o_num_bits st"

definition obits :: "ostream \<Rightarrow> bool list" where
  "obits st = map (sbit (o_data st)) [0..<opos st]"

definition owf :: "ostream \<Rightarrow> bool" where
  "owf st \<longleftrightarrow> length (o_data st) = o_reserved st \<and> o_ind st < o_reserved st \<and>
     o_num_bits st \<le> 8 \<and> (\<forall>p. opos st \<le> p \<and> p < 8 * o_reserved st \<longrightarrow> \<not> sbit (o_data st) p)"

definition iposition :: "istream \<Rightarrow> nat" where
  "iposition st = 8 * i_pos st + i_bit_pos st"

definition ibits :: "istream \<Rightarrow> bool list" where
  "ibits st = map (sbit (i_data st)) [iposition st ..< 8 * i_length st]"

definition iwf :: "istream \<Rightarrow> bool" where
  "iwf st \<longleftrightarrow> i_length st \<le> length (i_data st) \<and> i_bit_pos st \<le> 8"

lemma bit_0x80: "bit (0x80 :: byte) n \<longleftrightarrow> n = 7"
proof -
  have eq: "(0x80 :: byte) = 2 ^ 7" by simp
  show ?thesis unfolding eq bit_exp_iff by auto
qed

lemma bit_shifted_0x80: "bit (drop_bit k (0x80 :: byte)) n \<longleftrightarrow> k + n = 7"
  by (simp only: bit_drop_bit_eq comp_def bit_0x80)

lemma sbit_set:
  assumes "i < length d" "k < 8" "p < 8 * length d"
  shows "sbit (d[i := d ! i OR drop_bit k 0x80]) p \<longleftrightarrow> sbit d p \<or> p = 8 * i + k"
proof (cases "p div 8 = i")
  case True
  define r where "r = p mod 8"
  have r: "r < 8" "p = 8 * i + r"
    using True mult_div_mod_eq [of 8 p] by (simp_all add: r_def)
  have "k + (7 - r) = 7 \<longleftrightarrow> r = k"
    using assms(2) r(1) by arith
  then have "sbit (d[i := d ! i OR drop_bit k 0x80]) p \<longleftrightarrow> sbit d p \<or> r = k"
    using True assms(1) by (simp add: sbit_def bit_or_iff bit_shifted_0x80 r_def)
  moreover have "r = k \<longleftrightarrow> p = 8 * i + k"
    using r(2) by simp
  ultimately show ?thesis by simp
next
  case False
  then have "p \<noteq> 8 * i + k" using assms(2) by auto
  with False show ?thesis by (simp add: sbit_def)
qed

lemma and_0x80: "(b AND drop_bit k (0x80 :: byte) \<noteq> 0) \<longleftrightarrow> k < 8 \<and> bit b (7 - k)"
proof -
  have bit_iff: "bit (b AND drop_bit k (0x80 :: byte)) n \<longleftrightarrow> bit b n \<and> k + n = 7" for n
    by (simp add: bit_and_iff bit_shifted_0x80)
  show ?thesis
  proof
    assume "b AND drop_bit k (0x80 :: byte) \<noteq> 0"
    then obtain n where "bit (b AND drop_bit k (0x80 :: byte)) n"
      by (metis bit_eqI bit_0_eq bot_apply bot_bool_def)
    then have "bit b n" "k + n = 7" by (simp_all add: bit_iff)
    then have "n = 7 - k" "k < 8" by arith+
    with \<open>bit b n\<close> show "k < 8 \<and> bit b (7 - k)" by simp
  next
    assume "k < 8 \<and> bit b (7 - k)"
    then have "bit (b AND drop_bit k (0x80 :: byte)) (7 - k)" by (simp add: bit_iff)
    then show "b AND drop_bit k (0x80 :: byte) \<noteq> 0" by auto
  qed
qed

section \<open>Writing\<close>

lemma next_byte_owf:
  assumes "owf st"
  shows "owf (next_byte st)" "obits (next_byte st) = obits st" "o_num_bits (next_byte st) < 8"
proof -
  have grow: "sbit (d @ replicate n 0) p = (p < 8 * length d \<and> sbit d p)"
    if "p < 8 * (length d + n)" for p d n
  proof (cases "p < 8 * length d")
    case True
    then show ?thesis by (simp add: sbit_def nth_append less_mult_imp_div_less mult.commute)
  next
    case False
    then have "length d \<le> p div 8" "p div 8 - length d < n"
      using that by auto
    with False show ?thesis by (simp add: sbit_def nth_append)
  qed
  show "owf (next_byte st)"
    using assms
    by (auto simp: owf_def next_byte_def Let_def opos_def grow BLOCK_SIZE_def)
  show "obits (next_byte st) = obits st"
    using assms
    by (auto simp: owf_def next_byte_def Let_def opos_def obits_def grow BLOCK_SIZE_def
        add.commute)
  show "o_num_bits (next_byte st) < 8"
    using assms by (auto simp: owf_def next_byte_def Let_def)
qed

lemma put_bit_owf:
  assumes "owf st"
  shows "owf (put_bit b st)" "obits (put_bit b st) = obits st @ [b]"
proof -
  let ?s = "next_byte st"
  note nb = next_byte_owf [OF assms]
  then have wf: "length (o_data ?s) = o_reserved ?s" "o_ind ?s < o_reserved ?s"
    "o_num_bits ?s < 8" "\<And>p. opos ?s \<le> p \<Longrightarrow> p < 8 * o_reserved ?s \<Longrightarrow> \<not> sbit (o_data ?s) p"
    by (auto simp: owf_def)
  have upd: "sbit ((o_data ?s)[o_ind ?s := o_data ?s ! o_ind ?s OR drop_bit (o_num_bits ?s) 0x80]) p
    \<longleftrightarrow> sbit (o_data ?s) p \<or> p = opos ?s" if "p < 8 * o_reserved ?s" for p
    using sbit_set [of "o_ind ?s" "o_data ?s" "o_num_bits ?s" p] wf(1-3) that
    by (simp add: opos_def)
  have lt: "opos ?s < 8 * o_reserved ?s"
    using wf(2,3) by (simp add: opos_def)
  show "owf (put_bit b st)"
    using wf upd by (auto simp: put_bit_def Let_def owf_def opos_def)
  have "map (sbit (o_data (put_bit b st))) [0..<opos ?s] = obits ?s"
    using upd lt by (auto simp: put_bit_def Let_def obits_def)
  moreover have "sbit (o_data (put_bit b st)) (opos ?s) = b"
    using upd lt wf(4) [of "opos ?s"] by (simp add: put_bit_def Let_def)
  moreover have "opos (put_bit b st) = Suc (opos ?s)"
    by (simp add: put_bit_def Let_def opos_def)
  ultimately show "obits (put_bit b st) = obits st @ [b]"
    using nb(2) by (simp add: obits_def [of "put_bit b st"])
qed

lemma new_ostream_owf [simp]: "owf new_ostream" "obits new_ostream = []"
  by (simp_all add: new_ostream_def owf_def obits_def opos_def BLOCK_SIZE_def sbit_def
      less_mult_imp_div_less mult.commute nth_Cons')

section \<open>Reading\<close>

lemma sbit_get:
  "k < 8 \<Longrightarrow> (d ! i AND drop_bit k 0x80 \<noteq> 0) \<longleftrightarrow> sbit d (8 * i + k)"
  by (simp only: and_0x80) (simp add: sbit_def)

lemma ibits_step:
  assumes "iwf st" "i_bit_pos st < 8"
  shows "ibits st = (if i_length st \<le> i_pos st then []
    else sbit (i_data st) (iposition st) # ibits (st\<lparr>i_bit_pos := i_bit_pos st + 1\<rparr>))"
proof -
  have "iposition st < 8 * i_length st \<longleftrightarrow> \<not> i_length st \<le> i_pos st"
    using assms(2) by (auto simp: iposition_def)
  then show ?thesis
    by (auto simp: ibits_def iposition_def upt_conv_Cons)
qed

lemma get_bit_spec:
  assumes "iwf st"
  shows "case get_bit st of
      Inl e \<Rightarrow> ibits st = [] \<and> e = Thrown NoCode ''unexpected end of bitstream''
    | Inr (b, st') \<Rightarrow> ibits st = b # ibits st' \<and> iwf st'"
proof -
  define s1 where "s1 = (if 8 \<le> i_bit_pos st then st\<lparr>i_pos := i_pos st + 1, i_bit_pos := 0\<rparr> else st)"
  have s1: "iwf s1" "i_bit_pos s1 < 8" "ibits s1 = ibits st"
    using assms by (auto simp: s1_def iwf_def ibits_def iposition_def add.commute)
  have "get_bit st = (if i_length s1 \<le> i_pos s1 then Inl (Thrown NoCode ''unexpected end of bitstream'')
      else Inr (sbit (i_data s1) (iposition s1), s1\<lparr>i_bit_pos := i_bit_pos s1 + 1\<rparr>))"
    using s1(2) by (simp add: get_bit_def Let_def s1_def [symmetric] sbit_get iposition_def)
  moreover have "iwf (s1\<lparr>i_bit_pos := i_bit_pos s1 + 1\<rparr>)"
    using s1(1,2) by (simp add: iwf_def)
  ultimately show ?thesis
    using ibits_step [OF s1(1,2)] s1(3) by simp
qed

text \<open>
  \<open>reads st bs st'\<close>: \<open>st'\<close> is \<open>st\<close> after the bits \<open>bs\<close> have been consumed; \<open>writes\<close> is the
  same for an output stream.
\<close>

definition reads :: "istream \<Rightarrow> bool list \<Rightarrow> istream \<Rightarrow> bool" where
  "reads st bs st' \<longleftrightarrow> iwf st' \<and> ibits st = bs @ ibits st'"

definition writes :: "ostream \<Rightarrow> bool list \<Rightarrow> ostream \<Rightarrow> bool" where
  "writes st bs st' \<longleftrightarrow> owf st' \<and> obits st' = obits st @ bs"

lemma get_bit_Cons:
  assumes "iwf st" "ibits st = b # r"
  shows "\<exists>st'. get_bit st = Inr (b, st') \<and> iwf st' \<and> ibits st' = r"
  using get_bit_spec [OF assms(1)] assms(2) by (auto split: sum.splits)

lemma get_bit_Nil: "iwf st \<Longrightarrow> ibits st = [] \<Longrightarrow> \<exists>e. get_bit st = Inl e"
  using get_bit_spec [of st] by (auto split: sum.splits)

lemma writes_trans: "writes st bs st' \<Longrightarrow> writes st' cs st'' \<Longrightarrow> writes st (bs @ cs) st''"
  by (simp add: writes_def)

lemma writes_refl: "owf st \<Longrightarrow> writes st [] st"
  by (simp add: writes_def)

lemma writes_put_bit: "owf st \<Longrightarrow> writes st [b] (put_bit b st)"
  by (simp add: writes_def put_bit_owf)

text \<open>
  A stream reopened from its raw data yields the bits written, followed by the zero bits
  that fill the last byte.
\<close>

lemma ibits_raw_data:
  assumes "owf st"
  shows "iwf (new_istream (raw_data st))"
    "ibits (new_istream (raw_data st)) = obits st @ replicate (8 - o_num_bits st) False"
proof -
  let ?n = "8 * (o_ind st + 1)"
  have len: "length (raw_data st) = o_ind st + 1"
    using assms by (auto simp: raw_data_def owf_def)
  have nonempty: "raw_data st \<noteq> []"
    using len by auto
  show "iwf (new_istream (raw_data st))"
    by (simp add: iwf_def new_istream_def)
  have sb: "sbit (raw_data st) p = sbit (o_data st) p" if "p < ?n" for p
    using that by (auto simp: sbit_def raw_data_def)
  have pos: "opos st \<le> ?n" "?n - opos st = 8 - o_num_bits st" "?n \<le> 8 * o_reserved st"
    using assms by (auto simp: owf_def opos_def)
  have "ibits (new_istream (raw_data st)) = map (sbit (o_data st)) [0..<?n]"
    using nonempty len sb by (auto simp: ibits_def iposition_def new_istream_def)
  also have "\<dots> = obits st @ map (sbit (o_data st)) [opos st..<?n]"
    using upt_add_eq_append [of 0 "opos st" "?n - opos st"] pos(1)
    by (simp add: obits_def del: upt_Suc flip: map_append)
  also have "map (sbit (o_data st)) [opos st..<?n] = replicate (8 - o_num_bits st) False"
    using assms pos by (intro replicate_eqI) (auto simp: owf_def)
  finally show "ibits (new_istream (raw_data st)) = obits st @ replicate (8 - o_num_bits st) False" .
qed

section \<open>Progress of a reader\<close>

text \<open>
  The loops of the reader end because every \<open>get_bit\<close> that does not throw decreases
  \<open>ileft\<close>, on any state, and no operation increases it.
\<close>

definition ileft :: "istream \<Rightarrow> nat" where
  "ileft st = 9 * (i_length st - i_pos st) + (8 - i_bit_pos st)"

definition no_rewind :: "(istream \<Rightarrow> ('a \<times> istream) result) \<Rightarrow> bool" where
  "no_rewind g \<longleftrightarrow> (\<forall>st x st'. g st = Inr (x, st') \<longrightarrow> ileft st' \<le> ileft st)"

lemma get_bit_ileft: "get_bit st = Inr (b, st') \<Longrightarrow> ileft st' < ileft st"
  by (auto simp: get_bit_def Let_def ileft_def split: if_splits)

lemma no_rewindD: "no_rewind g \<Longrightarrow> g st = Inr (x, st') \<Longrightarrow> ileft st' \<le> ileft st"
  by (simp add: no_rewind_def)

lemma no_rewind_get_bit: "no_rewind get_bit"
  by (auto simp: no_rewind_def dest: get_bit_ileft)

lemma no_rewind_return: "no_rewind (\<lambda>st. Inr (x, st))"
  by (simp add: no_rewind_def)

lemma no_rewind_throw: "no_rewind (\<lambda>st. Inl e)"
  by (simp add: no_rewind_def)

lemma no_rewind_if:
  "no_rewind g \<Longrightarrow> no_rewind h \<Longrightarrow> no_rewind (\<lambda>st. if c then g st else h st)"
  by (cases c) simp_all

lemma no_rewind_bind:
  assumes "no_rewind g" "\<And>x. no_rewind (h x)"
  shows "no_rewind (\<lambda>st. rbind (g st) (\<lambda>(x, st'). h x st'))"
  using assms by (fastforce simp: no_rewind_def result_simps intro: order_trans)

end
