(* ===== verification/BitCodec.thy ===== *)
theory BitCodec
  imports BitStream
begin

text \<open>
  \<open>libwfs/BStream.cpp\<close>: the encodings of numbers, characters and strings.  Each \<open>put_x\<close> and
  \<open>get_x\<close> follows the C++ method of that name; \<open>enc_x\<close> is the specification of the bits the
  value occupies.  The locale \<open>bit_codec\<close> is the contract between a writer and its reader and
  is interpreted for every pair of methods.
\<close>

section \<open>The contract of a writer and its reader\<close>

definition emits :: "ostream result \<Rightarrow> ostream \<Rightarrow> bool list \<Rightarrow> bool" where
  "emits res st bs \<longleftrightarrow> (\<exists>st'. res = Inr st' \<and> writes st bs st')"

definition gives :: "('a \<times> istream) result \<Rightarrow> 'a \<Rightarrow> bool list \<Rightarrow> bool" where
  "gives res x r \<longleftrightarrow> (\<exists>st'. res = Inr (x, st') \<and> iwf st' \<and> ibits st' = r)"

lemma emits_Inr: "writes st bs st' \<Longrightarrow> emits (Inr st') st bs"
  by (simp add: emits_def)

lemma emits_rbind:
  assumes "emits m st bs" "\<And>st'. owf st' \<Longrightarrow> emits (f st') st' cs"
  shows "emits (rbind m f) st (bs @ cs)"
  using assms by (fastforce simp: emits_def writes_def)

lemma emits_after:
  assumes "writes st bs st'" "owf st' \<Longrightarrow> emits m st' cs"
  shows "emits m st (bs @ cs)"
  using assms by (auto simp: emits_def writes_def)

lemma gives_Inr: "iwf st \<Longrightarrow> ibits st = r \<Longrightarrow> gives (Inr (x, st)) x r"
  by (simp add: gives_def)

lemma gives_rbind:
  assumes "gives m x r" "\<And>st'. iwf st' \<Longrightarrow> ibits st' = r \<Longrightarrow> gives (f (x, st')) y r'"
  shows "gives (rbind m f) y r'"
  using assms by (auto simp: gives_def)

lemma gives_get_bit: "iwf st \<Longrightarrow> ibits st = b # r \<Longrightarrow> gives (get_bit st) b r"
  using get_bit_Cons by (auto simp: gives_def)

locale bit_codec =
  fixes put :: "'a \<Rightarrow> ostream \<Rightarrow> ostream result"
    and get :: "istream \<Rightarrow> ('a \<times> istream) result"
    and enc :: "'a \<Rightarrow> bool list"
    and ok :: "'a \<Rightarrow> bool"
  assumes put_emits: "ok x \<Longrightarrow> owf os \<Longrightarrow> emits (put x os) os (enc x)"
    and get_gives: "ok x \<Longrightarrow> iwf is \<Longrightarrow> ibits is = enc x @ r \<Longrightarrow> gives (get is) x r"
begin

lemma then_get:
  assumes "ok x" "iwf is" "ibits is = enc x @ r"
    "\<And>st'. iwf st' \<Longrightarrow> ibits st' = r \<Longrightarrow> gives (f (x, st')) y r'"
  shows "gives (rbind (get is) f) y r'"
  using get_gives [OF assms(1-3)] assms(4) by (rule gives_rbind)

lemma put_new: "ok x \<Longrightarrow> \<exists>os. put x new_ostream = Inr os \<and> owf os \<and> obits os = enc x"
  using put_emits [of x new_ostream] by (auto simp: emits_def writes_def)

lemma round_trip:
  assumes "ok x"
  shows "\<exists>os is. put x new_ostream = Inr os \<and> get (new_istream (raw_data os)) = Inr (x, is)"
proof -
  from put_new [OF assms] obtain os
    where os: "put x new_ostream = Inr os" "owf os" "obits os = enc x" by blast
  from ibits_raw_data [OF os(2)] get_gives [OF assms] os
  show ?thesis by (fastforce simp: gives_def)
qed

lemma stream_exists: "\<exists>st n. iwf st \<and> ibits st = bs @ replicate n False"
proof -
  have "\<exists>os. owf os \<and> obits os = bs"
  proof (induction bs rule: rev_induct)
    case Nil
    show ?case by (rule exI [of _ new_ostream]) simp
  next
    case (snoc b bs)
    then show ?case by (metis put_bit_owf)
  qed
  then obtain os where "owf os" "obits os = bs" by blast
  with ibits_raw_data [of os] show ?thesis by blast
qed

lemma uniquely_decodable:
  assumes "ok x" "ok y" "enc x @ r = enc y @ s"
  shows "x = y" "r = s"
proof -
  obtain st n where st: "iwf st" "ibits st = (enc x @ r) @ replicate n False"
    using stream_exists by blast
  have "gives (get st) x (r @ replicate n False)"
    using get_gives [OF assms(1) st(1)] st(2) by simp
  moreover have "gives (get st) y (s @ replicate n False)"
    using get_gives [OF assms(2) st(1)] st(2) assms(3) by simp
  ultimately show "x = y" by (auto simp: gives_def)
  with assms(3) show "r = s" by simp
qed

end

section \<open>Fixed numbers of bits\<close>

fun put_bits_loop :: "nat \<Rightarrow> 32 word \<Rightarrow> 32 word \<Rightarrow> ostream \<Rightarrow> ostream" where
  "put_bits_loop 0 v msk st = st"
| "put_bits_loop (Suc n) v msk st =
     (let msk = drop_bit 1 msk in put_bits_loop n v msk (put_bit (v AND msk \<noteq> 0) st))"

definition put_bits :: "32 word \<Rightarrow> nat \<Rightarrow> ostream \<Rightarrow> ostream" where
  "put_bits v num st = put_bits_loop num v (push_bit num 1) st"

fun get_bits_loop :: "nat \<Rightarrow> 32 word \<Rightarrow> 32 word \<Rightarrow> istream \<Rightarrow> (32 word \<times> istream) result" where
  "get_bits_loop 0 msk res st = Inr (res, st)"
| "get_bits_loop (Suc n) msk res st =
     (let msk = drop_bit 1 msk
      in rbind (get_bit st) (\<lambda>(b, st).
           get_bits_loop n msk (if b then res OR msk else res) st))"

definition get_bits :: "nat \<Rightarrow> istream \<Rightarrow> (32 word \<times> istream) result" where
  "get_bits num st = get_bits_loop num (push_bit num 1) 0 st"

fun enc_bits :: "nat \<Rightarrow> 32 word \<Rightarrow> bool list" where
  "enc_bits 0 v = []"
| "enc_bits (Suc n) v = bit v n # enc_bits n v"

lemma drop_mask: "Suc n < 32 \<Longrightarrow> drop_bit 1 (push_bit (Suc n) (1 :: 32 word)) = push_bit n 1"
  by (rule bit_word_eqI) (auto simp: bit_simps)

lemma and_mask_iff: "n < 32 \<Longrightarrow> (v AND push_bit n (1 :: 32 word) \<noteq> 0) = bit v n"
  by (metis and_exp_eq_0_iff_not_bit push_bit_of_1)

lemma writes_put_bits_loop:
  "n < 32 \<Longrightarrow> owf st \<Longrightarrow> writes st (enc_bits n v) (put_bits_loop n v (push_bit n 1) st)"
proof (induction n arbitrary: st)
  case 0
  then show ?case by (simp add: writes_refl)
next
  case (Suc n)
  have "writes (put_bit (bit v n) st) (enc_bits n v)
      (put_bits_loop n v (push_bit n 1) (put_bit (bit v n) st))"
    by (rule Suc.IH) (use Suc.prems in \<open>simp_all add: put_bit_owf\<close>)
  with writes_put_bit [OF Suc.prems(2), of "bit v n"]
  have "writes st ([bit v n] @ enc_bits n v)
      (put_bits_loop n v (push_bit n 1) (put_bit (bit v n) st))"
    by (rule writes_trans)
  moreover have "(v AND push_bit n 1 \<noteq> 0) = bit v n"
    by (rule and_mask_iff) (use Suc.prems in simp)
  ultimately show ?case
    using Suc.prems by (simp only: put_bits_loop.simps Let_def drop_mask enc_bits.simps append.simps)
qed

lemma or_take_bit_Suc:
  "(if bit v n then res OR push_bit n 1 else res) OR take_bit n v = res OR take_bit (Suc n) (v :: 32 word)"
  by (rule bit_word_eqI) (auto simp: bit_simps less_Suc_eq)

lemma gives_get_bits_loop:
  "n < 32 \<Longrightarrow> iwf st \<Longrightarrow> ibits st = enc_bits n v @ r \<Longrightarrow>
   gives (get_bits_loop n (push_bit n 1) res st) (res OR take_bit n v) r"
proof (induction n arbitrary: st res)
  case 0
  then show ?case by (simp add: gives_Inr)
next
  case (Suc n)
  let ?res = "if bit v n then res OR push_bit n 1 else res"
  have "gives (rbind (get_bit st) (\<lambda>(b, st).
      get_bits_loop n (push_bit n 1) (if b then res OR push_bit n 1 else res) st))
      (?res OR take_bit n v) r"
  proof (rule gives_rbind)
    show "gives (get_bit st) (bit v n) (enc_bits n v @ r)"
      by (rule gives_get_bit) (use Suc.prems in simp_all)
  next
    fix st' assume "iwf st'" "ibits st' = enc_bits n v @ r"
    then show "gives (case (bit v n, st') of (b, st) \<Rightarrow>
        get_bits_loop n (push_bit n 1) (if b then res OR push_bit n 1 else res) st)
        (?res OR take_bit n v) r"
      using Suc.IH [of st' ?res] Suc.prems(1) by simp
  qed
  with Suc.prems(1) show ?case
    by (simp only: get_bits_loop.simps Let_def drop_mask or_take_bit_Suc)
qed

lemma writes_put_bits: "n < 32 \<Longrightarrow> owf st \<Longrightarrow> writes st (enc_bits n v) (put_bits v n st)"
  by (simp only: put_bits_def writes_put_bits_loop)

lemma gives_get_bits:
  "n < 32 \<Longrightarrow> iwf st \<Longrightarrow> ibits st = enc_bits n v @ r \<Longrightarrow> gives (get_bits n st) (take_bit n v) r"
  using gives_get_bits_loop [of n st v r 0] by (simp add: get_bits_def del: push_bit_of_1)

lemma no_rewind_get_bits_loop: "no_rewind (get_bits_loop n msk res)"
proof (induction n arbitrary: msk res)
  case 0
  show ?case by (simp add: no_rewind_def)
next
  case (Suc n)
  show ?case
    unfolding get_bits_loop.simps Let_def
    by (rule no_rewind_bind [OF no_rewind_get_bit]) (rule Suc.IH)
qed

lemma no_rewind_get_bits: "no_rewind (get_bits n)"
  unfolding get_bits_def [abs_def] by (rule no_rewind_get_bits_loop)

section \<open>Unsigned and signed integers\<close>

type_synonym uint64 = "64 word"
type_synonym int64 = "64 word"

definition INT64_MIN :: int64 where
  "INT64_MIN = push_bit 63 1"

text \<open>\<open>while (value)\<close>: a set bit and five bits, the least significant group first.\<close>

lemma drop_5_less: "v \<noteq> 0 \<Longrightarrow> unat (drop_bit 5 (v :: 64 word)) < unat v"
proof -
  assume "v \<noteq> 0"
  then have "0 < unat v" by (simp add: unat_gt_0)
  moreover have "unat (drop_bit 5 v) = unat v div 32"
    by (simp only: unat_drop_bit_eq drop_bit_nat_def) simp
  ultimately show ?thesis by simp
qed

lemma drop_bit_beyond: "64 \<le> off \<Longrightarrow> drop_bit off (w :: 64 word) = 0"
  by (rule bit_word_eqI) (auto simp: bit_simps dest: bit_imp_le_length)

function put_unsigned :: "uint64 \<Rightarrow> ostream \<Rightarrow> ostream" where
  "put_unsigned v st =
     (if v \<noteq> 0
      then put_unsigned (drop_bit 5 v) (put_bits (ucast (v AND 0x1F)) 5 (put_bit (v \<noteq> 0) st))
      else put_bit False st)"
  by pat_completeness auto
termination
  by (relation "measure (\<lambda>(v, st). unat v)") (auto simp: drop_5_less)

declare put_unsigned.simps [simp del]

function enc_unsigned :: "uint64 \<Rightarrow> bool list" where
  "enc_unsigned v =
     (if v = 0 then [False] else True # enc_bits 5 (ucast (v AND 0x1F)) @ enc_unsigned (drop_bit 5 v))"
  by pat_completeness auto
termination
  by (relation "measure unat") (auto simp: drop_5_less)

declare enc_unsigned.simps [simp del]

lemma writes_put_unsigned: "owf st \<Longrightarrow> writes st (enc_unsigned v) (put_unsigned v st)"
proof (induction v st rule: put_unsigned.induct)
  case (1 v st)
  show ?case
  proof (cases "v = 0")
    case True
    with 1 show ?thesis
      by (simp add: put_unsigned.simps [of 0] enc_unsigned.simps [of 0] writes_put_bit)
  next
    case False
    let ?a = "put_bit True st" and ?p = "ucast (v AND 0x1F) :: 32 word"
    have a: "writes st [True] ?a" "owf ?a"
      using "1.prems" by (simp_all add: writes_put_bit put_bit_owf)
    have b: "writes ?a (enc_bits 5 ?p) (put_bits ?p 5 ?a)"
      using a(2) by (simp add: writes_put_bits)
    then have "owf (put_bits ?p 5 ?a)"
      by (simp add: writes_def)
    with "1.IH" False have "writes (put_bits ?p 5 ?a) (enc_unsigned (drop_bit 5 v))
        (put_unsigned (drop_bit 5 v) (put_bits ?p 5 ?a))" by simp
    with writes_trans [OF a(1) b] False show ?thesis
      by (auto simp: put_unsigned.simps [of v] enc_unsigned.simps [of v] dest: writes_trans)
  qed
qed

text \<open>
  The reader shifts each group by \<open>off\<close>; a shift by 64 or more bits, which a well-formed
  stream never asks for, is undefined in C++.
\<close>

lemma get_bits_ileft: "get_bits n st = Inr (x, st') \<Longrightarrow> ileft st' \<le> ileft st"
  using no_rewind_get_bits by (rule no_rewindD)

function get_unsigned_loop :: "uint64 \<Rightarrow> nat \<Rightarrow> istream \<Rightarrow> (uint64 \<times> istream) result" where
  "get_unsigned_loop res off st =
     rbind (get_bit st) (\<lambda>(b, st1).
       if b
       then rbind (get_bits 5 st1) (\<lambda>(part, st2).
              if 64 \<le> off then Inl (Undefined ''shift in get_unsigned'')
              else get_unsigned_loop (res OR push_bit off (ucast part)) (off + 5) st2)
       else Inr (res, st1))"
  by pat_completeness auto
termination
  by (relation "measure (\<lambda>(res, off, st). ileft st)")
    (auto dest!: get_bit_ileft get_bits_ileft intro: le_less_trans)

declare get_unsigned_loop.simps [simp del]

definition get_unsigned :: "istream \<Rightarrow> (uint64 \<times> istream) result" where
  "get_unsigned st = get_unsigned_loop 0 0 st"

lemma and_1F: "ucast (v AND 0x1F :: 64 word) = (take_bit 5 (ucast v) :: 32 word)"
proof -
  have "(0x1F :: 64 word) = mask 5" by (simp add: mask_eq_exp_minus_1)
  then have "v AND 0x1F = take_bit 5 v" by (simp add: take_bit_eq_mask)
  then show ?thesis
    by (simp add: bit_eq_iff bit_simps)
qed

lemma or_group:
  "take_bit off w OR push_bit off (ucast (take_bit 5 (ucast (drop_bit off w) :: 32 word))) =
   take_bit (off + 5) (w :: 64 word)"
  by (rule bit_word_eqI) (auto simp: bit_simps)

lemma gives_get_unsigned_loop:
  "iwf st \<Longrightarrow> ibits st = enc_unsigned (drop_bit off w) @ r \<Longrightarrow>
   gives (get_unsigned_loop (take_bit off w) off st) w r"
proof (induction "drop_bit off w" arbitrary: off st rule: enc_unsigned.induct)
  case 1
  show ?case
  proof (cases "drop_bit off w = 0")
    case True
    then have "take_bit off w = w"
      by (metis bits_ident or.right_neutral push_bit_of_0 add.right_neutral add_0)
    moreover from True "1.prems" have "gives (get_bit st) False r"
      by (intro gives_get_bit) (simp_all add: enc_unsigned.simps)
    ultimately show ?thesis
      unfolding get_unsigned_loop.simps [of "take_bit off w"]
      by (auto elim!: gives_rbind intro: gives_Inr)
  next
    case False
    then have off: "off < 64"
      using drop_bit_beyond not_le_imp_less by blast
    let ?p = "ucast (drop_bit off w AND 0x1F) :: 32 word"
    have bits: "ibits st = True # enc_bits 5 ?p @ enc_unsigned (drop_bit (off + 5) w) @ r"
      using "1.prems"(2) False
      by (simp add: enc_unsigned.simps [of "drop_bit off w"] add.commute)
    have part: "take_bit 5 ?p = ?p"
      by (simp add: and_1F)
    show ?thesis
      unfolding get_unsigned_loop.simps [of "take_bit off w"]
    proof (rule gives_rbind, rule gives_get_bit [OF "1.prems"(1) bits], simp, rule gives_rbind)
      fix st1 assume "iwf st1" "ibits st1 = enc_bits 5 ?p @ enc_unsigned (drop_bit (off + 5) w) @ r"
      then show "gives (get_bits 5 st1) ?p (enc_unsigned (drop_bit (off + 5) w) @ r)"
        using gives_get_bits [of 5 st1 ?p] part by simp
    next
      fix st2 assume st2: "iwf st2" "ibits st2 = enc_unsigned (drop_bit (off + 5) w) @ r"
      have "gives (get_unsigned_loop (take_bit (off + 5) w) (off + 5) st2) w r"
        by (rule "1.hyps" [OF False _ st2]) (simp add: add.commute)
      then show "gives (case (?p, st2) of (part, st2) \<Rightarrow>
          if 64 \<le> off then Inl (Undefined ''shift in get_unsigned'')
          else get_unsigned_loop (take_bit off w OR push_bit off (ucast part)) (off + 5) st2) w r"
        using off by (simp add: and_1F or_group)
    qed
  qed
qed

lemma gives_get_unsigned:
  "iwf st \<Longrightarrow> ibits st = enc_unsigned v @ r \<Longrightarrow> gives (get_unsigned st) v r"
  using gives_get_unsigned_loop [of st 0 v r] by (simp add: get_unsigned_def)

interpretation unsigned_codec: bit_codec
  "\<lambda>v st. Inr (put_unsigned v st)" get_unsigned enc_unsigned "\<lambda>_. True"
  by unfold_locales (auto intro: emits_Inr writes_put_unsigned gives_get_unsigned)

lemma no_rewind_get_unsigned_loop: "get_unsigned_loop res off st = Inr (x, st') \<Longrightarrow> ileft st' \<le> ileft st"
proof (induction res off st rule: get_unsigned_loop.induct)
  case (1 res off st)
  show ?case
    using "1.prems" "1.IH" unfolding get_unsigned_loop.simps [of res off st]
    by (fastforce simp: result_simps split: if_splits dest: get_bit_ileft get_bits_ileft)
qed

lemma no_rewind_get_unsigned: "no_rewind get_unsigned"
  by (auto simp: no_rewind_def get_unsigned_def dest: no_rewind_get_unsigned_loop)

text \<open>
  \<open>put_int\<close> and \<open>get_int\<close> negate an \<open>int64_t\<close>, which is undefined for its least value.
\<close>

definition put_int :: "int64 \<Rightarrow> ostream \<Rightarrow> ostream result" where
  "put_int v st =
     (let st = put_bit (sint v < 0) st
      in if 0 \<le> sint v then Inr (put_unsigned v st)
         else if v = INT64_MIN then Inl (Undefined ''negation in put_int'')
         else Inr (put_unsigned (- v) st))"

definition get_int :: "istream \<Rightarrow> (int64 \<times> istream) result" where
  "get_int st =
     rbind (get_bit st) (\<lambda>(s, st).
     rbind (get_unsigned st) (\<lambda>(tmp, st).
       if s then (if tmp = INT64_MIN then Inl (Undefined ''negation in get_int'') else Inr (- tmp, st))
       else Inr (tmp, st)))"

definition enc_int :: "int64 \<Rightarrow> bool list" where
  "enc_int v = (sint v < 0) # enc_unsigned (if sint v < 0 then - v else v)"

lemma uminus_INT64_MIN: "- v = INT64_MIN \<longleftrightarrow> v = INT64_MIN"
proof -
  have "- INT64_MIN = INT64_MIN" by (simp add: INT64_MIN_def)
  then show ?thesis by (metis minus_minus)
qed

interpretation int_codec: bit_codec put_int get_int enc_int "\<lambda>v. v \<noteq> INT64_MIN"
proof
  fix v os assume "v \<noteq> INT64_MIN" and os: "owf os"
  have "writes (put_bit b os) (enc_unsigned w) (put_unsigned w (put_bit b os))" for b w
    by (rule writes_put_unsigned) (simp add: put_bit_owf os)
  then have "writes os (b # enc_unsigned w) (put_unsigned w (put_bit b os))" for b w
    using writes_trans [OF writes_put_bit [OF os, of b]] by fastforce
  with \<open>v \<noteq> INT64_MIN\<close> show "emits (put_int v os) os (enc_int v)"
    by (auto simp: put_int_def enc_int_def Let_def intro!: emits_Inr)
next
  fix v "is" r assume ok: "v \<noteq> INT64_MIN" and si: "iwf is" "ibits is = enc_int v @ r"
  have "gives (get_bit is) (sint v < 0) (enc_unsigned (if sint v < 0 then - v else v) @ r)"
    using si by (intro gives_get_bit) (simp_all add: enc_int_def)
  then show "gives (get_int is) v r"
    unfolding get_int_def
    by (elim gives_rbind; clarsimp)
      (rule gives_rbind, erule (1) gives_get_unsigned,
        use ok in \<open>auto simp: uminus_INT64_MIN intro: gives_Inr\<close>)
qed

section \<open>Floating point numbers\<close>

text \<open>
  A \<open>double\<close> is its 64 bit representation; \<open>memcpy\<close> on the little-endian hosts of the server
  lists the least significant byte first.
\<close>

type_synonym double = "64 word"

definition double_bytes :: "double \<Rightarrow> byte list" where
  "double_bytes v = map (\<lambda>i. ucast (drop_bit (8 * i) v)) [0..<8]"

fun bytes_double :: "byte list \<Rightarrow> double" where
  "bytes_double [] = 0"
| "bytes_double (b # bs) = ucast b OR push_bit 8 (bytes_double bs)"

function first_used :: "nat \<Rightarrow> byte list \<Rightarrow> nat" where
  "first_used i bytes = (if i < 7 \<and> bytes ! i = 0 then first_used (i + 1) bytes else i)"
  by pat_completeness auto
termination
  by (relation "measure (\<lambda>(i, bytes). 7 - i)") auto

declare first_used.simps [simp del]

definition put_double :: "double \<Rightarrow> ostream \<Rightarrow> ostream" where
  "put_double v st =
     (let bytes = double_bytes v; first = first_used 0 bytes
      in fold (\<lambda>i st. put_bits (ucast (bytes ! i)) 8 st) [first..<8] (put_bits (of_nat first) 3 st))"

fun get_bytes_loop :: "nat list \<Rightarrow> byte list \<Rightarrow> istream \<Rightarrow> (byte list \<times> istream) result" where
  "get_bytes_loop [] bytes st = Inr (bytes, st)"
| "get_bytes_loop (i # js) bytes st =
     rbind (get_bits 8 st) (\<lambda>(b, st). get_bytes_loop js (bytes[i := ucast b]) st)"

definition get_double :: "istream \<Rightarrow> (double \<times> istream) result" where
  "get_double st =
     rbind (get_bits 3 st) (\<lambda>(first, st).
     rbind (get_bytes_loop [unat first..<8] (replicate 8 0) st) (\<lambda>(bytes, st).
       Inr (bytes_double bytes, st)))"

definition enc_double :: "double \<Rightarrow> bool list" where
  "enc_double v =
     (let bytes = double_bytes v; first = first_used 0 bytes
      in enc_bits 3 (of_nat first) @ concat (map (\<lambda>i. enc_bits 8 (ucast (bytes ! i))) [first..<8]))"

lemma length_double_bytes [simp]: "length (double_bytes v) = 8"
  by (simp add: double_bytes_def)

lemma bit_bytes_double:
  "bit (bytes_double bs) n \<longleftrightarrow> n < 64 \<and> n div 8 < length bs \<and> bit (bs ! (n div 8)) (n mod 8)"
proof (induction bs arbitrary: n)
  case Nil
  then show ?case by simp
next
  case (Cons b bs)
  show ?case
  proof (cases "n < 8")
    case True
    then show ?thesis by (simp add: bit_or_iff bit_push_bit_iff bit_ucast_iff)
  next
    case False
    then obtain m where n: "n = m + 8" by (metis add.commute le_Suc_ex not_less)
    have "\<not> bit b (m + 8)" using bit_imp_le_length [of b "m + 8"] by auto
    moreover have "(m + 8) div 8 = Suc (m div 8)" by simp
    ultimately show ?thesis
      by (auto simp: n bit_or_iff bit_push_bit_iff bit_ucast_iff Cons.IH)
  qed
qed

lemma bytes_double_bytes: "bytes_double (double_bytes v) = v"
proof (rule bit_word_eqI)
  fix n assume "n < LENGTH(64)"
  then have n: "n < 64" and d: "n div 8 < 8" by auto
  from n d show "bit (bytes_double (double_bytes v)) n = bit v n"
    by (simp only: bit_bytes_double length_double_bytes)
      (simp add: double_bytes_def bit_ucast_iff bit_drop_bit_eq)
qed

lemma first_used_spec:
  "i \<le> 7 \<Longrightarrow> first_used i bs \<le> 7 \<and> i \<le> first_used i bs \<and> (\<forall>j. i \<le> j \<and> j < first_used i bs \<longrightarrow> bs ! j = 0)"
proof (induction i bs rule: first_used.induct)
  case (1 i bs)
  show ?case
  proof (cases "i < 7 \<and> bs ! i = 0")
    case True
    then have eq: "first_used i bs = first_used (i + 1) bs"
      by (simp add: first_used.simps [of i bs])
    have IH: "first_used (i + 1) bs \<le> 7 \<and> i + 1 \<le> first_used (i + 1) bs \<and>
        (\<forall>j. i + 1 \<le> j \<and> j < first_used (i + 1) bs \<longrightarrow> bs ! j = 0)"
      using "1.IH" True by simp
    have "bs ! j = 0" if "i \<le> j" "j < first_used (i + 1) bs" for j
      using True IH that by (cases "j = i") auto
    with IH show ?thesis by (simp add: eq)
  next
    case False
    with "1.prems" show ?thesis by (auto simp: first_used.simps [of i bs])
  qed
qed

lemma fold_update_upt:
  "b \<le> length bs \<Longrightarrow> fold (\<lambda>i bs. bs[i := B ! i]) [a..<b] bs =
     map (\<lambda>j. if a \<le> j \<and> j < b then B ! j else bs ! j) [0..<length bs]"
proof (induction b)
  case 0
  show ?case by (simp add: map_nth)
next
  case (Suc b)
  then show ?case
    by (auto intro!: nth_equalityI simp: nth_list_update map_nth)
qed

lemma double_bytes_from_first:
  "fold (\<lambda>i bs. bs[i := double_bytes v ! i]) [first_used 0 (double_bytes v)..<8] (replicate 8 0)
   = double_bytes v"
  using first_used_spec [of 0 "double_bytes v"]
  by (subst fold_update_upt) (auto intro!: nth_equalityI)

lemma take_bit_8_byte: "take_bit 8 (ucast (b :: byte) :: 32 word) = ucast b"
  by (rule bit_word_eqI) (auto simp: bit_simps dest: bit_imp_le_length)

lemma ucast_byte_back: "ucast (ucast (b :: byte) :: 32 word) = b"
  by (rule bit_word_eqI) (auto simp: bit_simps)

lemma writes_bytes:
  "owf st \<Longrightarrow> writes st (concat (map (\<lambda>i. enc_bits 8 (ucast (B ! i))) js))
    (fold (\<lambda>i st. put_bits (ucast (B ! i :: byte)) 8 st) js st)"
proof (induction js arbitrary: st)
  case Nil
  then show ?case by (simp add: writes_refl)
next
  case (Cons i js)
  have "writes st (enc_bits 8 (ucast (B ! i))) (put_bits (ucast (B ! i)) 8 st)"
    using Cons.prems by (simp add: writes_put_bits)
  with Cons.IH show ?case
    by (auto intro: writes_trans simp: writes_def)
qed

lemma gives_get_bytes_loop:
  "iwf st \<Longrightarrow> ibits st = concat (map (\<lambda>i. enc_bits 8 (ucast (B ! i))) js) @ r \<Longrightarrow>
   gives (get_bytes_loop js bs st) (fold (\<lambda>i bs. bs[i := B ! i]) js bs) r"
proof (induction js arbitrary: bs st)
  case Nil
  then show ?case by (simp add: gives_Inr)
next
  case (Cons i js)
  let ?r = "concat (map (\<lambda>i. enc_bits 8 (ucast (B ! i))) js) @ r"
  have "gives (get_bits 8 st) (ucast (B ! i)) ?r"
    using gives_get_bits [of 8 st "ucast (B ! i)" ?r] Cons.prems by (simp add: take_bit_8_byte)
  then show ?case
    unfolding get_bytes_loop.simps
    by (rule gives_rbind) (simp add: Cons.IH ucast_byte_back)
qed

interpretation double_codec: bit_codec
  "\<lambda>v st. Inr (put_double v st)" get_double enc_double "\<lambda>_. True"
proof
  fix v os assume os: "owf os"
  have a: "writes os (enc_bits 3 w) (put_bits w 3 os)" for w
    using os by (simp add: writes_put_bits)
  then have "owf (put_bits w 3 os)" for w
    by (simp add: writes_def)
  then show "emits (Inr (put_double v os)) os (enc_double v)"
    unfolding put_double_def enc_double_def Let_def
    by (intro emits_Inr writes_trans [OF a] writes_bytes)
next
  fix v "is" r assume si: "iwf is" "ibits is = enc_double v @ r"
  let ?B = "double_bytes v" let ?f = "first_used 0 ?B"
  have f: "?f < 8" using first_used_spec [of 0 ?B] by simp
  then have fw: "take_bit 3 (of_nat ?f :: 32 word) = of_nat ?f" "unat (of_nat ?f :: 32 word) = ?f"
    by (simp_all add: unat_of_nat take_bit_nat_def take_bit_of_nat)
  have "gives (get_bits 3 is) (of_nat ?f) (concat (map (\<lambda>i. enc_bits 8 (ucast (?B ! i))) [?f..<8]) @ r)"
    using gives_get_bits [of 3 "is" "of_nat ?f"] si fw by (simp add: enc_double_def Let_def)
  then show "gives (get_double is) v r"
    unfolding get_double_def
  proof (rule gives_rbind)
    fix st1 assume st1: "iwf st1" "ibits st1 = concat (map (\<lambda>i. enc_bits 8 (ucast (?B ! i))) [?f..<8]) @ r"
    have "gives (get_bytes_loop [?f..<8] (replicate 8 0) st1) ?B r"
      using gives_get_bytes_loop [OF st1, of "replicate 8 0"] by (simp only: double_bytes_from_first)
    then have "gives (rbind (get_bytes_loop [?f..<8] (replicate 8 0) st1)
        (\<lambda>(bytes, st). Inr (bytes_double bytes, st))) v r"
      by (rule gives_rbind) (simp add: bytes_double_bytes gives_Inr)
    then show "gives (case (of_nat ?f :: 32 word, st1) of (first, st) \<Rightarrow>
        rbind (get_bytes_loop [unat first..<8] (replicate 8 0) st)
          (\<lambda>(bytes, st). Inr (bytes_double bytes, st))) v r"
      by (simp only: prod.case fw(2))
  qed
qed

section \<open>Characters and strings\<close>

text \<open>A character up to 126 takes 7 bits; 127 announces a full byte.\<close>

definition put_char :: "char \<Rightarrow> ostream \<Rightarrow> ostream" where
  "put_char c st =
     (let u = char_byte c
      in if 126 < u then put_bits (ucast u) 8 (put_bits 127 7 st) else put_bits (ucast u) 7 st)"

definition get_char :: "istream \<Rightarrow> (char \<times> istream) result" where
  "get_char st =
     rbind (get_bits 7 st) (\<lambda>(v1, st).
     rbind (if v1 = 127 then get_bits 8 st else Inr (v1, st)) (\<lambda>(v1, st).
       Inr (byte_char (ucast v1), st)))"

definition enc_char :: "char \<Rightarrow> bool list" where
  "enc_char c =
     (let u = ucast (char_byte c)
      in if 126 < char_byte c then enc_bits 7 127 @ enc_bits 8 u else enc_bits 7 u)"

text \<open>\<open>get_string\<close> keeps only the low 32 bits of the length it reads (\<open>unsigned len\<close>).\<close>

definition put_string :: "string \<Rightarrow> ostream \<Rightarrow> ostream" where
  "put_string s st = fold put_char s (put_unsigned (of_nat (length s)) st)"

fun get_chars :: "nat \<Rightarrow> string \<Rightarrow> istream \<Rightarrow> (string \<times> istream) result" where
  "get_chars 0 out st = Inr (out, st)"
| "get_chars (Suc n) out st = rbind (get_char st) (\<lambda>(c, st). get_chars n (out @ [c]) st)"

definition get_string :: "istream \<Rightarrow> (string \<times> istream) result" where
  "get_string st =
     rbind (get_unsigned st) (\<lambda>(n, st).
       let len = (ucast n :: 32 word) in get_chars (unat len) [] st)"

definition enc_string :: "string \<Rightarrow> bool list" where
  "enc_string s = enc_unsigned (of_nat (length s)) @ concat (map enc_char s)"

lemma take_bit_7_small: "u \<le> 126 \<Longrightarrow> take_bit 7 (ucast u :: 32 word) = ucast (u :: byte)"
proof -
  assume "u \<le> 126"
  then have "unat u \<le> 126"
    by (simp add: word_le_nat_alt)
  then have "unat (ucast u :: 32 word) < 2 ^ 7"
    by (simp add: unsigned_ucast_eq take_bit_nat_def)
  then show ?thesis
    by (metis take_bit_nat_eq_self unsigned_take_bit_eq word_unat_eq_iff)
qed

lemma ucast_small_neq: "u \<le> 126 \<Longrightarrow> (ucast (u :: byte) :: 32 word) \<noteq> 127"
proof
  assume "u \<le> 126" "(ucast u :: 32 word) = 127"
  then have "unat u \<le> 126" "unat (ucast u :: 32 word) = 127"
    by (simp_all add: word_le_nat_alt)
  then show False by (simp add: unsigned_ucast_eq take_bit_nat_def)
qed

interpretation char_codec: bit_codec
  "\<lambda>c st. Inr (put_char c st)" get_char enc_char "\<lambda>_. True"
proof
  fix c os assume os: "owf os"
  have a: "writes os (enc_bits 7 w) (put_bits w 7 os)" for w
    using os by (simp add: writes_put_bits)
  then have b: "owf (put_bits w 7 os)" for w
    by (simp add: writes_def)
  have c: "writes (put_bits w 7 os) (enc_bits 8 w') (put_bits w' 8 (put_bits w 7 os))" for w w'
    using b by (simp add: writes_put_bits)
  show "emits (Inr (put_char c os)) os (enc_char c)"
    by (auto simp: put_char_def enc_char_def Let_def intro!: emits_Inr a writes_trans [OF a c])
next
  fix c "is" r assume si: "iwf is" "ibits is = enc_char c @ r"
  let ?u = "char_byte c"
  show "gives (get_char is) c r"
  proof (cases "126 < ?u")
    case True
    have "gives (get_bits 7 is) 127 (enc_bits 8 (ucast ?u) @ r)"
      using gives_get_bits [of 7 "is" 127] si True by (simp add: enc_char_def Let_def)
    moreover have "gives (get_bits 8 st) (ucast ?u) r"
      if "iwf st" "ibits st = enc_bits 8 (ucast ?u) @ r" for st
      using gives_get_bits [of 8 st "ucast ?u" r] that by (simp add: take_bit_8_byte)
    ultimately show ?thesis
      unfolding get_char_def
      by - (rule gives_rbind, assumption, simp, rule gives_rbind, blast,
          simp add: ucast_byte_back gives_Inr)
  next
    case False
    then have u: "?u \<le> 126" by simp
    then have "gives (get_bits 7 is) (ucast ?u) r"
      using gives_get_bits [of 7 "is" "ucast ?u"] si
      by (simp add: enc_char_def Let_def take_bit_7_small False)
    then show ?thesis
      unfolding get_char_def
      by (auto simp: ucast_byte_back ucast_small_neq [OF u] intro!: gives_Inr elim!: gives_rbind)
  qed
qed

lemma writes_put_chars:
  "owf st \<Longrightarrow> writes st (concat (map enc_char s)) (fold put_char s st)"
proof (induction s arbitrary: st)
  case Nil
  then show ?case by (simp add: writes_refl)
next
  case (Cons c s)
  then have "writes st (enc_char c) (put_char c st)"
    using char_codec.put_emits by (simp add: emits_def)
  with Cons.IH show ?case
    by (auto intro: writes_trans simp: writes_def)
qed

lemma gives_get_chars:
  "iwf st \<Longrightarrow> ibits st = concat (map enc_char s) @ r \<Longrightarrow>
   gives (get_chars (length s) out st) (out @ s) r"
proof (induction s arbitrary: out st)
  case Nil
  then show ?case by (simp add: gives_Inr)
next
  case (Cons c s)
  have "gives (get_char st) c (concat (map enc_char s) @ r)"
    using Cons.prems by (intro char_codec.get_gives) simp_all
  then show ?case
    using Cons.IH [of _ "out @ [c]"] by (auto elim!: gives_rbind)
qed

lemma unat_string_length:
  "n < 2 ^ 32 \<Longrightarrow> unat (ucast (of_nat n :: 64 word) :: 32 word) = n"
  by (simp add: unsigned_ucast_eq unat_of_nat take_bit_nat_def)

interpretation string_codec: bit_codec
  "\<lambda>s st. Inr (put_string s st)" get_string enc_string "\<lambda>s. length s < 2 ^ 32"
proof
  fix s os assume os: "owf os"
  have a: "writes os (enc_unsigned w) (put_unsigned w os)" for w
    using os by (rule writes_put_unsigned)
  then have "owf (put_unsigned w os)" for w
    by (simp add: writes_def)
  then show "emits (Inr (put_string s os)) os (enc_string s)"
    unfolding put_string_def enc_string_def
    by (intro emits_Inr writes_trans [OF a] writes_put_chars)
next
  fix s :: string and "is" r
  assume len: "length s < 2 ^ 32" and si: "iwf is" "ibits is = enc_string s @ r"
  have "gives (get_unsigned is) (of_nat (length s)) (concat (map enc_char s) @ r)"
    using si by (intro gives_get_unsigned) (simp_all add: enc_string_def)
  then show "gives (get_string is) s r"
    unfolding get_string_def
    using gives_get_chars [of _ s r "[]"] len
    by (auto simp: unat_string_length elim!: gives_rbind)
qed

section \<open>Progress of the readers\<close>

lemma no_rewind_get_int: "no_rewind get_int"
  unfolding get_int_def [abs_def]
  by (intro no_rewind_bind no_rewind_get_bit no_rewind_get_unsigned) (simp add: no_rewind_def)

lemma no_rewind_get_bytes_loop: "no_rewind (get_bytes_loop js bytes)"
proof (induction js arbitrary: bytes)
  case Nil
  show ?case by (simp add: no_rewind_def)
next
  case (Cons i js)
  show ?case
    unfolding get_bytes_loop.simps by (intro no_rewind_bind no_rewind_get_bits Cons.IH)
qed

lemma no_rewind_get_double: "no_rewind get_double"
  unfolding get_double_def [abs_def]
  by (intro no_rewind_bind no_rewind_get_bits no_rewind_get_bytes_loop no_rewind_return)

lemma no_rewind_get_char: "no_rewind get_char"
proof -
  have "no_rewind (\<lambda>st. if v = 127 then get_bits 8 st else Inr (v, st))" for v
    using no_rewind_get_bits [of 8] by (auto simp: no_rewind_def)
  then show ?thesis
    unfolding get_char_def [abs_def]
    by (intro no_rewind_bind no_rewind_get_bits no_rewind_return)
qed

lemma no_rewind_get_chars: "no_rewind (get_chars n out)"
proof (induction n arbitrary: out)
  case 0
  show ?case by (simp add: no_rewind_def)
next
  case (Suc n)
  show ?case
    unfolding get_chars.simps by (intro no_rewind_bind no_rewind_get_char Suc.IH)
qed

lemma no_rewind_get_string: "no_rewind get_string"
  unfolding get_string_def [abs_def] Let_def
  by (intro no_rewind_bind no_rewind_get_unsigned no_rewind_get_chars)

end
