(* ===== verification/BitValue.thy ===== *)
theory BitValue
  imports BitCodec
begin

text \<open>
  \<open>libwfs/BStream.cpp\<close>, last part: date-times, \<open>Spine::Value\<close> and the value maps that a
  feature identifier carries.  The calendar (\<open>Fmi::DateTime\<close>) is a parameter: a record of the
  operations the source calls.
\<close>

section \<open>Values\<close>

record 'dt dt_ops =
  dt_special :: "'dt \<Rightarrow> bool"
  dt_is_nat :: "'dt \<Rightarrow> bool"
  dt_is_neg :: "'dt \<Rightarrow> bool"
  dt_is_pos :: "'dt \<Rightarrow> bool"
  dt_year :: "'dt \<Rightarrow> 32 word"
  dt_month :: "'dt \<Rightarrow> 32 word"
  dt_day :: "'dt \<Rightarrow> 32 word"
  dt_secs :: "'dt \<Rightarrow> 64 word"
  dt_make :: "32 word \<Rightarrow> 32 word \<Rightarrow> 32 word \<Rightarrow> 32 word \<Rightarrow> 'dt option"
  dt_NAT :: 'dt
  dt_NEG :: 'dt
  dt_POS :: 'dt

text \<open>The types \<open>put_value\<close> distinguishes; \<open>VEmpty\<close> stands for any other content.\<close>

datatype 'dt spine_value =
    VEmpty
  | VBool bool
  | VInt int64
  | VUInt uint64
  | VDouble double
  | VString string
  | VTime 'dt
  | VPoint double double string
  | VBBox double double double double string

definition V_BOOL :: "32 word" where "V_BOOL = 1"
definition V_INT :: "32 word" where "V_INT = 2"
definition V_UINT :: "32 word" where "V_UINT = 3"
definition V_DOUBLE :: "32 word" where "V_DOUBLE = 4"
definition V_STRING :: "32 word" where "V_STRING = 5"
definition V_PTIME :: "32 word" where "V_PTIME = 6"
definition V_POINT :: "32 word" where "V_POINT = 7"
definition V_BBOX :: "32 word" where "V_BBOX = 8"

lemmas V_codes = V_BOOL_def V_INT_def V_UINT_def V_DOUBLE_def V_STRING_def V_PTIME_def
  V_POINT_def V_BBOX_def

section \<open>Date-times\<close>

definition put_ptime :: "'dt dt_ops \<Rightarrow> 'dt \<Rightarrow> ostream \<Rightarrow> ostream result" where
  "put_ptime D tm st =
     (if dt_special D tm
      then let st = put_bit False st in
        (if dt_is_nat D tm then Inr (put_bit False st)
         else let st = put_bit True st in
           (if dt_is_neg D tm then Inr (put_bit False st)
            else if dt_is_pos D tm then Inr (put_bit True st)
            else Inl (Thrown NoCode ''special time value'')))
      else let sec = dt_secs D tm in
        rbind (put_int (scast (dt_year D tm)) (put_bit True st)) (\<lambda>st.
          let st = put_unsigned (ucast (dt_month D tm)) st;
              st = put_unsigned (ucast (dt_day D tm)) st;
              st = put_bit (sec \<noteq> 0) st
          in Inr (if sec \<noteq> 0 then put_unsigned sec st else st)))"

definition get_ptime :: "'dt dt_ops \<Rightarrow> istream \<Rightarrow> ('dt \<times> istream) result" where
  "get_ptime D st =
     rbind (get_bit st) (\<lambda>(b, st).
       if b
       then rbind (get_int st) (\<lambda>(year, st).
            rbind (get_unsigned st) (\<lambda>(month, st).
            rbind (get_unsigned st) (\<lambda>(day, st).
            rbind (get_bit st) (\<lambda>(have_sec, st).
            rbind (if have_sec then get_unsigned st else Inr (0, st)) (\<lambda>(sec, st).
              case dt_make D (ucast year) (ucast month) (ucast day) (ucast sec) of
                None \<Rightarrow> Inl (Thrown NoCode ''date'')
              | Some tm \<Rightarrow> Inr (tm, st))))))
       else rbind (get_bit st) (\<lambda>(b, st).
              if b
              then rbind (get_bit st) (\<lambda>(b, st). Inr (if b then dt_POS D else dt_NEG D, st))
              else Inr (dt_NAT D, st)))"

definition enc_ptime :: "'dt dt_ops \<Rightarrow> 'dt \<Rightarrow> bool list" where
  "enc_ptime D tm =
     (if dt_special D tm
      then (if dt_is_nat D tm then [False, False] else [False, True, \<not> dt_is_neg D tm])
      else [True] @ enc_int (scast (dt_year D tm)) @ enc_unsigned (ucast (dt_month D tm)) @
        enc_unsigned (ucast (dt_day D tm)) @
        (if dt_secs D tm = 0 then [False] else [True] @ enc_unsigned (dt_secs D tm)))"

text \<open>
  The date-times the encoding keeps: a special one is a singleton, a regular one is determined
  by its date and its whole seconds (\<open>put_ptime\<close> drops the fraction of a second).
\<close>

definition dt_ok :: "'dt dt_ops \<Rightarrow> 'dt \<Rightarrow> bool" where
  "dt_ok D tm \<longleftrightarrow>
     (if dt_special D tm
      then (if dt_is_nat D tm then tm = dt_NAT D
            else if dt_is_neg D tm then tm = dt_NEG D
            else dt_is_pos D tm \<and> tm = dt_POS D)
      else dt_make D (dt_year D tm) (dt_month D tm) (dt_day D tm) (ucast (dt_secs D tm)) = Some tm)"

lemma ucast_scast_back: "ucast (scast (w :: 32 word) :: 64 word) = w"
  by (rule bit_word_eqI) (auto simp: bit_simps)

lemma ucast_ucast_back: "ucast (ucast (w :: 32 word) :: 64 word) = w"
  by (rule bit_word_eqI) (auto simp: bit_simps)

lemma scast_not_min: "(scast (w :: 32 word) :: int64) \<noteq> INT64_MIN"
proof
  assume eq: "(scast w :: int64) = INT64_MIN"
  have "bit (scast w :: int64) 63 = bit (scast w :: int64) 62"
    by (simp add: bit_simps min_def)
  moreover have "bit INT64_MIN 63" "\<not> bit INT64_MIN 62"
    by (simp_all add: INT64_MIN_def bit_simps del: push_bit_of_1)
  ultimately show False by (simp add: eq)
qed

lemma writes_app:
  assumes "writes st bs st'" "owf st' \<Longrightarrow> writes st' cs st''"
  shows "writes st (bs @ cs) st''"
  using assms by (auto simp: writes_def)

lemma emits_put_ptime:
  assumes "dt_ok D tm" "owf os"
  shows "emits (put_ptime D tm os) os (enc_ptime D tm)"
proof (cases "dt_special D tm")
  case True
  with assms show ?thesis
    by (auto simp: put_ptime_def enc_ptime_def dt_ok_def emits_def writes_def put_bit_owf Let_def
        split: if_splits)
next
  case False
  let ?y = "scast (dt_year D tm) :: int64"
  have a: "writes os [True] (put_bit True os)" "owf (put_bit True os)"
    using assms(2) by (simp_all add: writes_put_bit put_bit_owf)
  have b: "emits (put_int ?y (put_bit True os)) (put_bit True os) (enc_int ?y)"
    using int_codec.put_emits [OF scast_not_min a(2)] .
  show ?thesis
    using False unfolding put_ptime_def enc_ptime_def Let_def
    by (simp only: if_False)
      (rule emits_after [OF a(1)], rule emits_rbind [OF b], rule emits_Inr,
        rule writes_app [OF writes_put_unsigned], assumption,
        rule writes_app [OF writes_put_unsigned], assumption,
        auto intro: writes_put_bit writes_app [OF writes_put_bit] writes_put_unsigned
          simp: append_Cons [symmetric] simp del: append_Cons)
qed

lemma gives_get_ptime:
  assumes "dt_ok D tm" "iwf is" "ibits is = enc_ptime D tm @ r"
  shows "gives (get_ptime D is) tm r"
proof (cases "dt_special D tm")
  case True
  have "gives (get_bit is) False
      ((if dt_is_nat D tm then [False] else [True, \<not> dt_is_neg D tm]) @ r)"
    using True assms(2,3) by (intro gives_get_bit) (auto simp: enc_ptime_def)
  then show ?thesis
    unfolding get_ptime_def
  proof (rule gives_rbind)
    fix st assume st: "iwf st"
      "ibits st = (if dt_is_nat D tm then [False] else [True, \<not> dt_is_neg D tm]) @ r"
    have "gives (rbind (get_bit st) (\<lambda>(b, st).
        if b then rbind (get_bit st) (\<lambda>(b, st). Inr (if b then dt_POS D else dt_NEG D, st))
        else Inr (dt_NAT D, st))) tm r"
    proof (cases "dt_is_nat D tm")
      case nat: True
      with True assms(1) have "tm = dt_NAT D" by (simp add: dt_ok_def)
      with st nat show ?thesis
        by (intro gives_rbind [OF gives_get_bit]) (auto intro: gives_Inr)
    next
      case nat: False
      with True assms(1) have tm: "tm = (if \<not> dt_is_neg D tm then dt_POS D else dt_NEG D)"
        by (auto simp: dt_ok_def split: if_splits)
      have "gives (get_bit st) True ((\<not> dt_is_neg D tm) # r)"
        using st nat by (intro gives_get_bit) simp_all
      then show ?thesis
        by (rule gives_rbind)
          (use tm in \<open>auto intro!: gives_rbind [OF gives_get_bit] gives_Inr\<close>)
    qed
    then show "gives (case (False, st) of (b, st) \<Rightarrow> if b
        then rbind (get_int st) (\<lambda>(year, st). rbind (get_unsigned st) (\<lambda>(month, st).
            rbind (get_unsigned st) (\<lambda>(day, st). rbind (get_bit st) (\<lambda>(have_sec, st).
            rbind (if have_sec then get_unsigned st else Inr (0, st)) (\<lambda>(sec, st).
              case dt_make D (ucast year) (ucast month) (ucast day) (ucast sec) of
                None \<Rightarrow> Inl (Thrown NoCode ''date'') | Some tm \<Rightarrow> Inr (tm, st))))))
        else rbind (get_bit st) (\<lambda>(b, st). if b
              then rbind (get_bit st) (\<lambda>(b, st). Inr (if b then dt_POS D else dt_NEG D, st))
              else Inr (dt_NAT D, st))) tm r"
      by simp
  qed
next
  case False
  let ?y = "scast (dt_year D tm) :: int64" and ?m = "ucast (dt_month D tm) :: uint64"
    and ?d = "ucast (dt_day D tm) :: uint64" and ?s = "dt_secs D tm"
  have make: "dt_make D (ucast ?y) (ucast ?m) (ucast ?d) (ucast ?s) = Some tm"
    using False assms(1) by (simp add: dt_ok_def ucast_scast_back ucast_ucast_back)
  let ?tail = "if ?s = 0 then [] else enc_unsigned ?s"
  have bits: "ibits is = True # enc_int ?y @ enc_unsigned ?m @ enc_unsigned ?d @ (?s \<noteq> 0) # ?tail @ r"
    using False assms(3) by (simp add: enc_ptime_def)
  have sec: "gives (if ?s \<noteq> 0 then get_unsigned st else Inr (0, st)) ?s r"
    if "iwf st" "ibits st = ?tail @ r" for st
    using that by (auto intro: gives_Inr gives_get_unsigned)
  show ?thesis
    unfolding get_ptime_def
    by (rule gives_rbind [OF gives_get_bit [OF assms(2) bits]], simp only: prod.case if_True,
        rule gives_rbind [OF int_codec.get_gives [OF scast_not_min]], assumption, assumption,
        simp only: prod.case, rule gives_rbind [OF gives_get_unsigned], assumption, assumption,
        simp only: prod.case, rule gives_rbind [OF gives_get_unsigned], assumption, assumption,
        simp only: prod.case, rule gives_rbind [OF gives_get_bit], assumption, assumption,
        simp only: prod.case, rule gives_rbind [OF sec], assumption, assumption)
      (simp add: make gives_Inr)
qed

interpretation ptime_codec: bit_codec "put_ptime D" "get_ptime D" "enc_ptime D" "dt_ok D" for D
  by unfold_locales (fact emits_put_ptime, fact gives_get_ptime)

lemma no_rewind_get_ptime: "no_rewind (get_ptime D)"
proof -
  have sec: "no_rewind (\<lambda>st. if b then get_unsigned st else Inr (0, st))" for b
    using no_rewind_get_unsigned by (cases b) (simp_all add: no_rewind_def)
  have make: "no_rewind (\<lambda>st. case dt_make D y m d s of None \<Rightarrow> Inl e | Some tm \<Rightarrow> Inr (tm, st))"
    for y m d s e
    by (auto simp: no_rewind_def split: option.splits)
  have time: "no_rewind (\<lambda>st. rbind (get_int st) (\<lambda>(year, st). rbind (get_unsigned st) (\<lambda>(month, st).
      rbind (get_unsigned st) (\<lambda>(day, st). rbind (get_bit st) (\<lambda>(have_sec, st).
      rbind (if have_sec then get_unsigned st else Inr (0, st)) (\<lambda>(sec, st).
        case dt_make D (ucast year) (ucast month) (ucast day) (ucast sec) of
          None \<Rightarrow> Inl (Thrown NoCode ''date'') | Some tm \<Rightarrow> Inr (tm, st)))))))"
    by (intro no_rewind_bind no_rewind_get_int no_rewind_get_unsigned no_rewind_get_bit sec make)
  have special: "no_rewind (\<lambda>st. rbind (get_bit st) (\<lambda>(b, st). if b
      then rbind (get_bit st) (\<lambda>(b, st). Inr (if b then dt_POS D else dt_NEG D, st))
      else Inr (dt_NAT D, st)))"
    by (rule no_rewind_bind [OF no_rewind_get_bit])
      (auto simp: no_rewind_def result_simps dest!: get_bit_ileft)
  show ?thesis
    unfolding get_ptime_def [abs_def]
    by (rule no_rewind_bind [OF no_rewind_get_bit], rename_tac b, case_tac b)
      (use time special in simp_all)
qed

section \<open>Values of any supported type\<close>

definition put_value :: "'dt dt_ops \<Rightarrow> 'dt spine_value \<Rightarrow> ostream \<Rightarrow> ostream result" where
  "put_value D v st = (case v of
     VBool b \<Rightarrow> Inr (put_bit b (put_bits V_BOOL 4 st))
   | VInt i \<Rightarrow> put_int i (put_bits V_INT 4 st)
   | VUInt u \<Rightarrow> Inr (put_unsigned u (put_bits V_UINT 4 st))
   | VDouble d \<Rightarrow> Inr (put_double d (put_bits V_DOUBLE 4 st))
   | VString s \<Rightarrow> Inr (put_string s (put_bits V_STRING 4 st))
   | VTime tm \<Rightarrow> put_ptime D tm (put_bits V_PTIME 4 st)
   | VPoint x y crs \<Rightarrow> Inr (put_string crs (put_double y (put_double x (put_bits V_POINT 4 st))))
   | VBBox x1 y1 x2 y2 crs \<Rightarrow>
       Inr (put_string crs (put_double y2 (put_double x2 (put_double y1 (put_double x1
         (put_bits V_BBOX 4 st))))))
   | VEmpty \<Rightarrow> Inl (Thrown NoCode ''unsupported type''))"

definition get_value :: "'dt dt_ops \<Rightarrow> istream \<Rightarrow> ('dt spine_value \<times> istream) result" where
  "get_value D st =
     rbind (get_bits 4 st) (\<lambda>(type_code, st).
       if type_code = V_BOOL then rbind (get_bit st) (\<lambda>(b, st). Inr (VBool b, st))
       else if type_code = V_INT then rbind (get_int st) (\<lambda>(i, st). Inr (VInt i, st))
       else if type_code = V_UINT then rbind (get_unsigned st) (\<lambda>(u, st). Inr (VUInt u, st))
       else if type_code = V_DOUBLE then rbind (get_double st) (\<lambda>(d, st). Inr (VDouble d, st))
       else if type_code = V_STRING then rbind (get_string st) (\<lambda>(s, st). Inr (VString s, st))
       else if type_code = V_PTIME then rbind (get_ptime D st) (\<lambda>(tm, st). Inr (VTime tm, st))
       else if type_code = V_POINT
         then rbind (get_double st) (\<lambda>(x, st). rbind (get_double st) (\<lambda>(y, st).
              rbind (get_string st) (\<lambda>(crs, st). Inr (VPoint x y crs, st))))
       else if type_code = V_BBOX
         then rbind (get_double st) (\<lambda>(x1, st). rbind (get_double st) (\<lambda>(y1, st).
              rbind (get_double st) (\<lambda>(x2, st). rbind (get_double st) (\<lambda>(y2, st).
              rbind (get_string st) (\<lambda>(crs, st). Inr (VBBox x1 y1 x2 y2 crs, st))))))
       else Inl (Thrown NoCode ''unknown type code''))"

definition enc_value :: "'dt dt_ops \<Rightarrow> 'dt spine_value \<Rightarrow> bool list" where
  "enc_value D v = (case v of
     VBool b \<Rightarrow> enc_bits 4 V_BOOL @ [b]
   | VInt i \<Rightarrow> enc_bits 4 V_INT @ enc_int i
   | VUInt u \<Rightarrow> enc_bits 4 V_UINT @ enc_unsigned u
   | VDouble d \<Rightarrow> enc_bits 4 V_DOUBLE @ enc_double d
   | VString s \<Rightarrow> enc_bits 4 V_STRING @ enc_string s
   | VTime tm \<Rightarrow> enc_bits 4 V_PTIME @ enc_ptime D tm
   | VPoint x y crs \<Rightarrow> enc_bits 4 V_POINT @ enc_double x @ enc_double y @ enc_string crs
   | VBBox x1 y1 x2 y2 crs \<Rightarrow> enc_bits 4 V_BBOX @ enc_double x1 @ enc_double y1 @
       enc_double x2 @ enc_double y2 @ enc_string crs
   | VEmpty \<Rightarrow> [])"

text \<open>The values the encoding keeps.\<close>

definition value_ok :: "'dt dt_ops \<Rightarrow> 'dt spine_value \<Rightarrow> bool" where
  "value_ok D v = (case v of
     VEmpty \<Rightarrow> False
   | VInt i \<Rightarrow> i \<noteq> INT64_MIN
   | VString s \<Rightarrow> length s < 2 ^ 32
   | VTime tm \<Rightarrow> dt_ok D tm
   | VPoint _ _ crs \<Rightarrow> length crs < 2 ^ 32
   | VBBox _ _ _ _ crs \<Rightarrow> length crs < 2 ^ 32
   | _ \<Rightarrow> True)"

lemma writes_put_double: "owf st \<Longrightarrow> writes st (enc_double d) (put_double d st)"
  using double_codec.put_emits by (simp add: emits_def)

lemma writes_put_string:
  assumes "owf st" shows "writes st (enc_string s) (put_string s st)"
proof -
  have "writes st (enc_unsigned (of_nat (length s))) (put_unsigned (of_nat (length s)) st)"
    using assms by (rule writes_put_unsigned)
  then show ?thesis
    unfolding put_string_def enc_string_def by (rule writes_app) (rule writes_put_chars)
qed

lemma emits_put_value:
  assumes "value_ok D v" "owf os"
  shows "emits (put_value D v os) os (enc_value D v)"
proof -
  have tag: "writes os (enc_bits 4 c) (put_bits c 4 os)" for c
    using assms(2) by (simp add: writes_put_bits)
  note rules = emits_Inr writes_app [OF tag] emits_after [OF tag] writes_put_bit
    writes_put_unsigned writes_put_string writes_put_double writes_app [OF writes_put_double]
    int_codec.put_emits ptime_codec.put_emits
  show ?thesis
    using assms(1) by (cases v) (auto simp: put_value_def enc_value_def value_ok_def intro!: rules)
qed

lemma tag_bits: "take_bit 4 V_BOOL = V_BOOL" "take_bit 4 V_INT = V_INT" "take_bit 4 V_UINT = V_UINT"
  "take_bit 4 V_DOUBLE = V_DOUBLE" "take_bit 4 V_STRING = V_STRING" "take_bit 4 V_PTIME = V_PTIME"
  "take_bit 4 V_POINT = V_POINT" "take_bit 4 V_BBOX = V_BBOX"
  by (simp_all add: V_codes take_bit_eq_mod)

lemma gives_tag:
  assumes "iwf st" "ibits st = enc_bits 4 c @ r" "take_bit 4 c = c"
    "\<And>st'. iwf st' \<Longrightarrow> ibits st' = r \<Longrightarrow> gives (f (c, st')) y r'"
  shows "gives (rbind (get_bits 4 st) f) y r'"
  using gives_get_bits [of 4 st c r] assms by (intro gives_rbind [of _ c r]) simp_all

lemmas then_read = int_codec.then_get unsigned_codec.then_get [OF TrueI]
  double_codec.then_get [OF TrueI] string_codec.then_get ptime_codec.then_get
  gives_rbind [OF gives_get_bit]

lemma gives_get_value:
  assumes "value_ok D v" "iwf is" "ibits is = enc_value D v @ r"
  shows "gives (get_value D is) v r"
proof (cases v)
  case VEmpty
  with assms(1) show ?thesis by (simp add: value_ok_def)
next
  case (VBool b)
  show ?thesis unfolding get_value_def
    by (rule gives_tag [of _ V_BOOL], fact, use assms VBool in \<open>simp add: enc_value_def\<close>, fact tag_bits)
      (auto simp: V_codes VBool intro!: then_read gives_Inr)
next
  case (VInt i)
  show ?thesis unfolding get_value_def
    by (rule gives_tag [of _ V_INT], fact, use assms VInt in \<open>simp add: enc_value_def\<close>, fact tag_bits)
      (use assms(1) VInt in \<open>auto simp: V_codes value_ok_def intro!: then_read gives_Inr\<close>)
next
  case (VUInt u)
  show ?thesis unfolding get_value_def
    by (rule gives_tag [of _ V_UINT], fact, use assms VUInt in \<open>simp add: enc_value_def\<close>, fact tag_bits)
      (auto simp: V_codes VUInt intro!: then_read gives_Inr)
next
  case (VDouble d)
  show ?thesis unfolding get_value_def
    by (rule gives_tag [of _ V_DOUBLE], fact, use assms VDouble in \<open>simp add: enc_value_def\<close>, fact tag_bits)
      (auto simp: V_codes VDouble intro!: then_read gives_Inr)
next
  case (VString s)
  show ?thesis unfolding get_value_def
    by (rule gives_tag [of _ V_STRING], fact, use assms VString in \<open>simp add: enc_value_def\<close>, fact tag_bits)
      (use assms(1) VString in \<open>auto simp: V_codes value_ok_def intro!: then_read gives_Inr\<close>)
next
  case (VTime tm)
  show ?thesis unfolding get_value_def
    by (rule gives_tag [of _ V_PTIME], fact, use assms VTime in \<open>simp add: enc_value_def\<close>, fact tag_bits)
      (use assms(1) VTime in \<open>auto simp: V_codes value_ok_def intro!: then_read gives_Inr\<close>)
next
  case (VPoint x y crs)
  show ?thesis unfolding get_value_def
    by (rule gives_tag [of _ V_POINT], fact, use assms VPoint in \<open>simp add: enc_value_def\<close>, fact tag_bits)
      (use assms(1) VPoint in \<open>auto simp: V_codes value_ok_def intro!: then_read gives_Inr\<close>)
next
  case (VBBox x1 y1 x2 y2 crs)
  show ?thesis unfolding get_value_def
    by (rule gives_tag [of _ V_BBOX], fact, use assms VBBox in \<open>simp add: enc_value_def\<close>, fact tag_bits)
      (use assms(1) VBBox in \<open>auto simp: V_codes value_ok_def intro!: then_read gives_Inr\<close>)
qed

interpretation value_codec: bit_codec "put_value D" "get_value D" "enc_value D" "value_ok D" for D
  by unfold_locales (fact emits_put_value, fact gives_get_value)

lemma no_rewind_get_value: "no_rewind (get_value D)"
  unfolding get_value_def [abs_def]
  by (intro no_rewind_if no_rewind_bind no_rewind_get_bits no_rewind_get_bit no_rewind_get_int
    no_rewind_get_unsigned no_rewind_get_double no_rewind_get_string no_rewind_get_ptime
    no_rewind_return no_rewind_throw)

section \<open>Value maps\<close>

text \<open>
  Each key is written once, preceded by a set bit, followed by its values, each preceded by a
  set bit; a clear bit ends the values of a key and the keys of the map.
\<close>

type_synonym 'dt value_map = "(string, 'dt spine_value) mmap"

definition put_values :: "'dt dt_ops \<Rightarrow> 'dt spine_value list \<Rightarrow> ostream \<Rightarrow> ostream result" where
  "put_values D vs st =
     rbind (fold_result (\<lambda>v st. put_value D v (put_bit True st)) vs st) (\<lambda>st. Inr (put_bit False st))"

definition put_value_map :: "'dt dt_ops \<Rightarrow> 'dt value_map \<Rightarrow> ostream \<Rightarrow> ostream result" where
  "put_value_map D arg st =
     rbind (fold_result (\<lambda>key st. put_values D (mm_values arg key) (put_string key (put_bit True st)))
              (mm_keys arg) st)
       (\<lambda>st. Inr (put_bit False st))"

function get_values_loop ::
    "'dt dt_ops \<Rightarrow> string \<Rightarrow> 'dt value_map \<Rightarrow> istream \<Rightarrow> ('dt value_map \<times> istream) result" where
  "get_values_loop D key res st =
     rbind (get_bit st) (\<lambda>(b, st1).
       if b then rbind (get_value D st1) (\<lambda>(v, st2). get_values_loop D key (mm_insert key v res) st2)
       else Inr (res, st1))"
  by pat_completeness auto
termination
  by (relation "measure (\<lambda>(D, key, res, st). ileft st)")
    (auto dest!: get_bit_ileft no_rewindD [OF no_rewind_get_value] intro: le_less_trans)

declare get_values_loop.simps [simp del]

lemma get_values_loop_ileft: "get_values_loop D key res st = Inr (m, st') \<Longrightarrow> ileft st' \<le> ileft st"
proof (induction D key res st rule: get_values_loop.induct)
  case (1 D key res st)
  show ?case
    using "1.prems" "1.IH" unfolding get_values_loop.simps [of D key res st]
    by (fastforce simp: result_simps split: if_splits
        dest: get_bit_ileft no_rewindD [OF no_rewind_get_value])
qed

function get_map_loop :: "'dt dt_ops \<Rightarrow> 'dt value_map \<Rightarrow> istream \<Rightarrow> ('dt value_map \<times> istream) result" where
  "get_map_loop D res st =
     rbind (get_bit st) (\<lambda>(b, st1).
       if b
       then rbind (get_string st1) (\<lambda>(key, st2).
            rbind (get_values_loop D key res st2) (\<lambda>(res, st3). get_map_loop D res st3))
       else Inr (res, st1))"
  by pat_completeness auto
termination
  by (relation "measure (\<lambda>(D, res, st). ileft st)")
    (auto dest!: get_bit_ileft no_rewindD [OF no_rewind_get_string] get_values_loop_ileft)

declare get_map_loop.simps [simp del]

definition get_value_map :: "'dt dt_ops \<Rightarrow> istream \<Rightarrow> ('dt value_map \<times> istream) result" where
  "get_value_map D st = get_map_loop D [] st"

definition enc_values :: "'dt dt_ops \<Rightarrow> 'dt spine_value list \<Rightarrow> bool list" where
  "enc_values D vs = concat (map (\<lambda>v. True # enc_value D v) vs) @ [False]"

definition enc_value_map :: "'dt dt_ops \<Rightarrow> 'dt value_map \<Rightarrow> bool list" where
  "enc_value_map D m =
     concat (map (\<lambda>k. True # enc_string k @ enc_values D (mm_values m k)) (mm_keys m)) @ [False]"

definition value_map_ok :: "'dt dt_ops \<Rightarrow> 'dt value_map \<Rightarrow> bool" where
  "value_map_ok D m \<longleftrightarrow> mm_sorted m \<and>
     list_all (\<lambda>(k, v). length k < 2 ^ 32 \<and> value_ok D v) m"

lemma emits_fold:
  assumes "owf st" "\<And>x st. x \<in> set xs \<Longrightarrow> owf st \<Longrightarrow> emits (f x st) st (e x)"
  shows "emits (fold_result f xs st) st (concat (map e xs))"
  using assms
proof (induction xs arbitrary: st)
  case Nil
  then show ?case by (simp add: emits_Inr writes_refl)
next
  case (Cons x xs)
  then show ?case by (auto intro!: emits_rbind)
qed

lemma emits_put_values:
  assumes "owf st" "\<forall>v \<in> set vs. value_ok D v"
  shows "emits (put_values D vs st) st (enc_values D vs)"
proof -
  have "emits (put_value D v (put_bit True st)) st ([True] @ enc_value D v)"
    if "v \<in> set vs" "owf st" for v st
    using that assms(2) by (intro emits_after [OF writes_put_bit] value_codec.put_emits) auto
  then show ?thesis
    unfolding put_values_def enc_values_def
    by (intro emits_rbind emits_fold assms(1)) (auto intro: emits_Inr writes_put_bit)
qed

lemma mm_values_in: "v \<in> set (mm_values m k) \<longleftrightarrow> (k, v) \<in> set m"
  by (force simp: mm_values_def)

lemma emits_put_value_map:
  assumes "value_map_ok D m" "owf st"
  shows "emits (put_value_map D m st) st (enc_value_map D m)"
proof -
  have vals: "\<forall>v \<in> set (mm_values m k). value_ok D v" for k
    using assms(1) by (auto simp: value_map_ok_def mm_values_in list_all_iff)
  have "emits (put_values D (mm_values m k) (put_string k (put_bit True st))) st
      ([True] @ enc_string k @ enc_values D (mm_values m k))" if "owf st" for k st
    using that
    by (intro emits_after [OF writes_put_bit] emits_after [OF writes_put_string] emits_put_values vals)
  then show ?thesis
    unfolding put_value_map_def enc_value_map_def
    by (intro emits_rbind emits_fold assms(2)) (auto intro: emits_Inr writes_put_bit)
qed

lemma gives_get_values_loop:
  assumes "\<forall>v \<in> set vs. value_ok D v" "iwf st" "ibits st = enc_values D vs @ r"
  shows "gives (get_values_loop D k res st) (fold (mm_insert k) vs res) r"
  using assms
proof (induction vs arbitrary: res st)
  case Nil
  then show ?case
    unfolding get_values_loop.simps [of D k res st]
    by (auto simp: enc_values_def intro!: gives_rbind [OF gives_get_bit] gives_Inr)
next
  case (Cons v vs)
  have "ibits st = True # enc_value D v @ enc_values D vs @ r"
    using Cons.prems(3) by (simp add: enc_values_def)
  with Cons.prems show ?case
    unfolding get_values_loop.simps [of D k res st]
    by (auto intro!: gives_rbind [OF gives_get_bit] value_codec.then_get Cons.IH)
qed

lemma gives_get_map_loop:
  assumes "\<forall>k \<in> set ks. length k < 2 ^ 32 \<and> (\<forall>v \<in> set (vals k). value_ok D v)" "iwf st"
    "ibits st = concat (map (\<lambda>k. True # enc_string k @ enc_values D (vals k)) ks) @ [False] @ r"
  shows "gives (get_map_loop D res st) (fold (\<lambda>k res. fold (mm_insert k) (vals k) res) ks res) r"
  using assms
proof (induction ks arbitrary: res st)
  case Nil
  then show ?case
    unfolding get_map_loop.simps [of D res st]
    by (auto intro!: gives_rbind [OF gives_get_bit] gives_Inr)
next
  case (Cons k ks)
  let ?r = "concat (map (\<lambda>k. True # enc_string k @ enc_values D (vals k)) ks) @ [False] @ r"
  have "ibits st = True # enc_string k @ enc_values D (vals k) @ ?r"
    using Cons.prems(3) by simp
  with Cons.prems(1,2) show ?case
    unfolding get_map_loop.simps [of D res st]
    by (auto intro!: gives_rbind [OF gives_get_bit] string_codec.then_get
        gives_rbind [OF gives_get_values_loop] Cons.IH)
qed

lemma gives_get_value_map:
  assumes "value_map_ok D m" "iwf is" "ibits is = enc_value_map D m @ r"
  shows "gives (get_value_map D is) m r"
proof -
  have "gives (get_map_loop D [] is) (fold (\<lambda>k. fold (mm_insert k) (mm_values m k)) (mm_keys m) []) r"
    using assms
    by (intro gives_get_map_loop)
      (auto simp: value_map_ok_def mm_values_in list_all_iff enc_value_map_def)
  with assms(1) show ?thesis
    by (simp add: get_value_map_def value_map_ok_def mm_rebuild)
qed

interpretation map_codec: bit_codec "put_value_map D" "get_value_map D" "enc_value_map D"
  "value_map_ok D" for D
  by unfold_locales (fact emits_put_value_map, fact gives_get_value_map)

end
