(* ===== verification/FeatureId.thy ===== *)
theory FeatureId
  imports BitValue
begin

text \<open>
  \<open>libwfs/FeatureID.cpp\<close> and \<open>FeatureID.h\<close>: the feature identifier, a signed and printable
  serialisation of a stored query call.  SHA-1 of OpenSSL (\<open>sha\<close>) and Base64 of the macgyver
  library (\<open>b64e\<close>, \<open>b64d\<close>) are parameters; \<open>digest_law\<close> and \<open>base64_law\<close> state the documented
  behaviour the code relies on.
\<close>

section \<open>The identifier\<close>

record 'dt feature_id =
  fid_query :: string
  fid_params :: "'dt value_map"
  fid_seq :: "32 word"

definition magic :: string where
  "magic = ''SDGHWGFWLBFVLDSBVDSvdlvdNnc''"

definition FEATURE_ID_REVISION :: "32 word" where
  "FEATURE_ID_REVISION = 1"

definition fid_prefix :: string where
  "fid_prefix = ''WFS-''"

definition SHA_DIGEST_LENGTH :: nat where
  "SHA_DIGEST_LENGTH = 20"

definition fid_new :: "string \<Rightarrow> 'dt value_map \<Rightarrow> 'dt feature_id" where
  "fid_new query params = \<lparr>fid_query = query, fid_params = params, fid_seq = 0\<rparr>"

definition erase_param :: "string \<Rightarrow> 'dt feature_id \<Rightarrow> 'dt feature_id" where
  "erase_param name f = f\<lparr>fid_params := mm_erase name (fid_params f)\<rparr>"

definition add_param :: "string \<Rightarrow> 'dt spine_value \<Rightarrow> 'dt feature_id \<Rightarrow> 'dt feature_id" where
  "add_param name v f = f\<lparr>fid_params := mm_insert name v (fid_params f)\<rparr>"

definition add_params :: "string \<Rightarrow> 'dt spine_value list \<Rightarrow> 'dt feature_id \<Rightarrow> 'dt feature_id" where
  "add_params name vs f = fold (add_param name) vs f"

definition url_char :: "char \<Rightarrow> char" where
  "url_char c =
     (if c = CHR ''+'' then CHR ''.'' else if c = CHR ''/'' then CHR ''_''
      else if c = CHR ''='' then CHR ''-'' else c)"

definition base64_char :: "char \<Rightarrow> char" where
  "base64_char c =
     (if c = CHR ''.'' then CHR ''+'' else if c = CHR ''_'' then CHR ''/''
      else if c = CHR ''-'' then CHR ''='' else c)"

definition digest :: "(byte list \<Rightarrow> byte list) \<Rightarrow> byte list \<Rightarrow> byte list" where
  "digest sha raw = sha (map char_byte magic @ raw)"

definition put_feature :: "'dt dt_ops \<Rightarrow> 'dt feature_id \<Rightarrow> ostream result" where
  "put_feature D f =
     (let st = put_string ''SQ'' new_ostream;
          st = put_unsigned (ucast FEATURE_ID_REVISION) st;
          st = put_string (fid_query f) st;
          st = put_unsigned (ucast (fid_seq f)) st
      in put_value_map D (fid_params f) st)"

definition get_id ::
    "'dt dt_ops \<Rightarrow> (byte list \<Rightarrow> byte list) \<Rightarrow> (byte list \<Rightarrow> string) \<Rightarrow> 'dt feature_id \<Rightarrow> string result" where
  "get_id D sha b64e f =
     rbind (put_feature D f) (\<lambda>st.
       let raw = raw_data st
       in Inr (fid_prefix @ map url_char (b64e (digest sha raw @ raw))))"

text \<open>
  \<open>create_from_id\<close>.  The parse of the stored query id and the parameters is inside a handler
  that replaces any exception; the sequence number is read and ignored.
\<close>

definition get_payload :: "'dt dt_ops \<Rightarrow> istream \<Rightarrow> 'dt feature_id result" where
  "get_payload D st =
     (case rbind (get_string st) (\<lambda>(query, st).
           rbind (get_unsigned st) (\<lambda>(_, st).
           rbind (get_value_map D st) (\<lambda>(params, st). Inr (fid_new query params)))) of
        Inl (Thrown _ _) \<Rightarrow> Inl (Thrown NoCode ''Failed to parse feature ID!'')
      | r \<Rightarrow> r)"

definition create_from_id ::
    "'dt dt_ops \<Rightarrow> (byte list \<Rightarrow> byte list) \<Rightarrow> (string \<Rightarrow> byte list) \<Rightarrow> string \<Rightarrow> 'dt feature_id result" where
  "create_from_id D sha b64d str =
     (if take (length fid_prefix) str \<noteq> fid_prefix then Inl (Thrown NoCode ''prefix'')
      else let raw_id = b64d (map base64_char (drop 4 str)) in
       (if length raw_id < SHA_DIGEST_LENGTH + 1 then Inl (Thrown NoCode ''not enough data'')
        else let mac = take SHA_DIGEST_LENGTH raw_id; raw_id = drop SHA_DIGEST_LENGTH raw_id in
         (if digest sha raw_id \<noteq> mac then Inl (Thrown NoCode ''hash error'')
          else rbind (get_string (new_istream raw_id)) (\<lambda>(typ, st).
            if typ \<noteq> ''SQ'' then Inl (Thrown NoCode ''incorrect type'')
            else rbind (get_unsigned st) (\<lambda>(revision, st).
              if (ucast revision :: 32 word) \<noteq> FEATURE_ID_REVISION
              then Inl (Thrown NoCode ''revision mismatch'')
              else get_payload D st)))))"

section \<open>The external functions\<close>

definition digest_law :: "(byte list \<Rightarrow> byte list) \<Rightarrow> bool" where
  "digest_law sha \<longleftrightarrow> (\<forall>x. length (sha x) = SHA_DIGEST_LENGTH)"

definition base64_law :: "(byte list \<Rightarrow> string) \<Rightarrow> (string \<Rightarrow> byte list) \<Rightarrow> bool" where
  "base64_law b64e b64d \<longleftrightarrow>
     (\<forall>x. b64d (b64e x) = x \<and> list_all (\<lambda>c. isalnum c \<or> c \<in> set ''+/='') (b64e x))"

lemma base64_url_char: "isalnum c \<or> c \<in> set ''+/='' \<Longrightarrow> base64_char (url_char c) = c"
  by (auto simp: base64_char_def url_char_def isalnum_def)

lemma base64_url: "base64_law b64e b64d \<Longrightarrow> b64d (map (base64_char \<circ> url_char) (b64e x)) = x"
proof -
  assume law: "base64_law b64e b64d"
  then have "map (base64_char \<circ> url_char) (b64e x) = b64e x"
    by (intro map_idI) (auto simp: base64_law_def list_all_iff base64_url_char)
  with law show ?thesis by (simp add: base64_law_def)
qed

section \<open>Serialisation\<close>

definition fid_ok :: "'dt dt_ops \<Rightarrow> 'dt feature_id \<Rightarrow> bool" where
  "fid_ok D f \<longleftrightarrow> length (fid_query f) < 2 ^ 32 \<and> value_map_ok D (fid_params f)"

definition enc_feature :: "'dt dt_ops \<Rightarrow> 'dt feature_id \<Rightarrow> bool list" where
  "enc_feature D f =
     enc_string ''SQ'' @ enc_unsigned (ucast FEATURE_ID_REVISION) @ enc_string (fid_query f) @
     enc_unsigned (ucast (fid_seq f)) @ enc_value_map D (fid_params f)"

lemma put_feature_emits:
  assumes "fid_ok D f"
  shows "emits (put_feature D f) new_ostream (enc_feature D f)"
  using assms unfolding put_feature_def enc_feature_def Let_def fid_ok_def
  by (auto intro!: emits_after [OF writes_put_string] emits_after [OF writes_put_unsigned]
      map_codec.put_emits)

lemma put_feature_new:
  assumes "fid_ok D f"
  obtains st where "put_feature D f = Inr st" "owf st" "obits st = enc_feature D f"
  using put_feature_emits [OF assms] by (auto simp: emits_def writes_def)

lemma get_payload_gives:
  assumes "fid_ok D f" "iwf st"
    "ibits st = enc_string (fid_query f) @ enc_unsigned (ucast (fid_seq f)) @
       enc_value_map D (fid_params f) @ r"
  shows "get_payload D st = Inr (f\<lparr>fid_seq := 0\<rparr>)"
proof -
  let ?m = "\<lambda>st. rbind (get_unsigned st) (\<lambda>(_, st).
      rbind (get_value_map D st) (\<lambda>(params, st). Inr (fid_new (fid_query f) params)))"
  have last: "rbind (get_value_map D st) (\<lambda>(params, st). Inr (fid_new (fid_query f) params)) =
      Inr (f\<lparr>fid_seq := 0\<rparr>)"
    if "iwf st" "ibits st = enc_value_map D (fid_params f) @ r" for st
    using map_codec.get_gives [OF _ that] assms(1)
    by (auto simp: gives_def fid_ok_def fid_new_def)
  have "?m st = Inr (f\<lparr>fid_seq := 0\<rparr>)"
    if "iwf st" "ibits st = enc_unsigned (ucast (fid_seq f)) @ enc_value_map D (fid_params f) @ r" for st
    using gives_get_unsigned [OF that] by (auto simp: gives_def last)
  then have "rbind (get_string st) (\<lambda>(query, st). rbind (get_unsigned st) (\<lambda>(_, st).
      rbind (get_value_map D st) (\<lambda>(params, st). Inr (fid_new query params)))) = Inr (f\<lparr>fid_seq := 0\<rparr>)"
    using string_codec.get_gives [OF _ assms(2,3)] assms(1) by (auto simp: gives_def fid_ok_def)
  then show ?thesis by (simp add: get_payload_def)
qed

lemma raw_data_nonempty: "owf st \<Longrightarrow> 0 < length (raw_data st)"
  by (auto simp: raw_data_def owf_def)

lemma create_payload:
  assumes law: "digest_law sha" "base64_law b64e b64d" and raw: "0 < length raw"
  shows "create_from_id D sha b64d (fid_prefix @ map url_char (b64e (digest sha raw @ raw))) =
    rbind (get_string (new_istream raw)) (\<lambda>(typ, st).
      if typ \<noteq> ''SQ'' then Inl (Thrown NoCode ''incorrect type'')
      else rbind (get_unsigned st) (\<lambda>(revision, st).
        if (ucast revision :: 32 word) \<noteq> FEATURE_ID_REVISION
        then Inl (Thrown NoCode ''revision mismatch'')
        else get_payload D st))"
proof -
  let ?raw_id = "digest sha raw @ raw"
  have len: "length (digest sha raw) = SHA_DIGEST_LENGTH"
    using law(1) by (simp add: digest_law_def digest_def)
  have dec: "b64d (map base64_char (map url_char (b64e ?raw_id))) = ?raw_id"
    using base64_url [OF law(2)] by simp
  have pre: "drop 4 (fid_prefix @ t) = t" "take (length fid_prefix) (fid_prefix @ t) = fid_prefix" for t
    by (simp_all add: fid_prefix_def)
  show ?thesis
    using len raw unfolding create_from_id_def Let_def
    by (simp only: pre dec) (simp add: Suc_le_eq)
qed

lemma create_from_get_id:
  assumes "digest_law sha" "base64_law b64e b64d" "fid_ok D f"
  shows "rbind (get_id D sha b64e f) (create_from_id D sha b64d) = Inr (f\<lparr>fid_seq := 0\<rparr>)"
proof -
  obtain st where st: "put_feature D f = Inr st" "owf st" "obits st = enc_feature D f"
    using put_feature_new [OF assms(3)] .
  let ?pad = "replicate (8 - o_num_bits st) False"
  let ?in = "new_istream (raw_data st)"
  have bits: "iwf ?in" "ibits ?in = enc_string ''SQ'' @ enc_unsigned (ucast FEATURE_ID_REVISION) @
      enc_string (fid_query f) @ enc_unsigned (ucast (fid_seq f)) @ enc_value_map D (fid_params f) @ ?pad"
    using ibits_raw_data [OF st(2)] st(3) by (simp_all add: enc_feature_def)
  obtain st1 where st1: "get_string ?in = Inr (''SQ'', st1)" "iwf st1"
      "ibits st1 = enc_unsigned (ucast FEATURE_ID_REVISION) @
      enc_string (fid_query f) @ enc_unsigned (ucast (fid_seq f)) @ enc_value_map D (fid_params f) @ ?pad"
    using string_codec.get_gives [OF _ bits] by (auto simp: gives_def)
  obtain st2 where st2: "get_unsigned st1 = Inr (ucast FEATURE_ID_REVISION, st2)" "iwf st2"
      "ibits st2 = enc_string (fid_query f) @ enc_unsigned (ucast (fid_seq f)) @
        enc_value_map D (fid_params f) @ ?pad"
    using gives_get_unsigned [OF st1(2,3)] by (auto simp: gives_def)
  show ?thesis
    using create_payload [OF assms(1,2) raw_data_nonempty [OF st(2)], of D]
    by (simp add: get_id_def Let_def st(1) st1(1) st2(1) ucast_ucast_back
        get_payload_gives [OF assms(3) st2(2,3)] digest_def)
qed

text \<open>The serialisation is uniquely decodable, also through the padding of the last byte.\<close>

lemma enc_feature_unique:
  assumes "fid_ok D f" "fid_ok D g" "enc_feature D f @ r = enc_feature D g @ s"
  shows "f = g"
proof -
  note eqn = assms(3) [unfolded enc_feature_def append_assoc same_append_eq]
  have query: "length (fid_query f) < 2 ^ 32" "length (fid_query g) < 2 ^ 32"
    and params: "value_map_ok D (fid_params f)" "value_map_ok D (fid_params g)"
    using assms(1,2) by (simp_all add: fid_ok_def)
  note q = string_codec.uniquely_decodable [OF query eqn]
  note n = unsigned_codec.uniquely_decodable [OF TrueI TrueI q(2)]
  note p = map_codec.uniquely_decodable [OF params n(2)]
  have "fid_seq f = fid_seq g"
    using n(1) by (metis ucast_ucast_back)
  with q(1) p(1) show ?thesis by simp
qed

lemma get_id_inj:
  assumes law: "digest_law sha" "base64_law b64e b64d"
    and ok: "fid_ok D f" "fid_ok D g"
    and ids: "get_id D sha b64e f = Inr str" "get_id D sha b64e g = Inr str"
  shows "f = g"
proof -
  obtain sf where sf: "put_feature D f = Inr sf" "owf sf" "obits sf = enc_feature D f"
    using put_feature_new [OF ok(1)] .
  obtain sg where sg: "put_feature D g = Inr sg" "owf sg" "obits sg = enc_feature D g"
    using put_feature_new [OF ok(2)] .
  let ?id = "\<lambda>st. digest sha (raw_data st) @ raw_data st"
  have "map url_char (b64e (?id sf)) = map url_char (b64e (?id sg))"
    using ids sf(1) sg(1) by (auto simp: get_id_def Let_def)
  then have "b64d (map (base64_char \<circ> url_char) (b64e (?id sf))) =
      b64d (map (base64_char \<circ> url_char) (b64e (?id sg)))"
    by (metis map_map)
  then have "?id sf = ?id sg"
    by (simp add: base64_url [OF law(2)] del: map_map)
  moreover have "length (digest sha (raw_data sf)) = length (digest sha (raw_data sg))"
    using law(1) by (simp add: digest_law_def digest_def)
  ultimately have "raw_data sf = raw_data sg" by simp
  with ibits_raw_data(2) [OF sf(2)] ibits_raw_data(2) [OF sg(2)] sf(3) sg(3)
  show ?thesis using enc_feature_unique [OF ok] by metis
qed

lemma fid_prefix_length: "length fid_prefix = 4"
  by (simp add: fid_prefix_def)

lemma create_from_id_accepts:
  assumes "create_from_id D sha b64d str = Inr f"
  obtains body mac raw where
    "str = fid_prefix @ body" "b64d (map base64_char body) = mac @ raw"
    "length mac = SHA_DIGEST_LENGTH" "mac = digest sha raw" "raw \<noteq> []"
    "fid_seq f = 0"
proof
  let ?id = "b64d (map base64_char (drop 4 str))"
  let ?raw = "drop SHA_DIGEST_LENGTH ?id"
  from assms have pre: "take (length fid_prefix) str = fid_prefix"
    and len: "SHA_DIGEST_LENGTH + 1 \<le> length ?id"
    and mac: "digest sha ?raw = take SHA_DIGEST_LENGTH ?id"
    by (auto simp: create_from_id_def Let_def split: if_splits)
  show "str = fid_prefix @ drop 4 str"
    using pre append_take_drop_id [of "length fid_prefix" str]
    by (metis fid_prefix_length)
  show "?id = take SHA_DIGEST_LENGTH ?id @ ?raw" by simp
  show "length (take SHA_DIGEST_LENGTH ?id) = SHA_DIGEST_LENGTH" using len by simp
  show "take SHA_DIGEST_LENGTH ?id = digest sha ?raw" using mac by simp
  show "?raw \<noteq> []" using len by simp
  show "fid_seq f = 0"
    using assms by (auto simp: create_from_id_def get_payload_def fid_new_def Let_def result_simps
        split: if_splits sum.splits error.splits)
qed

section \<open>Instances of the parameters\<close>

text \<open>
  Concrete functions that satisfy the laws, for the witnesses: a Base64 stand-in with two
  letters for a byte, a constant digest and date-times that are their own components.
\<close>

definition nibble_char :: "nat \<Rightarrow> char" where
  "nibble_char n = char_of (97 + n)"

fun demo_encode :: "byte list \<Rightarrow> string" where
  "demo_encode [] = []"
| "demo_encode (b # bs) = nibble_char (unat b div 16) # nibble_char (unat b mod 16) # demo_encode bs"

fun demo_decode :: "string \<Rightarrow> byte list" where
  "demo_decode (c # d # cs) = of_nat (16 * (of_char c - 97) + (of_char d - 97)) # demo_decode cs"
| "demo_decode _ = []"

definition demo_sha :: "byte list \<Rightarrow> byte list" where
  "demo_sha x = replicate 20 (of_nat (length x))"

type_synonym demo_dt = "32 word \<times> 32 word \<times> 32 word \<times> 32 word"

definition demo_dt :: "demo_dt dt_ops" where
  "demo_dt = \<lparr>dt_special = (\<lambda>_. False), dt_is_nat = (\<lambda>_. False), dt_is_neg = (\<lambda>_. False),
     dt_is_pos = (\<lambda>_. False), dt_year = (\<lambda>(y, _, _, _). y), dt_month = (\<lambda>(_, m, _, _). m),
     dt_day = (\<lambda>(_, _, d, _). d), dt_secs = (\<lambda>(_, _, _, s). ucast s),
     dt_make = (\<lambda>y m d s. Some (y, m, d, s)),
     dt_NAT = (0, 0, 0, 0), dt_NEG = (0, 0, 0, 0), dt_POS = (0, 0, 0, 0)\<rparr>"

lemma demo_digest_law: "digest_law demo_sha"
  by (simp add: digest_law_def demo_sha_def SHA_DIGEST_LENGTH_def)

lemma of_char_nibble: "n < 16 \<Longrightarrow> (of_char (nibble_char n) :: nat) = 97 + n"
  by (simp add: nibble_char_def)

lemma nibble_isalnum: "n < 16 \<Longrightarrow> isalnum (nibble_char n)"
  by (simp add: isalnum_def of_char_nibble)

lemma demo_base64_law: "base64_law demo_encode demo_decode"
proof -
  have "demo_decode (demo_encode bs) = bs \<and> list_all (\<lambda>c. isalnum c \<or> c \<in> set ''+/='') (demo_encode bs)"
    for bs
  proof (induction bs)
    case Nil
    show ?case by simp
  next
    case (Cons b bs)
    have "unat b < 256" using unsigned_less [of b] by simp
    then have hi: "unat b div 16 < 16" by auto
    have lo: "unat b mod 16 < 16" by simp
    have "16 * (unat b div 16) + unat b mod 16 = unat b" by simp
    with Cons.IH hi lo show ?case
      by (simp add: of_char_nibble nibble_isalnum)
  qed
  then show ?thesis by (simp add: base64_law_def)
qed

definition demo_id :: "demo_dt feature_id" where
  "demo_id = \<lparr>fid_query = ''q'', fid_params =
     [(''a'', VInt (- 5)), (''a'', VString ''x''), (''t'', VTime (2024, 2, 29, 60))], fid_seq = 7\<rparr>"

lemma demo_id_ok: "fid_ok demo_dt demo_id"
  by (simp add: fid_ok_def demo_id_def value_map_ok_def mm_sorted_def value_ok_def INT64_MIN_def
      dt_ok_def demo_dt_def ucast_ucast_back)

section \<open>Properties\<close>

text \<open>
  C1.  An identifier produced by \<open>get_id\<close> for a query whose strings fit the 32 bit length
  field and whose values are encodable is accepted by \<open>create_from_id\<close> and gives back the
  query and all its parameters, with the sequence number cleared.
\<close>

theorem feature_id_round_trip:
  assumes "digest_law sha" and "base64_law b64e b64d" and "fid_ok D f"
  shows "\<exists>str. get_id D sha b64e f = Inr str \<and> create_from_id D sha b64d str = Inr (f\<lparr>fid_seq := 0\<rparr>)"
  using create_from_get_id [OF assms] by (simp add: result_simps)

lemma feature_id_round_trip_witness:
  "\<exists>str. get_id demo_dt demo_sha demo_encode demo_id = Inr str \<and>
     create_from_id demo_dt demo_sha demo_decode str = Inr (demo_id\<lparr>fid_seq := 0\<rparr>)"
  using feature_id_round_trip [OF demo_digest_law demo_base64_law demo_id_ok] .

text \<open>
  Two feature identifiers with the same text stand for the same stored query, the same
  parameters and the same sequence number; so the sequence number keeps apart the results of
  repeated identical queries of one request.
\<close>

theorem feature_id_unique:
  assumes "digest_law sha" and "base64_law b64e b64d" and "fid_ok D f" and "fid_ok D g"
    and "f \<noteq> g"
  shows "get_id D sha b64e f \<noteq> get_id D sha b64e g"
proof
  assume same: "get_id D sha b64e f = get_id D sha b64e g"
  from create_from_get_id [OF assms(1-3)] obtain str where "get_id D sha b64e f = Inr str"
    by (auto simp: result_simps)
  with same have "get_id D sha b64e g = Inr str" by simp
  with get_id_inj [OF assms(1-4)] \<open>get_id D sha b64e f = Inr str\<close> assms(5) show False by blast
qed

lemma feature_id_unique_witness:
  "get_id demo_dt demo_sha demo_encode demo_id \<noteq>
   get_id demo_dt demo_sha demo_encode (demo_id\<lparr>fid_seq := 8\<rparr>)"
proof (rule feature_id_unique [OF demo_digest_law demo_base64_law demo_id_ok])
  show "fid_ok demo_dt (demo_id\<lparr>fid_seq := 8\<rparr>)"
    using demo_id_ok by (simp add: fid_ok_def)
  show "demo_id \<noteq> demo_id\<lparr>fid_seq := 8\<rparr>"
    by (simp add: demo_id_def)
qed

text \<open>
  C7.  \<open>create_from_id\<close> accepts only text that starts with the prefix and whose decoded body is
  the digest of the rest, keyed by \<open>magic\<close>; the parameters are read from exactly the signed
  bytes, and an accepted identifier has no sequence number.
\<close>

theorem create_from_id_checks_digest:
  assumes "create_from_id D sha b64d str = Inr f"
  shows "\<exists>body raw. str = fid_prefix @ body \<and> raw \<noteq> [] \<and> fid_seq f = 0 \<and>
    b64d (map base64_char body) = take SHA_DIGEST_LENGTH (sha (map char_byte magic @ raw)) @ raw"
proof (rule create_from_id_accepts [OF assms])
  fix body mac raw
  assume "str = fid_prefix @ body" "b64d (map base64_char body) = mac @ raw"
    "length mac = SHA_DIGEST_LENGTH" "mac = digest sha raw" "raw \<noteq> []" "fid_seq f = 0"
  then show ?thesis by (auto simp: digest_def)
qed

lemma create_from_id_checks_digest_witness:
  "\<exists>str f body raw. create_from_id demo_dt demo_sha demo_decode str = Inr f \<and>
    str = fid_prefix @ body \<and> raw \<noteq> [] \<and> fid_seq f = 0 \<and>
    demo_decode (map base64_char body) = take SHA_DIGEST_LENGTH (demo_sha (map char_byte magic @ raw)) @ raw"
proof -
  obtain str where "create_from_id demo_dt demo_sha demo_decode str = Inr (demo_id\<lparr>fid_seq := 0\<rparr>)"
    using create_from_get_id [OF demo_digest_law demo_base64_law demo_id_ok]
    by (auto simp: result_simps)
  with create_from_id_checks_digest [OF this] show ?thesis by blast
qed

end
