(* ===== verification/Qi.thy ===== *)
theory Qi
  imports Prelude
begin

text \<open>
  The parsers of Boost.Spirit that the grammars of the plugin are composed of, with the white
  space skipper \<open>ns::space\<close> of \<open>qi::phrase_parse\<close>: every primitive parser first skips white
  space, a \<open>qi::lexeme\<close> skips it once and not inside.  A parser takes the remaining input and
  returns what is left of it, or fails and leaves the input to the next alternative.  The
  decimal notation of stream output is here too.
\<close>

section \<open>Primitive parsers\<close>

definition qi_skip :: "string \<Rightarrow> string" where
  "qi_skip s = dropWhile isspace s"

definition qi_char :: "char \<Rightarrow> string \<Rightarrow> string option" where
  "qi_char c s = (case qi_skip s of [] \<Rightarrow> None | d # r \<Rightarrow> if d = c then Some r else None)"

definition qi_string :: "string \<Rightarrow> string \<Rightarrow> string option" where
  "qi_string w s =
     (let r = qi_skip s in if take (length w) r = w then Some (drop (length w) r) else None)"

definition qi_eoi :: "string \<Rightarrow> bool" where
  "qi_eoi s \<longleftrightarrow> qi_skip s = []"

text \<open>\<open>qi::lexeme[+p]\<close> and \<open>qi::lexeme[*p]\<close> for a class of characters.\<close>

definition qi_plus :: "(char \<Rightarrow> bool) \<Rightarrow> string \<Rightarrow> (string \<times> string) option" where
  "qi_plus p s =
     (let r = qi_skip s; w = takeWhile p r in if w = [] then None else Some (w, dropWhile p r))"

definition qi_star :: "(char \<Rightarrow> bool) \<Rightarrow> string \<Rightarrow> string \<times> string" where
  "qi_star p s = (let r = qi_skip s in (takeWhile p r, dropWhile p r))"

definition digit_val :: "char \<Rightarrow> nat" where
  "digit_val c = of_char c - 48"

definition read_nat :: "string \<Rightarrow> nat" where
  "read_nat ds = foldl (\<lambda>n c. 10 * n + digit_val c) 0 ds"

text \<open>\<open>qi::uint_\<close> fails on a number that does not fit an \<open>unsigned\<close>.\<close>

definition qi_uint :: "string \<Rightarrow> (nat \<times> string) option" where
  "qi_uint s = (case qi_plus isdigit s of
       None \<Rightarrow> None
     | Some (ds, r) \<Rightarrow> if read_nat ds < 2 ^ 32 then Some (read_nat ds, r) else None)"

section \<open>Decimal notation\<close>

fun show_nat :: "nat \<Rightarrow> string" where
  "show_nat n = (if n < 10 then [char_of (48 + n)] else show_nat (n div 10) @ [char_of (48 + n mod 10)])"

declare show_nat.simps [simp del]

lemma digit_char: "n < 10 \<Longrightarrow> isdigit (char_of (48 + n)) \<and> digit_val (char_of (48 + n)) = n"
  by (simp add: isdigit_def digit_val_def)

lemma show_nat_digits: "show_nat n \<noteq> [] \<and> (\<forall>c \<in> set (show_nat n). isdigit c)"
proof (induction n rule: show_nat.induct)
  case (1 n)
  have mod: "isdigit (char_of (48 + n mod 10))"
    using digit_char [of "n mod 10"] by simp
  show ?case
  proof (cases "n < 10")
    case True
    then show ?thesis
      by (subst (1 2) show_nat.simps) (simp add: digit_char)
  next
    case False
    with 1 mod show ?thesis
      by (subst (1 2) show_nat.simps) auto
  qed
qed

lemma read_show_nat: "read_nat (show_nat n) = n"
proof (induction n rule: show_nat.induct)
  case (1 n)
  then show ?case
    by (subst show_nat.simps) (auto simp: read_nat_def digit_char)
qed

section \<open>What the parsers do on printed text\<close>

lemma isdigit_not_space: "isdigit c \<Longrightarrow> \<not> isspace c"
  by (auto simp: isdigit_def isspace_def Let_def)

lemma qi_skip_Cons: "\<not> isspace c \<Longrightarrow> qi_skip (c # s) = c # s"
  by (simp add: qi_skip_def)

lemma qi_skip_idem [simp]: "qi_skip (qi_skip s) = qi_skip s"
  by (simp add: qi_skip_def)

lemma qi_char_Cons: "\<not> isspace d \<Longrightarrow> qi_char c (d # s) = (if d = c then Some s else None)"
  by (simp add: qi_char_def qi_skip_Cons)

lemma qi_plus_append:
  assumes "w \<noteq> []" "\<forall>c \<in> set w. p c \<and> \<not> isspace c" "s = [] \<or> \<not> p (hd s)"
  shows "qi_plus p (w @ s) = Some (w, s)"
proof -
  have "qi_skip (w @ s) = w @ s"
    using assms(1,2) by (cases w) (auto simp: qi_skip_Cons)
  moreover have "takeWhile p (w @ s) = w" "dropWhile p (w @ s) = s"
    using assms(2,3) by (cases s; simp add: takeWhile_append dropWhile_append)+
  ultimately show ?thesis using assms(1) by (simp add: qi_plus_def Let_def)
qed

lemma qi_uint_show:
  assumes "n < 2 ^ 32" "s = [] \<or> \<not> isdigit (hd s)"
  shows "qi_uint (show_nat n @ s) = Some (n, s)"
proof -
  have "qi_plus isdigit (show_nat n @ s) = Some (show_nat n, s)"
    using show_nat_digits assms(2) by (intro qi_plus_append) (auto dest: isdigit_not_space)
  with assms(1) show ?thesis by (simp add: qi_uint_def read_show_nat)
qed

lemma qi_uint_bound: "qi_uint s = Some (n, r) \<Longrightarrow> n < 4294967296"
  by (auto simp: qi_uint_def split: option.splits if_splits)

end
