(* ===== verification/ParamMap.thy ===== *)
theory ParamMap
  imports Prelude
begin

text \<open>
  \<open>libwfs/RequestParameterMap.h\<close> and \<open>.cpp\<close>: the request parameters under names whose case may
  be ignored, and the substitution of parameter references in a string.  The values are of any
  type \<open>'v\<close>; \<open>lc\<close> is \<open>Fmi::ascii_tolower_copy\<close>, \<open>ts\<close> the conversion \<open>Value::to_string\<close> and
  \<open>conv\<close> the conversion \<open>Value::get<ValueType>\<close>, which may throw.
\<close>

section \<open>The map\<close>

record 'v param_info =
  pi_real_name :: string
  pi_value :: 'v

record 'v rpm =
  rpm_params :: "(string, 'v param_info) mmap"
  rpm_case_sensitive :: bool

definition SIZE_MAX :: nat where
  "SIZE_MAX = 2 ^ 64 - 1"

definition rpm_new :: "bool \<Rightarrow> 'v rpm" where
  "rpm_new cs = \<lparr>rpm_params = [], rpm_case_sensitive = cs\<rparr>"

definition rpm_key :: "(string \<Rightarrow> string) \<Rightarrow> 'v rpm \<Rightarrow> string \<Rightarrow> string" where
  "rpm_key lc m name = (if rpm_case_sensitive m then name else lc name)"

definition insert_value :: "(string \<Rightarrow> string) \<Rightarrow> string \<Rightarrow> 'v \<Rightarrow> 'v rpm \<Rightarrow> 'v rpm" where
  "insert_value lc name v m =
     m\<lparr>rpm_params := mm_insert (rpm_key lc m name) \<lparr>pi_real_name = name, pi_value = v\<rparr> (rpm_params m)\<rparr>"

definition remove_key :: "(string \<Rightarrow> string) \<Rightarrow> string \<Rightarrow> 'v rpm \<Rightarrow> 'v rpm" where
  "remove_key lc name m = m\<lparr>rpm_params := mm_erase (rpm_key lc m name) (rpm_params m)\<rparr>"

definition rpm_clear :: "'v rpm \<Rightarrow> 'v rpm" where
  "rpm_clear m = m\<lparr>rpm_params := []\<rparr>"

definition rpm_size :: "'v rpm \<Rightarrow> nat" where
  "rpm_size m = length (rpm_params m)"

definition rpm_count :: "(string \<Rightarrow> string) \<Rightarrow> 'v rpm \<Rightarrow> string \<Rightarrow> nat" where
  "rpm_count lc m name = mm_count (rpm_params m) (rpm_key lc m name)"

definition get_keys :: "'v rpm \<Rightarrow> string list" where
  "get_keys m = mm_keys (rpm_params m)"

definition get_values :: "(string \<Rightarrow> string) \<Rightarrow> 'v rpm \<Rightarrow> string \<Rightarrow> 'v list" where
  "get_values lc m name = map pi_value (mm_values (rpm_params m) (rpm_key lc m name))"

definition rpm_of_map :: "(string \<Rightarrow> string) \<Rightarrow> bool \<Rightarrow> (string, 'v) mmap \<Rightarrow> 'v rpm" where
  "rpm_of_map lc cs params = fold (\<lambda>(name, v). insert_value lc name v) params (rpm_new cs)"

definition get_map :: "bool \<Rightarrow> 'v rpm \<Rightarrow> (string, 'v) mmap" where
  "get_map cs m =
     fold (\<lambda>(key, pi). mm_insert (if cs then pi_real_name pi else key) (pi_value pi)) (rpm_params m) []"

definition rpm_add :: "(string \<Rightarrow> string) \<Rightarrow> string \<Rightarrow> 'v \<Rightarrow> bool \<Rightarrow> 'v rpm \<Rightarrow> 'v rpm" where
  "rpm_add lc name v replace m =
     insert_value lc name v (if replace then remove_key lc name m else m)"

definition rpm_add_vect :: "(string \<Rightarrow> string) \<Rightarrow> string \<Rightarrow> 'v list \<Rightarrow> bool \<Rightarrow> 'v rpm \<Rightarrow> 'v rpm" where
  "rpm_add_vect lc name vs replace m =
     fold (insert_value lc name) vs (if replace then remove_key lc name m else m)"

text \<open>\<open>dump_params\<close> appends the printed values to the entries of a template data hash.\<close>

definition dump_params :: "('v \<Rightarrow> string) \<Rightarrow> 'v rpm \<Rightarrow> (string \<Rightarrow> string list) \<Rightarrow> string \<Rightarrow> string list" where
  "dump_params ts m h =
     fold (\<lambda>(key, pi) h. h(pi_real_name pi := h (pi_real_name pi) @ [ts (pi_value pi)])) (rpm_params m) h"

definition as_string :: "('v \<Rightarrow> string) \<Rightarrow> 'v rpm \<Rightarrow> string" where
  "as_string shown m =
     (let tmp = get_map True m
      in ''(PARAMETERS'' @
         concat (map (\<lambda>key. '' ('' @ key @
             concat (map (\<lambda>v. '' '' @ shown v) (mm_values tmp key)) @ '')'') (mm_keys tmp)) @ '')'')"

section \<open>Typed access\<close>

text \<open>The loop of \<open>get\<close> checks the count before it converts the next value.\<close>

fun rpm_get_loop :: "('v \<Rightarrow> 'b result) \<Rightarrow> nat \<Rightarrow> nat \<Rightarrow> 'v list \<Rightarrow> 'b list \<Rightarrow> (nat \<times> 'b list) result" where
  "rpm_get_loop conv max_size cnt [] out = Inr (cnt, out)"
| "rpm_get_loop conv max_size cnt (v # vs) out =
     (if max_size < cnt + 1 then Inl (Thrown NoCode ''too many values'')
      else rbind (conv v) (\<lambda>x. rpm_get_loop conv max_size (cnt + 1) vs (out @ [x])))"

definition rpm_get ::
    "(string \<Rightarrow> string) \<Rightarrow> ('v \<Rightarrow> 'b result) \<Rightarrow> string \<Rightarrow> nat \<Rightarrow> nat \<Rightarrow> nat \<Rightarrow> 'v rpm \<Rightarrow> 'b list result" where
  "rpm_get lc conv name min_size max_size step m =
     rbind (rpm_get_loop conv max_size 0 (get_values lc m name) []) (\<lambda>(cnt, out).
       if cnt < min_size then Inl (Thrown NoCode ''too few values'')
       else if 1 < step \<and> cnt mod step \<noteq> 0 then Inl (Thrown NoCode ''incorrect number of values'')
       else Inr out)"

definition get_single :: "(string \<Rightarrow> string) \<Rightarrow> ('v \<Rightarrow> 'b result) \<Rightarrow> string \<Rightarrow> 'v rpm \<Rightarrow> 'b result" where
  "get_single lc conv name m =
     rbind (rpm_get lc conv name 1 1 0 m) (\<lambda>tmp.
       case tmp of [] \<Rightarrow> Inl (Thrown NoCode ''at'') | x # _ \<Rightarrow> Inr x)"

definition get_optional :: "(string \<Rightarrow> string) \<Rightarrow> ('v \<Rightarrow> 'b result) \<Rightarrow> string \<Rightarrow> 'v rpm \<Rightarrow> 'b option result" where
  "get_optional lc conv name m =
     rbind (rpm_get lc conv name 0 1 0 m) (\<lambda>tmp.
       case tmp of [] \<Rightarrow> Inr None | x # _ \<Rightarrow> Inr (Some x))"

definition get_optional_default ::
    "(string \<Rightarrow> string) \<Rightarrow> ('v \<Rightarrow> 'b result) \<Rightarrow> string \<Rightarrow> 'b \<Rightarrow> 'v rpm \<Rightarrow> 'b result" where
  "get_optional_default lc conv name dflt m =
     rbind (rpm_get lc conv name 0 1 0 m) (\<lambda>tmp.
       case tmp of [] \<Rightarrow> Inr dflt | x # _ \<Rightarrow> Inr x)"

section \<open>Substitution\<close>

definition write_ref_values :: "('v \<Rightarrow> string) \<Rightarrow> 'v list \<Rightarrow> bool \<Rightarrow> bool \<Rightarrow> string result" where
  "write_ref_values ts vals is_array is_optional =
     (if is_array
      then Inr (snd (fold (\<lambda>v (sep, out). ('','', out @ sep @ ts v)) vals ('''', '''')))
      else if 1 < length vals then Inl (Thrown NoCode ''Too many values'')
      else if \<not> is_optional \<and> vals = [] then Inl (Thrown NoCode ''mandatory value missing'')
      else Inr (case vals of [] \<Rightarrow> '''' | v # _ \<Rightarrow> ts v))"

definition is_name_char :: "char \<Rightarrow> bool" where
  "is_name_char c \<longleftrightarrow> isalnum c \<or> c = CHR ''_''"

text \<open>\<open>subst_ref\<close>, given the text after the dollar sign; it returns the text after the reference.\<close>

definition ref_flags :: "string \<Rightarrow> bool \<times> bool \<times> string" where
  "ref_flags src =
     (case src of
        [] \<Rightarrow> (False, False, src)
      | c # cs \<Rightarrow>
          if c = CHR ''?'' then (False, True, cs)
          else if c = CHR ''*'' then (True, False, cs)
          else (False, False, src))"

definition subst_ref ::
    "(string \<Rightarrow> string) \<Rightarrow> ('v \<Rightarrow> string) \<Rightarrow> 'v rpm \<Rightarrow> string \<Rightarrow> (string \<times> string) result" where
  "subst_ref lc ts m src =
     (case src of
        [] \<Rightarrow> Inl (Thrown NoCode ''Missing brace'')
      | c # src \<Rightarrow>
          if c \<noteq> CHR ''{'' then Inl (Thrown NoCode ''Missing brace'')
          else let (is_array, is_optional, src) = ref_flags src
            in (case dropWhile is_name_char src of
                  [] \<Rightarrow> Inl (Thrown NoCode ''Invalid parameter name'')
                | c # rest \<Rightarrow>
                    if c \<noteq> CHR ''}'' then Inl (Thrown NoCode ''Invalid parameter name'')
                    else rbind (write_ref_values ts (get_values lc m (takeWhile is_name_char src))
                             is_array is_optional)
                           (\<lambda>s. Inr (s, rest))))"

lemma ref_flags_length: "ref_flags src = (a, b, rest) \<Longrightarrow> length rest \<le> length src"
  by (auto simp: ref_flags_def split: list.splits if_splits)

lemma subst_ref_shorter:
  assumes "subst_ref lc ts m src = Inr (s, rest)"
  shows "length rest < length src"
proof (cases src)
  case Nil
  with assms show ?thesis by (simp add: subst_ref_def)
next
  case (Cons c cs)
  obtain a b cs' where flags: "ref_flags cs = (a, b, cs')" by (cases "ref_flags cs") auto
  have "length (dropWhile is_name_char cs') \<le> length cs'"
    by (rule length_dropWhile_le)
  moreover from assms Cons flags obtain d where "dropWhile is_name_char cs' = d # rest"
    by (auto simp: subst_ref_def result_simps split: list.splits if_splits)
  ultimately show ?thesis
    using ref_flags_length [OF flags] Cons by simp
qed

function subst_loop :: "(string \<Rightarrow> string) \<Rightarrow> ('v \<Rightarrow> string) \<Rightarrow> 'v rpm \<Rightarrow> string \<Rightarrow> string \<Rightarrow> string result" where
  "subst_loop lc ts m [] out = Inr out"
| "subst_loop lc ts m (c # src) out =
     (if c = CHR 0x5C
      then (case src of [] \<Rightarrow> Inl (Thrown NoCode ''Unexpected end'') | d # src \<Rightarrow> subst_loop lc ts m src (out @ [d]))
      else if c = CHR ''$''
      then rbind (subst_ref lc ts m src) (\<lambda>(s, rest). subst_loop lc ts m rest (out @ s))
      else subst_loop lc ts m src (out @ [c]))"
  by pat_completeness auto
termination
  by (relation "measure (\<lambda>(lc, ts, m, src, out). length src)") (auto dest: subst_ref_shorter)

definition subst :: "(string \<Rightarrow> string) \<Rightarrow> ('v \<Rightarrow> string) \<Rightarrow> 'v rpm \<Rightarrow> string \<Rightarrow> string result" where
  "subst lc ts m src = subst_loop lc ts m (c_str src) []"

section \<open>The map as a store of values\<close>

definition rpm_wf :: "(string \<Rightarrow> string) \<Rightarrow> 'v rpm \<Rightarrow> bool" where
  "rpm_wf lc m \<longleftrightarrow> mm_sorted (rpm_params m) \<and>
     list_all (\<lambda>(key, pi). key = rpm_key lc m (pi_real_name pi)) (rpm_params m)"

lemma rpm_wf_new [simp]: "rpm_wf lc (rpm_new cs)"
  by (simp add: rpm_wf_def rpm_new_def)

lemma rpm_key_update [simp]: "rpm_key lc (m\<lparr>rpm_params := p\<rparr>) = rpm_key lc m"
  by (simp add: rpm_key_def fun_eq_iff)

interpretation rpm_store: value_store "get_values lc" "insert_value lc" "remove_key lc" "rpm_wf lc"
  "\<lambda>m k k'. rpm_key lc m k = rpm_key lc m k'" for lc
proof
  fix m :: "'v rpm" and k k' v
  show "rpm_wf lc m \<Longrightarrow> rpm_wf lc (insert_value lc k v m)"
    by (simp add: rpm_wf_def insert_value_def mm_simps list_all_iff set_mm_insert)
  show "rpm_wf lc m \<Longrightarrow> rpm_wf lc (remove_key lc k m)"
    by (simp add: rpm_wf_def remove_key_def mm_simps list_all_iff) (simp add: mm_erase_def)
  show "rpm_wf lc m \<Longrightarrow> get_values lc (insert_value lc k v m) k' =
      get_values lc m k' @ (if rpm_key lc m k = rpm_key lc m k' then [v] else [])"
    by (simp add: rpm_wf_def get_values_def insert_value_def mm_simps)
  show "rpm_wf lc m \<Longrightarrow> get_values lc (remove_key lc k m) k' =
      (if rpm_key lc m k = rpm_key lc m k' then [] else get_values lc m k')"
    by (simp add: get_values_def remove_key_def mm_simps)
qed (simp_all add: insert_value_def remove_key_def)

lemma rpm_add_vect_values:
  "rpm_wf lc m \<Longrightarrow> get_values lc (rpm_add_vect lc name vs replace m) k =
    (if rpm_key lc m name = rpm_key lc m k
     then (if replace then vs else get_values lc m k @ vs) else get_values lc m k)"
  by (simp add: rpm_add_vect_def rpm_store.lookup_replace rpm_store.lookup_fold)

lemma rpm_add_vect_wf: "rpm_wf lc m \<Longrightarrow> rpm_wf lc (rpm_add_vect lc name vs replace m)"
  by (simp add: rpm_add_vect_def rpm_store.inv_fold rpm_store.inv_del)

lemma rpm_of_map_wf: "rpm_wf lc (rpm_of_map lc cs params)"
proof -
  have "rpm_wf lc m \<Longrightarrow> rpm_wf lc (fold (\<lambda>(name, v). insert_value lc name v) params m)" for m
    by (induction params arbitrary: m) (auto simp: rpm_store.inv_ins)
  then show ?thesis by (simp add: rpm_of_map_def)
qed

text \<open>The values entered under exactly the name \<open>n\<close>, in the order of their insertion.\<close>

definition named_values :: "'v rpm \<Rightarrow> string \<Rightarrow> 'v list" where
  "named_values m n = map (\<lambda>(key, pi). pi_value pi) (filter (\<lambda>(key, pi). pi_real_name pi = n) (rpm_params m))"

lemma filter_mm_insert:
  assumes "\<forall>p \<in> set m. P p \<longrightarrow> fst p = k"
  shows "mm_sorted m \<Longrightarrow> P (k, v) \<Longrightarrow> filter P (mm_insert k v m) = filter P m @ [(k, v)]"
    and "\<not> P (k', v) \<Longrightarrow> filter P (mm_insert k' v m) = filter P m"
  using assms
proof (induction m)
  case (Cons p m)
  {
    case 1
    show ?case
    proof (cases "k < fst p")
      case True
      with 1 have "\<forall>q \<in> set (p # m). k < fst q"
        by (auto simp: mm_sorted_def)
      with 1(3) have "filter P (p # m) = []"
        by (metis filter_False order_less_irrefl)
      with True 1(2) show ?thesis by simp
    next
      case False
      with 1 Cons.IH(1) show ?thesis by (auto simp: mm_sorted_def)
    qed
  next
    case 2
    with Cons.IH(2) show ?case by auto
  }
qed simp_all

lemma named_values_insert:
  assumes "rpm_wf lc m"
  shows "named_values (insert_value lc k v m) n = named_values m n @ (if k = n then [v] else [])"
proof -
  let ?P = "\<lambda>(key, pi). pi_real_name pi = n"
  have key: "\<forall>p \<in> set (rpm_params m). ?P p \<longrightarrow> fst p = rpm_key lc m n"
    using assms by (auto simp: rpm_wf_def list_all_iff)
  show ?thesis
    using assms filter_mm_insert [OF key]
    by (cases "k = n") (simp_all add: named_values_def insert_value_def rpm_wf_def)
qed

lemma named_values_of_map: "named_values (rpm_of_map lc cs params) n = mm_values params n"
proof -
  have "rpm_wf lc m \<Longrightarrow> named_values (fold (\<lambda>(name, v). insert_value lc name v) params m) n =
      named_values m n @ mm_values params n" for m
    by (induction params arbitrary: m)
      (auto simp: named_values_insert rpm_store.inv_ins mm_values_Cons)
  from this [of "rpm_new cs"] show ?thesis
    by (simp add: rpm_of_map_def) (simp add: named_values_def rpm_new_def)
qed

lemma get_map_sorted: "mm_sorted (get_map cs m)"
proof -
  have "mm_sorted r \<Longrightarrow> mm_sorted (fold (\<lambda>(key, pi). mm_insert (if cs then pi_real_name pi else key) (pi_value pi)) ps r)"
    for r and ps :: "(string \<times> 'a param_info) list"
    by (induction ps arbitrary: r) (auto simp: mm_simps)
  then show ?thesis by (simp add: get_map_def)
qed

lemma get_map_values: "mm_values (get_map True m) n = named_values m n"
proof -
  have "mm_sorted r \<Longrightarrow> mm_values (fold (\<lambda>(key, pi). mm_insert (pi_real_name pi) (pi_value pi)) ps r) n =
      mm_values r n @ map (\<lambda>(key, pi). pi_value pi) (filter (\<lambda>(key, pi). pi_real_name pi = n) ps)"
    for r and ps :: "(string \<times> 'a param_info) list"
    by (induction ps arbitrary: r) (auto simp: mm_simps)
  then show ?thesis by (simp add: get_map_def named_values_def)
qed

lemma get_map_of_map: "mm_sorted params \<Longrightarrow> get_map True (rpm_of_map lc cs params) = params"
  by (rule mm_ext) (simp_all add: get_map_sorted get_map_values named_values_of_map)

section \<open>Typed access is total counting and conversion\<close>

lemma rpm_get_loop_iff:
  "rpm_get_loop conv mx cnt vs out = Inr (n, xs) \<longleftrightarrow>
     (vs = [] \<or> cnt + length vs \<le> mx) \<and> n = cnt + length vs \<and>
     (\<exists>ys. map_result conv vs = Inr ys \<and> xs = out @ ys)"
  by (induction conv mx cnt vs out rule: rpm_get_loop.induct) (auto simp: result_simps)

lemma rpm_get_iff:
  "rpm_get lc conv name mn mx step m = Inr xs \<longleftrightarrow>
     (let vs = get_values lc m name; n = length vs
      in (n = 0 \<or> n \<le> mx) \<and> mn \<le> n \<and> (1 < step \<longrightarrow> step dvd n) \<and> map_result conv vs = Inr xs)"
  by (auto simp: rpm_get_def result_simps rpm_get_loop_iff Let_def mod_eq_0_iff_dvd
      split: if_splits)

section \<open>What a substitution means\<close>

text \<open>
  A template is a sequence of literal pieces and references; \<open>render_piece\<close> writes a piece in
  the syntax of \<open>subst\<close> and \<open>eval_piece\<close> is the text it stands for.
\<close>

datatype ref_kind = Mandatory | Optional | Array

datatype tpiece = TLit string | TRef ref_kind string

fun render_kind :: "ref_kind \<Rightarrow> string" where
  "render_kind Mandatory = ''''"
| "render_kind Optional = ''?''"
| "render_kind Array = ''*''"

fun render_piece :: "tpiece \<Rightarrow> string" where
  "render_piece (TLit s) =
     concat (map (\<lambda>c. if c = CHR 0x5C \<or> c = CHR ''$'' then [CHR 0x5C, c] else [c]) s)"
| "render_piece (TRef k name) = ''${'' @ render_kind k @ name @ ''}''"

fun join_with :: "string \<Rightarrow> string list \<Rightarrow> string" where
  "join_with sep [] = []"
| "join_with sep [w] = w"
| "join_with sep (w # ws) = w @ sep @ join_with sep ws"

fun eval_piece :: "(string \<Rightarrow> string) \<Rightarrow> ('v \<Rightarrow> string) \<Rightarrow> 'v rpm \<Rightarrow> tpiece \<Rightarrow> string result" where
  "eval_piece lc ts m (TLit s) = Inr s"
| "eval_piece lc ts m (TRef k name) =
     (case (k, get_values lc m name) of
        (Array, vs) \<Rightarrow> Inr (join_with '','' (map ts vs))
      | (_, [v]) \<Rightarrow> Inr (ts v)
      | (Optional, []) \<Rightarrow> Inr ''''
      | (Mandatory, []) \<Rightarrow> Inl (Thrown NoCode ''mandatory value missing'')
      | _ \<Rightarrow> Inl (Thrown NoCode ''Too many values''))"

fun piece_ok :: "tpiece \<Rightarrow> bool" where
  "piece_ok (TLit s) = list_all (\<lambda>c. c \<noteq> CHR 0x00) s"
| "piece_ok (TRef k name) = list_all is_name_char name"

lemma write_array_fold:
  "vs \<noteq> [] \<Longrightarrow> snd (fold (\<lambda>v (sep, out). ('','', out @ sep @ ts v)) vs (sep0, out)) =
    out @ sep0 @ join_with '','' (map ts vs)"
proof (induction vs arbitrary: sep0 out)
  case (Cons v vs)
  then show ?case
    using Cons.IH [of "'',''" "out @ sep0 @ ts v"] by (cases vs) simp_all
qed simp

lemma write_ref_values_eval:
  "write_ref_values ts (get_values lc m name) (k = Array) (k = Optional) = eval_piece lc ts m (TRef k name)"
proof (cases "get_values lc m name")
  case Nil
  then show ?thesis by (cases k) (simp_all add: write_ref_values_def)
next
  case (Cons v vs)
  then show ?thesis
    using write_array_fold [of "v # vs" ts "''''" "''''"]
    by (cases k; cases vs) (simp_all add: write_ref_values_def)
qed

lemma is_name_char_neq: "is_name_char c \<Longrightarrow> c \<noteq> CHR ''?'' \<and> c \<noteq> CHR ''*'' \<and> c \<noteq> CHR ''}'' \<and> c \<noteq> CHR 0x00"
  by (auto simp: is_name_char_def isalnum_def)

lemma not_name_brace: "\<not> is_name_char (CHR ''}'')"
  by (simp add: is_name_char_def isalnum_def)

lemma subst_ref_render:
  assumes "list_all is_name_char name"
  shows "subst_ref lc ts m (CHR ''{'' # render_kind k @ name @ CHR ''}'' # rest) =
    rbind (eval_piece lc ts m (TRef k name)) (\<lambda>s. Inr (s, rest))"
proof -
  have flags: "ref_flags (render_kind k @ name @ CHR ''}'' # rest) =
      (k = Array, k = Optional, name @ CHR ''}'' # rest)"
    using assms by (cases k; cases name) (auto simp: ref_flags_def dest: is_name_char_neq)
  have scan: "takeWhile is_name_char (name @ CHR ''}'' # rest) = name"
    "dropWhile is_name_char (name @ CHR ''}'' # rest) = CHR ''}'' # rest"
    using assms by (auto simp: list_all_iff takeWhile_append dropWhile_append not_name_brace)
  show ?thesis
    by (simp add: subst_ref_def flags scan write_ref_values_eval)
qed

lemma subst_loop_literal:
  "subst_loop lc ts m (render_piece (TLit s) @ rest) out = subst_loop lc ts m rest (out @ s)"
  by (induction s arbitrary: out) simp_all

lemma subst_loop_render:
  assumes "list_all piece_ok ps"
  shows "subst_loop lc ts m (concat (map render_piece ps)) out =
    rbind (map_result (eval_piece lc ts m) ps) (\<lambda>ss. Inr (out @ concat ss))"
  using assms
proof (induction ps arbitrary: out)
  case Nil
  then show ?case by simp
next
  case (Cons p ps)
  have ok: "list_all piece_ok ps" using Cons.prems by simp
  show ?case
  proof (cases p)
    case (TLit s)
    then show ?thesis
      using Cons.IH [OF ok] subst_loop_literal [of lc ts m s "concat (map render_piece ps)" out]
      by (simp add: rbind_assoc del: render_piece.simps)
  next
    case (TRef k name)
    then have "list_all is_name_char name" using Cons.prems by simp
    from subst_ref_render [OF this, of lc ts m k "concat (map render_piece ps)"] show ?thesis
      using Cons.IH [OF ok] TRef
      by (simp add: rbind_assoc del: eval_piece.simps)
  qed
qed

lemma render_no_nul: "list_all piece_ok ps \<Longrightarrow> c_str (concat (map render_piece ps)) = concat (map render_piece ps)"
proof -
  have piece: "CHR 0x00 \<notin> set (render_piece p)" if "piece_ok p" for p
  proof (cases p)
    case (TLit s)
    with that show ?thesis by (auto simp: list_all_iff split: if_splits)
  next
    case (TRef k name)
    with that show ?thesis by (cases k) (auto simp: list_all_iff dest: is_name_char_neq)
  qed
  assume "list_all piece_ok ps"
  with piece show ?thesis
    unfolding c_str_def by (subst takeWhile_eq_all_conv) (fastforce simp: list_all_iff)
qed

section \<open>Properties\<close>

text \<open>
  Replacing or appending a list of values under a name changes the values of exactly the
  names that fold to the same key, and keeps the map well formed.
\<close>

theorem add_vect_lookup:
  assumes "rpm_wf lc m"
  shows "rpm_wf lc (rpm_add_vect lc name vs replace m) \<and>
    get_values lc (rpm_add_vect lc name vs replace m) k =
      (if rpm_key lc m name = rpm_key lc m k
       then (if replace then vs else get_values lc m k @ vs) else get_values lc m k)"
  using rpm_add_vect_values [OF assms] rpm_add_vect_wf [OF assms] by blast

lemma add_vect_lookup_witness:
  "get_values ascii_lower (rpm_add_vect ascii_lower ''Year'' [1 :: nat, 2] True
     (insert_value ascii_lower ''YEAR'' 7 (rpm_new False))) ''year'' = [1, 2]"
proof -
  have wf: "rpm_wf ascii_lower (insert_value ascii_lower ''YEAR'' (7 :: nat) (rpm_new False))"
    by (simp add: rpm_store.inv_ins)
  have key: "rpm_key ascii_lower (insert_value ascii_lower ''YEAR'' (7 :: nat) (rpm_new False)) ''Year'' =
      rpm_key ascii_lower (insert_value ascii_lower ''YEAR'' (7 :: nat) (rpm_new False)) ''year''"
    by code_simp
  show ?thesis
    using add_vect_lookup [OF wf, of "''Year''" "[1, 2]" True "''year''"] key by simp
qed

text \<open>
  A parameter map built from a multimap gives the same multimap back under the names as
  they were entered, whether names are folded or not: no value is lost, renamed or reordered.
\<close>

theorem request_map_round_trip:
  assumes "mm_sorted params"
  shows "get_map True (rpm_of_map lc cs params) = params"
  using assms by (rule get_map_of_map)

lemma request_map_round_trip_witness:
  "get_map True (rpm_of_map ascii_lower False [(''A'', 1 :: nat), (''B'', 2), (''a'', 3), (''a'', 0)]) =
     [(''A'', 1), (''B'', 2), (''a'', 3), (''a'', 0)]"
  by (rule request_map_round_trip) (simp add: mm_sorted_def)

text \<open>
  \<open>get\<close> returns exactly when the number of values of the name is within the limits and a
  multiple of the step and every value converts; it then returns all converted values in order.
\<close>

theorem typed_get_iff:
  "rpm_get lc conv name mn mx step m = Inr xs \<longleftrightarrow>
     (let vs = get_values lc m name; n = length vs
      in (n = 0 \<or> n \<le> mx) \<and> mn \<le> n \<and> (step \<le> 1 \<or> step dvd n) \<and>
         list_all2 (\<lambda>v x. conv v = Inr x) vs xs)"
  unfolding rpm_get_iff Let_def map_result_Inr_iff by auto

text \<open>
  C18.  Substitution means what its syntax says: escaped literals stand for themselves, a
  mandatory reference for its only value, an optional one for its value or nothing, an array
  one for all values separated by commas; the first reference that cannot be replaced is the
  error of the whole substitution.
\<close>

theorem subst_meaning:
  assumes "list_all piece_ok ps"
  shows "subst lc ts m (concat (map render_piece ps)) =
    rbind (map_result (eval_piece lc ts m) ps) (\<lambda>ss. Inr (concat ss))"
  using assms by (simp add: subst_def render_no_nul subst_loop_render)

lemma subst_meaning_witness:
  "subst ascii_lower (\<lambda>v. v)
     (insert_value ascii_lower ''P'' ''1'' (insert_value ascii_lower ''p'' ''2'' (rpm_new False)))
     (''x=${*p};'' @ [CHR 0x5C, CHR ''$''])  = Inr ''x=2,1;$''"
proof -
  let ?m = "insert_value ascii_lower ''P'' ''1'' (insert_value ascii_lower ''p'' ''2'' (rpm_new False))"
  have vals: "get_values ascii_lower ?m ''p'' = [''2'', ''1'']"
    by code_simp
  have "list_all piece_ok [TLit ''x='', TRef Array ''p'', TLit '';$'']"
    by (simp add: is_name_char_def isalnum_def)
  from subst_meaning [OF this, of ascii_lower "\<lambda>v. v" ?m] vals show ?thesis by simp
qed

end
