(* ===== verification/ParamItem.thy ===== *)
theory ParamItem
  imports Qi ParamMap BitValue
begin

text \<open>
  \<open>libwfs/ParameterTemplateItem.cpp\<close>: one item of the configuration of a handler parameter, a
  constant or a reference \<open>${name[index]:default}\<close> or \<open>${name[index]>other}\<close> to a request
  parameter, its grammar and the value it takes for a request.
\<close>

section \<open>The item\<close>

record 'dt item =
  it_absent :: bool
  it_weak :: bool
  it_plain :: "'dt spine_value option"
  it_ref :: "string option"
  it_ind :: "nat option"
  it_default :: "string option"
  it_redirect :: "string option"

definition item_new :: "'dt item" where
  "item_new = \<lparr>it_absent = True, it_weak = False, it_plain = None, it_ref = None, it_ind = None,
     it_default = None, it_redirect = None\<rparr>"

text \<open>\<open>reset\<close> leaves the redirection alone, as the source does.\<close>

definition item_reset :: "'dt item \<Rightarrow> 'dt item" where
  "item_reset it = it\<lparr>it_absent := False, it_weak := False, it_plain := None, it_ref := None,
     it_ind := None, it_default := None\<rparr>"

section \<open>The grammar\<close>

text \<open>\<open>ref_type_p\<close>: whether the reference is weak.\<close>

definition ref_type_p :: "string \<Rightarrow> (bool \<times> string) option" where
  "ref_type_p s = (case qi_char (CHR ''$'') s of
       Some r \<Rightarrow> Some (False, r)
     | None \<Rightarrow> (case qi_char (CHR ''%'') s of Some r \<Rightarrow> Some (True, r) | None \<Rightarrow> None))"

definition ind_p :: "string \<Rightarrow> (nat \<times> string) option" where
  "ind_p s = Option.bind (qi_char (CHR ''['') s) (\<lambda>s. Option.bind (qi_uint s) (\<lambda>(n, s).
     map_option (Pair n) (qi_char (CHR '']'') s)))"

definition cond_ind_p :: "string \<Rightarrow> nat option \<times> string" where
  "cond_ind_p s = (case ind_p s of Some (n, r) \<Rightarrow> (Some n, r) | None \<Rightarrow> (None, s))"

definition not_brace :: "char \<Rightarrow> bool" where
  "not_brace c \<longleftrightarrow> c \<noteq> CHR ''}''"

text \<open>\<open>cond_dflt_p\<close>: the default value and the redirection.\<close>

definition cond_dflt_p :: "string \<Rightarrow> string option \<times> string option \<times> string" where
  "cond_dflt_p s = (case qi_char (CHR '':'') s of
       Some r \<Rightarrow> (let (d, r) = qi_star not_brace r in (Some d, None, r))
     | None \<Rightarrow> (case Option.bind (qi_char (CHR ''>'') s) (qi_plus is_name_char) of
           Some (n, r) \<Rightarrow> (None, Some n, r)
         | None \<Rightarrow> (None, None, s)))"

definition opt_mark_p :: "string \<Rightarrow> string" where
  "opt_mark_p s = (case qi_char (CHR ''?'') s of Some r \<Rightarrow> r | None \<Rightarrow> s)"

type_synonym item_ref = "bool \<times> string \<times> nat option \<times> string option \<times> string option"

definition ref_p :: "string \<Rightarrow> item_ref option" where
  "ref_p s =
     Option.bind (ref_type_p s) (\<lambda>(weak, s).
     Option.bind (qi_char (CHR ''{'') s) (\<lambda>s.
     Option.bind (qi_plus is_name_char (opt_mark_p s)) (\<lambda>(name, s).
       let (ind, s) = cond_ind_p s; (dflt, redir, s) = cond_dflt_p s
       in Option.bind (qi_char (CHR ''}'') s) (\<lambda>s.
            if qi_eoi s then Some (weak, name, ind, dflt, redir) else None))))"

definition absent_p :: "string \<Rightarrow> bool" where
  "absent_p s = (case Option.bind (qi_string ''${'' s) (qi_string ''}'') of
       Some r \<Rightarrow> qi_eoi r | None \<Rightarrow> False)"

definition gen_ref_p :: "string \<Rightarrow> bool" where
  "gen_ref_p s = (case Option.bind (ref_type_p s) (\<lambda>(_, s). qi_char (CHR ''{'') s) of
       Some r \<Rightarrow> qi_char (CHR ''}'') (snd (qi_star not_brace r)) \<noteq> None | None \<Rightarrow> False)"

definition item_parse_text :: "string \<Rightarrow> bool \<Rightarrow> 'dt item \<Rightarrow> 'dt item result" where
  "item_parse_text item_def allow_absent it =
     (let it = it\<lparr>it_plain := None, it_ref := None, it_default := None, it_ind := None\<rparr>;
          src = trim_copy item_def
      in case ref_p src of
           Some (weak, name, ind, dflt, redir) \<Rightarrow>
             Inr ((item_reset it)\<lparr>it_absent := False, it_weak := weak, it_ref := Some name,
               it_ind := ind, it_default := dflt, it_redirect := redir\<rparr>)
         | None \<Rightarrow>
             if allow_absent \<and> absent_p src then Inr ((item_reset it)\<lparr>it_absent := True\<rparr>)
             else if gen_ref_p src then Inl (Thrown NoCode ''Failed to parse parameter template'')
             else Inr ((item_reset it)\<lparr>it_plain := Some (VString item_def)\<rparr>))"

definition item_parse :: "'dt spine_value \<Rightarrow> bool \<Rightarrow> 'dt item \<Rightarrow> 'dt item result" where
  "item_parse v allow_absent it = (case v of
       VString s \<Rightarrow> item_parse_text s allow_absent it
     | _ \<Rightarrow> Inr (it\<lparr>it_absent := False, it_weak := False, it_plain := Some v, it_ref := None,
              it_default := None, it_ind := None\<rparr>))"

section \<open>The value for a request\<close>

text \<open>
  The result of a lookup is one value or an array.  \<open>redirect\<close> stands for the named parameters
  the item may refer to (\<open>handle_redirection\<close>); \<open>None\<close> is the result \<open>false\<close> of the C++
  functions, which leave their output argument unset.
\<close>

datatype 'v variant = One 'v | Many "'v list"

type_synonym 'dt redirection = "'dt spine_value rpm \<Rightarrow> string \<Rightarrow> 'dt spine_value variant option result"

definition no_redirection :: "'dt redirection" where
  "no_redirection m name = Inl (Thrown NoCode ''Parameter redirection required but not defined!'')"

definition get_absent_ref_value ::
    "'dt redirection \<Rightarrow> 'dt spine_value rpm \<Rightarrow> bool \<Rightarrow> 'dt item \<Rightarrow> 'dt spine_value variant option result" where
  "get_absent_ref_value redirect m allow_array it = (case it_default it of
       Some d \<Rightarrow> Inr (Some (One (VString d)))
     | None \<Rightarrow> (case it_redirect it of
           Some name \<Rightarrow> redirect m name
         | None \<Rightarrow> Inr (if allow_array then Some (Many []) else None)))"

definition get_indexed_ref_value ::
    "'dt redirection \<Rightarrow> 'dt spine_value rpm \<Rightarrow> nat \<Rightarrow> 'dt spine_value list \<Rightarrow> 'dt item \<Rightarrow>
     'dt spine_value variant option result" where
  "get_indexed_ref_value redirect m ind value_vect it =
     (if ind < length value_vect then Inr (Some (One (value_vect ! ind)))
      else case it_default it of
          Some d \<Rightarrow> Inr (Some (One (VString d)))
        | None \<Rightarrow> (case it_redirect it of
              Some name \<Rightarrow> redirect m name
            | None \<Rightarrow> Inl (Thrown ParsingFailed ''index out of range'')))"

definition get_ref_values ::
    "'dt spine_value list \<Rightarrow> bool \<Rightarrow> 'dt spine_value variant option result" where
  "get_ref_values value_vect allow_array = (case value_vect of
       [v] \<Rightarrow> Inr (Some (One v))
     | _ \<Rightarrow> if allow_array then Inr (Some (Many value_vect))
          else Inl (Thrown ParsingFailed ''Cannot return an array''))"

definition item_find ::
    "(string \<Rightarrow> string) \<Rightarrow> 'dt redirection \<Rightarrow> 'dt spine_value rpm \<Rightarrow> bool \<Rightarrow> 'dt item \<Rightarrow>
     'dt spine_value variant option result" where
  "item_find lc redirect m allow_array it =
     (if it_absent it then Inr None
      else case it_plain it of
          Some v \<Rightarrow> Inr (Some (One v))
        | None \<Rightarrow> (case it_ref it of
              None \<Rightarrow> Inl (Thrown NoCode ''INTERNAL ERROR'')
            | Some ref_name \<Rightarrow>
                let value_vect = get_values lc m ref_name
                in if value_vect = [] then get_absent_ref_value redirect m allow_array it
                   else case it_ind it of
                       Some ind \<Rightarrow> get_indexed_ref_value redirect m ind value_vect it
                     | None \<Rightarrow> get_ref_values value_vect allow_array))"

text \<open>\<open>get_value\<close> without an output argument: a missing value is an exception.\<close>

definition item_get ::
    "(string \<Rightarrow> string) \<Rightarrow> 'dt redirection \<Rightarrow> 'dt spine_value rpm \<Rightarrow> bool \<Rightarrow> 'dt item \<Rightarrow>
     'dt spine_value variant result" where
  "item_get lc redirect m allow_array it =
     rbind (item_find lc redirect m allow_array it) (\<lambda>found.
       case found of
         Some r \<Rightarrow> Inr r
       | None \<Rightarrow> if it_absent it then Inl (Thrown NoCode ''CONFIGURATION ERROR'')
                else Inl (Thrown ParsingFailed ''Mandatory parameter not provided''))"

section \<open>Parsing a printed reference\<close>

definition render_ref :: "item_ref \<Rightarrow> string" where
  "render_ref r = (case r of (weak, name, ind, dflt, redir) \<Rightarrow>
     (if weak then ''%{'' else ''${'') @ name @
     (case ind of None \<Rightarrow> '''' | Some n \<Rightarrow> ''['' @ show_nat n @ '']'') @
     (case dflt of Some d \<Rightarrow> '':'' @ d
      | None \<Rightarrow> (case redir of None \<Rightarrow> '''' | Some n \<Rightarrow> ''>'' @ n)) @ ''}'')"

definition ref_ok :: "item_ref \<Rightarrow> bool" where
  "ref_ok r = (case r of (weak, name, ind, dflt, redir) \<Rightarrow>
     name \<noteq> [] \<and> list_all is_name_char name \<and>
     (case ind of None \<Rightarrow> True | Some n \<Rightarrow> n < 2 ^ 32) \<and>
     (case dflt of Some d \<Rightarrow> list_all not_brace d \<and> (d = [] \<or> \<not> isspace (hd d)) \<and> redir = None
      | None \<Rightarrow> (case redir of None \<Rightarrow> True | Some n \<Rightarrow> n \<noteq> [] \<and> list_all is_name_char n)))"

lemma name_not_space: "is_name_char c \<Longrightarrow> \<not> isspace c"
  by (auto simp: is_name_char_def isalnum_def isspace_def Let_def)

lemma syntax_chars: "\<not> isspace (CHR ''$'')" "\<not> isspace (CHR ''%'')" "\<not> isspace (CHR ''{'')"
  "\<not> isspace (CHR ''}'')" "\<not> isspace (CHR ''['')" "\<not> isspace (CHR '']'')" "\<not> isspace (CHR '':'')"
  "\<not> isspace (CHR ''>'')" "\<not> is_name_char (CHR ''['')" "\<not> is_name_char (CHR '':'')"
  "\<not> is_name_char (CHR ''>'')" "\<not> is_name_char (CHR ''}'')" "\<not> isdigit (CHR '']'')"
  by (simp_all add: isspace_def isdigit_def is_name_char_def isalnum_def)

lemmas qi_syntax = qi_char_Cons [OF syntax_chars(1)] qi_char_Cons [OF syntax_chars(2)]
  qi_char_Cons [OF syntax_chars(3)] qi_char_Cons [OF syntax_chars(4)] qi_char_Cons [OF syntax_chars(5)]
  qi_char_Cons [OF syntax_chars(6)] qi_char_Cons [OF syntax_chars(7)] qi_char_Cons [OF syntax_chars(8)]

lemma cond_ind_p_render:
  assumes "case ind of None \<Rightarrow> True | Some n \<Rightarrow> n < 2 ^ 32" "s \<noteq> []" "\<not> isspace (hd s)" "hd s \<noteq> CHR ''[''"
  shows "cond_ind_p ((case ind of None \<Rightarrow> '''' | Some n \<Rightarrow> ''['' @ show_nat n @ '']'') @ s) = (ind, s)"
proof (cases ind)
  case None
  then show ?thesis
    using assms(2-4) by (cases s) (auto simp: cond_ind_p_def ind_p_def qi_char_Cons)
next
  case (Some n)
  with assms(1) have "qi_uint (show_nat n @ CHR '']'' # s) = Some (n, CHR '']'' # s)"
    by (intro qi_uint_show) (simp_all add: syntax_chars)
  with Some show ?thesis
    by (simp add: cond_ind_p_def ind_p_def qi_syntax)
qed

lemma qi_star_render:
  assumes "list_all not_brace d" "d = [] \<or> \<not> isspace (hd d)"
  shows "qi_star not_brace (d @ CHR ''}'' # r) = (d, CHR ''}'' # r)"
proof -
  have "qi_skip (d @ CHR ''}'' # r) = d @ CHR ''}'' # r"
    using assms(2) syntax_chars(4) by (cases d) (auto simp: qi_skip_Cons)
  with assms(1) show ?thesis
    by (simp add: qi_star_def Let_def list_all_iff takeWhile_append dropWhile_append)
      (auto simp: not_brace_def)
qed

lemma cond_dflt_p_render:
  assumes "ref_ok (weak, name, ind, dflt, redir)"
  shows "cond_dflt_p ((case dflt of Some d \<Rightarrow> '':'' @ d
      | None \<Rightarrow> (case redir of None \<Rightarrow> '''' | Some n \<Rightarrow> ''>'' @ n)) @ ''}'') = (dflt, redir, ''}'')"
proof (cases dflt)
  case (Some d)
  with assms show ?thesis
    using qi_star_render [of d "[]"] by (simp add: cond_dflt_p_def ref_ok_def qi_syntax)
next
  case None
  show ?thesis
  proof (cases redir)
    case redir: (Some n)
    with None assms have "qi_plus is_name_char (n @ ''}'') = Some (n, ''}'')"
      by (intro qi_plus_append) (auto simp: ref_ok_def list_all_iff syntax_chars name_not_space)
    with None redir show ?thesis by (simp add: cond_dflt_p_def qi_syntax)
  qed (use None in \<open>simp add: cond_dflt_p_def qi_syntax\<close>)
qed

lemma ref_p_render:
  assumes "ref_ok r"
  shows "ref_p (render_ref r) = Some r"
proof -
  obtain weak name ind dflt redir where r: "r = (weak, name, ind, dflt, redir)"
    by (metis prod_cases5)
  let ?t = "(case dflt of Some d \<Rightarrow> '':'' @ d
      | None \<Rightarrow> (case redir of None \<Rightarrow> '''' | Some n \<Rightarrow> ''>'' @ n)) @ ''}''"
  let ?i = "(case ind of None \<Rightarrow> '''' | Some n \<Rightarrow> ''['' @ show_nat n @ '']'') @ ?t"
  have name: "name \<noteq> []" "list_all is_name_char name"
    and ind: "case ind of None \<Rightarrow> True | Some n \<Rightarrow> n < 2 ^ 32"
    using assms by (simp_all add: r ref_ok_def)
  have t: "?t \<noteq> []" "hd ?t \<in> {CHR '':'', CHR ''>'', CHR ''}''}"
    by (auto split: option.split)
  then have hd_t: "\<not> isspace (hd ?t)" "hd ?t \<noteq> CHR ''[''"
    using syntax_chars by auto
  have "?i = [] \<or> \<not> is_name_char (hd ?i)"
    using t syntax_chars by (auto split: option.split)
  with name have plus: "qi_plus is_name_char (name @ ?i) = Some (name, ?i)"
    by (intro qi_plus_append) (auto simp: list_all_iff name_not_space)
  have mark: "opt_mark_p (name @ ?i) = name @ ?i"
    using name by (cases name) (auto simp: opt_mark_p_def qi_char_Cons name_not_space dest: is_name_char_neq)
  have start: "ref_type_p ((if weak then ''%{'' else ''${'') @ u) = Some (weak, CHR ''{'' # u)" for u
    by (simp add: ref_type_p_def qi_syntax)
  have "ref_p ((if weak then ''%{'' else ''${'') @ name @ ?i) = Some r"
    unfolding ref_p_def start
    by (simp only: Option.bind.simps prod.case qi_syntax mark plus cond_ind_p_render [OF ind t(1) hd_t]
        cond_dflt_p_render [OF assms [unfolded r]] Let_def if_True refl r)
      (simp add: qi_syntax qi_eoi_def qi_skip_def)
  then show ?thesis by (simp add: render_ref_def r)
qed

lemma trim_copy_pad:
  assumes "list_all isspace a" "list_all isspace b" "w \<noteq> []" "\<not> isspace (hd w)" "\<not> isspace (last w)"
  shows "trim_copy (a @ w @ b) = w"
proof -
  have "dropWhile isspace (a @ w @ b) = w @ b"
    using assms(1,3,4) by (cases w) (simp_all add: dropWhile_append list_all_iff)
  moreover have "dropWhile isspace (rev b @ rev w) = rev w"
    using assms(2,3,5) by (cases "rev w") (simp_all add: dropWhile_append list_all_iff last_rev flip: hd_rev)
  ultimately show ?thesis by (simp add: trim_copy_def)
qed

lemma render_ref_ends: "render_ref r \<noteq> []" "\<not> isspace (hd (render_ref r))" "\<not> isspace (last (render_ref r))"
  using syntax_chars by (auto simp: render_ref_def split: prod.splits)

definition item_of_ref :: "item_ref \<Rightarrow> 'dt item" where
  "item_of_ref r = (case r of (weak, name, ind, dflt, redir) \<Rightarrow>
     \<lparr>it_absent = False, it_weak = weak, it_plain = None, it_ref = Some name, it_ind = ind,
      it_default = dflt, it_redirect = redir\<rparr>)"

lemma item_parse_render:
  assumes "ref_ok r" "list_all isspace a" "list_all isspace b"
  shows "item_parse_text (a @ render_ref r @ b) allow_absent it = Inr (item_of_ref r)"
proof -
  have "trim_copy (a @ render_ref r @ b) = render_ref r"
    using assms(2,3) render_ref_ends [of r] by (rule trim_copy_pad)
  with ref_p_render [OF assms(1)] show ?thesis
    by (simp add: item_parse_text_def Let_def item_of_ref_def item_reset_def split: prod.splits)
qed

section \<open>What a reference means\<close>

text \<open>
  The value selected in the request, then the default, then the redirection; without any of
  them an array parameter is empty and a scalar one is an error.
\<close>

definition selected :: "'v list \<Rightarrow> nat option \<Rightarrow> 'v variant option" where
  "selected vs ind = (case ind of
       Some i \<Rightarrow> if i < length vs then Some (One (vs ! i)) else None
     | None \<Rightarrow> (case vs of [] \<Rightarrow> None | [v] \<Rightarrow> Some (One v) | _ \<Rightarrow> Some (Many vs)))"

definition ref_meaning ::
    "'dt redirection \<Rightarrow> 'dt spine_value rpm \<Rightarrow> 'dt spine_value list \<Rightarrow> bool \<Rightarrow> item_ref \<Rightarrow>
     'dt spine_value variant result" where
  "ref_meaning redirect m vs allow_array r = (case r of (weak, name, ind, dflt, redir) \<Rightarrow>
     (case (selected vs ind, dflt, redir) of
        (Some (One v), _, _) \<Rightarrow> Inr (One v)
      | (Some (Many ws), _, _) \<Rightarrow>
          if allow_array then Inr (Many ws) else Inl (Thrown ParsingFailed ''Cannot return an array'')
      | (None, Some d, _) \<Rightarrow> Inr (One (VString d))
      | (None, None, Some other) \<Rightarrow> rbind (redirect m other) (\<lambda>found. case found of
            Some v \<Rightarrow> Inr v | None \<Rightarrow> Inl (Thrown ParsingFailed ''Mandatory parameter not provided''))
      | (None, None, None) \<Rightarrow>
          if vs \<noteq> [] then Inl (Thrown ParsingFailed ''index out of range'')
          else if allow_array then Inr (Many [])
          else Inl (Thrown ParsingFailed ''Mandatory parameter not provided'')))"

lemma item_get_ref:
  "item_get lc redirect m allow_array (item_of_ref (weak, name, ind, dflt, redir)) =
    ref_meaning redirect m (get_values lc m name) allow_array (weak, name, ind, dflt, redir)"
proof (cases "get_values lc m name")
  case Nil
  then show ?thesis
    by (cases ind; cases dflt; cases redir)
      (simp_all add: item_get_def item_find_def item_of_ref_def get_absent_ref_value_def ref_meaning_def
        selected_def)
next
  case (Cons v vs)
  show ?thesis
  proof (cases ind)
    case None
    with Cons show ?thesis
      by (cases vs)
        (simp_all add: item_get_def item_find_def item_of_ref_def get_ref_values_def ref_meaning_def
          selected_def)
  next
    case (Some i)
    with Cons show ?thesis
      by (cases "i < length (v # vs)"; cases dflt; cases redir)
        (simp_all add: item_get_def item_find_def item_of_ref_def get_indexed_ref_value_def
          ref_meaning_def selected_def)
  qed
qed

section \<open>Properties\<close>



end
