(* ===== verification/ParamDef.thy ===== *)
theory ParamDef
  imports Qi BitValue
begin

text \<open>
  \<open>libwfs/StoredQueryParamDef.cpp\<close>: the type of a stored query parameter, its text form and the
  conversion of request strings to values of the type.  The conversions of single strings
  (\<open>Fmi::stod\<close>, \<open>Spine::Point\<close> and so on) and of \<open>Spine::Value\<close> are parameters.
\<close>

section \<open>The type of a parameter\<close>

datatype value_type = PT_UNDEFINED | PT_STRING | PT_INT | PT_UINT | PT_DOUBLE | PT_TIME | PT_BOOL | PT_POINT | PT_BBOX

record param_def =
  pd_type :: value_type
  pd_is_array :: bool
  pd_min_size :: nat
  pd_max_size :: nat

definition param_def_new :: param_def where
  "param_def_new = \<lparr>pd_type = PT_UNDEFINED, pd_is_array = False, pd_min_size = 1, pd_max_size = 1\<rparr>"

definition type_p :: "string \<Rightarrow> (value_type \<times> string) option" where
  "type_p s =
     (case qi_string ''string'' s of Some r \<Rightarrow> Some (PT_STRING, r) | None \<Rightarrow>
     (case qi_string ''integer'' s of Some r \<Rightarrow> Some (PT_INT, r) | None \<Rightarrow>
     (case qi_string ''int'' s of Some r \<Rightarrow> Some (PT_INT, r) | None \<Rightarrow>
     (case qi_string ''uint'' s of Some r \<Rightarrow> Some (PT_UINT, r) | None \<Rightarrow>
     (case qi_string ''double'' s of Some r \<Rightarrow> Some (PT_DOUBLE, r) | None \<Rightarrow>
     (case qi_string ''time'' s of Some r \<Rightarrow> Some (PT_TIME, r) | None \<Rightarrow>
     (case qi_string ''bool'' s of Some r \<Rightarrow> Some (PT_BOOL, r) | None \<Rightarrow>
     (case qi_string ''point'' s of Some r \<Rightarrow> Some (PT_POINT, r) | None \<Rightarrow>
     (case qi_string ''bbox'' s of Some r \<Rightarrow> Some (PT_BBOX, r) | None \<Rightarrow> None)))))))))"

definition array_dim_p :: "string \<Rightarrow> (nat \<times> nat \<times> string) option" where
  "array_dim_p s =
     Option.bind (qi_char (CHR ''['') s) (\<lambda>s.
     Option.bind (qi_uint s) (\<lambda>(n, s).
       let (mx, s) = (case Option.bind (qi_string ''..'' s) qi_uint of
                        Some (m, r) \<Rightarrow> (m, r) | None \<Rightarrow> (n, s))
       in Option.bind (qi_char (CHR '']'') s) (\<lambda>s. Some (n, mx, s))))"

definition param_p :: "string \<Rightarrow> (value_type \<times> (nat \<times> nat) option) option" where
  "param_p s =
     Option.bind (type_p s) (\<lambda>(t, s).
       let (dims, s) = (case array_dim_p s of Some (mn, mx, r) \<Rightarrow> (Some (mn, mx), r) | None \<Rightarrow> (None, s))
       in if qi_eoi s then Some (t, dims) else None)"

text \<open>
  \<open>parse_def\<close> changes the object before it checks the array size; the result is the state of the
  object and the exception, if any.
\<close>

definition parse_def :: "string \<Rightarrow> param_def \<Rightarrow> param_def \<times> error option" where
  "parse_def desc d =
     (case param_p desc of
        None \<Rightarrow> (d, Some (Thrown NoCode ''Failed to parse parameter type specification''))
      | Some (t, dims) \<Rightarrow>
          let (is_array, mn, mx) = (case dims of None \<Rightarrow> (False, 1, 1) | Some (mn, mx) \<Rightarrow> (True, mn, mx));
              d = \<lparr>pd_type = t, pd_is_array = is_array, pd_min_size = mn, pd_max_size = mx\<rparr>
          in (d, if is_array \<and> mx < mn then Some (Thrown NoCode ''Invalid array size specification'') else None))"

definition dump_type :: "value_type \<Rightarrow> string" where
  "dump_type t = (case t of
     PT_STRING \<Rightarrow> ''string'' | PT_INT \<Rightarrow> ''int'' | PT_UINT \<Rightarrow> ''uint'' | PT_DOUBLE \<Rightarrow> ''double''
   | PT_TIME \<Rightarrow> ''time'' | PT_BOOL \<Rightarrow> ''bool'' | _ \<Rightarrow> ''?'')"

definition param_def_dump :: "param_def \<Rightarrow> string" where
  "param_def_dump d =
     dump_type (pd_type d) @
     (if pd_is_array d
      then ''['' @ show_nat (pd_min_size d) @
        (if pd_max_size d \<noteq> pd_min_size d then ''..'' @ show_nat (pd_max_size d) else '''') @ '']''
      else '''')"

section \<open>Values\<close>

record 'dt text_conv =
  tc_stod :: "string \<Rightarrow> double result"
  tc_stoi :: "string \<Rightarrow> 32 word result"
  tc_stoul :: "string \<Rightarrow> uint64 result"
  tc_ptime :: "string \<Rightarrow> 'dt result"
  tc_bool :: "string \<Rightarrow> bool result"
  tc_point :: "string \<Rightarrow> (double \<times> double \<times> string) result"
  tc_bbox :: "string \<Rightarrow> (double \<times> double \<times> double \<times> double \<times> string) result"

record 'dt value_conv =
  vc_double :: "'dt spine_value \<Rightarrow> double result"
  vc_int :: "'dt spine_value \<Rightarrow> int64 result"
  vc_uint :: "'dt spine_value \<Rightarrow> uint64 result"
  vc_time :: "'dt spine_value \<Rightarrow> 'dt result"
  vc_bool :: "'dt spine_value \<Rightarrow> bool result"
  vc_string :: "'dt spine_value \<Rightarrow> string result"
  vc_point :: "'dt spine_value \<Rightarrow> (double \<times> double \<times> string) result"
  vc_bbox :: "'dt spine_value \<Rightarrow> (double \<times> double \<times> double \<times> double \<times> string) result"

definition read_value_raw :: "'dt text_conv \<Rightarrow> param_def \<Rightarrow> string \<Rightarrow> 'dt spine_value result" where
  "read_value_raw C d str = (case pd_type d of
     PT_DOUBLE \<Rightarrow> rbind (tc_stod C str) (\<lambda>x. Inr (VDouble x))
   | PT_INT \<Rightarrow> rbind (tc_stoi C str) (\<lambda>x. Inr (VInt (scast x)))
   | PT_UINT \<Rightarrow> rbind (tc_stoul C str) (\<lambda>x. Inr (VUInt x))
   | PT_TIME \<Rightarrow> rbind (tc_ptime C str) (\<lambda>x. Inr (VTime x))
   | PT_BOOL \<Rightarrow> rbind (tc_bool C str) (\<lambda>x. Inr (VBool x))
   | PT_STRING \<Rightarrow> Inr (VString str)
   | PT_POINT \<Rightarrow> rbind (tc_point C str) (\<lambda>(x, y, crs). Inr (VPoint x y crs))
   | PT_BBOX \<Rightarrow> rbind (tc_bbox C str) (\<lambda>(x1, y1, x2, y2, crs). Inr (VBBox x1 y1 x2 y2 crs))
   | PT_UNDEFINED \<Rightarrow> Inl (Thrown ParsingFailed ''incorrect type code''))"

text \<open>Both handlers of \<open>readValue\<close> replace the exception by one with the parsing failed code.\<close>

definition read_value :: "'dt text_conv \<Rightarrow> param_def \<Rightarrow> string \<Rightarrow> 'dt spine_value result" where
  "read_value C d str = (case read_value_raw C d str of
     Inl (Thrown _ _) \<Rightarrow> Inl (Thrown ParsingFailed ''Invalid stored query parameter value'')
   | r \<Rightarrow> r)"

definition read_values :: "'dt text_conv \<Rightarrow> param_def \<Rightarrow> string list \<Rightarrow> 'dt spine_value list result" where
  "read_values C d strs =
     (if pd_min_size d \<le> length strs \<and> length strs \<le> pd_max_size d
      then map_result (read_value C d) strs
      else Inl (Thrown ParsingFailed ''Invalid array size''))"

definition conv_value :: "'dt value_conv \<Rightarrow> param_def \<Rightarrow> 'dt spine_value \<Rightarrow> 'dt spine_value result" where
  "conv_value C d v = (case pd_type d of
     PT_DOUBLE \<Rightarrow> rbind (vc_double C v) (\<lambda>x. Inr (VDouble x))
   | PT_INT \<Rightarrow> rbind (vc_int C v) (\<lambda>x. Inr (VInt x))
   | PT_UINT \<Rightarrow> rbind (vc_uint C v) (\<lambda>x. Inr (VUInt x))
   | PT_TIME \<Rightarrow> rbind (vc_time C v) (\<lambda>x. Inr (VTime x))
   | PT_BOOL \<Rightarrow> rbind (vc_bool C v) (\<lambda>x. Inr (VBool x))
   | PT_STRING \<Rightarrow> rbind (vc_string C v) (\<lambda>x. Inr (VString x))
   | _ \<Rightarrow> Inl (Thrown ParsingFailed ''incorrect type code''))"

section \<open>Well-formed types\<close>

definition param_def_wf :: "param_def \<Rightarrow> bool" where
  "param_def_wf d \<longleftrightarrow> pd_type d \<noteq> PT_UNDEFINED \<and> pd_max_size d < 2 ^ 32 \<and>
     (if pd_is_array d then pd_min_size d \<le> pd_max_size d else pd_min_size d = 1 \<and> pd_max_size d = 1)"

lemma array_dim_p_bound: "array_dim_p s = Some (mn, mx, r) \<Longrightarrow> mn < 4294967296 \<and> mx < 4294967296"
  by (auto simp: array_dim_p_def Let_def bind_eq_Some_conv split: option.splits prod.splits
      dest: qi_uint_bound)

lemma type_p_defined: "type_p s = Some (t, r) \<Longrightarrow> t \<noteq> PT_UNDEFINED"
  by (auto simp: type_p_def split: option.splits)

lemma param_p_Some:
  assumes "param_p s = Some (t, dims)"
  shows "t \<noteq> PT_UNDEFINED" "dims = Some (mn, mx) \<Longrightarrow> mx < 4294967296"
proof -
  from assms obtain r where r: "type_p s = Some (t, r)"
    and dims: "(case array_dim_p r of Some (mn, mx, r) \<Rightarrow> Some (mn, mx) | None \<Rightarrow> None) = dims"
  proof (cases "type_p s")
    case (Some p)
    obtain u v where p: "p = (u, v)" by fastforce
    with assms Some that show ?thesis
      by (cases "array_dim_p v") (auto simp: param_p_def split: if_splits)
  qed (simp add: param_p_def)
  from r show "t \<noteq> PT_UNDEFINED" by (rule type_p_defined)
  from dims show "dims = Some (mn, mx) \<Longrightarrow> mx < 4294967296"
    by (auto split: option.splits dest: array_dim_p_bound)
qed

lemma parse_def_wf:
  assumes "parse_def desc d = (d', None)"
  shows "param_def_wf d'"
proof (cases "param_p desc")
  case None
  with assms show ?thesis by (simp add: parse_def_def)
next
  case (Some p)
  obtain t dims where p: "p = (t, dims)" by fastforce
  note facts = param_p_Some [OF Some [unfolded p]]
  from assms Some p facts show ?thesis
    by (cases dims) (auto simp: parse_def_def param_def_wf_def split: if_splits)
qed

lemma isspace_bracket: "\<not> isspace (CHR ''['')" "\<not> isspace (CHR '']'')" "\<not> isspace (CHR ''.'')"
  "\<not> isdigit (CHR '']'')" "\<not> isdigit (CHR ''.'')"
  by (simp_all add: isspace_def isdigit_def)

lemma array_dim_p_dump:
  assumes "mn < 2 ^ 32" "mx < 2 ^ 32"
  shows "array_dim_p (''['' @ show_nat mn @
      (if mx \<noteq> mn then ''..'' @ show_nat mx else '''') @ '']'') = Some (mn, mx, [])"
proof (cases "mx = mn")
  case True
  have "qi_string ''..'' '']'' = None"
    by (simp add: qi_string_def qi_skip_Cons isspace_bracket)
  with True assms show ?thesis
    by (simp add: array_dim_p_def qi_char_Cons isspace_bracket qi_uint_show)
next
  case False
  have "qi_string ''..'' (CHR ''.'' # CHR ''.'' # r) = Some r" for r
    by (simp add: qi_string_def qi_skip_Cons isspace_bracket)
  with False assms show ?thesis
    by (simp add: array_dim_p_def qi_char_Cons isspace_bracket qi_uint_show)
qed

lemma type_p_dump:
  assumes "t \<notin> {PT_UNDEFINED, PT_POINT, PT_BBOX}" "s = [] \<or> hd s = CHR ''[''"
  shows "type_p (dump_type t @ s) = Some (t, s)"
  using assms
  by (cases t; cases s)
    (auto simp: type_p_def dump_type_def qi_string_def qi_skip_def isspace_def)

lemma parse_dump:
  assumes "param_def_wf d" "pd_type d \<notin> {PT_POINT, PT_BBOX}"
  shows "parse_def (param_def_dump d) d0 = (d, None)"
proof (cases "pd_is_array d")
  case True
  let ?dims = "''['' @ show_nat (pd_min_size d) @
      (if pd_max_size d \<noteq> pd_min_size d then ''..'' @ show_nat (pd_max_size d) else '''') @ '']''"
  have "type_p (param_def_dump d) = Some (pd_type d, ?dims)"
    using type_p_dump [of "pd_type d" ?dims] assms True
    by (simp add: param_def_dump_def param_def_wf_def)
  moreover have "array_dim_p ?dims = Some (pd_min_size d, pd_max_size d, [])"
    using assms True by (intro array_dim_p_dump) (auto simp: param_def_wf_def)
  ultimately have "param_p (param_def_dump d) = Some (pd_type d, Some (pd_min_size d, pd_max_size d))"
    by (simp add: param_p_def qi_eoi_def qi_skip_def del: append.simps)
  with assms True show ?thesis
    by (auto simp: parse_def_def param_def_wf_def)
next
  case False
  have "type_p (param_def_dump d) = Some (pd_type d, [])"
    using type_p_dump [of "pd_type d" "[]"] assms False
    by (simp add: param_def_dump_def param_def_wf_def)
  moreover have "array_dim_p [] = None"
    by (simp add: array_dim_p_def qi_char_def qi_skip_def)
  ultimately have "param_p (param_def_dump d) = Some (pd_type d, None)"
    by (simp add: param_p_def qi_eoi_def qi_skip_def)
  with assms False show ?thesis
    by (auto simp: parse_def_def param_def_wf_def)
qed

section \<open>Typed values\<close>

primrec type_of_value :: "'dt spine_value \<Rightarrow> value_type" where
  "type_of_value VEmpty = PT_UNDEFINED"
| "type_of_value (VString _) = PT_STRING"
| "type_of_value (VInt _) = PT_INT"
| "type_of_value (VUInt _) = PT_UINT"
| "type_of_value (VDouble _) = PT_DOUBLE"
| "type_of_value (VTime _) = PT_TIME"
| "type_of_value (VBool _) = PT_BOOL"
| "type_of_value (VPoint _ _ _) = PT_POINT"
| "type_of_value (VBBox _ _ _ _ _) = PT_BBOX"

definition has_type :: "value_type \<Rightarrow> 'dt spine_value \<Rightarrow> bool" where
  "has_type t v \<longleftrightarrow> t \<noteq> PT_UNDEFINED \<and> type_of_value v = t"

lemma read_value_raw_type: "read_value_raw C d str = Inr v \<Longrightarrow> has_type (pd_type d) v"
  by (cases "pd_type d") (auto simp: read_value_raw_def has_type_def result_simps)

lemma read_value_raw_of:
  "read_value C d str = Inr v \<longleftrightarrow> read_value_raw C d str = Inr v"
  by (auto simp: read_value_def split: sum.splits error.splits)

lemma read_value_type: "read_value C d str = Inr v \<Longrightarrow> has_type (pd_type d) v"
  by (simp add: read_value_raw_of read_value_raw_type)

lemma read_value_error:
  "read_value C d str = Inl (Thrown code tag) \<Longrightarrow> code = ParsingFailed"
  by (auto simp: read_value_def split: sum.splits error.splits)

lemma conv_value_type: "conv_value C d v = Inr w \<Longrightarrow> has_type (pd_type d) w"
  by (cases "pd_type d") (auto simp: conv_value_def has_type_def result_simps)

lemma map_result_error:
  "map_result f xs = Inl e \<Longrightarrow> \<exists>x \<in> set xs. f x = Inl e"
  by (induction xs) (auto simp: result_simps)

lemma read_values_ok:
  assumes "read_values C d strs = Inr vs"
  shows "length vs = length strs" "pd_min_size d \<le> length vs" "length vs \<le> pd_max_size d"
    "list_all (has_type (pd_type d)) vs"
proof -
  from assms have sz: "pd_min_size d \<le> length strs" "length strs \<le> pd_max_size d"
    and m: "map_result (read_value C d) strs = Inr vs"
    by (auto simp: read_values_def split: if_splits)
  from m show len: "length vs = length strs" by (rule map_result_length)
  with sz show "pd_min_size d \<le> length vs" "length vs \<le> pd_max_size d" by simp_all
  from m show "list_all (has_type (pd_type d)) vs"
    unfolding map_result_Inr_iff list_all_length list_all2_conv_all_nth
    by (auto dest!: read_value_type)
qed

section \<open>Properties\<close>

text \<open>
  C35.  A type specification that \<open>parse_def\<close> accepts yields a consistent description: a known
  type, an array with ordered 32 bit limits or a scalar of size one.  For every type but point
  and bounding box its text form parses back to the same description.
\<close>

theorem param_def_parse_dump:
  assumes "parse_def desc d = (d', None)"
  shows "param_def_wf d' \<and>
    (pd_type d' \<notin> {PT_POINT, PT_BBOX} \<longrightarrow> parse_def (param_def_dump d') d0 = (d', None))"
  using parse_def_wf [OF assms] parse_dump by blast

lemma param_def_parse_dump_witness:
  "parse_def ''int[2..12]'' param_def_new =
     (\<lparr>pd_type = PT_INT, pd_is_array = True, pd_min_size = 2, pd_max_size = 12\<rparr>, None) \<and>
   parse_def (param_def_dump \<lparr>pd_type = PT_INT, pd_is_array = True, pd_min_size = 2, pd_max_size = 12\<rparr>)
     param_def_new =
     (\<lparr>pd_type = PT_INT, pd_is_array = True, pd_min_size = 2, pd_max_size = 12\<rparr>, None)"
proof -
  let ?d = "\<lparr>pd_type = PT_INT, pd_is_array = True, pd_min_size = 2, pd_max_size = 12\<rparr>"
  have t: "param_def_dump ?d = ''int[2..12]''"
    by code_simp
  have "parse_def (param_def_dump ?d) param_def_new = (?d, None)"
    by (rule parse_dump) (simp_all add: param_def_wf_def)
  then have p: "parse_def ''int[2..12]'' param_def_new = (?d, None)"
    by (simp only: t)
  from param_def_parse_dump [OF p, of param_def_new] p show ?thesis by simp
qed

text \<open>
  \<open>readValues\<close> returns only lists of allowed size whose members all have the declared type,
  one for each string; every exception it throws carries the parsing failed code.
\<close>

theorem read_values_typed:
  "case read_values C d strs of
     Inr vs \<Rightarrow> length vs = length strs \<and> pd_min_size d \<le> length vs \<and> length vs \<le> pd_max_size d \<and>
       list_all (has_type (pd_type d)) vs
   | Inl (Thrown code tag) \<Rightarrow> code = ParsingFailed
   | Inl (Undefined tag) \<Rightarrow> \<exists>str \<in> set strs. read_value_raw C d str = Inl (Undefined tag)"
proof (cases "read_values C d strs")
  case (Inr vs)
  with read_values_ok [OF Inr] show ?thesis by simp
next
  case (Inl e)
  have undef: "read_value C d str = Inl (Undefined tag) \<Longrightarrow> read_value_raw C d str = Inl (Undefined tag)" for str tag
    by (auto simp: read_value_def split: sum.splits error.splits)
  from Inl have "e = Thrown ParsingFailed ''Invalid array size'' \<or> (\<exists>str \<in> set strs. read_value C d str = Inl e)"
    by (auto simp: read_values_def split: if_splits dest: map_result_error)
  with Inl undef show ?thesis
    by (cases e) (auto dest: read_value_error)
qed

end
