(* ===== verification/QueryConfig.thy ===== *)
theory QueryConfig
  imports ParamDef
begin

text \<open>
  \<open>libwfs/StoredQueryConfig.cpp\<close>: the configuration of a stored query, with the descriptions of
  its parameters, their unique names and their conflicts.  The settings that the configuration
  library reads from the file come as the records \<open>raw_desc\<close> and \<open>raw_config\<close>; \<open>None\<close> is a
  missing entry.  \<open>lc\<close> is \<open>Fmi::ascii_tolower_copy\<close> and \<open>C\<close> the conversions of \<open>Spine::Value\<close>.
\<close>

section \<open>Parameter descriptions\<close>

type_synonym mlang = "(string \<times> string) list"

record 'dt param_desc =
  de_name :: string
  de_title :: mlang
  de_abstract :: mlang
  de_min_occurs :: "32 word"
  de_max_occurs :: "32 word"
  de_xml_type :: string
  de_def :: param_def
  de_lower :: "'dt spine_value option"
  de_upper :: "'dt spine_value option"
  de_conflicts :: "string list"
  de_used :: bool

definition desc_is_array :: "'dt param_desc \<Rightarrow> bool" where
  "desc_is_array d \<longleftrightarrow> 1 < sint (de_max_occurs d) \<or> pd_is_array (de_def d)"

definition desc_min_size :: "'dt param_desc \<Rightarrow> 32 word" where
  "desc_min_size d = de_min_occurs d * of_nat (pd_min_size (de_def d))"

definition desc_max_size :: "'dt param_desc \<Rightarrow> 32 word" where
  "desc_max_size d = de_max_occurs d * of_nat (pd_max_size (de_def d))"

record 'dt raw_desc =
  rd_name :: "string option"
  rd_xml_type :: "string option"
  rd_title :: "mlang option"
  rd_abstract :: "mlang option"
  rd_min_occurs :: "32 word option"
  rd_max_occurs :: "32 word option"
  rd_type :: "string option"
  rd_lower :: "'dt spine_value option"
  rd_upper :: "'dt spine_value option"
  rd_conflicts :: "string list"

record 'dt raw_config =
  rc_disabled :: "bool option"
  rc_demo :: "bool option"
  rc_test :: "bool option"
  rc_debug_level :: "32 word option"
  rc_id :: "string option"
  rc_expires :: "32 word option"
  rc_template :: "string option"
  rc_constructor :: "string option"
  rc_language :: "string option"
  rc_title :: "mlang option"
  rc_abstract :: "mlang option"
  rc_return_types :: "string list option"
  rc_formats :: "string list"
  rc_parameters :: "'dt raw_desc list option"

record 'dt config =
  qc_case_sensitive :: bool
  qc_id :: string
  qc_disabled :: bool
  qc_demo :: bool
  qc_test :: bool
  qc_debug_level :: "32 word"
  qc_expires :: "32 word"
  qc_template :: "string option"
  qc_constructor :: string
  qc_language :: string
  qc_title :: mlang
  qc_abstract :: mlang
  qc_return_types :: "string list"
  qc_param_map :: "(string \<times> 'dt param_desc) list"
  qc_case_map :: "(string \<times> string) list"
  qc_param_names :: "string list"

definition mandatory :: "'a option \<Rightarrow> 'a result" where
  "mandatory x = (case x of Some v \<Rightarrow> Inr v | None \<Rightarrow> Inl (Thrown NoCode ''missing configuration entry''))"

definition or_default :: "'a \<Rightarrow> 'a option \<Rightarrow> 'a" where
  "or_default d x = (case x of Some v \<Rightarrow> v | None \<Rightarrow> d)"

section \<open>Reading the description of a parameter\<close>

definition add_case_name :: "(string \<Rightarrow> string) \<Rightarrow> string \<Rightarrow> 'dt config \<Rightarrow> 'dt config result" where
  "add_case_name lc name cfg =
     (if qc_case_sensitive cfg then Inr cfg
      else case sm_emplace (lc name) name (qc_case_map cfg) of
          None \<Rightarrow> Inl (Thrown NoCode ''Query parameter name conflict'')
        | Some cm \<Rightarrow> Inr (cfg\<lparr>qc_case_map := cm\<rparr>))"

definition opt_limit :: "'dt value_conv \<Rightarrow> param_def \<Rightarrow> 'dt spine_value option \<Rightarrow> 'dt spine_value option result" where
  "opt_limit C d v = (case v of None \<Rightarrow> Inr None | Some v \<Rightarrow> rbind (conv_value C d v) (\<lambda>w. Inr (Some w)))"

definition parse_type :: "string \<Rightarrow> param_def result" where
  "parse_type desc = (case parse_def desc param_def_new of
       (d, None) \<Rightarrow> Inr d | (_, Some e) \<Rightarrow> Inl e)"

definition parse_param_desc ::
    "(string \<Rightarrow> string) \<Rightarrow> 'dt value_conv \<Rightarrow> 'dt raw_desc \<Rightarrow> 'dt config \<Rightarrow> ('dt param_desc \<times> 'dt config) result" where
  "parse_param_desc lc C rd cfg =
     rbind (mandatory (rd_name rd)) (\<lambda>name.
     rbind (add_case_name lc name cfg) (\<lambda>cfg.
     rbind (mandatory (rd_xml_type rd)) (\<lambda>xml_type.
     rbind (mandatory (rd_title rd)) (\<lambda>title.
     rbind (mandatory (rd_abstract rd)) (\<lambda>abstract.
     rbind (mandatory (rd_type rd)) (\<lambda>type_def.
     rbind (parse_type type_def) (\<lambda>def.
     rbind (opt_limit C def (rd_lower rd)) (\<lambda>lower.
     rbind (opt_limit C def (rd_upper rd)) (\<lambda>upper.
       if (lower \<noteq> None \<or> upper \<noteq> None) \<and> pd_type def \<in> {PT_UNDEFINED, PT_STRING, PT_BOOL}
       then Inl (Thrown NoCode ''Specifying parameter limits not supported'')
       else Inr (\<lparr>de_name = name, de_title = title, de_abstract = abstract,
           de_min_occurs = or_default 0 (rd_min_occurs rd),
           de_max_occurs = or_default 1 (rd_max_occurs rd),
           de_xml_type = xml_type, de_def = def, de_lower = lower, de_upper = upper,
           de_conflicts = fold sset_insert (rd_conflicts rd) [], de_used = False\<rparr>, cfg))))))))))"

definition add_param_desc ::
    "(string \<Rightarrow> string) \<Rightarrow> 'dt value_conv \<Rightarrow> 'dt raw_desc \<Rightarrow> 'dt config \<Rightarrow> 'dt config result" where
  "add_param_desc lc C rd cfg =
     rbind (parse_param_desc lc C rd cfg) (\<lambda>(item, cfg).
       case sm_emplace (de_name item) item (qc_param_map cfg) of
         None \<Rightarrow> Inl (Thrown NoCode ''Duplicate description of stored query parameter'')
       | Some pm \<Rightarrow> Inr (cfg\<lparr>qc_param_map := pm, qc_param_names := qc_param_names cfg @ [de_name item]\<rparr>))"

section \<open>Conflicts\<close>

text \<open>
  One step of the inner loop for the conflict \<open>c\<close> of the parameter \<open>a\<close>.  The loop runs over the
  conflicts the parameter has when it is reached; it could see a later insertion only after a
  conflict of the parameter with itself, which is an error already.
\<close>

definition conflict_visit ::
    "(string \<Rightarrow> string) \<Rightarrow> string \<Rightarrow> 'dt param_desc \<Rightarrow> string \<Rightarrow>
     (string \<times> 'dt param_desc) list \<times> bool \<Rightarrow> (string \<times> 'dt param_desc) list \<times> bool" where
  "conflict_visit lc a desc c st = (case st of (m, err) \<Rightarrow>
     (let n2 = lc c; err = (err \<or> n2 = a)
      in case map_of m n2 of
           None \<Rightarrow> (m, True)
         | Some desc2 \<Rightarrow>
             (sm_update n2 (\<lambda>d. d\<lparr>de_conflicts := sset_insert (de_name desc) (de_conflicts d)\<rparr>) m,
              err \<or> 0 < sint (de_min_occurs desc) \<and> 0 < sint (de_min_occurs desc2))))"

definition conflict_param ::
    "(string \<Rightarrow> string) \<Rightarrow> string \<Rightarrow>
     (string \<times> 'dt param_desc) list \<times> bool \<Rightarrow> (string \<times> 'dt param_desc) list \<times> bool" where
  "conflict_param lc a st = (case map_of (fst st) a of
       None \<Rightarrow> st
     | Some desc \<Rightarrow> fold (conflict_visit lc a desc) (de_conflicts desc) st)"

definition check_param_conflicts ::
    "(string \<Rightarrow> string) \<Rightarrow> (string \<times> 'dt param_desc) list \<Rightarrow> (string \<times> 'dt param_desc) list \<times> bool" where
  "check_param_conflicts lc m = fold (conflict_param lc) (map fst m) (m, False)"

section \<open>The whole configuration\<close>

definition config_new :: "bool \<Rightarrow> 'dt config" where
  "config_new cs =
     \<lparr>qc_case_sensitive = cs, qc_id = '''', qc_disabled = False, qc_demo = False, qc_test = False,
      qc_debug_level = 0, qc_expires = 0, qc_template = None, qc_constructor = '''',
      qc_language = '''', qc_title = [], qc_abstract = [], qc_return_types = [],
      qc_param_map = [], qc_case_map = [], qc_param_names = []\<rparr>"

definition check_formats :: "string list \<Rightarrow> unit result" where
  "check_formats fs = (if [] \<in> set fs then Inl (Thrown NoCode ''Empty format'') else Inr ())"

text \<open>\<open>parse_config\<close>: the entries of the query, its parameters, and the check of the conflicts.\<close>

definition read_config_entries :: "bool \<Rightarrow> 'dt raw_config \<Rightarrow> ('dt config \<times> 'dt raw_desc list) result" where
  "read_config_entries cs rc =
     rbind (mandatory (rc_id rc)) (\<lambda>qid.
     rbind (mandatory (rc_constructor rc)) (\<lambda>constructor.
     rbind (mandatory (rc_title rc)) (\<lambda>title.
     rbind (mandatory (rc_abstract rc)) (\<lambda>abstract.
     rbind (mandatory (rc_return_types rc)) (\<lambda>types.
     rbind (check_formats (rc_formats rc)) (\<lambda>_.
     rbind (mandatory (rc_parameters rc)) (\<lambda>params.
       Inr ((config_new cs)\<lparr>qc_id := qid,
           qc_disabled := or_default False (rc_disabled rc), qc_demo := or_default False (rc_demo rc),
           qc_test := or_default False (rc_test rc), qc_debug_level := or_default 0 (rc_debug_level rc),
           qc_expires := or_default 60 (rc_expires rc), qc_template := rc_template rc,
           qc_constructor := constructor, qc_language := or_default ''eng'' (rc_language rc),
           qc_title := title, qc_abstract := abstract, qc_return_types := types\<rparr>, params))))))))"

definition resolve_conflicts :: "(string \<Rightarrow> string) \<Rightarrow> 'dt config \<Rightarrow> 'dt config result" where
  "resolve_conflicts lc cfg =
     (let res = check_param_conflicts lc (qc_param_map cfg)
      in if snd res then Inl (Thrown NoCode ''Conflicting parameter specifications'')
         else Inr (cfg\<lparr>qc_param_map := fst res\<rparr>))"

definition parse_config ::
    "(string \<Rightarrow> string) \<Rightarrow> 'dt value_conv \<Rightarrow> bool \<Rightarrow> 'dt raw_config \<Rightarrow> 'dt config result" where
  "parse_config lc C cs rc =
     rbind (read_config_entries cs rc) (\<lambda>(cfg, params).
     rbind (fold_result (add_param_desc lc C) params cfg) (resolve_conflicts lc))"

definition get_template_fn :: "'dt config \<Rightarrow> string result" where
  "get_template_fn cfg = (case qc_template cfg of
       Some fn \<Rightarrow> Inr fn | None \<Rightarrow> Inl (Thrown NoCode ''Template file name is not available''))"

definition get_param_desc :: "(string \<Rightarrow> string) \<Rightarrow> 'dt config \<Rightarrow> string \<Rightarrow> 'dt param_desc option result" where
  "get_param_desc lc cfg name =
     (if qc_case_map cfg = [] then Inr (map_of (qc_param_map cfg) name)
      else case map_of (qc_case_map cfg) (lc name) of
          None \<Rightarrow> Inr None
        | Some real_name \<Rightarrow> (case map_of (qc_param_map cfg) real_name of
              None \<Rightarrow> Inl (Thrown NoCode ''INTERNAL ERROR'')
            | Some d \<Rightarrow> Inr (Some d)))"

definition desc_by_index :: "'dt config \<Rightarrow> nat \<Rightarrow> 'dt param_desc result" where
  "desc_by_index cfg ind =
     (if length (qc_param_names cfg) \<le> ind then Inl (Thrown NoCode ''out_of_range'')
      else case map_of (qc_param_map cfg) (qc_param_names cfg ! ind) of
          None \<Rightarrow> Inl (Thrown NoCode ''out_of_range'') | Some d \<Rightarrow> Inr d)"

section \<open>Names are unique\<close>

definition desc_key :: "(string \<Rightarrow> string) \<Rightarrow> 'dt config \<Rightarrow> string \<Rightarrow> string" where
  "desc_key lc cfg name = (if qc_case_sensitive cfg then name else lc name)"

definition desc_map_ok :: "(string \<times> 'dt param_desc) list \<Rightarrow> bool" where
  "desc_map_ok m \<longleftrightarrow> sm_ok m \<and> (\<forall>k d. map_of m k = Some d \<longrightarrow> de_name d = k)"

definition config_wf :: "(string \<Rightarrow> string) \<Rightarrow> 'dt config \<Rightarrow> bool" where
  "config_wf lc cfg \<longleftrightarrow> desc_map_ok (qc_param_map cfg) \<and>
     (if qc_case_sensitive cfg then qc_case_map cfg = []
      else (\<forall>r. map_of (qc_param_map cfg) r \<noteq> None \<longrightarrow> map_of (qc_case_map cfg) (lc r) = Some r) \<and>
           (\<forall>k r. map_of (qc_case_map cfg) k = Some r \<longrightarrow> lc r = k \<and> map_of (qc_param_map cfg) r \<noteq> None))"

lemma mandatory_Inr: "mandatory x = Inr v \<longleftrightarrow> x = Some v"
  by (auto simp: mandatory_def split: option.splits)

lemma parse_param_desc_Inr:
  assumes "parse_param_desc lc C rd cfg = Inr (item, cfg')"
  shows "add_case_name lc (de_name item) cfg = Inr cfg'" "pd_type (de_def item) \<noteq> PT_UNDEFINED \<and> param_def_wf (de_def item)"
proof -
  have type: "parse_type desc = Inr d \<Longrightarrow> param_def_wf d" for desc d
    using parse_def_wf [of desc param_def_new]
    by (cases "parse_def desc param_def_new") (auto simp: parse_type_def split: option.splits)
  have "add_case_name lc (de_name item) cfg = Inr cfg' \<and> (\<exists>desc. parse_type desc = Inr (de_def item))"
    using assms by (auto simp: parse_param_desc_def result_simps mandatory_Inr split: if_splits)
  with type show "add_case_name lc (de_name item) cfg = Inr cfg'"
    "pd_type (de_def item) \<noteq> PT_UNDEFINED \<and> param_def_wf (de_def item)"
    by (auto simp: param_def_wf_def)
qed

lemma add_case_name_Inr:
  "add_case_name lc name cfg = Inr cfg' \<longleftrightarrow>
     (if qc_case_sensitive cfg then cfg' = cfg
      else map_of (qc_case_map cfg) (lc name) = None \<and>
        cfg' = cfg\<lparr>qc_case_map := mm_insert (lc name) name (qc_case_map cfg)\<rparr>)"
  by (auto simp: add_case_name_def sm_simps sm_emplace_def split: option.splits)

lemma add_param_desc_Inr:
  assumes "add_param_desc lc C rd cfg = Inr cfg'"
  obtains item cfg1 where "add_case_name lc (de_name item) cfg = Inr cfg1"
    "map_of (qc_param_map cfg1) (de_name item) = None"
    "cfg' = cfg1\<lparr>qc_param_map := mm_insert (de_name item) item (qc_param_map cfg1),
        qc_param_names := qc_param_names cfg1 @ [de_name item]\<rparr>"
proof -
  from assms obtain item cfg1 where parsed: "parse_param_desc lc C rd cfg = Inr (item, cfg1)"
    and res: "(case sm_emplace (de_name item) item (qc_param_map cfg1) of
        None \<Rightarrow> Inl (Thrown NoCode ''Duplicate description of stored query parameter'')
      | Some pm \<Rightarrow> Inr (cfg1\<lparr>qc_param_map := pm, qc_param_names := qc_param_names cfg1 @ [de_name item]\<rparr>)) = Inr cfg'"
    unfolding add_param_desc_def by (auto simp: result_simps)
  from res show ?thesis
    using that [OF parse_param_desc_Inr(1) [OF parsed]]
    by (cases "map_of (qc_param_map cfg1) (de_name item)") (auto simp: sm_emplace_def)
qed

lemma add_param_desc_case_sensitive:
  "add_param_desc lc C rd cfg = Inr cfg' \<Longrightarrow> qc_case_sensitive cfg' = qc_case_sensitive cfg"
  by (erule add_param_desc_Inr) (auto simp: add_case_name_Inr split: if_splits)

lemma add_param_desc_wf:
  assumes "config_wf lc cfg" "add_param_desc lc C rd cfg = Inr cfg'"
  shows "config_wf lc cfg'"
proof -
  obtain item cfg1 where name: "add_case_name lc (de_name item) cfg = Inr cfg1"
    and new: "map_of (qc_param_map cfg1) (de_name item) = None"
    and cfg': "cfg' = cfg1\<lparr>qc_param_map := mm_insert (de_name item) item (qc_param_map cfg1),
        qc_param_names := qc_param_names cfg1 @ [de_name item]\<rparr>"
    using add_param_desc_Inr [OF assms(2)] .
  show ?thesis
  proof (cases "qc_case_sensitive cfg")
    case True
    with name have "cfg1 = cfg" by (simp add: add_case_name_Inr)
    with assms(1) new cfg' True show ?thesis
      by (auto simp: config_wf_def desc_map_ok_def sm_simps)
  next
    case False
    with name have cfg1: "cfg1 = cfg\<lparr>qc_case_map := mm_insert (lc (de_name item)) (de_name item) (qc_case_map cfg)\<rparr>"
      and free: "map_of (qc_case_map cfg) (lc (de_name item)) = None"
      by (simp_all add: add_case_name_Inr)
    let ?n = "de_name item" and ?m = "qc_param_map cfg" and ?cm = "qc_case_map cfg"
    have new: "map_of ?m ?n = None" using new cfg1 by simp
    have m: "desc_map_ok ?m" and fwd: "\<And>r. map_of ?m r \<noteq> None \<Longrightarrow> map_of ?cm (lc r) = Some r"
      and bwd: "\<And>k r. map_of ?cm k = Some r \<Longrightarrow> lc r = k \<and> map_of ?m r \<noteq> None"
      using assms(1) False unfolding config_wf_def by simp_all
    have "desc_map_ok (mm_insert ?n item ?m)"
      using m new by (auto simp: desc_map_ok_def sm_simps)
    moreover have "map_of (mm_insert ?n item ?m) r \<noteq> None \<Longrightarrow> map_of (mm_insert (lc ?n) ?n ?cm) (lc r) = Some r" for r
      using fwd [of r] free by (cases "r = ?n") (auto simp: sm_simps new)
    moreover have "map_of (mm_insert (lc ?n) ?n ?cm) k = Some r \<Longrightarrow> lc r = k \<and> map_of (mm_insert ?n item ?m) r \<noteq> None" for k r
      using bwd [of k r] free by (cases "k = lc ?n") (auto simp: sm_simps new)
    moreover have "qc_param_map cfg' = mm_insert ?n item ?m" "qc_case_map cfg' = mm_insert (lc ?n) ?n ?cm"
      "qc_case_sensitive cfg' = False"
      using False by (simp_all add: cfg' cfg1)
    ultimately show ?thesis
      unfolding config_wf_def by (simp only: if_False) blast
  qed
qed

text \<open>The loops change nothing of a description but its conflicts.\<close>

definition desc_core :: "'dt param_desc \<Rightarrow> string \<times> 32 word" where
  "desc_core d = (de_name d, de_min_occurs d)"

definition same_descs :: "(string \<times> 'dt param_desc) list \<Rightarrow> (string \<times> 'dt param_desc) list \<Rightarrow> bool" where
  "same_descs m m' \<longleftrightarrow> sm_ok m = sm_ok m' \<and>
     (\<forall>k. map_option desc_core (map_of m' k) = map_option desc_core (map_of m k))"

lemma same_descs_fold:
  assumes "\<And>x m err. same_descs m (fst (f x (m, err)))"
  shows "same_descs m (fst (fold f xs (m, err)))"
proof (induction xs arbitrary: m err)
  case (Cons x xs)
  obtain m1 err1 where "f x (m, err) = (m1, err1)" by fastforce
  with assms [of m x err] Cons.IH [of m1 err1] show ?case
    by (simp add: same_descs_def)
qed (simp add: same_descs_def)

lemma conflict_visit_same: "same_descs m (fst (conflict_visit lc a desc c (m, err)))"
proof (cases "map_of m (lc c)")
  case None
  then show ?thesis by (simp add: conflict_visit_def same_descs_def Let_def)
next
  case (Some d)
  then show ?thesis
    by (simp add: conflict_visit_def same_descs_def Let_def sm_simps desc_core_def)
qed

lemma conflict_param_same: "same_descs m (fst (conflict_param lc a (m, err)))"
proof (cases "map_of m a")
  case None
  then show ?thesis by (simp add: conflict_param_def same_descs_def)
next
  case (Some desc)
  then show ?thesis
    using same_descs_fold [OF conflict_visit_same] by (simp add: conflict_param_def)
qed

lemma check_param_conflicts_same: "same_descs m (fst (check_param_conflicts lc m))"
  unfolding check_param_conflicts_def by (rule same_descs_fold) (rule conflict_param_same)

lemma same_descs_name:
  assumes "same_descs m m'" "map_of m' k = Some d'"
  obtains d where "map_of m k = Some d" "de_name d' = de_name d" "de_min_occurs d' = de_min_occurs d"
proof -
  from assms(1) have "map_option desc_core (map_of m' k) = map_option desc_core (map_of m k)"
    by (simp add: same_descs_def)
  with assms(2) have "map_option desc_core (map_of m k) = Some (desc_core d')"
    by simp
  then show ?thesis
    by (auto simp: desc_core_def intro: that)
qed

lemma same_descs_dom: "same_descs m m' \<Longrightarrow> (map_of m' k = None) = (map_of m k = None)"
  by (metis map_option_is_None same_descs_def)

lemma parse_config_Inr:
  assumes "parse_config lc C cs rc = Inr cfg"
  obtains cfg0 where "config_wf lc cfg0" "qc_case_sensitive cfg0 = cs"
    "check_param_conflicts lc (qc_param_map cfg0) = (qc_param_map cfg, False)"
    "cfg = cfg0\<lparr>qc_param_map := qc_param_map cfg\<rparr>"
proof -
  from assms obtain params cfg1 cfg0 where
    entries: "read_config_entries cs rc = Inr (cfg1, params)"
    and fold: "fold_result (add_param_desc lc C) params cfg1 = Inr cfg0"
    and conflicts: "resolve_conflicts lc cfg0 = Inr cfg"
    by (auto simp: parse_config_def result_simps)
  from entries have cfg1: "qc_param_map cfg1 = []" "qc_case_map cfg1 = []" "qc_case_sensitive cfg1 = cs"
    by (auto simp: read_config_entries_def result_simps config_new_def)
  from conflicts have res: "check_param_conflicts lc (qc_param_map cfg0) = (qc_param_map cfg, False)"
      "cfg = cfg0\<lparr>qc_param_map := qc_param_map cfg\<rparr>"
    by (auto simp: resolve_conflicts_def Let_def prod_eq_iff split: if_splits)
  have "config_wf lc cfg0 \<and> qc_case_sensitive cfg0 = cs"
  proof (rule fold_result_invariant [OF fold])
    show "config_wf lc cfg1 \<and> qc_case_sensitive cfg1 = cs"
      using cfg1 by (simp add: config_wf_def desc_map_ok_def)
  next
    fix x s t assume "config_wf lc s \<and> qc_case_sensitive s = cs" "add_param_desc lc C x s = Inr t"
    then show "config_wf lc t \<and> qc_case_sensitive t = cs"
      using add_param_desc_wf add_param_desc_case_sensitive by blast
  qed
  with res that show ?thesis by blast
qed

lemma parse_config_wf:
  assumes "parse_config lc C cs rc = Inr cfg"
  shows "config_wf lc cfg"
proof (rule parse_config_Inr [OF assms])
  fix cfg0 assume wf: "config_wf lc cfg0"
    and res: "check_param_conflicts lc (qc_param_map cfg0) = (qc_param_map cfg, False)"
      "cfg = cfg0\<lparr>qc_param_map := qc_param_map cfg\<rparr>"
  have same: "same_descs (qc_param_map cfg0) (qc_param_map cfg)"
    using check_param_conflicts_same [of "qc_param_map cfg0" lc] res(1) by simp
  have "desc_map_ok (qc_param_map cfg)"
    using wf same by (auto simp: config_wf_def desc_map_ok_def same_descs_def elim: same_descs_name [OF same])
  moreover have "qc_case_sensitive cfg = qc_case_sensitive cfg0" "qc_case_map cfg = qc_case_map cfg0"
    by (subst res(2), simp)+
  ultimately show ?thesis
    using wf same_descs_dom [OF same] by (simp add: config_wf_def split: if_splits)
qed

section \<open>Conflicts become symmetric\<close>

definition conf :: "(string \<times> 'dt param_desc) list \<Rightarrow> string \<Rightarrow> string set" where
  "conf m a = (case map_of m a of None \<Rightarrow> {} | Some d \<Rightarrow> set (de_conflicts d))"

definition is_mandatory :: "(string \<times> 'dt param_desc) list \<Rightarrow> string \<Rightarrow> bool" where
  "is_mandatory m a = (case map_of m a of None \<Rightarrow> False | Some d \<Rightarrow> 0 < sint (de_min_occurs d))"

definition conflicts_with :: "(string \<Rightarrow> string) \<Rightarrow> (string \<times> 'dt param_desc) list \<Rightarrow> string \<Rightarrow> string \<Rightarrow> bool" where
  "conflicts_with lc m a b \<longleftrightarrow> (\<exists>c \<in> conf m a. lc c = b)"

definition proper_conflict :: "(string \<Rightarrow> string) \<Rightarrow> (string \<times> 'dt param_desc) list \<Rightarrow> string \<Rightarrow> string \<Rightarrow> bool" where
  "proper_conflict lc m a b \<longleftrightarrow> a \<noteq> b \<and> map_of m a \<noteq> None \<and> map_of m b \<noteq> None \<and>
     conflicts_with lc m a b \<and> conflicts_with lc m b a \<and> \<not> (is_mandatory m a \<and> is_mandatory m b)"

definition conf_grows :: "(string \<times> 'dt param_desc) list \<Rightarrow> (string \<times> 'dt param_desc) list \<Rightarrow> bool" where
  "conf_grows m m' \<longleftrightarrow> same_descs m m' \<and> (\<forall>k. conf m k \<subseteq> conf m' k)"

lemma conf_grows_refl: "conf_grows m m"
  by (simp add: conf_grows_def same_descs_def)

lemma conf_grows_trans: "conf_grows m m' \<Longrightarrow> conf_grows m' m'' \<Longrightarrow> conf_grows m m''"
  unfolding conf_grows_def same_descs_def by (metis order_trans)

lemma is_mandatory_same: "same_descs m m' \<Longrightarrow> is_mandatory m' k = is_mandatory m k"
proof -
  assume same: "same_descs m m'"
  show ?thesis
  proof (cases "map_of m' k")
    case None
    then have "map_of m k = None" using same_descs_dom [OF same] by simp
    with None show ?thesis by (simp add: is_mandatory_def)
  next
    case (Some d')
    then show ?thesis
      by (rule same_descs_name [OF same]) (simp add: is_mandatory_def Some)
  qed
qed

lemma proper_conflict_mono: "proper_conflict lc m a b \<Longrightarrow> conf_grows m m' \<Longrightarrow> proper_conflict lc m' a b"
proof -
  assume proper: "proper_conflict lc m a b" and grows: "conf_grows m m'"
  from grows have same: "same_descs m m'" and sub: "\<And>k. conf m k \<subseteq> conf m' k"
    by (simp_all add: conf_grows_def)
  show ?thesis
    using proper sub unfolding proper_conflict_def conflicts_with_def same_descs_dom [OF same]
      is_mandatory_same [OF same] by blast
qed

lemma proper_conflict_sym: "proper_conflict lc m a b \<Longrightarrow> proper_conflict lc m b a"
  by (auto simp: proper_conflict_def)

lemma conf_sm_update:
  "map_of m n = Some d \<Longrightarrow>
   conf (sm_update n (\<lambda>d. d\<lparr>de_conflicts := sset_insert x (de_conflicts d)\<rparr>) m) k =
     (if k = n then insert x (conf m k) else conf m k)"
  by (simp add: conf_def sm_simps)

lemma conflict_visit_grows: "conf_grows m (fst (conflict_visit lc a desc c (m, err)))"
proof -
  have "conf m k \<subseteq> conf (fst (conflict_visit lc a desc c (m, err))) k" for k
    by (cases "map_of m (lc c)") (auto simp: conflict_visit_def Let_def conf_sm_update)
  with conflict_visit_same show ?thesis by (simp add: conf_grows_def)
qed

lemma conflict_visit_ok:
  assumes "conflict_visit lc a desc c (m, err) = (m', False)"
    and a: "lc a = a" "map_of m a \<noteq> None" "de_name desc = a" "(0 < sint (de_min_occurs desc)) = is_mandatory m a"
    and c: "c \<in> conf m a"
  shows "\<not> err" "conf_grows m m'" "proper_conflict lc m' a (lc c)"
    "conf m' k = (if k = lc c then insert a (conf m k) else conf m k)"
proof -
  let ?f = "\<lambda>d. d\<lparr>de_conflicts := sset_insert (de_name desc) (de_conflicts d)\<rparr>"
  from assms(1) obtain d where d: "map_of m (lc c) = Some d" and err: "\<not> err" "lc c \<noteq> a"
    and m': "m' = sm_update (lc c) ?f m" and mand: "\<not> (is_mandatory m a \<and> 0 < sint (de_min_occurs d))"
    using a(4) by (auto simp: conflict_visit_def Let_def split: option.splits)
  show "\<not> err" by fact
  have conf: "conf m' k = (if k = lc c then insert a (conf m k) else conf m k)" for k
    using d a(3) by (simp add: m' conf_sm_update)
  then show "conf m' k = (if k = lc c then insert a (conf m k) else conf m k)" .
  have same: "same_descs m m'"
    using conflict_visit_same [of m lc a desc c err] assms(1) by simp
  with conf show grows: "conf_grows m m'"
    by (auto simp: conf_grows_def)
  have "is_mandatory m' (lc c) = (0 < sint (de_min_occurs d))"
    using d is_mandatory_same [OF same] by (simp add: is_mandatory_def)
  then show "proper_conflict lc m' a (lc c)"
    using err(2) a(1,2) c d mand is_mandatory_same [OF same] same_descs_dom [OF same]
    by (auto simp: proper_conflict_def conflicts_with_def conf)
qed

lemma conflict_fold_ok:
  assumes "fold (conflict_visit lc a desc) cs (m, err) = (m', False)"
    and "lc a = a" "map_of m a \<noteq> None" "de_name desc = a" "(0 < sint (de_min_occurs desc)) = is_mandatory m a"
    and "set cs \<subseteq> conf m a"
  shows "\<not> err \<and> conf_grows m m' \<and> (\<forall>c \<in> set cs. proper_conflict lc m' a (lc c)) \<and>
    (\<forall>k. conf m' k \<subseteq> conf m k \<union> (if k \<in> lc ` set cs then {a} else {}))"
  using assms
proof (induction cs arbitrary: m err)
  case Nil
  then show ?case by (simp add: conf_grows_refl)
next
  case (Cons c cs)
  obtain m1 err1 where step: "conflict_visit lc a desc c (m, err) = (m1, err1)"
    by fastforce
  have rest: "fold (conflict_visit lc a desc) cs (m1, err1) = (m', False)"
    using Cons.prems(1) step by simp
  have grows: "conf_grows m m1"
    using conflict_visit_grows [of m lc a desc c err] step by simp
  then have same: "same_descs m m1" and sub: "set cs \<subseteq> conf m1 a"
    using Cons.prems(6) by (auto simp: conf_grows_def)
  have IH: "\<not> err1 \<and> conf_grows m1 m' \<and> (\<forall>c \<in> set cs. proper_conflict lc m' a (lc c)) \<and>
      (\<forall>k. conf m' k \<subseteq> conf m1 k \<union> (if k \<in> lc ` set cs then {a} else {}))"
    using Cons.IH [OF rest Cons.prems(2) _ Cons.prems(4) _ sub] Cons.prems(3,5)
      same_descs_dom [OF same] is_mandatory_same [OF same] by simp
  then have step': "conflict_visit lc a desc c (m, err) = (m1, False)"
    using step by simp
  have c: "c \<in> conf m a" using Cons.prems(6) by simp
  note ok = conflict_visit_ok [OF step' Cons.prems(2-5) c]
  have "proper_conflict lc m' a (lc c)"
    using proper_conflict_mono [OF ok(3)] IH by blast
  moreover have "conf_grows m m'"
    using conf_grows_trans [OF grows] IH by blast
  moreover have "conf m' k \<subseteq> conf m k \<union> (if k \<in> lc ` set (c # cs) then {a} else {})" for k
  proof -
    have "conf m' k \<subseteq> conf m1 k \<union> (if k \<in> lc ` set cs then {a} else {})"
      using IH by blast
    with ok(4) [of k] show ?thesis by (cases "k = lc c") (auto split: if_splits)
  qed
  ultimately show ?case
    using ok(1) IH by auto
qed

text \<open>The parameters whose conflicts have been processed have proper conflicts only.\<close>

definition settled :: "(string \<Rightarrow> string) \<Rightarrow> (string \<times> 'dt param_desc) list \<Rightarrow> string set \<Rightarrow> bool" where
  "settled lc m D \<longleftrightarrow> (\<forall>k \<in> D. \<forall>c \<in> conf m k. proper_conflict lc m k (lc c))"

lemma conflict_param_settled:
  assumes step: "conflict_param lc a (m, err) = (m', False)"
    and m: "desc_map_ok m" "lc a = a" "settled lc m D"
  shows "\<not> err \<and> desc_map_ok m' \<and> same_descs m m' \<and> settled lc m' (insert a D)"
proof (cases "map_of m a")
  case None
  with step m show ?thesis
    by (auto simp: conflict_param_def settled_def conf_def same_descs_def)
next
  case (Some desc)
  then have run: "fold (conflict_visit lc a desc) (de_conflicts desc) (m, err) = (m', False)"
    and conf: "conf m a = set (de_conflicts desc)"
    using step by (simp_all add: conflict_param_def conf_def)
  have "de_name desc = a" "(0 < sint (de_min_occurs desc)) = is_mandatory m a"
    using m(1) Some by (simp_all add: desc_map_ok_def is_mandatory_def)
  from conflict_fold_ok [OF run m(2) _ this] Some conf
  have ok: "\<not> err" "conf_grows m m'" "\<forall>c \<in> conf m a. proper_conflict lc m' a (lc c)"
    "\<And>k. conf m' k \<subseteq> conf m k \<union> (if k \<in> lc ` conf m a then {a} else {})"
    by auto
  have same: "same_descs m m'" using ok(2) by (simp add: conf_grows_def)
  have "desc_map_ok m'"
    using m(1) same by (auto simp: desc_map_ok_def same_descs_def elim: same_descs_name [OF same])
  moreover have "settled lc m' (insert a D)"
    unfolding settled_def
  proof (intro ballI)
    fix k c assume k: "k \<in> insert a D" and c: "c \<in> conf m' k"
    show "proper_conflict lc m' k (lc c)"
    proof (cases "c \<in> conf m k")
      case True
      show ?thesis
      proof (cases "k = a")
        case True
        with \<open>c \<in> conf m k\<close> ok(3) show ?thesis by simp
      next
        case False
        with k True m(3) have "proper_conflict lc m k (lc c)" by (simp add: settled_def)
        then show ?thesis using ok(2) by (rule proper_conflict_mono)
      qed
    next
      case False
      with c ok(4) [of k] have "c = a" "k \<in> lc ` conf m a" by (auto split: if_splits)
      with ok(3) have "proper_conflict lc m' a k" by auto
      with \<open>c = a\<close> m(2) show ?thesis by (simp add: proper_conflict_sym)
    qed
  qed
  ultimately show ?thesis using ok(1) same by blast
qed

lemma conflict_err_visits: "snd (fold (conflict_visit lc a desc) cs (m, True))"
  by (induction cs arbitrary: m) (auto simp: conflict_visit_def Let_def split: option.splits)

lemma conflict_err_params: "snd (fold (conflict_param lc) ks (m, True))"
proof (induction ks arbitrary: m)
  case (Cons k ks)
  have "snd (conflict_param lc k (m, True))"
    by (auto simp: conflict_param_def conflict_err_visits split: option.splits)
  then obtain m1 where "conflict_param lc k (m, True) = (m1, True)"
    by (metis prod.collapse)
  with Cons.IH show ?case by simp
qed simp

lemma conflict_params_settled:
  assumes "fold (conflict_param lc) ks (m, err) = (m', False)"
    and "desc_map_ok m" "\<forall>k \<in> set ks. lc k = k" "settled lc m D"
  shows "settled lc m' (set ks \<union> D)"
  using assms
proof (induction ks arbitrary: m err D)
  case Nil
  then show ?case by simp
next
  case (Cons k ks)
  obtain m1 err1 where step: "conflict_param lc k (m, err) = (m1, err1)" by fastforce
  have rest: "fold (conflict_param lc) ks (m1, err1) = (m', False)"
    using Cons.prems(1) step by simp
  with conflict_err_params [of lc ks m1] have "\<not> err1"
    by (cases err1) auto
  with step have "conflict_param lc k (m, err) = (m1, False)" by simp
  from conflict_param_settled [OF this Cons.prems(2) _ Cons.prems(4)] Cons.prems(3)
  have "desc_map_ok m1" "settled lc m1 (insert k D)" by simp_all
  from Cons.IH [OF rest this(1) _ this(2)] Cons.prems(3) show ?case by simp
qed

lemma get_param_desc_wf:
  assumes "config_wf lc cfg"
  shows "map_of (qc_param_map cfg) n = Some d \<Longrightarrow> desc_key lc cfg n = desc_key lc cfg name \<Longrightarrow>
      get_param_desc lc cfg name = Inr (Some d)"
    and "(\<And>n. n \<in> set (map fst (qc_param_map cfg)) \<Longrightarrow> desc_key lc cfg n \<noteq> desc_key lc cfg name) \<Longrightarrow>
      get_param_desc lc cfg name = Inr None"
proof -
  have fwd: "map_of (qc_case_map cfg) (lc r) = Some r" if "\<not> qc_case_sensitive cfg" "map_of (qc_param_map cfg) r \<noteq> None" for r
    using assms that by (simp add: config_wf_def)
  have bwd: "lc r = k \<and> map_of (qc_param_map cfg) r \<noteq> None" if "\<not> qc_case_sensitive cfg" "map_of (qc_case_map cfg) k = Some r" for k r
    using assms that by (simp add: config_wf_def)
  have cs: "qc_case_map cfg = []" if "qc_case_sensitive cfg"
    using assms that by (simp add: config_wf_def)
  show "get_param_desc lc cfg name = Inr (Some d)"
    if n: "map_of (qc_param_map cfg) n = Some d" "desc_key lc cfg n = desc_key lc cfg name"
  proof (cases "qc_case_sensitive cfg")
    case True
    with n cs show ?thesis by (simp add: get_param_desc_def desc_key_def)
  next
    case False
    with n fwd [of n] have "map_of (qc_case_map cfg) (lc name) = Some n"
      by (simp add: desc_key_def)
    with n show ?thesis by (auto simp: get_param_desc_def)
  qed
  show "get_param_desc lc cfg name = Inr None"
    if none: "\<And>n. n \<in> set (map fst (qc_param_map cfg)) \<Longrightarrow> desc_key lc cfg n \<noteq> desc_key lc cfg name"
  proof -
    have "map_of (qc_param_map cfg) name = None"
      using none [of name] by (auto simp: map_of_eq_None_iff)
    moreover have "map_of (qc_case_map cfg) (lc name) = None" if "\<not> qc_case_sensitive cfg"
    proof (rule ccontr)
      assume "map_of (qc_case_map cfg) (lc name) \<noteq> None"
      then obtain r where "map_of (qc_case_map cfg) (lc name) = Some r" by blast
      from bwd [OF that this] none [of r] that show False
        by (auto simp: desc_key_def map_of_eq_None_iff)
    qed
    ultimately show ?thesis
      using cs by (cases "qc_case_sensitive cfg") (simp_all add: get_param_desc_def)
  qed
qed

lemma conflicts_proper:
  assumes "parse_config lc C cs rc = Inr cfg"
    and "\<forall>n \<in> set (map fst (qc_param_map cfg)). lc n = n"
    and "conflicts_with lc (qc_param_map cfg) a b"
  shows "a \<noteq> b \<and> map_of (qc_param_map cfg) a \<noteq> None \<and> map_of (qc_param_map cfg) b \<noteq> None \<and>
    conflicts_with lc (qc_param_map cfg) b a \<and>
    \<not> (is_mandatory (qc_param_map cfg) a \<and> is_mandatory (qc_param_map cfg) b)"
proof (rule parse_config_Inr [OF assms(1)])
  fix cfg0 assume wf: "config_wf lc cfg0"
    and check: "check_param_conflicts lc (qc_param_map cfg0) = (qc_param_map cfg, False)"
  let ?old = "qc_param_map cfg0" and ?m = "qc_param_map cfg"
  have same: "same_descs ?old ?m"
    using check_param_conflicts_same [of ?old lc] check by simp
  have keys: "set (map fst ?m) = set (map fst ?old)"
    using same_descs_dom [OF same] by (auto simp: map_of_eq_None_iff)
  have "settled lc ?m (set (map fst ?old) \<union> {})"
  proof (rule conflict_params_settled [OF check [unfolded check_param_conflicts_def]])
    show "desc_map_ok ?old" using wf by (simp add: config_wf_def)
    show "\<forall>k \<in> set (map fst ?old). lc k = k" using assms(2) unfolding keys .
    show "settled lc ?old {}" by (simp add: settled_def)
  qed
  moreover have "a \<in> set (map fst ?old)"
  proof -
    have "map_of ?m a \<noteq> None"
      using assms(3) by (auto simp: conflicts_with_def conf_def split: option.splits)
    then show ?thesis unfolding keys [symmetric] by (simp add: map_of_eq_None_iff)
  qed
  ultimately have "proper_conflict lc ?m a b"
    using assms(3) by (auto simp: settled_def conflicts_with_def)
  then show ?thesis by (simp add: proper_conflict_def)
qed

section \<open>Properties\<close>

text \<open>
  C28.  In a configuration that was read without an exception a parameter is found under every
  spelling of its name that the case policy allows, at most one description matches a name, and
  the internal error branch of the lookup is never taken.
\<close>

theorem param_desc_lookup:
  assumes "parse_config lc C cs rc = Inr cfg"
  shows "case get_param_desc lc cfg name of
      Inl e \<Rightarrow> False
    | Inr None \<Rightarrow> \<forall>n d. map_of (qc_param_map cfg) n = Some d \<longrightarrow> desc_key lc cfg n \<noteq> desc_key lc cfg name
    | Inr (Some d) \<Rightarrow> map_of (qc_param_map cfg) (de_name d) = Some d \<and>
        (\<forall>n. map_of (qc_param_map cfg) n \<noteq> None \<longrightarrow>
           (desc_key lc cfg n = desc_key lc cfg name) = (n = de_name d))"
proof -
  note wf = parse_config_wf [OF assms]
  from wf have names: "\<And>k d. map_of (qc_param_map cfg) k = Some d \<Longrightarrow> de_name d = k"
    by (auto simp: config_wf_def desc_map_ok_def)
  show ?thesis
  proof (cases "qc_case_sensitive cfg")
    case True
    with wf have "qc_case_map cfg = []" by (simp add: config_wf_def)
    with True names show ?thesis
      by (auto simp: get_param_desc_def desc_key_def split: option.splits)
  next
    case False
    with wf have fwd: "\<And>r. map_of (qc_param_map cfg) r \<noteq> None \<Longrightarrow> map_of (qc_case_map cfg) (lc r) = Some r"
      and bwd: "\<And>k r. map_of (qc_case_map cfg) k = Some r \<Longrightarrow> lc r = k \<and> map_of (qc_param_map cfg) r \<noteq> None"
      unfolding config_wf_def by simp_all
    show ?thesis
    proof (cases "map_of (qc_case_map cfg) (lc name)")
      case None
      have "lc n \<noteq> lc name" if "map_of (qc_param_map cfg) n = Some d" for n d
        using fwd [of n] that None by auto
      moreover have "map_of (qc_param_map cfg) name = None" if "qc_case_map cfg = []"
        using fwd [of name] that by (cases "map_of (qc_param_map cfg) name") auto
      ultimately show ?thesis
        using None False by (auto simp: get_param_desc_def desc_key_def)
    next
      case (Some r)
      from bwd [OF Some] obtain d where d: "map_of (qc_param_map cfg) r = Some d" "lc r = lc name"
        by auto
      have "(lc n = lc name) = (n = r)" if "map_of (qc_param_map cfg) n \<noteq> None" for n
        using fwd [OF that] Some d(2) by auto
      with Some d False names [OF d(1)] show ?thesis
        by (auto simp: get_param_desc_def desc_key_def)
    qed
  qed
qed

text \<open>A configuration with two parameters, for the witnesses.\<close>

definition demo_desc :: "string \<Rightarrow> string list \<Rightarrow> unit raw_desc" where
  "demo_desc name conflicts = \<lparr>rd_name = Some name, rd_xml_type = Some ''t'', rd_title = Some [],
     rd_abstract = Some [], rd_min_occurs = None, rd_max_occurs = Some 9, rd_type = Some ''string'',
     rd_lower = None, rd_upper = None, rd_conflicts = conflicts\<rparr>"

definition demo_config :: "string \<Rightarrow> string \<Rightarrow> unit raw_config" where
  "demo_config a b = \<lparr>rc_disabled = None, rc_demo = None, rc_test = None, rc_debug_level = None,
     rc_id = Some ''q'', rc_expires = None, rc_template = None, rc_constructor = Some ''c'',
     rc_language = None, rc_title = Some [], rc_abstract = Some [], rc_return_types = Some [],
     rc_formats = [], rc_parameters = Some [demo_desc a [], demo_desc b [a]]\<rparr>"

definition demo_conv :: "unit value_conv" where
  "demo_conv = \<lparr>vc_double = (\<lambda>_. Inr 0), vc_int = (\<lambda>_. Inr 0), vc_uint = (\<lambda>_. Inr 0),
     vc_time = (\<lambda>_. Inr ()), vc_bool = (\<lambda>_. Inr False), vc_string = (\<lambda>_. Inr ''''),
     vc_point = (\<lambda>_. Inr (0, 0, '''')), vc_bbox = (\<lambda>_. Inr (0, 0, 0, 0, ''''))\<rparr>"

definition string_def :: param_def where
  "string_def = \<lparr>pd_type = PT_STRING, pd_is_array = False, pd_min_size = 1, pd_max_size = 1\<rparr>"

definition demo_param :: "string \<Rightarrow> string list \<Rightarrow> unit param_desc" where
  "demo_param name conflicts = \<lparr>de_name = name, de_title = [], de_abstract = [], de_min_occurs = 0,
     de_max_occurs = 9, de_xml_type = ''t'', de_def = string_def, de_lower = None, de_upper = None,
     de_conflicts = conflicts, de_used = False\<rparr>"

lemma demo_config_parsed:
  "\<exists>cfg. parse_config ascii_lower demo_conv False (demo_config ''a'' ''b'') = Inr cfg \<and>
     qc_param_map cfg = [(''a'', demo_param ''a'' [''b'']), (''b'', demo_param ''b'' [''a''])]"
proof -
  have type: "parse_type ''string'' = Inr string_def"
    using parse_dump [of string_def param_def_new]
    by (simp add: parse_type_def param_def_wf_def param_def_dump_def dump_type_def string_def_def)
  have lower: "ascii_lower ''a'' = ''a''" "ascii_lower ''b'' = ''b''"
    by code_simp+
  have less: "\<not> (''b'' < ''a'')"
    by code_simp
  show ?thesis
    by (simp add: parse_config_def read_config_entries_def demo_config_def mandatory_def check_formats_def
        or_default_def add_param_desc_def parse_param_desc_def demo_desc_def type opt_limit_def
        add_case_name_def sm_emplace_def config_new_def lower less resolve_conflicts_def
        check_param_conflicts_def conflict_param_def conflict_visit_def sm_update_def Let_def
        sset_insert_def demo_param_def)
qed

lemma param_desc_lookup_witness:
  "\<exists>cfg. parse_config ascii_lower demo_conv False (demo_config ''a'' ''b'') = Inr cfg \<and>
     (case get_param_desc ascii_lower cfg ''B'' of
        Inr (Some d) \<Rightarrow> map_of (qc_param_map cfg) (de_name d) = Some d | _ \<Rightarrow> True)"
proof -
  obtain cfg where cfg: "parse_config ascii_lower demo_conv False (demo_config ''a'' ''b'') = Inr cfg"
    using demo_config_parsed by blast
  with param_desc_lookup [OF cfg, of "''B''"] show ?thesis
    by (auto split: sum.splits option.splits)
qed

text \<open>
  When the parameter names are in lower case, a configuration that was read without an
  exception has only proper conflicts: both parameters exist and differ, each names the other,
  and they are not both mandatory.
\<close>

theorem conflicts_symmetric:
  assumes "parse_config lc C cs rc = Inr cfg"
    and "\<forall>n \<in> set (map fst (qc_param_map cfg)). lc n = n"
    and "conflicts_with lc (qc_param_map cfg) a b"
  shows "a \<noteq> b \<and> map_of (qc_param_map cfg) a \<noteq> None \<and> map_of (qc_param_map cfg) b \<noteq> None \<and>
    conflicts_with lc (qc_param_map cfg) b a \<and>
    \<not> (is_mandatory (qc_param_map cfg) a \<and> is_mandatory (qc_param_map cfg) b)"
  using conflicts_proper [OF assms] .

lemma conflicts_symmetric_witness:
  "\<exists>cfg. parse_config ascii_lower demo_conv False (demo_config ''a'' ''b'') = Inr cfg \<and>
     conflicts_with ascii_lower (qc_param_map cfg) ''a'' ''b''"
proof -
  obtain cfg where cfg: "parse_config ascii_lower demo_conv False (demo_config ''a'' ''b'') = Inr cfg"
    and m: "qc_param_map cfg = [(''a'', demo_param ''a'' [''b'']), (''b'', demo_param ''b'' [''a''])]"
    using demo_config_parsed by blast
  have lower: "ascii_lower ''a'' = ''a''" "ascii_lower ''b'' = ''b''"
    by code_simp+
  have "conflicts_with ascii_lower (qc_param_map cfg) ''b'' ''a''"
    by (simp add: m conflicts_with_def conf_def demo_param_def lower)
  from conflicts_symmetric [OF cfg _ this] m lower cfg show ?thesis by auto
qed

end
