(* ===== verification/Templates.thy ===== *)
theory Templates
  imports ParamItem QueryConfig
begin

text \<open>
  \<open>libwfs/ScalarParameterTemplate.cpp\<close>, \<open>ArrayParameterTemplate.cpp\<close> and
  \<open>SupportsExtraHandlerParams.cpp\<close>: the handler parameters built of template items, the checks
  made when a stored query is configured, and the values for a request, with one level of
  redirection to the named handler parameters.
\<close>

section \<open>Templates\<close>

record 'dt array_template =
  at_items :: "'dt item list"
  at_min_size :: nat
  at_max_size :: nat

datatype 'dt template =
    ScalarTemplate "'dt item"
  | ArrayTemplate "'dt array_template"

type_synonym 'dt handler_params = "(string \<times> 'dt template) list"

text \<open>\<open>boost::tribool\<close>; its conversion to \<open>bool\<close> takes \<open>indeterminate\<close> for false.\<close>

datatype tribool = TFalse | TTrue | TIndeterminate

definition tri_bool :: "tribool \<Rightarrow> bool" where
  "tri_bool t \<longleftrightarrow> t = TTrue"

section \<open>Values\<close>

text \<open>\<open>ScalarParameterTemplate::get_value\<close> with a tribool; \<open>strict\<close> is ignored by the source.\<close>

definition scalar_find ::
    "(string \<Rightarrow> string) \<Rightarrow> 'dt redirection \<Rightarrow> 'dt spine_value rpm \<Rightarrow> 'dt item \<Rightarrow>
     (tribool \<times> 'dt spine_value option) result" where
  "scalar_find lc redirect m it =
     rbind (item_find lc redirect m False it) (\<lambda>found. case found of
         None \<Rightarrow> Inr (TFalse, None)
       | Some (One v) \<Rightarrow> Inr (TTrue, Some v)
       | Some (Many vs) \<Rightarrow> (case vs of
             [] \<Rightarrow> Inr (TFalse, None)
           | [v] \<Rightarrow> Inr (TTrue, Some v)
           | _ \<Rightarrow> Inl (Thrown NoCode ''Scalar value expected'')))"

text \<open>\<open>ScalarParameterTemplate::get_value\<close> returning a value; \<open>VEmpty\<close> is the empty value.\<close>

definition scalar_get ::
    "(string \<Rightarrow> string) \<Rightarrow> 'dt redirection \<Rightarrow> 'dt spine_value rpm \<Rightarrow> 'dt item \<Rightarrow> 'dt spine_value result" where
  "scalar_get lc redirect m it =
     rbind (item_get lc redirect m False it) (\<lambda>r. case r of
         One v \<Rightarrow> Inr v
       | Many vs \<Rightarrow> (case vs of
             [] \<Rightarrow> Inr VEmpty
           | [v] \<Rightarrow> Inr v
           | _ \<Rightarrow> Inl (Thrown NoCode ''cannot convert array'')))"

definition variant_list :: "'v variant \<Rightarrow> 'v list" where
  "variant_list r = (case r of One v \<Rightarrow> [v] | Many vs \<Rightarrow> vs)"

text \<open>\<open>ArrayParameterTemplate::get_value\<close>: the loop collects the values and the two flags.\<close>

definition array_step ::
    "(string \<Rightarrow> string) \<Rightarrow> 'dt redirection \<Rightarrow> 'dt spine_value rpm \<Rightarrow> bool \<Rightarrow> 'dt item \<Rightarrow>
     'dt spine_value list \<times> bool \<times> bool \<Rightarrow> ('dt spine_value list \<times> bool \<times> bool) result" where
  "array_step lc redirect m strict it acc = (case acc of (out, some_resolved, all_resolved) \<Rightarrow>
     rbind (if strict then rbind (item_get lc redirect m True it) (\<lambda>r. Inr (Some r))
            else item_find lc redirect m True it) (\<lambda>found.
       case found of
         Some r \<Rightarrow> Inr (out @ variant_list r, True, all_resolved)
       | None \<Rightarrow> Inr (out, some_resolved, False)))"

definition array_find ::
    "(string \<Rightarrow> string) \<Rightarrow> 'dt redirection \<Rightarrow> 'dt spine_value rpm \<Rightarrow> bool \<Rightarrow> 'dt array_template \<Rightarrow>
     (tribool \<times> 'dt spine_value list) result" where
  "array_find lc redirect m strict t =
     rbind (fold_result (array_step lc redirect m strict) (at_items t) ([], False, True))
       (\<lambda>(out, some_resolved, all_resolved).
          if at_max_size t < length out then Inl (Thrown ParsingFailed ''exceeds upper limit'')
          else if length out < at_min_size t then Inl (Thrown ParsingFailed ''smaller than lower limit'')
          else Inr (if all_resolved then TTrue else if some_resolved then TIndeterminate else TFalse, out))"

definition array_get ::
    "(string \<Rightarrow> string) \<Rightarrow> 'dt redirection \<Rightarrow> 'dt spine_value rpm \<Rightarrow> 'dt array_template \<Rightarrow>
     'dt spine_value list result" where
  "array_get lc redirect m t = rbind (array_find lc redirect m True t) (\<lambda>(_, out). Inr out)"

text \<open>The typed arrays \<open>get_int_array\<close> and so on convert every member.\<close>

definition array_get_as ::
    "('dt spine_value \<Rightarrow> 'b result) \<Rightarrow> (string \<Rightarrow> string) \<Rightarrow> 'dt redirection \<Rightarrow> 'dt spine_value rpm \<Rightarrow>
     'dt array_template \<Rightarrow> 'b list result" where
  "array_get_as conv lc redirect m t = rbind (array_get lc redirect m t) (map_result conv)"

section \<open>Named handler parameters\<close>

definition hp_get :: "(string \<Rightarrow> string) \<Rightarrow> 'dt handler_params \<Rightarrow> string \<Rightarrow> 'dt template result" where
  "hp_get lc hp name = (case map_of hp (lc name) of
       Some t \<Rightarrow> Inr t | None \<Rightarrow> Inl (Thrown NoCode ''Handler parameter not found''))"

definition template_find ::
    "(string \<Rightarrow> string) \<Rightarrow> 'dt redirection \<Rightarrow> 'dt spine_value rpm \<Rightarrow> bool \<Rightarrow> 'dt template \<Rightarrow>
     (tribool \<times> 'dt spine_value variant option) result" where
  "template_find lc redirect m strict t = (case t of
       ScalarTemplate it \<Rightarrow>
         rbind (scalar_find lc redirect m it) (\<lambda>(ok, v). Inr (ok, map_option One v))
     | ArrayTemplate a \<Rightarrow>
         rbind (array_find lc redirect m strict a) (\<lambda>(ok, vs). Inr (ok, Some (Many vs))))"

text \<open>
  \<open>handle_redirection\<close> reads the named parameter without handler parameters, so that a further
  redirection is an exception.
\<close>

definition handle_redirection ::
    "(string \<Rightarrow> string) \<Rightarrow> 'dt handler_params option \<Rightarrow> 'dt redirection" where
  "handle_redirection lc extra m name = (case extra of
       None \<Rightarrow> no_redirection m name
     | Some hp \<Rightarrow>
         rbind (hp_get lc hp name) (\<lambda>t.
         rbind (template_find lc no_redirection m True t) (\<lambda>(ok, v).
           Inr (if tri_bool ok then v else None))))"

definition dump_value :: "('dt spine_value \<Rightarrow> string) \<Rightarrow> 'dt spine_value variant \<Rightarrow> string list" where
  "dump_value ts r = map ts (variant_list r)"

text \<open>\<open>found != false\<close> is true for \<open>true\<close> only: for \<open>indeterminate\<close> it is indeterminate.\<close>

definition dump_named_params ::
    "(string \<Rightarrow> string) \<Rightarrow> ('dt spine_value \<Rightarrow> string) \<Rightarrow> 'dt handler_params \<Rightarrow> 'dt spine_value rpm \<Rightarrow>
     (string \<times> string list) list result" where
  "dump_named_params lc ts hp m =
     map_result (\<lambda>(name, t).
       rbind (template_find lc (handle_redirection lc (Some hp)) m False t) (\<lambda>(ok, v).
         Inr (name, if tri_bool ok then (case v of Some r \<Rightarrow> dump_value ts r | None \<Rightarrow> []) else []))) hp"

section \<open>Configuration time checks\<close>

text \<open>\<open>ParameterTemplateBase::get_param_desc\<close> marks the description as used.\<close>

definition mark_used :: "string \<Rightarrow> 'dt config \<Rightarrow> 'dt config" where
  "mark_used name cfg = cfg\<lparr>qc_param_map := sm_update name (\<lambda>d. d\<lparr>de_used := True\<rparr>) (qc_param_map cfg)\<rparr>"

definition template_param_desc ::
    "(string \<Rightarrow> string) \<Rightarrow> 'dt config \<Rightarrow> string \<Rightarrow> ('dt param_desc \<times> 'dt config) result" where
  "template_param_desc lc cfg link_name =
     rbind (get_param_desc lc cfg link_name) (\<lambda>found. case found of
         None \<Rightarrow> Inl (Thrown NoCode ''description not found'')
       | Some d \<Rightarrow> Inr (d, mark_used (de_name d) cfg))"

definition check_scalar_ref :: "'dt item \<Rightarrow> 'dt param_desc \<Rightarrow> unit result" where
  "check_scalar_ref it d =
     (if desc_is_array d
      then (case it_ind it of
          None \<Rightarrow> Inl (Thrown NoCode ''Cannot copy entire parameter array to scalar value'')
        | Some i \<Rightarrow> if unat (desc_max_size d) \<le> i then Inl (Thrown NoCode ''array index out of range'') else Inr ())
      else Inr ())"

text \<open>The setting of a template as the configuration library gives it.\<close>

datatype 'dt setting = SValue "'dt spine_value" | SArray "'dt spine_value list"

definition scalar_init ::
    "(string \<Rightarrow> string) \<Rightarrow> 'dt spine_value option \<Rightarrow> 'dt config \<Rightarrow> ('dt item \<times> 'dt config) result" where
  "scalar_init lc setting cfg = (case setting of
       None \<Rightarrow> Inr (item_new, cfg)
     | Some v \<Rightarrow>
         rbind (item_parse v True item_new) (\<lambda>it.
           case it_ref it of
             Some name \<Rightarrow>
               if it_weak it then Inr (it, cfg)
               else rbind (template_param_desc lc cfg name) (\<lambda>(d, cfg).
                    rbind (check_scalar_ref it d) (\<lambda>_. Inr (it, cfg)))
           | None \<Rightarrow> Inr (it, cfg)))"

definition add_param_ref_size :: "'dt item \<Rightarrow> 'dt param_desc \<Rightarrow> nat \<times> nat \<Rightarrow> (nat \<times> nat) result" where
  "add_param_ref_size it d sz = (case sz of (calc_min, calc_max) \<Rightarrow>
     (if desc_is_array d \<and> (case it_ind it of Some i \<Rightarrow> pd_max_size (de_def d) \<le> i | None \<Rightarrow> False)
      then Inl (Thrown NoCode ''array index out of range'')
      else if it_ind it \<noteq> None then Inr (calc_min + 1, calc_max + 1)
      else if desc_is_array d
        then Inr (calc_min + pd_min_size (de_def d), calc_max + pd_max_size (de_def d))
      else Inr (calc_min + 1, calc_max + 1)))"

record 'dt array_scan =
  as_items :: "'dt item list"
  as_weak :: bool
  as_size :: "nat \<times> nat"
  as_config :: "'dt config"

definition array_init_item ::
    "(string \<Rightarrow> string) \<Rightarrow> 'dt spine_value \<Rightarrow> 'dt array_scan \<Rightarrow> 'dt array_scan result" where
  "array_init_item lc v s =
     rbind (item_parse v False item_new) (\<lambda>it.
     rbind (case it_ref it of
              Some name \<Rightarrow>
                if it_weak it then Inr (as_size s, as_config s)
                else rbind (template_param_desc lc (as_config s) name) (\<lambda>(d, cfg).
                     rbind (add_param_ref_size it d (as_size s)) (\<lambda>sz. Inr (sz, cfg)))
            | None \<Rightarrow> Inr (if it_plain it \<noteq> None then (fst (as_size s) + 1, snd (as_size s) + 1) else as_size s,
                        as_config s))
       (\<lambda>(sz, cfg). Inr \<lparr>as_items = as_items s @ [it], as_weak = as_weak s \<or> it_weak it,
          as_size = sz, as_config = cfg\<rparr>))"

definition array_init_items ::
    "(string \<Rightarrow> string) \<Rightarrow> nat \<Rightarrow> nat \<Rightarrow> 'dt spine_value list \<Rightarrow> 'dt config \<Rightarrow>
     ('dt array_template \<times> 'dt config) result" where
  "array_init_items lc min_size max_size vs cfg =
     rbind (fold_result (array_init_item lc) vs
              \<lparr>as_items = [], as_weak = False, as_size = (0, 0), as_config = cfg\<rparr>) (\<lambda>s.
       if \<not> as_weak s \<and> max_size < fst (as_size s)
       then Inl (Thrown NoCode ''calculated minimal array size exceeds the upper limit'')
       else if \<not> as_weak s \<and> snd (as_size s) < min_size
       then Inl (Thrown NoCode ''calculated maximal array size is lower than the lower limit'')
       else Inr (\<lparr>at_items = as_items s, at_min_size = min_size, at_max_size = max_size\<rparr>, as_config s))"

definition array_init ::
    "(string \<Rightarrow> string) \<Rightarrow> nat \<Rightarrow> nat \<Rightarrow> 'dt setting option \<Rightarrow> 'dt config \<Rightarrow>
     ('dt array_template \<times> 'dt config) result" where
  "array_init lc min_size max_size setting cfg = (case setting of
       None \<Rightarrow>
         if 0 < min_size then Inl (Thrown NoCode ''Definition of array parameter not provided'')
         else Inr (\<lparr>at_items = [], at_min_size = min_size, at_max_size = max_size\<rparr>, cfg)
     | Some (SArray vs) \<Rightarrow>
         if vs = [] \<and> 0 < min_size then Inl (Thrown NoCode ''length out of allowed range'')
         else array_init_items lc min_size max_size vs cfg
     | Some (SValue v) \<Rightarrow> array_init_items lc min_size max_size [v] cfg)"

end
