(* ===== verification/ParamRegistry.thy ===== *)
theory ParamRegistry
  imports Templates
begin

text \<open>
  \<open>libwfs/StoredQueryParamRegistry.cpp\<close> and the constructor of \<open>SupportsExtraHandlerParams.cpp\<close>:
  the parameters a stored query handler registers and the typed parameter map it gets for a
  request.  \<open>C\<close> are the conversions of \<open>Spine::Value\<close> (with time expressions allowed), \<open>dp\<close> is
  \<open>Fmi::DistanceParser::parse_meter\<close>.
\<close>

section \<open>The registry\<close>

text \<open>The C++ type of a parameter; \<open>P_OTHER\<close> is any type without an entry in the type table.\<close>

datatype type_ind = P_INT | P_UINT | P_DOUBLE | P_STRING | P_TIME | P_POINT | P_BBOX | P_BOOL | P_OTHER

datatype 'dt rec_kind =
    ScalarRec "'dt item" bool
  | ArrayRec "'dt array_template" nat nat nat

record 'dt param_rec =
  pr_name :: string
  pr_type :: type_ind
  pr_description :: string
  pr_kind :: "'dt rec_kind"

type_synonym 'dt registry = "(string \<times> 'dt param_rec) list"

definition supported_type :: "type_ind \<Rightarrow> bool" where
  "supported_type t \<longleftrightarrow> t \<noteq> P_OTHER"

definition add_param_rec :: "'dt param_rec \<Rightarrow> 'dt registry \<Rightarrow> 'dt registry result" where
  "add_param_rec rec reg =
     (if \<not> supported_type (pr_type rec) then Inl (Thrown NoCode ''Not supported type'')
      else case sm_emplace (pr_name rec) rec reg of
          None \<Rightarrow> Inl (Thrown NoCode ''Duplicate parameter name'')
        | Some reg \<Rightarrow> Inr reg)"

text \<open>The registration of a handler parameter of the template argument type.\<close>

definition register_scalar ::
    "(string \<Rightarrow> string) \<Rightarrow> type_ind \<Rightarrow> string \<Rightarrow> string \<Rightarrow> bool \<Rightarrow> 'dt spine_value option \<Rightarrow>
     'dt registry \<times> 'dt config \<Rightarrow> ('dt registry \<times> 'dt config) result" where
  "register_scalar lc t name description required setting st = (case st of (reg, cfg) \<Rightarrow>
     rbind (scalar_init lc setting cfg) (\<lambda>(it, cfg).
     rbind (add_param_rec \<lparr>pr_name = name, pr_type = t, pr_description = description,
              pr_kind = ScalarRec it required\<rparr> reg) (\<lambda>reg. Inr (reg, cfg))))"

definition register_array ::
    "(string \<Rightarrow> string) \<Rightarrow> type_ind \<Rightarrow> string \<Rightarrow> string \<Rightarrow> nat \<Rightarrow> nat \<Rightarrow> nat \<Rightarrow> 'dt setting option \<Rightarrow>
     'dt registry \<times> 'dt config \<Rightarrow> ('dt registry \<times> 'dt config) result" where
  "register_array lc t name description min_size max_size step setting st = (case st of (reg, cfg) \<Rightarrow>
     rbind (array_init lc min_size max_size setting cfg) (\<lambda>(a, cfg).
     rbind (add_param_rec \<lparr>pr_name = name, pr_type = t, pr_description = description,
              pr_kind = ArrayRec a min_size max_size step\<rparr> reg) (\<lambda>reg. Inr (reg, cfg))))"

section \<open>Named handler parameters of the configuration\<close>

datatype 'dt hp_def = HpScalar "'dt spine_value" | HpArray "'dt spine_value list" | HpOther

record 'dt raw_hp =
  rh_name :: "string option"
  rh_def :: "'dt hp_def option"
  rh_register :: bool
  rh_min_size :: "32 word option"
  rh_max_size :: "32 word option"

record 'dt hp_state =
  hs_params :: "'dt handler_params"
  hs_registry :: "'dt registry"
  hs_config :: "'dt config"

text \<open>The \<open>int\<close> limits become \<open>std::size_t\<close>.\<close>

definition int_size :: "32 word \<Rightarrow> nat" where
  "int_size w = unat (scast w :: 64 word)"

definition add_handler_param ::
    "(string \<Rightarrow> string) \<Rightarrow> 'dt raw_hp \<Rightarrow> 'dt hp_state \<Rightarrow> 'dt hp_state result" where
  "add_handler_param lc rh s =
     rbind (mandatory (rh_name rh)) (\<lambda>name.
     rbind (mandatory (rh_def rh)) (\<lambda>def.
     rbind (case def of
        HpArray vs \<Rightarrow>
          let min_size = int_size (or_default 0 (rh_min_size rh));
              max_size = int_size (or_default 0x7FFFFFFF (rh_max_size rh))
          in rbind (array_init lc min_size max_size (Some (SArray vs)) (hs_config s)) (\<lambda>(a, cfg).
             rbind (if rh_register rh
                    then add_param_rec \<lparr>pr_name = name, pr_type = P_STRING, pr_description = '''',
                           pr_kind = ArrayRec a min_size max_size 1\<rparr> (hs_registry s)
                    else Inr (hs_registry s)) (\<lambda>reg.
             Inr (ArrayTemplate a, reg, cfg)))
      | HpScalar v \<Rightarrow>
          rbind (scalar_init lc (Some v) (hs_config s)) (\<lambda>(it, cfg).
          rbind (if rh_register rh
                 then add_param_rec \<lparr>pr_name = name, pr_type = P_STRING, pr_description = '''',
                        pr_kind = ScalarRec it False\<rparr> (hs_registry s)
                 else Inr (hs_registry s)) (\<lambda>reg.
          Inr (ScalarTemplate it, reg, cfg)))
      | HpOther \<Rightarrow> Inl (Thrown NoCode ''Incorrect parameter definition'')) (\<lambda>(t, reg, cfg).
     case sm_emplace (lc name) t (hs_params s) of
       None \<Rightarrow> Inl (Thrown NoCode ''Duplicate stored query handler parameter'')
     | Some hp \<Rightarrow> Inr \<lparr>hs_params = hp, hs_registry = reg, hs_config = cfg\<rparr>)))"

definition read_handler_params ::
    "(string \<Rightarrow> string) \<Rightarrow> bool \<Rightarrow> 'dt raw_hp list option \<Rightarrow> 'dt registry \<Rightarrow> 'dt config \<Rightarrow> 'dt hp_state result" where
  "read_handler_params lc must_exist entries reg cfg =
     (let s = \<lparr>hs_params = [], hs_registry = reg, hs_config = cfg\<rparr>
      in case entries of
           None \<Rightarrow> if must_exist then Inl (Thrown NoCode ''missing configuration entry'') else Inr s
         | Some rhs \<Rightarrow> fold_result (add_handler_param lc) rhs s)"

section \<open>Resolving the parameters of a request\<close>

definition maxdistance_value ::
    "'dt value_conv \<Rightarrow> (string \<Rightarrow> double result) \<Rightarrow> 'dt spine_value \<Rightarrow> double result" where
  "maxdistance_value C dp v = (case vc_double C v of
       Inl (Thrown _ _) \<Rightarrow> rbind (vc_string C v) dp
     | r \<Rightarrow> r)"

definition scalar_value ::
    "(string \<Rightarrow> string) \<Rightarrow> 'dt value_conv \<Rightarrow> (string \<Rightarrow> double result) \<Rightarrow> string \<Rightarrow> type_ind \<Rightarrow>
     'dt spine_value \<Rightarrow> 'dt spine_value result" where
  "scalar_value lc C dp name t v = (case t of
       P_INT \<Rightarrow> rbind (vc_int C v) (\<lambda>x. Inr (VInt x))
     | P_UINT \<Rightarrow> rbind (vc_uint C v) (\<lambda>x. Inr (VUInt x))
     | P_DOUBLE \<Rightarrow>
         rbind (if lc name = ''maxdistance'' then maxdistance_value C dp v else vc_double C v) (\<lambda>x. Inr (VDouble x))
     | P_STRING \<Rightarrow> rbind (vc_string C v) (\<lambda>x. Inr (VString x))
     | P_TIME \<Rightarrow> rbind (vc_time C v) (\<lambda>x. Inr (VTime x))
     | P_POINT \<Rightarrow> rbind (vc_point C v) (\<lambda>(x, y, crs). Inr (VPoint x y crs))
     | P_BBOX \<Rightarrow> rbind (vc_bbox C v) (\<lambda>(x1, y1, x2, y2, crs). Inr (VBBox x1 y1 x2 y2 crs))
     | P_BOOL \<Rightarrow> rbind (vc_bool C v) (\<lambda>x. Inr (VBool x))
     | P_OTHER \<Rightarrow> Inl (Thrown NoCode ''INTERNAL ERROR''))"

definition array_value :: "'dt value_conv \<Rightarrow> type_ind \<Rightarrow> 'dt spine_value \<Rightarrow> 'dt spine_value result" where
  "array_value C t v = (case t of
       P_INT \<Rightarrow> rbind (vc_int C v) (\<lambda>x. Inr (VInt x))
     | P_UINT \<Rightarrow> rbind (vc_uint C v) (\<lambda>x. Inr (VUInt x))
     | P_DOUBLE \<Rightarrow> rbind (vc_double C v) (\<lambda>x. Inr (VDouble x))
     | P_STRING \<Rightarrow> rbind (vc_string C v) (\<lambda>x. Inr (VString x))
     | P_TIME \<Rightarrow> rbind (vc_time C v) (\<lambda>x. Inr (VTime x))
     | _ \<Rightarrow> Inl (Thrown NoCode ''INTERNAL ERROR''))"

definition check_value_count :: "nat \<Rightarrow> nat \<Rightarrow> nat \<Rightarrow> nat \<Rightarrow> unit result" where
  "check_value_count n_values min_size max_size step =
     (if n_values < min_size \<or> max_size < n_values then Inl (Thrown NoCode ''out of the range'')
      else if 1 < step \<and> (n_values - min_size) mod step \<noteq> 0 then Inl (Thrown NoCode ''Number of the values is invalid'')
      else Inr ())"

definition resolve_item ::
    "(string \<Rightarrow> string) \<Rightarrow> 'dt value_conv \<Rightarrow> (string \<Rightarrow> double result) \<Rightarrow> 'dt redirection \<Rightarrow>
     'dt spine_value rpm \<Rightarrow> string \<times> 'dt param_rec \<Rightarrow> 'dt spine_value list result" where
  "resolve_item lc C dp redirect src p = (case p of (name, rec) \<Rightarrow>
     (case pr_kind rec of
        ScalarRec it required \<Rightarrow>
          if required
          then rbind (scalar_get lc redirect src it) (\<lambda>v.
               rbind (scalar_value lc C dp name (pr_type rec) v) (\<lambda>w. Inr [w]))
          else rbind (scalar_find lc redirect src it) (\<lambda>(ok, v).
               if tri_bool ok
               then rbind (scalar_value lc C dp name (pr_type rec) (case v of Some v \<Rightarrow> v | None \<Rightarrow> VEmpty)) (\<lambda>w. Inr [w])
               else Inr [])
      | ArrayRec a min_size max_size step \<Rightarrow>
          rbind (array_get lc redirect src a) (\<lambda>vs.
          rbind (check_value_count (length vs) min_size max_size step) (\<lambda>_.
          map_result (array_value C (pr_type rec)) vs))))"

definition resolve_handler_parameters ::
    "(string \<Rightarrow> string) \<Rightarrow> 'dt value_conv \<Rightarrow> (string \<Rightarrow> double result) \<Rightarrow> bool \<Rightarrow> 'dt handler_params option \<Rightarrow>
     'dt registry \<Rightarrow> 'dt spine_value rpm \<Rightarrow> 'dt spine_value rpm result" where
  "resolve_handler_parameters lc C dp cs extra reg src =
     fold_result (\<lambda>p res.
         rbind (resolve_item lc C dp (handle_redirection lc extra) src p) (\<lambda>vs.
           Inr (rpm_add_vect lc (fst p) vs False res))) reg (rpm_new cs)"

section \<open>What a handler gets\<close>

definition ind_type :: "type_ind \<Rightarrow> value_type" where
  "ind_type t = (case t of
       P_INT \<Rightarrow> PT_INT | P_UINT \<Rightarrow> PT_UINT | P_DOUBLE \<Rightarrow> PT_DOUBLE | P_STRING \<Rightarrow> PT_STRING
     | P_TIME \<Rightarrow> PT_TIME | P_POINT \<Rightarrow> PT_POINT | P_BBOX \<Rightarrow> PT_BBOX | P_BOOL \<Rightarrow> PT_BOOL
     | P_OTHER \<Rightarrow> PT_UNDEFINED)"

definition count_ok :: "'dt rec_kind \<Rightarrow> nat \<Rightarrow> bool" where
  "count_ok k n = (case k of
       ScalarRec _ required \<Rightarrow> if required then n = 1 else n \<le> 1
     | ArrayRec a mn mx step \<Rightarrow> mn \<le> n \<and> n \<le> mx \<and> at_min_size a \<le> n \<and> n \<le> at_max_size a \<and>
         (step \<le> 1 \<or> (\<exists>i. n = mn + i * step)))"

lemma scalar_value_type: "scalar_value lc C dp name t v = Inr w \<Longrightarrow> has_type (ind_type t) w"
  by (cases t) (auto simp: scalar_value_def has_type_def ind_type_def result_simps)

lemma array_value_type: "array_value C t v = Inr w \<Longrightarrow> has_type (ind_type t) w"
  by (cases t) (auto simp: array_value_def has_type_def ind_type_def result_simps)

lemma map_result_all:
  "map_result f xs = Inr ys \<Longrightarrow> (\<And>x y. f x = Inr y \<Longrightarrow> P y) \<Longrightarrow> list_all P ys"
  by (induction xs arbitrary: ys) (auto simp: result_simps)

lemma array_find_bounds:
  "array_find lc redirect m strict t = Inr (ok, vs) \<Longrightarrow> at_min_size t \<le> length vs \<and> length vs \<le> at_max_size t"
  by (auto simp: array_find_def result_simps split: if_splits)

lemma array_get_bounds:
  "array_get lc redirect m t = Inr vs \<Longrightarrow> at_min_size t \<le> length vs \<and> length vs \<le> at_max_size t"
  by (auto simp: array_get_def result_simps dest: array_find_bounds)

lemma check_value_count_ok:
  "check_value_count n mn mx step = Inr u \<longleftrightarrow> mn \<le> n \<and> n \<le> mx \<and> (step \<le> 1 \<or> (\<exists>i. n = mn + i * step))"
proof -
  have "(n - mn) mod step = 0 \<longleftrightarrow> (\<exists>i. n = mn + i * step)" if "mn \<le> n" for step
  proof -
    have "n = mn + i * step \<longleftrightarrow> n - mn = i * step" for i using that by linarith
    then show ?thesis by (auto simp: mod_eq_0_iff_dvd dvd_def mult.commute)
  qed
  then show ?thesis
    by (auto simp: check_value_count_def not_less split: if_splits)
qed

lemma resolve_item_ok:
  assumes "resolve_item lc C dp redirect src (name, rec) = Inr vs"
  shows "list_all (has_type (ind_type (pr_type rec))) vs" "count_ok (pr_kind rec) (length vs)"
proof -
  have "list_all (has_type (ind_type (pr_type rec))) vs \<and> count_ok (pr_kind rec) (length vs)"
  proof (cases "pr_kind rec")
    case (ScalarRec it required)
    with assms show ?thesis
      by (auto simp: resolve_item_def count_ok_def result_simps split: if_splits dest!: scalar_value_type)
  next
    case (ArrayRec a mn mx step)
    with assms obtain ws where ws: "array_get lc redirect src a = Inr ws"
      "check_value_count (length ws) mn mx step = Inr ()" "map_result (array_value C (pr_type rec)) ws = Inr vs"
      by (auto simp: resolve_item_def result_simps)
    from ws(3) have "length vs = length ws" by (rule map_result_length)
    moreover have "list_all (has_type (ind_type (pr_type rec))) vs"
      using ws(3) array_value_type by (rule map_result_all)
    ultimately show ?thesis
      using ws(1,2) ArrayRec array_get_bounds [OF ws(1)] by (simp add: count_ok_def check_value_count_ok)
  qed
  then show "list_all (has_type (ind_type (pr_type rec))) vs" "count_ok (pr_kind rec) (length vs)"
    by simp_all
qed

definition fold_key :: "(string \<Rightarrow> string) \<Rightarrow> bool \<Rightarrow> string \<Rightarrow> string" where
  "fold_key lc cs name = (if cs then name else lc name)"

lemma rpm_add_vect_key [simp]: "rpm_key lc (rpm_add_vect lc name vs replace m) = rpm_key lc m"
proof -
  have "rpm_key lc (fold (insert_value lc name) vs m) = rpm_key lc m" for m
    by (induction vs arbitrary: m) (simp_all add: insert_value_def)
  then show ?thesis by (simp add: rpm_add_vect_def remove_key_def)
qed

lemma resolve_loop:
  assumes "fold_result (\<lambda>p res. rbind (f p) (\<lambda>vs. Inr (rpm_add_vect lc (fst p) vs False res))) reg m = Inr res"
    and "rpm_wf lc m" "distinct (map (rpm_key lc m \<circ> fst) reg)"
    and "\<forall>p \<in> set reg. get_values lc m (fst p) = []"
  shows "(\<forall>p \<in> set reg. f p = Inr (get_values lc res (fst p))) \<and>
    (\<forall>k. rpm_key lc m k \<notin> set (map (rpm_key lc m \<circ> fst) reg) \<longrightarrow> get_values lc res k = get_values lc m k)"
  using assms
proof (induction reg arbitrary: m)
  case Nil
  then show ?case by simp
next
  case (Cons p reg)
  from Cons.prems(1) obtain vs where vs: "f p = Inr vs"
    and rest: "fold_result (\<lambda>p res. rbind (f p) (\<lambda>vs. Inr (rpm_add_vect lc (fst p) vs False res))) reg
        (rpm_add_vect lc (fst p) vs False m) = Inr res"
    by (auto simp: result_simps)
  let ?m = "rpm_add_vect lc (fst p) vs False m"
  note vals = rpm_add_vect_values [OF Cons.prems(2), of "fst p" vs False]
  have others: "\<forall>q \<in> set reg. rpm_key lc m (fst p) \<noteq> rpm_key lc m (fst q)"
    using Cons.prems(3) by auto
  have IH: "(\<forall>q \<in> set reg. f q = Inr (get_values lc res (fst q))) \<and>
      (\<forall>k. rpm_key lc m k \<notin> set (map (rpm_key lc m \<circ> fst) reg) \<longrightarrow> get_values lc res k = get_values lc ?m k)"
    using Cons.IH [OF rest] Cons.prems others by (simp add: rpm_add_vect_wf vals)
  then have "get_values lc res (fst p) = vs"
    using Cons.prems(3,4) by (simp add: vals)
  with vs IH show ?case by (auto simp: vals)
qed

lemma rpm_new_values: "get_values lc (rpm_new cs) k = []" "rpm_key lc (rpm_new cs) = fold_key lc cs"
  by (simp_all add: get_values_def rpm_new_def rpm_key_def fold_key_def fun_eq_iff mm_values_def)

section \<open>Properties\<close>

text \<open>
  C4.  The map a handler gets holds exactly the registered parameters, when their names are
  distinct under the case policy: each has the values its template yields for the request, all
  of the registered type and in a number the registration allows, and a required scalar has
  exactly one value.
\<close>

theorem resolved_parameters:
  assumes "resolve_handler_parameters lc C dp cs extra reg src = Inr res"
    and "distinct (map (fold_key lc cs \<circ> fst) reg)"
  shows "(\<forall>(name, rec) \<in> set reg.
      resolve_item lc C dp (handle_redirection lc extra) src (name, rec) = Inr (get_values lc res name) \<and>
      list_all (has_type (ind_type (pr_type rec))) (get_values lc res name) \<and>
      count_ok (pr_kind rec) (length (get_values lc res name))) \<and>
    (\<forall>k. fold_key lc cs k \<notin> set (map (fold_key lc cs \<circ> fst) reg) \<longrightarrow> get_values lc res k = [])"
proof -
  have "(\<forall>p \<in> set reg. resolve_item lc C dp (handle_redirection lc extra) src p = Inr (get_values lc res (fst p))) \<and>
    (\<forall>k. fold_key lc cs k \<notin> set (map (fold_key lc cs \<circ> fst) reg) \<longrightarrow> get_values lc res k = [])"
    using resolve_loop [OF assms(1) [unfolded resolve_handler_parameters_def]] assms(2)
    by (simp add: rpm_new_values)
  then show ?thesis
    using resolve_item_ok [of lc C dp "handle_redirection lc extra" src] by fastforce
qed

definition demo_registry :: "unit registry" where
  "demo_registry = [(''p'', \<lparr>pr_name = ''p'', pr_type = P_STRING, pr_description = '''',
     pr_kind = ScalarRec (item_of_ref (False, ''x'', None, Some ''7'', None)) True\<rparr>)]"

lemma resolved_parameters_witness:
  "\<exists>res. resolve_handler_parameters ascii_lower demo_conv (\<lambda>_. Inr 0) False None demo_registry (rpm_new False) = Inr res \<and>
     length (get_values ascii_lower res ''p'') = 1"
proof -
  have item: "resolve_item ascii_lower demo_conv (\<lambda>_. Inr 0) r (rpm_new False) (hd demo_registry) = Inr [VString '''']" for r
    by (simp add: resolve_item_def demo_registry_def scalar_get_def item_get_ref rpm_new_values ref_meaning_def
        selected_def scalar_value_def demo_conv_def)
  have reg: "demo_registry = [hd demo_registry]"
    by (simp add: demo_registry_def)
  have "\<exists>res. resolve_handler_parameters ascii_lower demo_conv (\<lambda>_. Inr 0) False None demo_registry (rpm_new False) = Inr res"
    by (subst reg) (simp add: resolve_handler_parameters_def item)
  then obtain res where
    res: "resolve_handler_parameters ascii_lower demo_conv (\<lambda>_. Inr 0) False None demo_registry (rpm_new False) = Inr res"
    by blast
  from resolved_parameters [OF res] show ?thesis
    using res by (simp add: demo_registry_def count_ok_def)
qed

text \<open>
  A redirection goes one level deep: a handler parameter that is reached through one and
  would itself have to follow another throws, so that no cycle of redirections is possible.
\<close>

theorem redirection_one_level:
  assumes "map_of hp (lc name) = Some (ScalarTemplate (item_of_ref (weak, n, ind, None, Some other)))"
    and "get_values lc m n = []"
  shows "item_get lc (handle_redirection lc (Some hp)) m allow_array (item_of_ref (weak', n', ind', None, Some name)) =
    (if selected (get_values lc m n') ind' = None
     then Inl (Thrown NoCode ''Parameter redirection required but not defined!'')
     else ref_meaning no_redirection m (get_values lc m n') allow_array (weak', n', ind', None, None))"
proof (cases "selected (get_values lc m n') ind'")
  case None
  have "scalar_find lc no_redirection m (item_of_ref (weak, n, ind, None, Some other)) =
      Inl (Thrown NoCode ''Parameter redirection required but not defined!'')"
    using assms(2) by (simp add: scalar_find_def item_find_def item_of_ref_def get_absent_ref_value_def
        no_redirection_def)
  with None assms(1) show ?thesis
    by (simp add: item_get_ref ref_meaning_def handle_redirection_def hp_get_def template_find_def)
next
  case (Some r)
  then show ?thesis
    by (cases r) (simp_all add: item_get_ref ref_meaning_def)
qed

lemma redirection_one_level_witness:
  "item_get ascii_lower (handle_redirection ascii_lower
       (Some [(''d'', ScalarTemplate (item_of_ref (False, ''y'', None, None, Some ''d'')))])) (rpm_new False) False
     (item_of_ref (False, ''x'', None, None, Some ''D'') :: unit item) =
   Inl (Thrown NoCode ''Parameter redirection required but not defined!'')"
proof -
  let ?hp = "[(''d'', ScalarTemplate (item_of_ref (False, ''y'', None, None, Some ''d'')))] :: unit handler_params"
  have "ascii_lower ''D'' = ''d''" by code_simp
  then have hp: "map_of ?hp (ascii_lower ''D'') =
      Some (ScalarTemplate (item_of_ref (False, ''y'', None, None, Some ''d'')))" by simp
  show ?thesis
    using redirection_one_level [OF hp rpm_new_values(1) [of ascii_lower False "''y''"], of False False "''x''" None]
    by (simp add: rpm_new_values selected_def)
qed

text \<open>
  A redirection to an array parameter yields the array even where no array is allowed; the
  scalar template then takes it only if it has at most one member.
\<close>

theorem redirected_array:
  assumes "map_of hp (lc name) = Some (ArrayTemplate a)"
    and "array_find lc no_redirection m True a = Inr (TTrue, vs)"
    and "get_values lc m n = []"
  shows "item_get lc (handle_redirection lc (Some hp)) m False (item_of_ref (weak, n, ind, None, Some name)) = Inr (Many vs) \<and>
    scalar_get lc (handle_redirection lc (Some hp)) m (item_of_ref (weak, n, ind, None, Some name)) =
      (case vs of [] \<Rightarrow> Inr VEmpty | [v] \<Rightarrow> Inr v | _ \<Rightarrow> Inl (Thrown NoCode ''cannot convert array''))"
proof -
  have "selected (get_values lc m n) ind = None"
    using assms(3) by (simp add: selected_def split: option.splits)
  with assms(1,2) have "item_get lc (handle_redirection lc (Some hp)) m False
      (item_of_ref (weak, n, ind, None, Some name)) = Inr (Many vs)"
    by (simp add: item_get_ref ref_meaning_def handle_redirection_def hp_get_def template_find_def tri_bool_def)
  then show ?thesis by (simp add: scalar_get_def)
qed

lemma redirected_array_witness:
  "item_get ascii_lower (handle_redirection ascii_lower (Some [(''d'', ArrayTemplate
        \<lparr>at_items = [], at_min_size = 0, at_max_size = 9\<rparr>)])) (rpm_new False) False
     (item_of_ref (False, ''x'', None, None, Some ''D'') :: unit item) = Inr (Many [])"
proof -
  let ?a = "\<lparr>at_items = [], at_min_size = 0, at_max_size = 9\<rparr> :: unit array_template"
  have "ascii_lower ''D'' = ''d''" by code_simp
  then have hp: "map_of [(''d'', ArrayTemplate ?a)] (ascii_lower ''D'') = Some (ArrayTemplate ?a)" by simp
  have find: "array_find ascii_lower no_redirection (rpm_new False) True ?a = Inr (TTrue, [])"
    by (simp add: array_find_def)
  show ?thesis
    using redirected_array [OF hp find rpm_new_values(1) [of ascii_lower False "''x''"], of False None] by blast
qed

end
