(* ===== verification/Handler.thy ===== *)
theory Handler
  imports ParamRegistry
begin

text \<open>
  The part of a stored query handler that the query machinery sees:
  \<open>libwfs/StoredQueryHandlerBase.cpp\<close> with its initialisation queue
  \<open>StoredQueryHandlerInitBase.cpp\<close>, the factory \<open>StoredQueryHandlerFactoryDef.cpp\<close>, and the one
  handler that redirects, \<open>wfs/stored_queries/GetDataSetByIdHandler.cpp\<close>.  The virtual operations
  are the function components of \<open>handler\<close>; what a handler writes as the response is not modelled.
\<close>

section \<open>Handlers\<close>

record 'dt handler =
  hd_config :: "'dt config"
  hd_file :: string
  hd_template :: "string option"
  hd_process :: "string \<Rightarrow> 'dt spine_value rpm \<Rightarrow> 'dt spine_value rpm result"
  hd_redirect :: "'dt spine_value rpm \<Rightarrow> string option result"
  hd_qualifier :: "'dt spine_value rpm \<Rightarrow> string result"

definition get_query_name :: "'dt handler \<Rightarrow> string" where
  "get_query_name h = qc_id (hd_config h)"

definition process_params ::
    "(string \<Rightarrow> string) \<Rightarrow> 'dt value_conv \<Rightarrow> (string \<Rightarrow> double result) \<Rightarrow> bool \<Rightarrow> 'dt handler_params \<Rightarrow>
     'dt registry \<Rightarrow> string \<Rightarrow> 'dt spine_value rpm \<Rightarrow> 'dt spine_value rpm result" where
  "process_params lc C dp cs hp reg query_id orig =
     rbind (resolve_handler_parameters lc C dp cs (Some hp) reg orig) (\<lambda>res.
       Inr (rpm_add lc ''storedquery_id'' (VString query_id) False res))"

text \<open>\<open>redirect\<close> returns the new query id, \<open>None\<close> for \<open>false\<close>; the base class never redirects.\<close>

definition base_redirect :: "'dt spine_value rpm \<Rightarrow> string option result" where
  "base_redirect params = Inr None"

definition base_qualifier :: "'dt spine_value rpm \<Rightarrow> string result" where
  "base_qualifier params = Inr ''''"

text \<open>\<open>get_formatter\<close>: the debug formatter, or the formatter of the template of the handler.\<close>

definition get_formatter :: "'f \<Rightarrow> (string \<Rightarrow> 'f result) \<Rightarrow> 'dt handler \<Rightarrow> bool \<Rightarrow> 'f result" where
  "get_formatter dump_formatter formatter_of h debug_format =
     (if debug_format then Inr dump_formatter
      else case hd_template h of
          None \<Rightarrow> Inl (Thrown NoCode ''Template formatter not set'')
        | Some fn \<Rightarrow> formatter_of fn)"

definition format_output ::
    "'f \<Rightarrow> (string \<Rightarrow> 'f result) \<Rightarrow> ('f \<Rightarrow> 'hash \<Rightarrow> string result) \<Rightarrow> 'dt handler \<Rightarrow> 'hash \<Rightarrow> bool \<Rightarrow> string result" where
  "format_output dump_formatter formatter_of process h hash debug_format =
     rbind (get_formatter dump_formatter formatter_of h debug_format) (\<lambda>f.
       case process f hash of
         Inl (Thrown _ _) \<Rightarrow> Inl (Thrown ProcessingFailed ''Template formatter exception'')
       | r \<Rightarrow> r)"

text \<open>
  The directory of handlers as the rest of the plugin uses it: names are looked up without regard
  to case and only finitely many handlers are known.
\<close>

locale handler_directory =
  fixes lc :: "string \<Rightarrow> string"
    and find_handler :: "'s \<Rightarrow> string \<Rightarrow> 'dt handler result"
    and inv :: "'s \<Rightarrow> bool"
  assumes found_name: "inv s \<Longrightarrow> find_handler s n = Inr h \<Longrightarrow> lc (get_query_name h) = lc n"
    and same_name: "lc n = lc n' \<Longrightarrow> find_handler s n = find_handler s n'"
    and finite_names: "finite {lc n | n. isOK (find_handler s n)}"
begin

lemma finite_spellings:
  assumes "\<And>k. finite {n. lc n = k}"
  shows "finite {n. isOK (find_handler s n)}"
proof (rule finite_subset)
  show "{n. isOK (find_handler s n)} \<subseteq> (\<Union>k \<in> {lc n | n. isOK (find_handler s n)}. {n. lc n = k})"
    by blast
  show "finite (\<Union>k \<in> {lc n | n. isOK (find_handler s n)}. {n. lc n = k})"
    using assms finite_names by blast
qed

end

section \<open>Initialisation\<close>

text \<open>The queued actions run in order; an action does not add further ones.\<close>

type_synonym 's init_queue = "(string \<times> ('s \<Rightarrow> 's result)) list"

definition add_init_action :: "string \<Rightarrow> ('s \<Rightarrow> 's result) \<Rightarrow> 's init_queue \<Rightarrow> 's init_queue" where
  "add_init_action name action q = q @ [(name, action)]"

fun execute_init_actions :: "'s init_queue \<Rightarrow> string list \<Rightarrow> 's \<Rightarrow> 's result" where
  "execute_init_actions [] processed s = Inr s"
| "execute_init_actions (item # q) processed s =
     (if fst item \<in> set processed then Inl (Thrown NoCode ''INTERNAL ERROR: queued more than once'')
      else rbind (snd item s) (execute_init_actions q (sset_insert (fst item) processed)))"

definition perform_init :: "'s init_queue \<Rightarrow> ('s \<Rightarrow> 's result) \<Rightarrow> 's \<Rightarrow> 's result" where
  "perform_init q init_handler s = rbind (execute_init_actions q [] s) init_handler"

lemma execute_init_iff:
  "execute_init_actions q processed s = Inr t \<longleftrightarrow>
     distinct (map fst q) \<and> set (map fst q) \<inter> set processed = {} \<and> fold_result snd q s = Inr t"
proof (induction q arbitrary: processed s)
  case Nil
  then show ?case by simp
next
  case (Cons item q)
  then show ?case by (auto simp: result_simps)
qed

section \<open>The factory\<close>

text \<open>
  A factory object that \<open>dlsym\<close> finds under the constructor name of the configuration has to
  carry the signature of the running program.
\<close>

record 'h factory_def =
  fd_signature :: "byte list"
  fd_factory :: "string option \<Rightarrow> 'h result"

definition construct ::
    "(string \<Rightarrow> 'h factory_def option) \<Rightarrow> byte list \<Rightarrow> ('h \<Rightarrow> 'h result) \<Rightarrow> string \<Rightarrow> string option \<Rightarrow> 'h result" where
  "construct dlsym signature init symbol template_fn =
     (case dlsym symbol of
        None \<Rightarrow> Inl (Thrown NoCode ''Symbol is not found'')
      | Some def \<Rightarrow>
          if fd_signature def \<noteq> signature then Inl (Thrown NoCode ''Signature does not match'')
          else rbind (fd_factory def template_fn) init)"

section \<open>Data sets\<close>

text \<open>
  \<open>GetDataSetByIdHandler\<close>: the map from data set identifiers to stored queries is read with the
  identifiers as they are written; \<open>redirect\<close> looks the requested one up in lower case.
\<close>

record raw_data_set =
  ds_id :: "string option"
  ds_query :: "string option"

definition add_data_set :: "raw_data_set \<Rightarrow> (string \<times> string) list \<Rightarrow> (string \<times> string) list result" where
  "add_data_set ds m =
     rbind (mandatory (ds_id ds)) (\<lambda>did.
     rbind (mandatory (ds_query ds)) (\<lambda>qid.
       case sm_emplace did qid m of
         None \<Rightarrow> Inl (Thrown NoCode ''Duplicate data set ID'')
       | Some m \<Rightarrow> Inr m))"

definition read_data_sets :: "raw_data_set list \<Rightarrow> (string \<times> string) list result" where
  "read_data_sets dss = fold_result add_data_set dss []"

definition data_set_redirect ::
    "(string \<Rightarrow> string) \<Rightarrow> 'dt value_conv \<Rightarrow> (string \<times> string) list \<Rightarrow> 'dt spine_value rpm \<Rightarrow> string option result" where
  "data_set_redirect lc C m params =
     rbind (get_single lc (vc_string C) ''datasetid'' params) (\<lambda>did.
       case map_of m (lc did) of
         None \<Rightarrow> Inl (Thrown ProcessingFailed ''Data set ID not found'')
       | Some qid \<Rightarrow> Inr (Some qid))"

lemma add_data_set_iff:
  "add_data_set ds m = Inr m' \<longleftrightarrow>
     (\<exists>did qid. ds_id ds = Some did \<and> ds_query ds = Some qid \<and> map_of m did = None \<and> m' = mm_insert did qid m)"
  by (auto simp: add_data_set_def result_simps mandatory_Inr sm_emplace_def split: option.splits)

lemma data_sets_fold:
  assumes "fold_result add_data_set dss m = Inr m'" "sm_ok m"
  shows "sm_ok m' \<and> (\<forall>did qid. map_of m' did = Some qid \<longleftrightarrow>
    map_of m did = Some qid \<or> (\<exists>ds \<in> set dss. ds_id ds = Some did \<and> ds_query ds = Some qid))"
  using assms
proof (induction dss arbitrary: m)
  case Nil
  then show ?case by simp
next
  case (Cons ds dss)
  from Cons.prems(1) obtain m1 where "add_data_set ds m = Inr m1"
    and rest: "fold_result add_data_set dss m1 = Inr m'"
    by (auto simp: result_simps)
  then obtain did qid where ds: "ds_id ds = Some did" "ds_query ds = Some qid" "map_of m did = None"
    and m1: "m1 = mm_insert did qid m"
    by (auto simp: add_data_set_iff)
  have "sm_ok m1"
    using Cons.prems(2) ds(3) m1 by (simp add: sm_simps)
  from Cons.IH [OF rest this] ds m1 show ?case
    by (auto simp: sm_simps split: if_splits)
qed

section \<open>Properties\<close>

text \<open>
  A request for a data set is redirected to a stored query exactly when the lower case form
  of the requested identifier is configured; in particular a data set whose configured identifier
  has an upper case letter can never be requested.
\<close>

theorem data_set_found_iff:
  assumes "read_data_sets dss = Inr m"
    and "get_single lc (vc_string C) ''datasetid'' params = Inr did"
  shows "data_set_redirect lc C m params = Inr (Some qid) \<longleftrightarrow>
    (\<exists>ds \<in> set dss. ds_id ds = Some (lc did) \<and> ds_query ds = Some qid)"
proof -
  have "map_of m d = Some q \<longleftrightarrow> (\<exists>ds \<in> set dss. ds_id ds = Some d \<and> ds_query ds = Some q)" for d q
    using data_sets_fold [OF assms(1) [unfolded read_data_sets_def]] by simp
  moreover have "data_set_redirect lc C m params = Inr (Some qid) \<longleftrightarrow> map_of m (lc did) = Some qid"
    using assms(2) by (simp add: data_set_redirect_def split: option.splits)
  ultimately show ?thesis by simp
qed

definition demo_data_sets :: "raw_data_set list" where
  "demo_data_sets = [\<lparr>ds_id = Some ''Forecast'', ds_query = Some ''q1''\<rparr>, \<lparr>ds_id = Some ''radar'', ds_query = Some ''q2''\<rparr>]"

lemma data_set_found_iff_witness:
  "\<exists>m. read_data_sets demo_data_sets = Inr m \<and>
     data_set_redirect ascii_lower (demo_conv\<lparr>vc_string := \<lambda>_. Inr ''Forecast''\<rparr>) m
       (rpm_add ascii_lower ''datasetid'' (VString ''Forecast'') False (rpm_new False)) \<noteq> Inr (Some ''q1'')"
proof -
  let ?C = "demo_conv\<lparr>vc_string := \<lambda>_. Inr ''Forecast''\<rparr>"
  let ?p = "rpm_add ascii_lower ''datasetid'' (VString ''Forecast'') False (rpm_new False)"
  obtain m where m: "read_data_sets demo_data_sets = Inr m"
    by (auto simp: read_data_sets_def demo_data_sets_def add_data_set_def mandatory_def sm_emplace_def)
  have single: "get_single ascii_lower (vc_string ?C) ''datasetid'' ?p = Inr ''Forecast''"
    by (simp add: get_single_def rpm_get_def rpm_add_def insert_value_def rpm_new_def get_values_def
        rpm_key_def mm_values_def)
  have "ascii_lower ''Forecast'' = ''forecast''" by code_simp
  with data_set_found_iff [OF m single, of "''q1''"] m show ?thesis
    by (auto simp: demo_data_sets_def)
qed

end
