(* ===== verification/QueryMap.thy ===== *)
theory QueryMap
  imports Handler
begin

text \<open>
  \<open>libwfs/StoredQueryMap.cpp\<close> and \<open>FileContentChecker.cpp\<close>: the map of the active stored
  queries and its maintenance when configuration files appear, change or disappear.  An operation
  returns the new state and whether it threw.  \<open>qm_env\<close> is what an operation sees from outside:
  the contents of the files, the configuration reader, the handler factory and the flags of the
  reactor and of the directory monitor.  Log messages are left out.
\<close>

section \<open>File contents\<close>

text \<open>
  \<open>check_file_hash\<close>: the file is read in blocks of 1024 bytes up to the size limit (0 is no
  limit); \<open>read\<close> of a regular file returns full blocks up to its end.  \<open>digest\<close> is SHA-256 in
  Base64.
\<close>

function read_loop :: "nat \<Rightarrow> nat \<Rightarrow> byte list \<Rightarrow> byte list \<Rightarrow> byte list \<times> nat" where
  "read_loop max_size cnt acc rest =
     (if rest \<noteq> [] \<and> (max_size = 0 \<or> cnt < max_size)
      then read_loop max_size (cnt + length (take 1024 rest)) (acc @ take 1024 rest) (drop 1024 rest)
      else (acc, cnt))"
  by pat_completeness auto
termination by (relation "measure (\<lambda>(_, _, _, rest). length rest)") auto

declare read_loop.simps [simp del]

type_synonym hash_map = "(string \<times> string) list"

definition check_file_hash ::
    "nat \<Rightarrow> (byte list \<Rightarrow> string) \<Rightarrow> (string \<Rightarrow> byte list option) \<Rightarrow> string \<Rightarrow> hash_map \<Rightarrow> bool \<times> hash_map" where
  "check_file_hash max_size digest files fn hm = (case files fn of
       None \<Rightarrow> (False, hm)
     | Some content \<Rightarrow>
         let (data, cnt) = read_loop max_size 0 [] content
         in if max_size = 0 \<or> cnt < max_size
            then let d = digest data in
              (case map_of hm fn of
                 None \<Rightarrow> (True, sm_put fn d hm)
               | Some old \<Rightarrow> if old = d then (False, hm) else (True, sm_put fn d hm))
            else (False, hm))"

definition remove_file_hash :: "string \<Rightarrow> hash_map \<Rightarrow> hash_map" where
  "remove_file_hash fn hm = mm_erase fn hm"

section \<open>The state\<close>

record dir_info =
  di_template_dir :: string
  di_num_updates :: nat

record 'dt sq_task =
  tk_config :: "'dt config"
  tk_file :: string
  tk_template_dir :: string

record 'dt sqm =
  qm_handlers :: "(string \<times> 'dt handler) list"
  qm_duplicate :: "string list"
  qm_hashes :: hash_map
  qm_reload :: bool
  qm_loading :: bool
  qm_failed :: bool
  qm_dirs :: "(nat \<times> dir_info) list"
  qm_tasks :: "'dt sq_task list"

record 'dt qm_env =
  ev_background :: bool
  ev_demo :: bool
  ev_test :: bool
  ev_polling :: bool
  ev_max_size :: nat
  ev_digest :: "byte list \<Rightarrow> string"
  ev_files :: "string \<Rightarrow> byte list option"
  ev_regular :: "string \<Rightarrow> bool"
  ev_load :: "string \<Rightarrow> 'dt config option"
  ev_construct :: "'dt config \<Rightarrow> string \<Rightarrow> string option \<Rightarrow> 'dt handler option"
  ev_join :: "string \<Rightarrow> string \<Rightarrow> string"
  ev_shutdown :: bool
  ev_ready :: bool

definition sqm_new :: "'dt sqm" where
  "sqm_new = \<lparr>qm_handlers = [], qm_duplicate = [], qm_hashes = [], qm_reload = False,
     qm_loading = False, qm_failed = False, qm_dirs = [], qm_tasks = []\<rparr>"

definition add_config_dir :: "nat \<Rightarrow> string \<Rightarrow> 'dt sqm \<Rightarrow> 'dt sqm" where
  "add_config_dir watcher template_dir s =
     s\<lparr>qm_dirs := sm_put watcher \<lparr>di_template_dir = template_dir, di_num_updates = 0\<rparr> (qm_dirs s)\<rparr>"

datatype outcome = Done | Failed

section \<open>Look up\<close>

definition get_handler_nothrow :: "(string \<Rightarrow> string) \<Rightarrow> string \<Rightarrow> 'dt sqm \<Rightarrow> 'dt handler option" where
  "get_handler_nothrow lc name s = map_of (qm_handlers s) (lc name)"

definition get_handler_by_name :: "(string \<Rightarrow> string) \<Rightarrow> 'dt sqm \<Rightarrow> string \<Rightarrow> 'dt handler result" where
  "get_handler_by_name lc s name = (case map_of (qm_handlers s) (lc name) of
       None \<Rightarrow> Inl (Thrown ParsingFailed ''No handler found'')
     | Some h \<Rightarrow> Inr h)"

text \<open>
  The first handler with the file name, with its key: every handler is constructed for one
  entry, so that the keys tell the pointers apart.
\<close>

definition get_handler_by_file :: "string \<Rightarrow> 'dt sqm \<Rightarrow> (string \<times> 'dt handler) option" where
  "get_handler_by_file fn s = find (\<lambda>p. hd_file (snd p) = fn) (qm_handlers s)"

definition get_handler_names :: "'dt sqm \<Rightarrow> string list" where
  "get_handler_names s = map fst (qm_handlers s)"

definition get_return_type_names :: "'dt sqm \<Rightarrow> string list" where
  "get_return_type_names s =
     fold (\<lambda>p. fold sset_insert (qc_return_types (hd_config (snd p)))) (qm_handlers s) []"

definition should_be_ignored :: "bool \<Rightarrow> bool \<Rightarrow> 'dt config \<Rightarrow> bool" where
  "should_be_ignored enable_demo enable_test cfg \<longleftrightarrow>
     qc_disabled cfg \<or> \<not> enable_test \<and> qc_test cfg \<or> \<not> enable_demo \<and> qc_demo cfg"

section \<open>Adding handlers\<close>

definition put_handler :: "(string \<Rightarrow> string) \<Rightarrow> 'dt handler \<Rightarrow> 'dt sqm \<Rightarrow> 'dt sqm" where
  "put_handler lc h s = s\<lparr>qm_handlers := sm_put (lc (get_query_name h)) h (qm_handlers s)\<rparr>"

definition notify_failed :: "'dt sqm \<Rightarrow> 'dt sqm" where
  "notify_failed s = s\<lparr>qm_failed := True\<rparr>"

text \<open>A handler that cannot be constructed is an error, except while the server shuts down.\<close>

definition add_handler ::
    "(string \<Rightarrow> string) \<Rightarrow> 'dt qm_env \<Rightarrow> 'dt sq_task \<Rightarrow> 'dt sqm \<Rightarrow> 'dt sqm \<times> outcome" where
  "add_handler lc ev t s =
     (let template_fn = map_option (ev_join ev (tk_template_dir t)) (qc_template (tk_config t))
      in case ev_construct ev (tk_config t) (tk_file t) template_fn of
           Some h \<Rightarrow> (put_handler lc h s, Done)
         | None \<Rightarrow> if ev_shutdown ev then (s, Done) else (notify_failed s, Failed))"

definition enqueue_query_add ::
    "(string \<Rightarrow> string) \<Rightarrow> 'dt qm_env \<Rightarrow> 'dt sq_task \<Rightarrow> bool \<Rightarrow> 'dt sqm \<Rightarrow> 'dt sqm \<times> outcome" where
  "enqueue_query_add lc ev t initial_update s =
     (if ev_background ev \<and> initial_update then (s\<lparr>qm_tasks := qm_tasks s @ [t]\<rparr>, Done)
      else add_handler lc ev t s)"

definition request_reload :: "'dt sqm \<Rightarrow> 'dt sqm" where
  "request_reload s = s\<lparr>qm_reload := True\<rparr>"

definition is_reload_required :: "bool \<Rightarrow> 'dt sqm \<Rightarrow> bool \<times> 'dt sqm" where
  "is_reload_required reset s = (qm_reload s, if reset then s\<lparr>qm_reload := False\<rparr> else s)"

section \<open>Changes of configuration files\<close>

definition erase_handler :: "string \<Rightarrow> 'dt sqm \<Rightarrow> 'dt sqm" where
  "erase_handler key s = s\<lparr>qm_handlers := mm_erase key (qm_handlers s)\<rparr>"

definition erase_duplicate :: "string \<Rightarrow> 'dt sqm \<Rightarrow> 'dt sqm" where
  "erase_duplicate fn s = s\<lparr>qm_duplicate := removeAll fn (qm_duplicate s)\<rparr>"

definition handle_query_remove :: "(string \<Rightarrow> string) \<Rightarrow> string \<Rightarrow> 'dt sqm \<Rightarrow> 'dt sqm" where
  "handle_query_remove lc fn s =
     (let s = s\<lparr>qm_hashes := remove_file_hash fn (qm_hashes s)\<rparr>;
          found = get_handler_by_file fn s;
          s = erase_duplicate fn s
      in case found of
           None \<Rightarrow> s
         | Some (_, h) \<Rightarrow> erase_handler (lc (qc_id (hd_config h))) s)"

definition handle_query_ignore :: "(string \<Rightarrow> string) \<Rightarrow> 'dt config \<Rightarrow> string \<Rightarrow> 'dt sqm \<Rightarrow> 'dt sqm" where
  "handle_query_ignore lc cfg fn s = (case get_handler_nothrow lc (qc_id cfg) s of
       None \<Rightarrow> s
     | Some prev \<Rightarrow> if fn = hd_file prev then erase_handler (lc (qc_id cfg)) s else request_reload s)"

text \<open>The file is looked at only when its contents changed since it was last looked at.\<close>

definition with_changed_file ::
    "'dt qm_env \<Rightarrow> string \<Rightarrow> ('dt config \<Rightarrow> 'dt sqm \<Rightarrow> 'dt sqm \<times> outcome) \<Rightarrow> 'dt sqm \<Rightarrow> 'dt sqm \<times> outcome" where
  "with_changed_file ev fn act s =
     (let (changed, hm) = check_file_hash (ev_max_size ev) (ev_digest ev) (ev_files ev) fn (qm_hashes s);
          s = s\<lparr>qm_hashes := hm\<rparr>
      in if \<not> changed then (s, Done)
         else case ev_load ev fn of None \<Rightarrow> (s, Failed) | Some cfg \<Rightarrow> act cfg s)"

definition add_query ::
    "(string \<Rightarrow> string) \<Rightarrow> 'dt qm_env \<Rightarrow> string \<Rightarrow> string \<Rightarrow> bool \<Rightarrow> 'dt config \<Rightarrow> 'dt sqm \<Rightarrow> 'dt sqm \<times> outcome" where
  "add_query lc ev fn template_dir initial_update cfg s =
     (case get_handler_nothrow lc (qc_id cfg) s of
        Some _ \<Rightarrow> (s\<lparr>qm_duplicate := sset_insert fn (qm_duplicate s)\<rparr>, Done)
      | None \<Rightarrow>
          let s = erase_duplicate fn s
          in if should_be_ignored (ev_demo ev) (ev_test ev) cfg
             then (handle_query_ignore lc cfg fn s, Done)
             else enqueue_query_add lc ev \<lparr>tk_config = cfg, tk_file = fn, tk_template_dir = template_dir\<rparr>
                    initial_update s)"

definition handle_query_add ::
    "(string \<Rightarrow> string) \<Rightarrow> 'dt qm_env \<Rightarrow> string \<Rightarrow> string \<Rightarrow> bool \<Rightarrow> 'dt sqm \<Rightarrow> 'dt sqm \<times> outcome" where
  "handle_query_add lc ev fn template_dir initial_update =
     with_changed_file ev fn (add_query lc ev fn template_dir initial_update)"

definition modify_query ::
    "(string \<Rightarrow> string) \<Rightarrow> 'dt qm_env \<Rightarrow> string \<Rightarrow> string \<Rightarrow> 'dt config \<Rightarrow> 'dt sqm \<Rightarrow> 'dt sqm \<times> outcome" where
  "modify_query lc ev fn template_dir cfg s =
     (if should_be_ignored (ev_demo ev) (ev_test ev) cfg
      then (handle_query_ignore lc cfg fn (erase_duplicate fn s), Done)
      else let t = \<lparr>tk_config = cfg, tk_file = fn, tk_template_dir = template_dir\<rparr>;
               ph2 = get_handler_nothrow lc (qc_id cfg) s
        in (case get_handler_by_file fn s of
              Some (key1, h1) \<Rightarrow>
                let id2 = qc_id (hd_config h1)
                in if ph2 \<noteq> None \<and> key1 \<noteq> lc (qc_id cfg) then (request_reload s, Done)
                   else (case enqueue_query_add lc ev t False s of
                       (s, Failed) \<Rightarrow> (s, Failed)
                     | (s, Done) \<Rightarrow> (if ph2 = None then erase_handler id2 s else s, Done))
            | None \<Rightarrow>
                if ph2 \<noteq> None then (request_reload s, Done)
                else enqueue_query_add lc ev t False s))"

definition handle_query_modify ::
    "(string \<Rightarrow> string) \<Rightarrow> 'dt qm_env \<Rightarrow> string \<Rightarrow> string \<Rightarrow> 'dt sqm \<Rightarrow> 'dt sqm \<times> outcome" where
  "handle_query_modify lc ev fn template_dir =
     with_changed_file ev fn (modify_query lc ev fn template_dir)"

text \<open>\<open>CH_OTHER\<close> is a combination of change flags, with whether more than one is set.\<close>

datatype change = CH_CREATE | CH_DELETE | CH_MODIFY | CH_OTHER bool

definition conf_file_name :: "string \<Rightarrow> bool" where
  "conf_file_name name \<longleftrightarrow> take 1 name \<noteq> ''.'' \<and> take 1 name \<noteq> ''#'' \<and>
     5 \<le> length name \<and> drop (length name - 5) name = ''.conf''"

definition handle_config_file_change ::
    "(string \<Rightarrow> string) \<Rightarrow> 'dt qm_env \<Rightarrow> string \<Rightarrow> change \<Rightarrow> string \<Rightarrow> bool \<Rightarrow> 'dt sqm \<Rightarrow> 'dt sqm \<times> outcome" where
  "handle_config_file_change lc ev fn ch template_dir initial_update s =
     (if (ch = CH_DELETE \<or> ev_regular ev fn) \<and> conf_file_name fn
      then (case ch of
          CH_DELETE \<Rightarrow> (handle_query_remove lc fn s, Done)
        | CH_CREATE \<Rightarrow> handle_query_add lc ev fn template_dir initial_update s
        | CH_MODIFY \<Rightarrow> handle_query_modify lc ev fn template_dir s
        | CH_OTHER several \<Rightarrow> (s, if several then Failed else Done))
      else (s, Done))"

definition retry_duplicates :: "(string \<Rightarrow> string) \<Rightarrow> 'dt qm_env \<Rightarrow> string \<Rightarrow> 'dt sqm \<Rightarrow> 'dt sqm" where
  "retry_duplicates lc ev template_dir s =
     fold (\<lambda>fn s. fst (handle_query_add lc ev fn template_dir False s)) (qm_duplicate s) s"

text \<open>The loop of \<open>on_config_change\<close>, with the number of errors.\<close>

fun config_change_loop ::
    "(string \<Rightarrow> string) \<Rightarrow> 'dt qm_env \<Rightarrow> nat \<Rightarrow> string \<Rightarrow> bool \<Rightarrow> (string \<times> change) list \<Rightarrow> 'dt sqm \<Rightarrow> nat \<Rightarrow> 'dt sqm \<times> nat" where
  "config_change_loop lc ev watcher template_dir initial_update [] s errs = (s, errs)"
| "config_change_loop lc ev watcher template_dir initial_update (c # cs) s errs =
     (if qm_reload s then (s, errs)
      else case handle_config_file_change lc ev (fst c) (snd c) template_dir initial_update s of
          (s, Done) \<Rightarrow> config_change_loop lc ev watcher template_dir initial_update cs
             (s\<lparr>qm_dirs := sm_update watcher (\<lambda>d. d\<lparr>di_num_updates := di_num_updates d + 1\<rparr>) (qm_dirs s)\<rparr>) errs
        | (s, Failed) \<Rightarrow>
            if ev_shutdown ev then config_change_loop lc ev watcher template_dir initial_update cs s errs
            else config_change_loop lc ev watcher template_dir initial_update cs
              (if initial_update then notify_failed s else s) (errs + 1))"

definition on_config_change ::
    "(string \<Rightarrow> string) \<Rightarrow> 'dt qm_env \<Rightarrow> nat \<Rightarrow> (string \<times> change) list \<Rightarrow> 'dt sqm \<Rightarrow> 'dt sqm \<times> outcome" where
  "on_config_change lc ev watcher status s = (case map_of (qm_dirs s) watcher of
       None \<Rightarrow> (s, Failed)
     | Some dir \<Rightarrow>
         let s = s\<lparr>qm_loading := True\<rparr>; initial_update = (di_num_updates dir = 0)
         in if ev_ready ev \<and> \<not> ev_polling ev then (s, Done)
            else let (s, errs) = config_change_loop lc ev watcher (di_template_dir dir) initial_update status s 0;
                     s = (if initial_update then s else retry_duplicates lc ev (di_template_dir dir) s)
              in if errs \<noteq> 0 \<and> \<not> ev_shutdown ev \<and> initial_update then (notify_failed s, Failed) else (s, Done))"

text \<open>\<open>wait_for_init\<close> after it has been woken up: whether the initial loading succeeded.\<close>

definition init_result :: "'dt qm_env \<Rightarrow> 'dt sqm \<Rightarrow> unit result" where
  "init_result ev s =
     (if ev_shutdown ev then Inr ()
      else if qm_failed s then Inl (Thrown NoCode ''Failed to load one or more stored query configuration'')
      else Inr ())"

section \<open>Events\<close>

text \<open>
  The events the map can see after its construction, each with its own environment, as the files
  may change between them.  A change notification runs as one step, and a background task runs as
  one step at any later time, in any order.
\<close>

datatype 'dt sq_event =
    AddDir nat string
  | ConfigChange "'dt qm_env" nat "(string \<times> change) list"
  | RunTask "'dt qm_env" nat
  | TakeReload

definition run_task :: "(string \<Rightarrow> string) \<Rightarrow> 'dt qm_env \<Rightarrow> nat \<Rightarrow> 'dt sqm \<Rightarrow> 'dt sqm" where
  "run_task lc ev i s =
     (if i < length (qm_tasks s)
      then fst (add_handler lc ev (qm_tasks s ! i)
        (s\<lparr>qm_tasks := take i (qm_tasks s) @ drop (i + 1) (qm_tasks s)\<rparr>))
      else s)"

definition sq_step :: "(string \<Rightarrow> string) \<Rightarrow> 'dt sq_event \<Rightarrow> 'dt sqm \<Rightarrow> 'dt sqm" where
  "sq_step lc e s = (case e of
       AddDir w d \<Rightarrow> add_config_dir w d s
     | ConfigChange ev w status \<Rightarrow> fst (on_config_change lc ev w status s)
     | RunTask ev i \<Rightarrow> run_task lc ev i s
     | TakeReload \<Rightarrow> snd (is_reload_required True s))"

text \<open>
  A handler keeps the configuration it was constructed for (the constructor of
  \<open>StoredQueryHandlerBase\<close> stores it), and the enabling flags of the server do not change.
\<close>

definition env_ok :: "bool \<Rightarrow> bool \<Rightarrow> 'dt qm_env \<Rightarrow> bool" where
  "env_ok demo test ev \<longleftrightarrow> ev_demo ev = demo \<and> ev_test ev = test \<and>
     (\<forall>cfg fn t h. ev_construct ev cfg fn t = Some h \<longrightarrow> hd_config h = cfg \<and> hd_file h = fn)"

definition event_ok :: "bool \<Rightarrow> bool \<Rightarrow> 'dt sq_event \<Rightarrow> bool" where
  "event_ok demo test e = (case e of
       ConfigChange ev _ _ \<Rightarrow> env_ok demo test ev | RunTask ev _ \<Rightarrow> env_ok demo test ev | _ \<Rightarrow> True)"

inductive sq_reachable :: "(string \<Rightarrow> string) \<Rightarrow> bool \<Rightarrow> bool \<Rightarrow> 'dt sqm \<Rightarrow> bool"
  for lc demo test where
  start: "sq_reachable lc demo test sqm_new"
| event: "sq_reachable lc demo test s \<Longrightarrow> event_ok demo test e \<Longrightarrow> sq_reachable lc demo test (sq_step lc e s)"

section \<open>Invariants of the map\<close>

text \<open>
  An invariant of the state that the elementary updates keep is kept by every operation; \<open>T\<close> is
  what holds of a configuration that may be turned into a handler.
\<close>

locale sqm_invariant =
  fixes lc :: "string \<Rightarrow> string" and demo test :: bool
    and I :: "'dt sqm \<Rightarrow> bool" and T :: "'dt sq_task \<Rightarrow> bool"
  assumes inv_new: "I sqm_new"
    and inv_hash: "I s \<Longrightarrow> I (s\<lparr>qm_hashes := sm_put fn d (qm_hashes s)\<rparr>)"
    and inv_forget: "I s \<Longrightarrow> I (erase_duplicate fn (s\<lparr>qm_hashes := remove_file_hash fn (qm_hashes s)\<rparr>))"
    and inv_dup: "I s \<Longrightarrow> conf_file_name fn \<Longrightarrow> map_of (qm_hashes s) fn \<noteq> None \<Longrightarrow>
      I (s\<lparr>qm_duplicate := sset_insert fn (qm_duplicate s)\<rparr>)"
    and inv_erase_dup: "I s \<Longrightarrow> I (erase_duplicate fn s)"
    and inv_erase: "I s \<Longrightarrow> I (erase_handler k s)"
    and inv_reload: "I s \<Longrightarrow> I (s\<lparr>qm_reload := b\<rparr>)"
    and inv_loading: "I s \<Longrightarrow> I (s\<lparr>qm_loading := b\<rparr>)"
    and inv_failed: "I s \<Longrightarrow> I (s\<lparr>qm_failed := b\<rparr>)"
    and inv_dirs: "I s \<Longrightarrow> I (s\<lparr>qm_dirs := ds\<rparr>)"
    and inv_push: "I s \<Longrightarrow> T t \<Longrightarrow> I (s\<lparr>qm_tasks := qm_tasks s @ [t]\<rparr>)"
    and inv_take: "I s \<Longrightarrow> i < length (qm_tasks s) \<Longrightarrow>
      T (qm_tasks s ! i) \<and> I (s\<lparr>qm_tasks := take i (qm_tasks s) @ drop (i + 1) (qm_tasks s)\<rparr>)"
    and inv_put: "I s \<Longrightarrow> T t \<Longrightarrow> hd_config h = tk_config t \<Longrightarrow> hd_file h = tk_file t \<Longrightarrow> I (put_handler lc h s)"
    and dup_name: "I s \<Longrightarrow> fn \<in> set (qm_duplicate s) \<Longrightarrow> conf_file_name fn"
    and task_ok: "conf_file_name (tk_file t) \<Longrightarrow> \<not> should_be_ignored demo test (tk_config t) \<Longrightarrow> T t"
begin

lemma add_handler_inv:
  assumes "I s" "T t" "env_ok demo test ev"
  shows "I (fst (add_handler lc ev t s))"
  using assms inv_put [OF assms(1,2)] inv_failed
  by (auto simp: add_handler_def notify_failed_def env_ok_def Let_def split: option.splits)

lemma enqueue_inv:
  assumes "I s" "T t" "env_ok demo test ev"
  shows "I (fst (enqueue_query_add lc ev t initial s))"
  using assms add_handler_inv inv_push by (simp add: enqueue_query_add_def)

lemma ignore_inv: "I s \<Longrightarrow> I (handle_query_ignore lc cfg fn s)"
  by (auto simp: handle_query_ignore_def request_reload_def inv_erase inv_reload split: option.splits)

lemma remove_inv: "I s \<Longrightarrow> I (handle_query_remove lc fn s)"
  using inv_forget [of s fn]
  by (auto simp: handle_query_remove_def Let_def inv_erase split: option.splits)

lemma changed_file_inv:
  assumes "I s" and "\<And>cfg s. I s \<Longrightarrow> map_of (qm_hashes s) fn \<noteq> None \<Longrightarrow> I (fst (act cfg s))"
  shows "I (fst (with_changed_file ev fn act s))"
proof -
  obtain changed hm where check: "check_file_hash (ev_max_size ev) (ev_digest ev) (ev_files ev) fn (qm_hashes s) = (changed, hm)"
    by fastforce
  then consider "\<not> changed" "hm = qm_hashes s" | d where changed "hm = sm_put fn d (qm_hashes s)"
    by (auto simp: check_file_hash_def Let_def split: option.splits prod.splits if_splits)
  then show ?thesis
  proof cases
    case 1
    with assms(1) check show ?thesis by (simp add: with_changed_file_def)
  next
    case 2
    then have "I (s\<lparr>qm_hashes := hm\<rparr>)" "map_of (qm_hashes (s\<lparr>qm_hashes := hm\<rparr>)) fn \<noteq> None"
      using inv_hash [OF assms(1)] by (simp_all add: sm_simps)
    with check 2 show ?thesis
      using assms(2) by (simp add: with_changed_file_def Let_def split: option.split)
  qed
qed

lemma add_inv:
  assumes "I s" "conf_file_name fn" "env_ok demo test ev"
  shows "I (fst (handle_query_add lc ev fn tdir initial s))"
  unfolding handle_query_add_def
proof (rule changed_file_inv [OF assms(1)])
  fix cfg s assume s: "I s" and hash: "map_of (qm_hashes s) fn \<noteq> None"
  have flags: "ev_demo ev = demo" "ev_test ev = test"
    using assms(3) by (simp_all add: env_ok_def)
  show "I (fst (add_query lc ev fn tdir initial cfg s))"
  proof (cases "get_handler_nothrow lc (qc_id cfg) s")
    case None
    then show ?thesis
      using inv_erase_dup [OF s] ignore_inv enqueue_inv [OF _ task_ok assms(3)] assms(2)
      by (simp add: add_query_def Let_def flags)
  next
    case (Some h)
    then show ?thesis
      using inv_dup [OF s assms(2) hash] by (simp add: add_query_def)
  qed
qed

lemma modify_inv:
  assumes "I s" "conf_file_name fn" "env_ok demo test ev"
  shows "I (fst (handle_query_modify lc ev fn tdir s))"
  unfolding handle_query_modify_def
proof (rule changed_file_inv [OF assms(1)])
  fix cfg s assume s: "I s"
  have flags: "ev_demo ev = demo" "ev_test ev = test"
    using assms(3) by (simp_all add: env_ok_def)
  show "I (fst (modify_query lc ev fn tdir cfg s))"
  proof (cases "should_be_ignored demo test cfg")
    case True
    then show ?thesis
      using ignore_inv inv_erase_dup [OF s] by (simp add: modify_query_def flags)
  next
    case False
    let ?t = "\<lparr>tk_config = cfg, tk_file = fn, tk_template_dir = tdir\<rparr>"
    obtain s' r where enq: "enqueue_query_add lc ev ?t False s = (s', r)" by fastforce
    moreover have "I (fst (enqueue_query_add lc ev ?t False s))"
      using enqueue_inv [OF s task_ok assms(3)] assms(2) False by simp
    ultimately have s': "I s'" by simp
    have reload: "I (request_reload s)"
      using inv_reload [OF s] by (simp add: request_reload_def)
    show ?thesis
      using False s' reload inv_erase [OF s'] enq
      by (cases r) (auto simp: modify_query_def flags Let_def split: option.split)
  qed
qed

lemma change_inv:
  assumes "I s" "env_ok demo test ev"
  shows "I (fst (handle_config_file_change lc ev fn ch tdir initial s))"
  using assms add_inv modify_inv remove_inv
  by (cases ch) (simp_all add: handle_config_file_change_def)

lemma retry_inv:
  assumes "I s" "env_ok demo test ev"
  shows "I (retry_duplicates lc ev tdir s)"
proof -
  have "I (fold (\<lambda>fn s. fst (handle_query_add lc ev fn tdir False s)) fns s)"
    if "\<forall>fn \<in> set fns. conf_file_name fn" for fns
    using assms(1) that by (induction fns arbitrary: s) (simp_all add: add_inv assms(2))
  then show ?thesis
    using dup_name [OF assms(1)] by (simp add: retry_duplicates_def)
qed

lemma loop_inv:
  assumes "I s" "env_ok demo test ev"
  shows "I (fst (config_change_loop lc ev w tdir initial cs s errs))"
  using assms(1)
proof (induction cs arbitrary: s errs)
  case Nil
  then show ?case by simp
next
  case (Cons c cs)
  obtain s' r where step: "handle_config_file_change lc ev (fst c) (snd c) tdir initial s = (s', r)"
    by fastforce
  with change_inv [OF Cons.prems assms(2)] have "I s'" by (metis fst_conv)
  then have "I (fst (config_change_loop lc ev w tdir initial cs s' errs))"
    "I (fst (config_change_loop lc ev w tdir initial cs (s'\<lparr>qm_dirs := ds\<rparr>) errs))"
    "I (fst (config_change_loop lc ev w tdir initial cs (if initial then notify_failed s' else s') errs))" for ds errs
    using Cons.IH inv_dirs inv_failed by (simp_all add: notify_failed_def)
  with step Cons.prems show ?case
    by (cases r) simp_all
qed

lemma config_change_inv:
  assumes "I s" "env_ok demo test ev"
  shows "I (fst (on_config_change lc ev w status s))"
proof (cases "map_of (qm_dirs s) w")
  case None
  with assms show ?thesis by (simp add: on_config_change_def)
next
  case (Some dir)
  have start: "I (s\<lparr>qm_loading := True\<rparr>)"
    using assms(1) by (rule inv_loading)
  obtain s' errs where loop: "config_change_loop lc ev w (di_template_dir dir) (di_num_updates dir = 0) status
      (s\<lparr>qm_loading := True\<rparr>) 0 = (s', errs)" by fastforce
  with loop_inv [OF start assms(2)] have "I s'" by (metis fst_conv)
  with Some start loop show ?thesis
    using retry_inv [OF _ assms(2)] inv_failed
    by (simp add: on_config_change_def Let_def notify_failed_def)
qed

lemma reachable_inv: "sq_reachable lc demo test s \<Longrightarrow> I s"
proof (induction rule: sq_reachable.induct)
  case start
  show ?case by (rule inv_new)
next
  case (event s e)
  show ?case
  proof (cases e)
    case (AddDir w d)
    with event show ?thesis by (simp add: sq_step_def add_config_dir_def inv_dirs)
  next
    case (ConfigChange ev w status)
    with event show ?thesis by (simp add: sq_step_def event_ok_def config_change_inv)
  next
    case (RunTask ev i)
    with event show ?thesis
      using inv_take [OF event.IH] by (simp add: sq_step_def event_ok_def run_task_def add_handler_inv)
  next
    case TakeReload
    with event show ?thesis by (simp add: sq_step_def is_reload_required_def inv_reload)
  qed
qed

end

text \<open>
  What is served: every handler stands under its folded query id, its configuration is enabled and
  comes from a configuration file; so do the configurations of pending tasks.
\<close>

definition servable :: "bool \<Rightarrow> bool \<Rightarrow> 'dt config \<Rightarrow> string \<Rightarrow> bool" where
  "servable demo test cfg fn \<longleftrightarrow> \<not> should_be_ignored demo test cfg \<and> conf_file_name fn"

definition served_inv :: "(string \<Rightarrow> string) \<Rightarrow> bool \<Rightarrow> bool \<Rightarrow> 'dt sqm \<Rightarrow> bool" where
  "served_inv lc demo test s \<longleftrightarrow> sm_ok (qm_handlers s) \<and>
     (\<forall>k h. map_of (qm_handlers s) k = Some h \<longrightarrow>
        k = lc (get_query_name h) \<and> servable demo test (hd_config h) (hd_file h)) \<and>
     (\<forall>t \<in> set (qm_tasks s). servable demo test (tk_config t) (tk_file t)) \<and>
     (\<forall>fn \<in> set (qm_duplicate s). conf_file_name fn)"

lemma map_of_mm_erase [sm_simps]: "map_of (mm_erase k m) k' = (if k' = k then None else map_of m k')"
  by (induction m) (auto simp: mm_erase_def)

lemma sm_ok_mm_erase [sm_simps]: "sm_ok m \<Longrightarrow> sm_ok (mm_erase k m)"
  by (simp add: mm_erase_def sm_ok_filter)

lemma set_take_drop: "set (take i xs @ drop (i + 1) xs) \<subseteq> set xs"
  using set_take_subset [of i xs] set_drop_subset [of "i + 1" xs] by simp

interpretation served: sqm_invariant lc demo test "served_inv lc demo test" "\<lambda>t. servable demo test (tk_config t) (tk_file t)"
  for lc demo test
proof unfold_locales
  fix s :: "'a sqm" and i
  assume s: "served_inv lc demo test s" and i: "i < length (qm_tasks s)"
  then show "servable demo test (tk_config (qm_tasks s ! i)) (tk_file (qm_tasks s ! i)) \<and>
      served_inv lc demo test (s\<lparr>qm_tasks := take i (qm_tasks s) @ drop (i + 1) (qm_tasks s)\<rparr>)"
    using set_take_drop [of i "qm_tasks s"] by (simp add: served_inv_def) blast
qed (auto simp: served_inv_def sqm_new_def erase_duplicate_def erase_handler_def put_handler_def servable_def
       get_query_name_def sm_simps)

definition dup_inv :: "'dt sqm \<Rightarrow> bool" where
  "dup_inv s \<longleftrightarrow> (\<forall>fn \<in> set (qm_duplicate s). conf_file_name fn \<and> map_of (qm_hashes s) fn \<noteq> None)"

interpretation dup: sqm_invariant lc demo test dup_inv "\<lambda>t. True"
  for lc demo test
  by unfold_locales (auto simp: dup_inv_def sqm_new_def erase_duplicate_def erase_handler_def put_handler_def
      remove_file_hash_def sm_simps)

interpretation directory: handler_directory lc "get_handler_by_name lc" "served_inv lc demo test"
  for lc demo test
proof
  fix s :: "'a sqm" and n h
  assume "served_inv lc demo test s" "get_handler_by_name lc s n = Inr h"
  then show "lc (get_query_name h) = lc n"
    by (auto simp: served_inv_def get_handler_by_name_def split: option.splits)
next
  fix s :: "'a sqm" and n n' :: string
  assume "lc n = lc n'"
  then show "get_handler_by_name lc s n = get_handler_by_name lc s n'"
    by (simp add: get_handler_by_name_def)
next
  fix s :: "'a sqm"
  have "{lc n | n. isOK (get_handler_by_name lc s n)} \<subseteq> dom (map_of (qm_handlers s))"
    by (auto simp: get_handler_by_name_def split: option.splits)
  then show "finite {lc n | n. isOK (get_handler_by_name lc s n)}"
    by (rule finite_subset) (rule finite_dom_map_of)
qed

section \<open>Reading a file only once\<close>

lemma read_loop_small:
  "max_size = 0 \<or> cnt + length rest < max_size \<Longrightarrow> read_loop max_size cnt acc rest = (acc @ rest, cnt + length rest)"
proof (induction max_size cnt acc rest rule: read_loop.induct)
  case (1 max_size cnt acc rest)
  show ?case
  proof (cases "rest = []")
    case False
    with 1 show ?thesis by (subst read_loop.simps) (auto simp: min_def)
  qed (simp add: read_loop.simps)
qed

lemma read_loop_large:
  "0 < max_size \<Longrightarrow> max_size \<le> cnt + length rest \<Longrightarrow> max_size \<le> snd (read_loop max_size cnt acc rest)"
proof (induction max_size cnt acc rest rule: read_loop.induct)
  case (1 max_size cnt acc rest)
  show ?case
  proof (cases "rest \<noteq> [] \<and> cnt < max_size")
    case True
    with 1 show ?thesis by (subst read_loop.simps) (auto simp: min_def)
  next
    case False
    with 1 show ?thesis by (subst read_loop.simps) auto
  qed
qed

lemma check_file_hash_eq:
  "check_file_hash max_size digest files fn hm = (case files fn of
      None \<Rightarrow> (False, hm)
    | Some content \<Rightarrow>
        if (max_size = 0 \<or> length content < max_size) \<and> map_of hm fn \<noteq> Some (digest content)
        then (True, sm_put fn (digest content) hm) else (False, hm))"
proof (cases "files fn")
  case None
  then show ?thesis by (simp add: check_file_hash_def)
next
  case (Some content)
  show ?thesis
  proof (cases "max_size = 0 \<or> length content < max_size")
    case True
    then have "read_loop max_size 0 [] content = (content, length content)"
      using read_loop_small [of max_size 0 content "[]"] by simp
    with Some True show ?thesis
      by (auto simp: check_file_hash_def Let_def split: option.splits)
  next
    case False
    obtain data cnt where "read_loop max_size 0 [] content = (data, cnt)" by fastforce
    with read_loop_large [of max_size 0 content "[]"] False have "max_size \<le> cnt" by simp
    with Some False \<open>read_loop max_size 0 [] content = (data, cnt)\<close> show ?thesis
      by (simp add: check_file_hash_def)
  qed
qed

section \<open>Properties\<close>

text \<open>
  C11.  Whatever the order of configuration changes, background tasks and reload requests, a query
  that is found by its name has that name up to case, an enabled configuration, and comes from a
  configuration file.
\<close>

theorem served_queries_enabled:
  assumes "sq_reachable lc demo test s" and "get_handler_by_name lc s name = Inr h"
  shows "lc (get_query_name h) = lc name \<and> \<not> should_be_ignored demo test (hd_config h) \<and>
    conf_file_name (hd_file h)"
proof -
  have "served_inv lc demo test s"
    using assms(1) by (rule served.reachable_inv)
  with assms(2) show ?thesis
    by (auto simp: served_inv_def servable_def get_handler_by_name_def split: option.splits)
qed

text \<open>
  The content check accepts a file exactly when it can be read, is shorter than the limit and
  differs from the contents accepted last; then and only then its digest is recorded.
\<close>

theorem content_check:
  "check_file_hash max_size digest files fn hm = (case files fn of
      None \<Rightarrow> (False, hm)
    | Some content \<Rightarrow>
        if (max_size = 0 \<or> length content < max_size) \<and> map_of hm fn \<noteq> Some (digest content)
        then (True, sm_put fn (digest content) hm) else (False, hm))"
  by (rule check_file_hash_eq)

definition unchanged_files :: "'dt qm_env \<Rightarrow> 'dt sqm \<Rightarrow> bool" where
  "unchanged_files ev s \<longleftrightarrow> (\<forall>fn d. map_of (qm_hashes s) fn = Some d \<longrightarrow>
     (\<exists>content. ev_files ev fn = Some content \<and> ev_digest ev content = d))"

lemma unchanged_not_added:
  assumes "unchanged_files ev s" "map_of (qm_hashes s) fn \<noteq> None"
  shows "fst (handle_query_add lc ev fn tdir initial s) = s"
proof -
  obtain d where d: "map_of (qm_hashes s) fn = Some d"
    using assms(2) by blast
  with assms(1) obtain content where "ev_files ev fn = Some content" "ev_digest ev content = d"
    by (auto simp: unchanged_files_def)
  with d show ?thesis
    by (simp add: handle_query_add_def with_changed_file_def check_file_hash_eq)
qed

text \<open>
  The retry of files that were rejected as duplicates never adds a query unless the file
  itself was edited in the meantime: the content check of the first attempt has recorded the file,
  so that the retry sees it as unchanged even after the query that blocked it is gone.
\<close>

theorem duplicates_not_retried:
  assumes "sq_reachable lc demo test s" and "unchanged_files ev s"
  shows "retry_duplicates lc ev tdir s = s"
proof -
  have "dup_inv s"
    using assms(1) by (rule dup.reachable_inv)
  then have "\<forall>fn \<in> set (qm_duplicate s). map_of (qm_hashes s) fn \<noteq> None"
    by (simp add: dup_inv_def)
  then have "fold (\<lambda>fn s. fst (handle_query_add lc ev fn tdir False s)) fns s = s"
    if "set fns \<subseteq> set (qm_duplicate s)" for fns
    using that by (induction fns) (simp_all add: unchanged_not_added [OF assms(2)])
  then show ?thesis by (simp add: retry_duplicates_def)
qed

text \<open>An environment for the witnesses: every file is readable and holds the query of \<open>ids\<close>.\<close>

definition demo_query :: "string \<Rightarrow> 'dt config" where
  "demo_query query_id = (config_new False)\<lparr>qc_id := query_id\<rparr>"

definition demo_handler :: "'dt config \<Rightarrow> string \<Rightarrow> 'dt handler" where
  "demo_handler cfg fn = \<lparr>hd_config = cfg, hd_file = fn, hd_template = None,
     hd_process = (\<lambda>_ params. Inr params), hd_redirect = base_redirect, hd_qualifier = base_qualifier\<rparr>"

definition demo_env :: "(string \<Rightarrow> string) \<Rightarrow> (string \<Rightarrow> byte list) \<Rightarrow> 'dt qm_env" where
  "demo_env ids contents = \<lparr>ev_background = False, ev_demo = False, ev_test = False, ev_polling = True,
     ev_max_size = 131072, ev_digest = map byte_char, ev_files = (\<lambda>fn. Some (contents fn)),
     ev_regular = (\<lambda>_. True), ev_load = (\<lambda>fn. Some (demo_query (ids fn))),
     ev_construct = (\<lambda>cfg fn _. Some (demo_handler cfg fn)), ev_join = (@),
     ev_shutdown = False, ev_ready = True\<rparr>"

lemma demo_env_ok: "env_ok False False (demo_env ids contents)"
  by (simp add: env_ok_def demo_env_def demo_handler_def)

lemma demo_query_served: "\<not> should_be_ignored False False (demo_query query_id)"
  by (simp add: should_be_ignored_def demo_query_def config_new_def)

lemma duplicates_not_retried_witness:
  "\<exists>s :: unit sqm. sq_reachable ascii_lower False False s \<and> qm_duplicate s = [''b.conf''] \<and> qm_handlers s = [] \<and>
     retry_duplicates ascii_lower (demo_env (\<lambda>_. ''q'') (\<lambda>_. [])) '''' s = s"
proof -
  let ?ev = "demo_env (\<lambda>_. ''q'') (\<lambda>_. [])"
  let ?step = "\<lambda>status. sq_step ascii_lower (ConfigChange ?ev 0 status)"
  define s1 where "s1 = sq_step ascii_lower (AddDir 0 '''') (sqm_new :: unit sqm)"
  define s2 where "s2 = ?step [(''a.conf'', CH_CREATE), (''b.conf'', CH_CREATE)] s1"
  define s3 where "s3 = ?step [(''a.conf'', CH_DELETE)] s2"
  have reach: "sq_reachable ascii_lower False False s3"
    unfolding s3_def s2_def s1_def
    by (intro sq_reachable.intros) (simp_all add: event_ok_def demo_env_ok)
  have names: "conf_file_name ''a.conf''" "conf_file_name ''b.conf''" "\<not> ''b.conf'' < ''a.conf''"
    "ascii_lower ''q'' = ''q''"
    by code_simp+
  have s2: "s2 = \<lparr>qm_handlers = [(''q'', demo_handler (demo_query ''q'') ''a.conf'')], qm_duplicate = [''b.conf''],
     qm_hashes = [(''a.conf'', ''''), (''b.conf'', '''')], qm_reload = False, qm_loading = True,
     qm_failed = False, qm_dirs = [(0, \<lparr>di_template_dir = '''', di_num_updates = 2\<rparr>)], qm_tasks = []\<rparr>"
    by (simp add: s2_def s1_def sq_step_def add_config_dir_def sqm_new_def on_config_change_def demo_env_def
        handle_config_file_change_def handle_query_add_def with_changed_file_def check_file_hash_eq
        add_query_def names get_handler_nothrow_def demo_query_def config_new_def should_be_ignored_def
        enqueue_query_add_def add_handler_def put_handler_def get_query_name_def demo_handler_def
        erase_duplicate_def sm_put_def sm_update_def sset_insert_def Let_def)
  have s3: "qm_handlers s3 = []" "qm_duplicate s3 = [''b.conf'']" "qm_hashes s3 = [(''b.conf'', '''')]"
    by (simp_all add: s3_def s2 sq_step_def on_config_change_def demo_env_def retry_duplicates_def
        handle_config_file_change_def handle_query_remove_def handle_query_add_def with_changed_file_def
        check_file_hash_eq names get_handler_by_file_def demo_query_def config_new_def demo_handler_def
        remove_file_hash_def mm_erase_def erase_handler_def erase_duplicate_def sm_update_def Let_def)
  have "unchanged_files ?ev s3"
    by (simp add: unchanged_files_def s3 demo_env_def)
  from duplicates_not_retried [OF reach this] reach s3 show ?thesis by blast
qed

lemma demo_served:
  obtains s :: "'dt sqm" where "sq_reachable ascii_lower False False s"
    "qm_handlers s = [(ascii_lower query_id, demo_handler (demo_query query_id) ''a.conf'')]"
    "qm_hashes s = [(''a.conf'', '''')]"
proof
  let ?ev = "demo_env (\<lambda>_. query_id) (\<lambda>_. [])"
  let ?s1 = "sq_step ascii_lower (AddDir 0 '''') (sqm_new :: 'dt sqm)"
  let ?s2 = "sq_step ascii_lower (ConfigChange ?ev 0 [(''a.conf'', CH_CREATE)]) ?s1"
  show "sq_reachable ascii_lower False False ?s2"
    by (intro sq_reachable.intros) (simp_all add: event_ok_def demo_env_ok)
  have "conf_file_name ''a.conf''"
    by code_simp
  then show "qm_handlers ?s2 = [(ascii_lower query_id, demo_handler (demo_query query_id) ''a.conf'')]"
    "qm_hashes ?s2 = [(''a.conf'', '''')]"
    by (simp_all add: sq_step_def add_config_dir_def sqm_new_def on_config_change_def demo_env_def
        handle_config_file_change_def handle_query_add_def with_changed_file_def check_file_hash_eq
        add_query_def get_handler_nothrow_def demo_query_def config_new_def should_be_ignored_def
        enqueue_query_add_def add_handler_def put_handler_def get_query_name_def demo_handler_def
        erase_duplicate_def sm_put_def sm_update_def Let_def)
qed

lemma served_queries_enabled_witness:
  "\<exists>(s :: unit sqm) h. sq_reachable ascii_lower False False s \<and> get_handler_by_name ascii_lower s ''Q'' = Inr h \<and>
     conf_file_name (hd_file h)"
proof -
  obtain s :: "unit sqm" where reach: "sq_reachable ascii_lower False False s"
    and s: "qm_handlers s = [(ascii_lower ''q'', demo_handler (demo_query ''q'') ''a.conf'')]"
    using demo_served [of "''q''"] by metis
  have "ascii_lower ''q'' = ''q''" "ascii_lower ''Q'' = ''q''"
    by code_simp+
  then have "get_handler_by_name ascii_lower s ''Q'' = Inr (demo_handler (demo_query ''q'') ''a.conf'')"
    by (simp add: s get_handler_by_name_def)
  with served_queries_enabled [OF reach this] reach show ?thesis by blast
qed

text \<open>
  When a file that serves one query is edited so that it defines another, unused query id,
  the new query is served at once.  The old query disappears only if its id is written in lower
  case: the entry is erased under the id as written, so that an id with an upper case letter
  remains served by the handler of the old configuration.
\<close>

theorem renamed_query:
  assumes reach: "sq_reachable lc demo test s" and env: "env_ok demo test ev"
    and fold: "\<And>x. lc (lc x) = lc x"
    and changed: "fst (check_file_hash (ev_max_size ev) (ev_digest ev) (ev_files ev) fn (qm_hashes s))"
    and load: "ev_load ev fn = Some cfg" and enabled: "\<not> should_be_ignored demo test cfg"
    and built: "ev_construct ev cfg fn (map_option (ev_join ev tdir) (qc_template cfg)) = Some h"
    and old: "get_handler_by_file fn s = Some (k, h1)"
    and unused: "map_of (qm_handlers s) (lc (qc_id cfg)) = None"
  shows "\<exists>s'. handle_query_modify lc ev fn tdir s = (s', Done) \<and>
    get_handler_by_name lc s' (qc_id cfg) = Inr h \<and>
    get_handler_by_name lc s' (qc_id (hd_config h1)) =
      (if lc (qc_id (hd_config h1)) = qc_id (hd_config h1)
       then Inl (Thrown ParsingFailed ''No handler found'') else Inr h1)"
proof -
  let ?id = "qc_id cfg" and ?id1 = "qc_id (hd_config h1)"
  have "served_inv lc demo test s"
    using reach by (rule served.reachable_inv)
  moreover have "map_of (qm_handlers s) k = Some h1"
    using old calculation by (auto simp: get_handler_by_file_def find_Some_iff served_inv_def map_of_in [symmetric])
  ultimately have k: "map_of (qm_handlers s) (lc ?id1) = Some h1"
    by (auto simp: served_inv_def get_query_name_def)
  then have differ: "lc ?id1 \<noteq> lc ?id"
    using unused by auto
  have h: "get_query_name h = ?id"
    using env built by (auto simp: env_ok_def get_query_name_def)
  have flags: "ev_demo ev = demo" "ev_test ev = test"
    using env by (simp_all add: env_ok_def)
  obtain hm where check: "check_file_hash (ev_max_size ev) (ev_digest ev) (ev_files ev) fn (qm_hashes s) = (True, hm)"
    using changed by (metis prod.collapse)
  let ?s = "s\<lparr>qm_hashes := hm\<rparr>"
  let ?s' = "erase_handler ?id1 (put_handler lc h ?s)"
  have "handle_query_modify lc ev fn tdir s = (?s', Done)"
    using old unused enabled built
    by (simp add: handle_query_modify_def with_changed_file_def check load modify_query_def flags Let_def
        get_handler_nothrow_def get_handler_by_file_def enqueue_query_add_def add_handler_def)
  moreover have "?id1 \<noteq> lc ?id"
    using differ fold by metis
  ultimately show ?thesis
    using k differ by (auto simp: erase_handler_def put_handler_def h get_handler_by_name_def sm_simps)
qed

lemma ascii_lower_idem: "ascii_lower (ascii_lower x) = ascii_lower x"
  by (simp add: ascii_lower_def ascii_lower_char_def Let_def)

lemma renamed_query_witness:
  "\<exists>(s :: unit sqm) s'. sq_reachable ascii_lower False False s \<and>
     handle_query_modify ascii_lower (demo_env (\<lambda>_. ''r'') (\<lambda>_. [0])) ''a.conf'' '''' s = (s', Done) \<and>
     get_handler_by_name ascii_lower s' ''Q'' = Inr (demo_handler (demo_query ''Q'') ''a.conf'')"
proof -
  let ?Q = "demo_query ''Q'' :: unit config" and ?r = "demo_query ''r'' :: unit config"
  obtain s :: "unit sqm" where reach: "sq_reachable ascii_lower False False s"
    and s: "qm_handlers s = [(ascii_lower ''Q'', demo_handler ?Q ''a.conf'')]"
      "qm_hashes s = [(''a.conf'', '''')]"
    using demo_served [of "''Q''"] by metis
  have lower: "ascii_lower ''Q'' = ''q''" "ascii_lower ''r'' = ''r''"
    by code_simp+
  let ?ev = "demo_env (\<lambda>_. ''r'') (\<lambda>_. [0])"
  have "\<exists>s'. handle_query_modify ascii_lower ?ev ''a.conf'' '''' s = (s', Done) \<and>
      get_handler_by_name ascii_lower s' (qc_id ?r) = Inr (demo_handler ?r ''a.conf'') \<and>
      get_handler_by_name ascii_lower s' (qc_id (hd_config (demo_handler ?Q ''a.conf''))) =
       (if ascii_lower (qc_id (hd_config (demo_handler ?Q ''a.conf''))) =
           qc_id (hd_config (demo_handler ?Q ''a.conf''))
        then Inl (Thrown ParsingFailed ''No handler found'')
        else Inr (demo_handler ?Q ''a.conf''))"
  proof (rule renamed_query [OF reach demo_env_ok ascii_lower_idem])
    show "fst (check_file_hash (ev_max_size ?ev) (ev_digest ?ev) (ev_files ?ev) ''a.conf'' (qm_hashes s))"
      by (simp add: s demo_env_def check_file_hash_eq)
    show "ev_load ?ev ''a.conf'' = Some ?r"
      by (simp add: demo_env_def)
    show "\<not> should_be_ignored False False ?r"
      by (rule demo_query_served)
    show "ev_construct ?ev ?r ''a.conf'' (map_option (ev_join ?ev '''') (qc_template ?r)) =
        Some (demo_handler ?r ''a.conf'')"
      by (simp add: demo_env_def)
    show "get_handler_by_file ''a.conf'' s = Some (''q'', demo_handler ?Q ''a.conf'')"
      by (simp add: s get_handler_by_file_def demo_handler_def lower)
    show "map_of (qm_handlers s) (ascii_lower (qc_id ?r)) = None"
      by (simp add: s demo_query_def lower)
  qed
  then show ?thesis
    using reach by (auto simp: demo_handler_def demo_query_def lower)
qed

text \<open>
  A new configuration file with a constructible handler adds exactly its own query, at once
  or as a pending task of the initial load; it never replaces a query that is already served, and
  an ignored or duplicate configuration changes no handler.
\<close>

theorem added_query:
  assumes env: "env_ok demo test ev"
    and changed: "fst (check_file_hash (ev_max_size ev) (ev_digest ev) (ev_files ev) fn (qm_hashes s))"
    and load: "ev_load ev fn = Some cfg"
    and built: "ev_construct ev cfg fn (map_option (ev_join ev tdir) (qc_template cfg)) = Some h"
  shows "\<exists>s'. handle_query_add lc ev fn tdir initial s = (s', Done) \<and>
    (let skip = map_of (qm_handlers s) (lc (qc_id cfg)) \<noteq> None \<or> should_be_ignored demo test cfg;
         pending = ev_background ev \<and> initial
     in qm_handlers s' = (if skip \<or> pending then qm_handlers s else mm_insert (lc (qc_id cfg)) h (qm_handlers s)) \<and>
        qm_tasks s' = (if \<not> skip \<and> pending
          then qm_tasks s @ [\<lparr>tk_config = cfg, tk_file = fn, tk_template_dir = tdir\<rparr>] else qm_tasks s))"
proof -
  have flags: "ev_demo ev = demo" "ev_test ev = test"
    using env by (simp_all add: env_ok_def)
  have h: "get_query_name h = qc_id cfg"
    using env built by (auto simp: env_ok_def get_query_name_def)
  obtain hm where check: "check_file_hash (ev_max_size ev) (ev_digest ev) (ev_files ev) fn (qm_hashes s) = (True, hm)"
    using changed by (metis prod.collapse)
  show ?thesis
  proof (cases "map_of (qm_handlers s) (lc (qc_id cfg))")
    case None
    then show ?thesis
      using built by (simp add: handle_query_add_def with_changed_file_def check load add_query_def flags Let_def
          get_handler_nothrow_def erase_duplicate_def handle_query_ignore_def enqueue_query_add_def
          add_handler_def put_handler_def h sm_put_def)
  next
    case (Some h0)
    then show ?thesis
      by (simp add: handle_query_add_def with_changed_file_def check load add_query_def flags Let_def
          get_handler_nothrow_def)
  qed
qed

lemma added_query_witness:
  "\<exists>s'. handle_query_add ascii_lower (demo_env (\<lambda>_. ''q'') (\<lambda>_. [])) ''a.conf'' '''' True sqm_new = (s', Done) \<and>
     qm_handlers s' = [(ascii_lower ''q'', demo_handler (demo_query ''q'') ''a.conf'')]"
proof -
  let ?ev = "demo_env (\<lambda>_. ''q'') (\<lambda>_. [])"
  have "fst (check_file_hash (ev_max_size ?ev) (ev_digest ?ev) (ev_files ?ev) ''a.conf'' (qm_hashes sqm_new))"
    by (simp add: check_file_hash_eq demo_env_def sqm_new_def)
  from added_query [OF demo_env_ok this, of "demo_query ''q''" "''''" "demo_handler (demo_query ''q'') ''a.conf''"
      ascii_lower True]
  show ?thesis
    using demo_query_served [of "''q''"]
    by (auto simp: demo_env_def sqm_new_def demo_query_def)
qed

end
