(* ===== verification/QueryExtract.thy ===== *)
theory QueryExtract
  imports QueryMap
begin

text \<open>
  The parameters of a stored query request (\<open>libwfs/StoredQuery.cpp\<close>,
  \<open>extract_kvp_parameters\<close> and \<open>extract_xml_parameters\<close>): which parameters of the request are
  taken, how often, and with which values.  \<open>T\<close> converts texts, \<open>cl\<close> is
  \<open>Spine::Value::check_limits\<close>, \<open>dp\<close> is \<open>Fmi::DistanceParser::parse_meter\<close>.
\<close>

section \<open>Occurrences and conflicts\<close>

definition check_param_max_occurs :: "32 word \<Rightarrow> 32 word \<Rightarrow> unit result" where
  "check_param_max_occurs actual_count max_occurs =
     (if sint max_occurs < sint actual_count then Inl (Thrown ParsingFailed ''specified more than'') else Inr ())"

definition check_param_min_occurs :: "32 word \<Rightarrow> 32 word \<Rightarrow> unit result" where
  "check_param_min_occurs actual_count min_occurs =
     (if sint actual_count < sint min_occurs then Inl (Thrown ParsingFailed ''must be specified at least'') else Inr ())"

text \<open>The message lists the conflicts of the description, through a pointer that may be null.\<close>

definition conflicting_param :: "'dt param_desc option \<Rightarrow> error" where
  "conflicting_param desc = (case desc of
       None \<Rightarrow> Undefined ''null parameter description''
     | Some d \<Rightarrow> Thrown ParsingFailed ''conflicts with'')"

record 'dt extraction =
  ex_params :: "'dt spine_value rpm"
  ex_skipped :: "string list"
  ex_names :: "string list"
  ex_forbidden :: "string list"

definition extraction_new :: "bool \<Rightarrow> 'dt extraction" where
  "extraction_new cs = \<lparr>ex_params = rpm_new cs, ex_skipped = [], ex_names = [], ex_forbidden = []\<rparr>"

definition forbid :: "(string \<Rightarrow> string) \<Rightarrow> 'dt param_desc \<Rightarrow> string list \<Rightarrow> string list" where
  "forbid lc d forbidden = fold (\<lambda>c. sset_insert (lc c)) (de_conflicts d) forbidden"

section \<open>Values\<close>

type_synonym 'dt limit_check =
  "'dt spine_value option \<Rightarrow> 'dt spine_value option \<Rightarrow> 'dt spine_value \<Rightarrow> unit result"

definition insert_checked ::
    "(string \<Rightarrow> string) \<Rightarrow> 'dt limit_check \<Rightarrow> 'dt param_desc \<Rightarrow> string \<Rightarrow> 'dt spine_value \<Rightarrow>
     'dt spine_value rpm \<Rightarrow> 'dt spine_value rpm result" where
  "insert_checked lc cl d name v params =
     rbind (cl (de_lower d) (de_upper d) v) (\<lambda>_. Inr (insert_value lc name v params))"

definition kvp_values ::
    "(string \<Rightarrow> string) \<Rightarrow> 'dt text_conv \<Rightarrow> (string \<Rightarrow> double result) \<Rightarrow> 'dt param_desc \<Rightarrow> string \<Rightarrow> string \<Rightarrow>
     'dt spine_value list result" where
  "kvp_values lc T dp d name value_str =
     (if pd_is_array (de_def d) then read_values T (de_def d) (split_at (CHR '','') value_str)
      else if lc name = ''maxdistance'' then rbind (dp value_str) (\<lambda>x. Inr [VDouble x])
      else rbind (read_value T (de_def d) value_str) (\<lambda>v. Inr [v]))"

definition insert_kvp_values ::
    "(string \<Rightarrow> string) \<Rightarrow> 'dt text_conv \<Rightarrow> 'dt limit_check \<Rightarrow> (string \<Rightarrow> double result) \<Rightarrow> 'dt param_desc \<Rightarrow>
     string \<Rightarrow> string \<Rightarrow> 'dt spine_value rpm \<Rightarrow> 'dt spine_value rpm result" where
  "insert_kvp_values lc T cl dp d name value_str params =
     rbind (kvp_values lc T dp d name value_str) (\<lambda>vs.
       fold_result (insert_checked lc cl d name) vs params)"

section \<open>Requests in key-value form\<close>

definition kvp_step ::
    "(string \<Rightarrow> string) \<Rightarrow> 'dt text_conv \<Rightarrow> 'dt limit_check \<Rightarrow> (string \<Rightarrow> double result) \<Rightarrow> 'dt config \<Rightarrow>
     string \<times> string \<Rightarrow> 'dt extraction \<Rightarrow> 'dt extraction result" where
  "kvp_step lc T cl dp cfg item ex = (case item of (name, value_str) \<Rightarrow>
     rbind (get_param_desc lc cfg name) (\<lambda>desc.
       if name \<in> set (ex_forbidden ex) then Inl (conflicting_param desc)
       else case desc of
           None \<Rightarrow> Inr (ex\<lparr>ex_skipped := ex_skipped ex @ [name @ ''='' @ [CHR 0x27] @ value_str @ [CHR 0x27]]\<rparr>)
         | Some d \<Rightarrow>
             rbind (check_param_max_occurs (of_nat (count_list (ex_names ex) name + 1)) (de_max_occurs d)) (\<lambda>_.
             rbind (insert_kvp_values lc T cl dp d name value_str (ex_params ex)) (\<lambda>params.
             Inr (ex\<lparr>ex_params := params, ex_forbidden := forbid lc d (ex_forbidden ex),
               ex_names := name # ex_names ex\<rparr>)))))"

definition check_min_occurs :: "'dt config \<Rightarrow> string list \<Rightarrow> unit result" where
  "check_min_occurs cfg names =
     fold_result (\<lambda>(_, d) _. check_param_min_occurs (of_nat (count_list names (de_name d))) (de_min_occurs d))
       (qc_param_map cfg) ()"

definition extract_kvp_parameters ::
    "(string \<Rightarrow> string) \<Rightarrow> 'dt text_conv \<Rightarrow> 'dt limit_check \<Rightarrow> (string \<Rightarrow> double result) \<Rightarrow>
     (string \<times> string) list \<Rightarrow> 'dt config \<Rightarrow> 'dt extraction result" where
  "extract_kvp_parameters lc T cl dp items cfg =
     rbind (fold_result (kvp_step lc T cl dp cfg) items (extraction_new (qc_case_sensitive cfg))) (\<lambda>ex.
     rbind (check_min_occurs cfg (ex_names ex)) (\<lambda>_. Inr ex))"

section \<open>Requests in XML form\<close>

text \<open>
  A \<open>wfs:Parameter\<close> element: its name attribute, its text for the log, and what
  \<open>Xml::ParameterExtractor\<close> extracts from it for an XML type.
\<close>

record 'dt xml_param =
  xp_name :: "string option"
  xp_text :: string
  xp_values :: "string \<Rightarrow> 'dt spine_value list result"

definition xml_step ::
    "(string \<Rightarrow> string) \<Rightarrow> 'dt limit_check \<Rightarrow> 'dt config \<Rightarrow> 'dt xml_param \<Rightarrow> 'dt extraction \<Rightarrow> 'dt extraction result" where
  "xml_step lc cl cfg el ex =
     rbind (case xp_name el of None \<Rightarrow> Inl (Thrown ParsingFailed ''missing attribute'') | Some name \<Rightarrow> Inr name) (\<lambda>name.
     rbind (get_param_desc lc cfg name) (\<lambda>desc.
       case desc of
         None \<Rightarrow> Inr (ex\<lparr>ex_skipped := ex_skipped ex @ [xp_text el]\<rparr>)
       | Some d \<Rightarrow>
           if name \<in> set (ex_forbidden ex) then Inl (Thrown NoCode ''conflicts with'')
           else
             rbind (check_param_max_occurs (of_nat (count_list (ex_names ex) name + 1)) (de_max_occurs d)) (\<lambda>_.
             rbind (xp_values el (de_xml_type d)) (\<lambda>vs.
             rbind (fold_result (insert_checked lc cl d name) vs (ex_params ex)) (\<lambda>params.
             Inr (ex\<lparr>ex_params := params, ex_forbidden := forbid lc d (ex_forbidden ex),
               ex_names := name # ex_names ex\<rparr>))))))"

definition parsing_failed :: "'a result \<Rightarrow> 'a result" where
  "parsing_failed r = (case r of Inl (Thrown NoCode t) \<Rightarrow> Inl (Thrown ParsingFailed t) | _ \<Rightarrow> r)"

definition extract_xml_parameters ::
    "(string \<Rightarrow> string) \<Rightarrow> 'dt limit_check \<Rightarrow> 'dt xml_param list \<Rightarrow> 'dt config \<Rightarrow> 'dt extraction result" where
  "extract_xml_parameters lc cl els cfg =
     parsing_failed
       (rbind (fold_result (xml_step lc cl cfg) els (extraction_new (qc_case_sensitive cfg))) (\<lambda>ex.
        rbind (check_min_occurs cfg (ex_names ex)) (\<lambda>_. Inr ex)))"

section \<open>What has been extracted\<close>

text \<open>
  \<open>accepted lc cl cfg xs ex\<close>: the parameters taken so far are \<open>xs\<close>, in the order of the request
  and with their values.  A count of the C++ code fits its \<open>int\<close> as long as the request has fewer
  than \<open>2 ^ 31\<close> parameters.
\<close>

definition desc_of :: "(string \<Rightarrow> string) \<Rightarrow> 'dt config \<Rightarrow> string \<Rightarrow> 'dt param_desc option" where
  "desc_of lc cfg name = (case get_param_desc lc cfg name of Inr (Some d) \<Rightarrow> Some d | _ \<Rightarrow> None)"

definition conflict_names :: "(string \<Rightarrow> string) \<Rightarrow> 'dt config \<Rightarrow> string \<Rightarrow> string set" where
  "conflict_names lc cfg name = (case desc_of lc cfg name of None \<Rightarrow> {} | Some d \<Rightarrow> lc ` set (de_conflicts d))"

definition within_limits :: "(string \<Rightarrow> string) \<Rightarrow> 'dt limit_check \<Rightarrow> 'dt config \<Rightarrow> string \<times> 'dt spine_value list \<Rightarrow> bool" where
  "within_limits lc cl cfg p \<longleftrightarrow> (\<exists>d. desc_of lc cfg (fst p) = Some d \<and>
     list_all (\<lambda>v. cl (de_lower d) (de_upper d) v = Inr ()) (snd p))"

definition accepted ::
    "(string \<Rightarrow> string) \<Rightarrow> 'dt limit_check \<Rightarrow> 'dt config \<Rightarrow> (string \<times> 'dt spine_value list) list \<Rightarrow> 'dt extraction \<Rightarrow> bool" where
  "accepted lc cl cfg xs ex \<longleftrightarrow>
     rpm_wf lc (ex_params ex) \<and> rpm_case_sensitive (ex_params ex) = qc_case_sensitive cfg \<and>
     ex_names ex = rev (map fst xs) \<and>
     set (ex_forbidden ex) = (\<Union>n \<in> set (map fst xs). conflict_names lc cfg n) \<and>
     list_all (within_limits lc cl cfg) xs \<and>
     (\<forall>k. get_values lc (ex_params ex) k =
        concat (map snd (filter (\<lambda>p. desc_key lc cfg (fst p) = desc_key lc cfg k) xs))) \<and>
     sorted_wrt (\<lambda>p q. fst q \<notin> conflict_names lc cfg (fst p)) xs \<and>
     (length xs < 2 ^ 31 \<longrightarrow> (\<forall>n d. n \<in> set (map fst xs) \<longrightarrow> desc_of lc cfg n = Some d \<longrightarrow>
        int (count_list (map fst xs) n) \<le> sint (de_max_occurs d)))"

lemma accepted_new: "accepted lc cl cfg [] (extraction_new (qc_case_sensitive cfg))"
  by (simp add: accepted_def extraction_new_def rpm_new_values)
     (simp add: rpm_new_def)

lemma sint_count: "n < 2 ^ 31 \<Longrightarrow> sint (of_nat n :: 32 word) = int n"
  by (simp add: signed_of_nat signed_take_bit_int_eq_self)

lemma insert_checked_fold:
  assumes "fold_result (insert_checked lc cl d name) vs m = Inr m'" "rpm_wf lc m"
  shows "rpm_wf lc m' \<and> rpm_case_sensitive m' = rpm_case_sensitive m \<and>
    list_all (\<lambda>v. cl (de_lower d) (de_upper d) v = Inr ()) vs \<and>
    (\<forall>k. get_values lc m' k = get_values lc m k @ (if rpm_key lc m name = rpm_key lc m k then vs else []))"
  using assms
proof (induction vs arbitrary: m)
  case Nil
  then show ?case by simp
next
  case (Cons v vs)
  from Cons.prems(1) have "cl (de_lower d) (de_upper d) v = Inr ()"
    and rest: "fold_result (insert_checked lc cl d name) vs (insert_value lc name v m) = Inr m'"
    by (auto simp: insert_checked_def [of lc cl d name v] result_simps)
  moreover have "rpm_case_sensitive (insert_value lc name v m) = rpm_case_sensitive m"
    "rpm_key lc (insert_value lc name v m) = rpm_key lc m"
    by (simp_all add: insert_value_def)
  ultimately show ?case
    using Cons.IH [OF rest] Cons.prems(2)
    by (simp add: rpm_store.inv_ins rpm_store.lookup_ins)
qed

lemma set_forbid: "set (forbid lc d fs) = set fs \<union> lc ` set (de_conflicts d)"
proof -
  have "set (fold (\<lambda>c. sset_insert (lc c)) cs fs) = set fs \<union> lc ` set cs" for cs
    by (induction cs arbitrary: fs) auto
  then show ?thesis by (simp add: forbid_def)
qed

lemma accept_param:
  assumes acc: "accepted lc cl cfg xs ex" and desc: "desc_of lc cfg name = Some d"
    and free: "name \<notin> set (ex_forbidden ex)"
    and count: "check_param_max_occurs (of_nat (count_list (ex_names ex) name + 1)) (de_max_occurs d) = Inr u"
    and params: "fold_result (insert_checked lc cl d name) vs (ex_params ex) = Inr params"
  shows "accepted lc cl cfg (xs @ [(name, vs)]) (ex\<lparr>ex_params := params,
    ex_forbidden := forbid lc d (ex_forbidden ex), ex_names := name # ex_names ex\<rparr>)"
proof -
  have wf: "rpm_wf lc (ex_params ex)" and cs: "rpm_case_sensitive (ex_params ex) = qc_case_sensitive cfg"
    and names: "ex_names ex = rev (map fst xs)"
    and forb: "set (ex_forbidden ex) = (\<Union>n \<in> set (map fst xs). conflict_names lc cfg n)"
    and lim: "list_all (within_limits lc cl cfg) xs"
    and vals: "\<And>k. get_values lc (ex_params ex) k =
        concat (map snd (filter (\<lambda>p. desc_key lc cfg (fst p) = desc_key lc cfg k) xs))"
    and sorted: "sorted_wrt (\<lambda>p q. fst q \<notin> conflict_names lc cfg (fst p)) xs"
    and max: "length xs < 2 ^ 31 \<longrightarrow> (\<forall>n d. n \<in> set (map fst xs) \<longrightarrow> desc_of lc cfg n = Some d \<longrightarrow>
        int (count_list (map fst xs) n) \<le> sint (de_max_occurs d))"
    using acc unfolding accepted_def by blast+
  note ins = insert_checked_fold [OF params wf]
  have key: "rpm_key lc (ex_params ex) = desc_key lc cfg"
    by (simp add: rpm_key_def desc_key_def cs fun_eq_iff)
  have conf: "conflict_names lc cfg name = lc ` set (de_conflicts d)"
    by (simp add: conflict_names_def desc)
  have new_max: "int (count_list (map fst xs) name + 1) \<le> sint (de_max_occurs d)" if "length xs + 1 < 2 ^ 31"
  proof -
    have "count_list (map fst xs) name \<le> length xs"
      using count_le_length [of "map fst xs" name] by simp
    with that have "sint (of_nat (count_list (map fst xs) name + 1) :: 32 word) = int (count_list (map fst xs) name + 1)"
      by (intro sint_count) simp
    with count show ?thesis
      by (simp add: check_param_max_occurs_def names not_less split: if_splits)
  qed
  have "int (count_list (map fst (xs @ [(name, vs)])) n) \<le> sint (de_max_occurs d')"
    if "length (xs @ [(name, vs)]) < 2 ^ 31" "n \<in> set (map fst (xs @ [(name, vs)]))" "desc_of lc cfg n = Some d'" for n d'
    using that new_max max desc by (cases "n = name") auto
  moreover have "list_all (within_limits lc cl cfg) (xs @ [(name, vs)])"
    using lim ins desc by (simp add: within_limits_def)
  moreover have "sorted_wrt (\<lambda>p q. fst q \<notin> conflict_names lc cfg (fst p)) (xs @ [(name, vs)])"
    using sorted free forb by (auto simp: sorted_wrt_append)
  ultimately show ?thesis
    using ins by (auto simp: accepted_def names cs vals key forb conf set_forbid)
qed

definition known_param :: "(string \<Rightarrow> string) \<Rightarrow> 'dt config \<Rightarrow> string \<Rightarrow> bool" where
  "known_param lc cfg name \<longleftrightarrow> desc_of lc cfg name \<noteq> None"

definition skipped_text :: "string \<times> string \<Rightarrow> string" where
  "skipped_text item = fst item @ ''='' @ [CHR 0x27] @ snd item @ [CHR 0x27]"

definition kvp_item_values ::
    "(string \<Rightarrow> string) \<Rightarrow> 'dt text_conv \<Rightarrow> (string \<Rightarrow> double result) \<Rightarrow> 'dt config \<Rightarrow> string \<times> string \<Rightarrow>
     'dt spine_value list result" where
  "kvp_item_values lc T dp cfg item = (case desc_of lc cfg (fst item) of
       None \<Rightarrow> Inr [] | Some d \<Rightarrow> kvp_values lc T dp d (fst item) (snd item))"

definition takes :: "('i \<Rightarrow> string) \<Rightarrow> ('i \<Rightarrow> 'v list result) \<Rightarrow> 'i \<Rightarrow> string \<times> 'v list \<Rightarrow> bool" where
  "takes name vals item p \<longleftrightarrow> fst p = name item \<and> vals item = Inr (snd p)"

lemma kvp_step_Inr:
  assumes "kvp_step lc T cl dp cfg item ex = Inr ex'"
  shows "fst item \<notin> set (ex_forbidden ex) \<and>
    (case desc_of lc cfg (fst item) of
       None \<Rightarrow> ex' = ex\<lparr>ex_skipped := ex_skipped ex @ [skipped_text item]\<rparr>
     | Some d \<Rightarrow> \<exists>vs params.
         check_param_max_occurs (of_nat (count_list (ex_names ex) (fst item) + 1)) (de_max_occurs d) = Inr () \<and>
         kvp_item_values lc T dp cfg item = Inr vs \<and>
         fold_result (insert_checked lc cl d (fst item)) vs (ex_params ex) = Inr params \<and>
         ex' = ex\<lparr>ex_params := params, ex_forbidden := forbid lc d (ex_forbidden ex), ex_names := fst item # ex_names ex\<rparr>)"
proof -
  obtain name value_str where item: "item = (name, value_str)" by fastforce
  from assms obtain desc where desc: "get_param_desc lc cfg name = Inr desc" and free: "name \<notin> set (ex_forbidden ex)"
    by (auto simp: kvp_step_def item result_simps split: if_splits)
  show ?thesis
  proof (cases desc)
    case None
    with assms desc free show ?thesis
      by (simp add: kvp_step_def item desc_of_def skipped_text_def)
  next
    case (Some d)
    with assms desc free show ?thesis
      by (auto simp: kvp_step_def item desc_of_def kvp_item_values_def insert_kvp_values_def result_simps)
  qed
qed

lemma kvp_loop:
  assumes "fold_result (kvp_step lc T cl dp cfg) items (extraction_new (qc_case_sensitive cfg)) = Inr ex"
  shows "\<exists>xs. accepted lc cl cfg xs ex \<and>
    list_all2 (takes fst (kvp_item_values lc T dp cfg)) (filter (known_param lc cfg \<circ> fst) items) xs \<and>
    ex_skipped ex = map skipped_text (filter (Not \<circ> known_param lc cfg \<circ> fst) items)"
  using assms
proof (induction items arbitrary: ex rule: rev_induct)
  case Nil
  then show ?case
    using accepted_new [of lc cl cfg] by (auto simp: extraction_new_def)
next
  case (snoc item items)
  from snoc.prems obtain ex0 where prev: "fold_result (kvp_step lc T cl dp cfg) items (extraction_new (qc_case_sensitive cfg)) = Inr ex0"
    and step: "kvp_step lc T cl dp cfg item ex0 = Inr ex"
    by (auto simp: fold_result_append result_simps)
  from snoc.IH [OF prev] obtain xs where acc: "accepted lc cl cfg xs ex0"
    and taken: "list_all2 (takes fst (kvp_item_values lc T dp cfg)) (filter (known_param lc cfg \<circ> fst) items) xs"
    and skipped: "ex_skipped ex0 = map skipped_text (filter (Not \<circ> known_param lc cfg \<circ> fst) items)"
    by blast
  note res = kvp_step_Inr [OF step]
  show ?case
  proof (cases "desc_of lc cfg (fst item)")
    case None
    then have "\<not> known_param lc cfg (fst item)" by (simp add: known_param_def)
    with None res acc taken skipped show ?thesis
      by (intro exI [of _ xs]) (simp add: accepted_def comp_def)
  next
    case (Some d)
    then have known: "known_param lc cfg (fst item)" by (simp add: known_param_def)
    with Some res obtain vs params where
      count: "check_param_max_occurs (of_nat (count_list (ex_names ex0) (fst item) + 1)) (de_max_occurs d) = Inr ()"
      and vs: "kvp_item_values lc T dp cfg item = Inr vs"
      and params: "fold_result (insert_checked lc cl d (fst item)) vs (ex_params ex0) = Inr params"
      and ex: "ex = ex0\<lparr>ex_params := params, ex_forbidden := forbid lc d (ex_forbidden ex0), ex_names := fst item # ex_names ex0\<rparr>"
      by auto
    from res have "fst item \<notin> set (ex_forbidden ex0)" by simp
    from accept_param [OF acc Some this count params]
    have "accepted lc cl cfg (xs @ [(fst item, vs)]) ex" by (simp add: ex)
    moreover have "list_all2 (takes fst (kvp_item_values lc T dp cfg))
        (filter (known_param lc cfg \<circ> fst) (items @ [item])) (xs @ [(fst item, vs)])"
      using taken vs known by (simp add: takes_def list_all2_appendI comp_def)
    ultimately show ?thesis
      using skipped known by (intro exI [of _ "xs @ [(fst item, vs)]"]) (simp add: ex comp_def)
  qed
qed

lemma check_min_occurs_iff:
  "check_min_occurs cfg names = Inr u \<longleftrightarrow>
     (\<forall>(k, d) \<in> set (qc_param_map cfg). check_param_min_occurs (of_nat (count_list names (de_name d))) (de_min_occurs d) = Inr ())"
proof -
  have "fold_result (\<lambda>(_, d) _. check_param_min_occurs (of_nat (count_list names (de_name d))) (de_min_occurs d)) m () = Inr u \<longleftrightarrow>
     (\<forall>(k, d) \<in> set m. check_param_min_occurs (of_nat (count_list names (de_name d))) (de_min_occurs d) = Inr ())"
    for m :: "(string \<times> 'a param_desc) list"
    by (induction m) (auto simp: result_simps)
  then show ?thesis by (simp add: check_min_occurs_def)
qed

lemma takes_names: "list_all2 (takes name vals) items xs \<Longrightarrow> map fst xs = map name items"
  by (induction items xs rule: list_all2_induct) (auto simp: takes_def)

lemma min_occurs_bound:
  assumes "check_min_occurs cfg names = Inr u" "length names < 2 ^ 31" "(k, d) \<in> set (qc_param_map cfg)"
  shows "sint (de_min_occurs d) \<le> int (count_list names (de_name d))"
proof -
  have "count_list names (de_name d) < 2 ^ 31"
    using count_le_length [of names "de_name d"] assms(2) by linarith
  then have "sint (of_nat (count_list names (de_name d)) :: 32 word) = int (count_list names (de_name d))"
    by (rule sint_count)
  with assms(1,3) show ?thesis
    by (force simp: check_min_occurs_iff check_param_min_occurs_def not_less split: if_splits)
qed

lemma desc_of_known:
  "config_wf lc cfg \<Longrightarrow> map_of (qc_param_map cfg) n = Some d \<Longrightarrow> desc_key lc cfg n = desc_key lc cfg name \<Longrightarrow>
   desc_of lc cfg name = Some d"
  by (simp add: desc_of_def get_param_desc_wf(1))

lemma desc_of_unknown:
  "config_wf lc cfg \<Longrightarrow> (\<And>n. n \<in> set (map fst (qc_param_map cfg)) \<Longrightarrow> desc_key lc cfg n \<noteq> desc_key lc cfg name) \<Longrightarrow>
   desc_of lc cfg name = None"
  using get_param_desc_wf(2) [of lc cfg name] by (simp add: desc_of_def)

lemma sorted_wrt_pair:
  "sorted_wrt P xs \<Longrightarrow> p \<in> set xs \<Longrightarrow> q \<in> set xs \<Longrightarrow> p \<noteq> q \<Longrightarrow> P p q \<or> P q p"
  by (induction xs) auto

section \<open>The two request forms\<close>

definition same_param ::
    "(string \<Rightarrow> string) \<Rightarrow> 'dt text_conv \<Rightarrow> (string \<Rightarrow> double result) \<Rightarrow> 'dt config \<Rightarrow> 'dt xml_param \<Rightarrow>
     string \<times> string \<Rightarrow> bool" where
  "same_param lc T dp cfg el item \<longleftrightarrow> xp_name el = Some (fst item) \<and>
     (\<forall>d. desc_of lc cfg (fst item) = Some d \<longrightarrow>
        xp_values el (de_xml_type d) = kvp_values lc T dp d (fst item) (snd item))"

lemma xml_step_simulates:
  assumes "kvp_step lc T cl dp cfg item ex = Inr ex1" "same_param lc T dp cfg el item"
  shows "\<exists>sk'. xml_step lc cl cfg el (ex\<lparr>ex_skipped := sk\<rparr>) = Inr (ex1\<lparr>ex_skipped := sk'\<rparr>)"
proof -
  note res = kvp_step_Inr [OF assms(1)]
  from assms(1) obtain desc where desc: "get_param_desc lc cfg (fst item) = Inr desc"
    by (cases item) (auto simp: kvp_step_def result_simps)
  show ?thesis
  proof (cases desc)
    case None
    with desc res assms(2) show ?thesis
      by (auto simp: xml_step_def same_param_def desc_of_def)
  next
    case (Some d)
    have swap: "ex\<lparr>ex_skipped := sk, ex_params := p, ex_forbidden := f, ex_names := n\<rparr> =
        ex\<lparr>ex_params := p, ex_forbidden := f, ex_names := n, ex_skipped := sk\<rparr>" for p f n
      by (cases ex) simp
    from Some desc have "desc_of lc cfg (fst item) = Some d" by (simp add: desc_of_def)
    with desc Some res assms(2) show ?thesis
      by (intro exI [of _ sk]) (auto simp: xml_step_def same_param_def kvp_item_values_def swap)
  qed
qed

lemma xml_loop_simulates:
  assumes "list_all2 (same_param lc T dp cfg) els items" "fold_result (kvp_step lc T cl dp cfg) items ex = Inr ex1"
  shows "\<exists>sk'. fold_result (xml_step lc cl cfg) els (ex\<lparr>ex_skipped := sk\<rparr>) = Inr (ex1\<lparr>ex_skipped := sk'\<rparr>)"
  using assms
proof (induction els items arbitrary: ex sk rule: list_all2_induct)
  case Nil
  then show ?case by auto
next
  case (Cons el els item items)
  from Cons.prems obtain ex0 where step: "kvp_step lc T cl dp cfg item ex = Inr ex0"
    and rest: "fold_result (kvp_step lc T cl dp cfg) items ex0 = Inr ex1"
    by (auto simp: result_simps)
  obtain sk0 where "xml_step lc cl cfg el (ex\<lparr>ex_skipped := sk\<rparr>) = Inr (ex0\<lparr>ex_skipped := sk0\<rparr>)"
    using xml_step_simulates [OF step Cons.hyps(1)] by blast
  then show ?case
    using Cons.IH [OF rest] by simp
qed

section \<open>Properties\<close>

text \<open>
  C5.  An accepted key-value request yields for every known parameter the values its text stands
  for, in the order of the request and within the limits of its description, collected under the
  names that agree up to the case policy; the other parameters of the request are only logged.
\<close>

theorem kvp_extraction:
  assumes "extract_kvp_parameters lc T cl dp items cfg = Inr ex"
  shows "\<exists>xs. list_all2 (takes fst (kvp_item_values lc T dp cfg)) (filter (known_param lc cfg \<circ> fst) items) xs \<and>
    list_all (within_limits lc cl cfg) xs \<and>
    (\<forall>k. get_values lc (ex_params ex) k =
       concat (map snd (filter (\<lambda>p. desc_key lc cfg (fst p) = desc_key lc cfg k) xs))) \<and>
    ex_skipped ex = map skipped_text (filter (Not \<circ> known_param lc cfg \<circ> fst) items)"
proof -
  from assms have "fold_result (kvp_step lc T cl dp cfg) items (extraction_new (qc_case_sensitive cfg)) = Inr ex"
    by (auto simp: extract_kvp_parameters_def result_simps)
  then show ?thesis
    using kvp_loop [of lc T cl dp cfg items ex] unfolding accepted_def by blast
qed

definition demo_text :: "'dt text_conv" where
  "demo_text = \<lparr>tc_stod = (\<lambda>_. Inr 0), tc_stoi = (\<lambda>_. Inr 0), tc_stoul = (\<lambda>_. Inr 0), tc_ptime = (\<lambda>_. Inl (Thrown NoCode ''no time'')),
     tc_bool = (\<lambda>_. Inr False), tc_point = (\<lambda>_. Inr (0, 0, '''')), tc_bbox = (\<lambda>_. Inr (0, 0, 0, 0, ''''))\<rparr>"

definition demo_items :: "(string \<times> string) list" where
  "demo_items = [(''B'', ''1''), (''b'', ''2''), (''z'', ''3'')]"

lemma demo_extraction:
  obtains cfg where "parse_config ascii_lower demo_conv False (demo_config ''a'' ''b'') = Inr cfg"
    "desc_of ascii_lower cfg ''B'' = Some (demo_param ''b'' [''a''])"
    "desc_of ascii_lower cfg ''b'' = Some (demo_param ''b'' [''a''])" "desc_of ascii_lower cfg ''z'' = None"
    "isOK (extract_kvp_parameters ascii_lower demo_text (\<lambda>_ _ _. Inr ()) (\<lambda>_. Inr 0) demo_items cfg)"
proof -
  obtain cfg where cfg: "parse_config ascii_lower demo_conv False (demo_config ''a'' ''b'') = Inr cfg"
    and m: "qc_param_map cfg = [(''a'', demo_param ''a'' [''b'']), (''b'', demo_param ''b'' [''a''])]"
    using demo_config_parsed by blast
  have cs: "\<not> qc_case_sensitive cfg"
    using parse_config_Inr [OF cfg] by (metis (no_types) config.select_convs(1) config.surjective config.update_convs(14))
  have lower: "ascii_lower ''a'' = ''a''" "ascii_lower ''b'' = ''b''" "ascii_lower ''B'' = ''b''" "ascii_lower ''z'' = ''z''"
    by code_simp+
  note wf = parse_config_wf [OF cfg]
  have b: "get_param_desc ascii_lower cfg n = Inr (Some (demo_param ''b'' [''a'']))" if "ascii_lower n = ''b''" for n
    using get_param_desc_wf(1) [OF wf, of "''b''" "demo_param ''b'' [''a'']" n] that cs
    by (simp add: m desc_key_def lower)
  have z: "get_param_desc ascii_lower cfg ''z'' = Inr None"
  proof (rule get_param_desc_wf(2) [OF wf])
    fix n assume "n \<in> set (map fst (qc_param_map cfg))"
    then have "n = ''a'' \<or> n = ''b''" by (simp add: m)
    with cs show "desc_key ascii_lower cfg n \<noteq> desc_key ascii_lower cfg ''z''"
      by (auto simp: desc_key_def lower)
  qed
  have "isOK (extract_kvp_parameters ascii_lower demo_text (\<lambda>_ _ _. Inr ()) (\<lambda>_. Inr 0) demo_items cfg)"
    by (simp add: extract_kvp_parameters_def demo_items_def kvp_step_def b z lower extraction_new_def
        check_param_max_occurs_def demo_param_def insert_kvp_values_def kvp_values_def string_def_def
        read_value_def read_value_raw_def insert_checked_def forbid_def sset_insert_def check_min_occurs_def
        check_param_min_occurs_def m)
  moreover have "desc_of ascii_lower cfg ''B'' = Some (demo_param ''b'' [''a''])"
    "desc_of ascii_lower cfg ''b'' = Some (demo_param ''b'' [''a''])" "desc_of ascii_lower cfg ''z'' = None"
    by (simp_all add: desc_of_def b z lower)
  ultimately show ?thesis using that cfg by blast
qed

lemma kvp_extraction_witness:
  "\<exists>(cfg :: unit config) ex. extract_kvp_parameters ascii_lower demo_text (\<lambda>_ _ _. Inr ()) (\<lambda>_. Inr 0) demo_items cfg = Inr ex \<and>
     ex_skipped ex = [skipped_text (''z'', ''3'')]"
proof -
  obtain cfg where ok: "isOK (extract_kvp_parameters ascii_lower demo_text (\<lambda>_ _ _. Inr ()) (\<lambda>_. Inr 0) demo_items cfg)"
    and desc: "desc_of ascii_lower cfg ''B'' = Some (demo_param ''b'' [''a''])"
      "desc_of ascii_lower cfg ''b'' = Some (demo_param ''b'' [''a''])" "desc_of ascii_lower cfg ''z'' = None"
    using demo_extraction by metis
  then obtain ex where ex: "extract_kvp_parameters ascii_lower demo_text (\<lambda>_ _ _. Inr ()) (\<lambda>_. Inr 0) demo_items cfg = Inr ex"
    by (auto simp: isOK_iff)
  from kvp_extraction [OF ex] have "ex_skipped ex = [skipped_text (''z'', ''3'')]"
    by (auto simp: demo_items_def known_param_def desc)
  with ex show ?thesis by blast
qed

text \<open>
  In an accepted request with fewer than \<open>2 ^ 31\<close> parameters no spelling of a known parameter
  occurs more often than its description allows, and every description has its minimal number of
  occurrences under exactly the configured spelling of the name.
\<close>

theorem occurrence_bounds:
  assumes "extract_kvp_parameters lc T cl dp items cfg = Inr ex" and "length items < 2 ^ 31"
  shows "(\<forall>n d. n \<in> set (map fst items) \<longrightarrow> desc_of lc cfg n = Some d \<longrightarrow>
      int (count_list (map fst items) n) \<le> sint (de_max_occurs d)) \<and>
    (\<forall>(k, d) \<in> set (qc_param_map cfg). known_param lc cfg (de_name d) \<longrightarrow>
      sint (de_min_occurs d) \<le> int (count_list (map fst items) (de_name d)))"
proof -
  let ?known = "filter (known_param lc cfg \<circ> fst) items"
  from assms(1) have loop: "fold_result (kvp_step lc T cl dp cfg) items (extraction_new (qc_case_sensitive cfg)) = Inr ex"
    and min: "check_min_occurs cfg (ex_names ex) = Inr ()"
    by (auto simp: extract_kvp_parameters_def result_simps)
  from kvp_loop [OF loop] obtain xs where acc: "accepted lc cl cfg xs ex"
    and taken: "list_all2 (takes fst (kvp_item_values lc T dp cfg)) ?known xs" by blast
  have names: "map fst xs = map fst ?known"
    using taken by (rule takes_names)
  have len: "length xs < 2 ^ 31"
    using list_all2_lengthD [OF taken] length_filter_le [of "known_param lc cfg \<circ> fst" items] assms(2) by linarith
  have count: "count_list (map fst xs) n = count_list (map fst items) n" if "known_param lc cfg n" for n
  proof -
    have "count_list (map fst (filter (known_param lc cfg \<circ> fst) ys)) n = count_list (map fst ys) n"
      for ys :: "(string \<times> string) list"
      using that by (induction ys) auto
    then show ?thesis by (simp add: names)
  qed
  have max: "\<And>n d. n \<in> set (map fst xs) \<Longrightarrow> desc_of lc cfg n = Some d \<Longrightarrow>
      int (count_list (map fst xs) n) \<le> sint (de_max_occurs d)"
    and ex_names: "ex_names ex = rev (map fst xs)"
    using acc len unfolding accepted_def by blast+
  have "int (count_list (map fst items) n) \<le> sint (de_max_occurs d)"
    if "n \<in> set (map fst items)" "desc_of lc cfg n = Some d" for n d
  proof -
    have known: "known_param lc cfg n" using that(2) by (simp add: known_param_def)
    with that(1) have "n \<in> set (map fst xs)" by (auto simp: names)
    with max [OF this that(2)] count [OF known] show ?thesis by simp
  qed
  moreover have "sint (de_min_occurs d) \<le> int (count_list (map fst items) (de_name d))"
    if "(k, d) \<in> set (qc_param_map cfg)" "known_param lc cfg (de_name d)" for k d
    using min_occurs_bound [OF min _ that(1)] count [OF that(2)] len
    by (simp add: ex_names)
  ultimately show ?thesis by blast
qed

lemma occurrence_bounds_witness:
  "\<exists>(cfg :: unit config) d. desc_of ascii_lower cfg ''B'' = Some d \<and>
     int (count_list (map fst demo_items) ''B'') \<le> sint (de_max_occurs d)"
proof -
  obtain cfg where ok: "isOK (extract_kvp_parameters ascii_lower demo_text (\<lambda>_ _ _. Inr ()) (\<lambda>_. Inr 0) demo_items cfg)"
    and desc: "desc_of ascii_lower cfg ''B'' = Some (demo_param ''b'' [''a''])"
    using demo_extraction by metis
  then obtain ex where ex: "extract_kvp_parameters ascii_lower demo_text (\<lambda>_ _ _. Inr ()) (\<lambda>_. Inr 0) demo_items cfg = Inr ex"
    by (auto simp: isOK_iff)
  have "length demo_items < 2 ^ 31" "''B'' \<in> set (map fst demo_items)"
    by (simp_all add: demo_items_def)
  with occurrence_bounds [OF ex] desc show ?thesis by blast
qed



text \<open>
  The conflict test compares the name as the request spells it with lower case names: a
  request that gives one of two conflicting parameters in another spelling is accepted although
  both parameters are taken.
\<close>

theorem conflict_missed_in_other_case:
  "\<exists>cfg ex. parse_config ascii_lower demo_conv False (demo_config ''a'' ''b'') = Inr cfg \<and>
     conflicts_with ascii_lower (qc_param_map cfg) ''a'' ''b'' \<and>
     extract_kvp_parameters ascii_lower demo_text (\<lambda>_ _ _. Inr ()) (\<lambda>_. Inr 0) [(''A'', ''2''), (''B'', ''1'')] cfg = Inr ex \<and>
     get_values ascii_lower (ex_params ex) ''a'' = [VString ''2''] \<and>
     get_values ascii_lower (ex_params ex) ''b'' = [VString ''1'']"
proof -
  obtain cfg where cfg: "parse_config ascii_lower demo_conv False (demo_config ''a'' ''b'') = Inr cfg"
    and m: "qc_param_map cfg = [(''a'', demo_param ''a'' [''b'']), (''b'', demo_param ''b'' [''a''])]"
    using demo_config_parsed by blast
  have cs: "\<not> qc_case_sensitive cfg"
    using parse_config_Inr [OF cfg] by (metis (no_types) config.select_convs(1) config.surjective config.update_convs(14))
  have lower: "ascii_lower ''a'' = ''a''" "ascii_lower ''b'' = ''b''" "ascii_lower ''A'' = ''a''" "ascii_lower ''B'' = ''b''"
    by code_simp+
  have desc: "get_param_desc ascii_lower cfg ''A'' = Inr (Some (demo_param ''a'' [''b'']))"
    "get_param_desc ascii_lower cfg ''B'' = Inr (Some (demo_param ''b'' [''a'']))"
    using cs get_param_desc_wf(1) [OF parse_config_wf [OF cfg], of "''a''" "demo_param ''a'' [''b'']" "''A''"]
      get_param_desc_wf(1) [OF parse_config_wf [OF cfg], of "''b''" "demo_param ''b'' [''a'']" "''B''"]
    by (simp_all add: m desc_key_def lower)
  have less: "\<not> ''b'' < ''a''" "''a'' < ''b''" by code_simp+
  have "conflicts_with ascii_lower (qc_param_map cfg) ''a'' ''b''"
    by (simp add: m conflicts_with_def conf_def demo_param_def lower)
  moreover have "\<exists>ex. extract_kvp_parameters ascii_lower demo_text (\<lambda>_ _ _. Inr ()) (\<lambda>_. Inr 0)
      [(''A'', ''2''), (''B'', ''1'')] cfg = Inr ex \<and>
      get_values ascii_lower (ex_params ex) ''a'' = [VString ''2''] \<and> get_values ascii_lower (ex_params ex) ''b'' = [VString ''1'']"
    by (simp add: extract_kvp_parameters_def kvp_step_def desc lower extraction_new_def cs less
        check_param_max_occurs_def demo_param_def insert_kvp_values_def kvp_values_def string_def_def
        read_value_def read_value_raw_def insert_checked_def forbid_def sset_insert_def check_min_occurs_def
        check_param_min_occurs_def m rpm_new_def insert_value_def rpm_key_def get_values_def mm_values_def)
  ultimately show ?thesis using cfg by blast
qed

lemma mixed_config_parsed:
  "\<exists>cfg. parse_config ascii_lower demo_conv True (demo_config ''a'' ''bX'') = Inr cfg \<and>
     qc_param_map cfg = [(''a'', demo_param ''a'' [''bX'']), (''bX'', demo_param ''bX'' [''a''])] \<and>
     qc_case_sensitive cfg"
proof -
  have type: "parse_type ''string'' = Inr string_def"
    using parse_dump [of string_def param_def_new]
    by (simp add: parse_type_def param_def_wf_def param_def_dump_def dump_type_def string_def_def)
  have lower: "ascii_lower ''a'' = ''a''"
    by code_simp
  have less: "\<not> (''bX'' < ''a'')"
    by code_simp
  show ?thesis
    by (simp add: parse_config_def read_config_entries_def demo_config_def mandatory_def check_formats_def
        or_default_def add_param_desc_def parse_param_desc_def demo_desc_def type opt_limit_def
        add_case_name_def sm_emplace_def config_new_def lower less resolve_conflicts_def
        check_param_conflicts_def conflict_param_def conflict_visit_def sm_update_def Let_def
        sset_insert_def demo_param_def)
qed

text \<open>
  With case sensitive names a parameter whose name has an upper case letter forbids its lower
  case form, which need not have a description; a request with that name then dereferences the
  null pointer while the message is put together.
\<close>

theorem null_description_reached:
  "\<exists>cfg. parse_config ascii_lower demo_conv True (demo_config ''a'' ''bX'') = Inr cfg \<and>
     extract_kvp_parameters ascii_lower demo_text (\<lambda>_ _ _. Inr ()) (\<lambda>_. Inr 0) [(''a'', ''1''), (''bx'', ''2'')] cfg =
       Inl (Undefined ''null parameter description'')"
proof -
  obtain cfg where cfg: "parse_config ascii_lower demo_conv True (demo_config ''a'' ''bX'') = Inr cfg"
    and m: "qc_param_map cfg = [(''a'', demo_param ''a'' [''bX'']), (''bX'', demo_param ''bX'' [''a''])]"
    and cs: "qc_case_sensitive cfg"
    using mixed_config_parsed by blast
  have lower: "ascii_lower ''a'' = ''a''" "ascii_lower ''bX'' = ''bx''"
    by code_simp+
  have "qc_case_map cfg = []"
    using parse_config_wf [OF cfg] cs by (simp add: config_wf_def)
  then have desc: "get_param_desc ascii_lower cfg ''a'' = Inr (Some (demo_param ''a'' [''bX'']))"
    "get_param_desc ascii_lower cfg ''bx'' = Inr None"
    by (simp_all add: get_param_desc_def m)
  have "extract_kvp_parameters ascii_lower demo_text (\<lambda>_ _ _. Inr ()) (\<lambda>_. Inr 0) [(''a'', ''1''), (''bx'', ''2'')] cfg =
       Inl (Undefined ''null parameter description'')"
    by (simp add: extract_kvp_parameters_def kvp_step_def desc lower extraction_new_def
        check_param_max_occurs_def demo_param_def insert_kvp_values_def kvp_values_def string_def_def
        read_value_def read_value_raw_def insert_checked_def forbid_def sset_insert_def conflicting_param_def)
  with cfg show ?thesis by blast
qed

text \<open>
  Whenever a key-value request is accepted, the XML request with the same parameters and
  values is accepted too and gives the handler the same parameters.
\<close>

theorem xml_like_kvp:
  assumes "list_all2 (same_param lc T dp cfg) els items"
    and "extract_kvp_parameters lc T cl dp items cfg = Inr ex"
  shows "\<exists>ex'. extract_xml_parameters lc cl els cfg = Inr ex' \<and> ex_params ex' = ex_params ex \<and>
    ex_names ex' = ex_names ex"
proof -
  let ?new = "extraction_new (qc_case_sensitive cfg)"
  from assms(2) have loop: "fold_result (kvp_step lc T cl dp cfg) items ?new = Inr ex"
    and min: "check_min_occurs cfg (ex_names ex) = Inr ()"
    by (auto simp: extract_kvp_parameters_def result_simps)
  have "?new\<lparr>ex_skipped := []\<rparr> = ?new"
    by (simp add: extraction_new_def)
  then obtain sk where "fold_result (xml_step lc cl cfg) els ?new = Inr (ex\<lparr>ex_skipped := sk\<rparr>)"
    using xml_loop_simulates [OF assms(1) loop, of "[]"] by metis
  with min show ?thesis
    by (simp add: extract_xml_parameters_def parsing_failed_def)
qed

lemma xml_like_kvp_witness:
  "\<exists>(cfg :: unit config) ex'. extract_xml_parameters ascii_lower (\<lambda>_ _ _. Inr ())
      [\<lparr>xp_name = Some ''B'', xp_text = '''', xp_values = \<lambda>_. Inr [VString ''1'']\<rparr>,
       \<lparr>xp_name = Some ''b'', xp_text = '''', xp_values = \<lambda>_. Inr [VString ''2'']\<rparr>,
       \<lparr>xp_name = Some ''z'', xp_text = ''z'', xp_values = \<lambda>_. Inr []\<rparr>] cfg = Inr ex'"
proof -
  obtain cfg where ok: "isOK (extract_kvp_parameters ascii_lower demo_text (\<lambda>_ _ _. Inr ()) (\<lambda>_. Inr 0) demo_items cfg)"
    and desc: "desc_of ascii_lower cfg ''B'' = Some (demo_param ''b'' [''a''])"
      "desc_of ascii_lower cfg ''b'' = Some (demo_param ''b'' [''a''])" "desc_of ascii_lower cfg ''z'' = None"
    using demo_extraction by metis
  then obtain ex where ex: "extract_kvp_parameters ascii_lower demo_text (\<lambda>_ _ _. Inr ()) (\<lambda>_. Inr 0) demo_items cfg = Inr ex"
    by (auto simp: isOK_iff)
  have lower: "ascii_lower ''B'' = ''b''" "ascii_lower ''b'' = ''b''" by code_simp+
  have "list_all2 (same_param ascii_lower demo_text (\<lambda>_. Inr 0) cfg)
      [\<lparr>xp_name = Some ''B'', xp_text = '''', xp_values = \<lambda>_. Inr [VString ''1'']\<rparr>,
       \<lparr>xp_name = Some ''b'', xp_text = '''', xp_values = \<lambda>_. Inr [VString ''2'']\<rparr>,
       \<lparr>xp_name = Some ''z'', xp_text = ''z'', xp_values = \<lambda>_. Inr []\<rparr>] demo_items"
    by (simp add: same_param_def demo_items_def desc demo_param_def string_def_def kvp_values_def
        read_value_def read_value_raw_def lower)
  from xml_like_kvp [OF this ex] show ?thesis by blast
qed

end
