(* ===== verification/StoredQueries.thy ===== *)
theory StoredQueries
  imports FeatureId QueryExtract
begin

text \<open>
  Stored query objects (\<open>libwfs/StoredQuery.cpp\<close>): from a request or a feature identifier to the
  handler, its parameters and the key of the response cache.  The query holds its handler; the
  handler is found in a directory, which the properties instantiate with the stored query map.
\<close>

section \<open>The query\<close>

record 'dt stored_query =
  sq_id :: string
  sq_cache_key :: string
  sq_language :: string
  sq_params :: "'dt spine_value rpm"
  sq_orig_params :: "'dt spine_value rpm"
  sq_skipped :: "string list"
  sq_handler :: "'dt handler"
  sq_debug :: bool
  sq_stale :: "32 word"

text \<open>What the identifiers of the program are made with.\<close>

record 'dt id_ops =
  io_dt :: "'dt dt_ops"
  io_sha :: "byte list \<Rightarrow> byte list"
  io_encode :: "byte list \<Rightarrow> string"
  io_decode :: "string \<Rightarrow> byte list"

definition make_id :: "'dt id_ops \<Rightarrow> 'dt feature_id \<Rightarrow> string result" where
  "make_id K f = get_id (io_dt K) (io_sha K) (io_encode K) f"

definition read_id :: "'dt id_ops \<Rightarrow> string \<Rightarrow> 'dt feature_id result" where
  "read_id K s = create_from_id (io_dt K) (io_sha K) (io_decode K) s"

definition iequals :: "(string \<Rightarrow> string) \<Rightarrow> string \<Rightarrow> string \<Rightarrow> bool" where
  "iequals lc a b \<longleftrightarrow> lc a = lc b"

text \<open>\<open>get_kvp_stored_query_id\<close>, given the look up of request parameters.\<close>

definition get_kvp_stored_query_id :: "(string \<Rightarrow> string) \<Rightarrow> (string \<Rightarrow> string option) \<Rightarrow> string option" where
  "get_kvp_stored_query_id lc req = (case req ''request'' of
       None \<Rightarrow> None
     | Some r \<Rightarrow>
         if \<not> iequals lc r ''getFeature'' \<and> \<not> iequals lc r ''getPropertyValue'' then None
         else req ''storedquery_id'')"

text \<open>\<open>get_xml_stored_query_id\<close>: namespace, name and id attribute of the root element.\<close>

definition WFS_NAMESPACE_URI :: string where
  "WFS_NAMESPACE_URI = ''http://www.opengis.net/wfs/2.0''"

definition get_xml_stored_query_id :: "string \<Rightarrow> string \<Rightarrow> string option \<Rightarrow> string option result" where
  "get_xml_stored_query_id ns name id_attr =
     (if ns = WFS_NAMESPACE_URI \<and> name = ''StoredQuery''
      then (case id_attr of
          None \<Rightarrow> Inl (Thrown ParsingFailed ''missing attribute id'')
        | Some qid \<Rightarrow> Inr (Some qid))
      else Inr None)"

section \<open>The cache key\<close>

definition cache_id ::
    "string \<Rightarrow> 'dt value_map \<Rightarrow> string \<Rightarrow> string \<Rightarrow> bool \<Rightarrow> string \<Rightarrow> 'dt feature_id" where
  "cache_id query_id params source language debug qualifier =
     (let f = fid_new query_id params;
          f = add_param ''source'' (VString source) f;
          f = add_param ''language'' (VString language) f;
          f = (if debug then add_param ''debugFormat'' (VInt 1) f else f)
      in if qualifier \<noteq> [] then add_param ''cacheKeyQualifier'' (VString qualifier) f else f)"

definition finish_query ::
    "'dt id_ops \<Rightarrow> string \<Rightarrow> string \<Rightarrow> string \<Rightarrow> bool \<Rightarrow> 'dt handler \<Rightarrow> 'dt spine_value rpm \<Rightarrow> 'dt spine_value rpm \<Rightarrow>
     string list \<Rightarrow> 'dt stored_query result" where
  "finish_query K source query_id language debug h orig params skipped =
     rbind (hd_qualifier h params) (\<lambda>qualifier.
     rbind (make_id K (cache_id query_id (get_map True params) source language debug qualifier)) (\<lambda>key.
     Inr \<lparr>sq_id = query_id, sq_cache_key = key, sq_language = language, sq_params = params,
       sq_orig_params = orig, sq_skipped = skipped, sq_handler = h, sq_debug = debug,
       sq_stale = qc_expires (hd_config h)\<rparr>))"

section \<open>Redirection\<close>

text \<open>
  One round of the loop of \<open>create_from_kvp\<close> and \<open>create_from_xml\<close>: the handler, the parameters
  of the request as it takes them, and the query it redirects to.
\<close>

definition query_round ::
    "(string \<Rightarrow> 'dt handler result) \<Rightarrow> ('dt config \<Rightarrow> 'dt extraction result) \<Rightarrow> string \<Rightarrow>
     (('dt handler \<times> 'dt extraction \<times> 'dt spine_value rpm) \<times> string option) result" where
  "query_round find_h extract query_id =
     rbind (find_h query_id) (\<lambda>h.
     rbind (extract (hd_config h)) (\<lambda>ex.
     rbind (hd_process h query_id (ex_params ex)) (\<lambda>params.
     rbind (hd_redirect h params) (\<lambda>redirect.
     Inr ((h, ex, params), redirect)))))"

partial_function (option) redirect_loop ::
    "(string \<Rightarrow> 'dt handler result) \<Rightarrow> ('dt config \<Rightarrow> 'dt extraction result) \<Rightarrow> string \<Rightarrow> string list \<Rightarrow>
     (string \<times> 'dt handler \<times> 'dt extraction \<times> 'dt spine_value rpm) result option" where
  "redirect_loop find_h extract query_id visited =
     (case query_round find_h extract query_id of
        Inl e \<Rightarrow> Some (Inl e)
      | Inr (q, redirect) \<Rightarrow> (case redirect of
            None \<Rightarrow> Some (Inr (query_id, q))
          | Some new_id \<Rightarrow>
              if new_id \<notin> set visited \<and> new_id \<noteq> []
              then redirect_loop find_h extract new_id (new_id # visited)
              else Some (Inl (Thrown NoCode ''invalid stored query redirect''))))"

definition create_query ::
    "'dt id_ops \<Rightarrow> (string \<Rightarrow> 'dt handler result) \<Rightarrow> ('dt config \<Rightarrow> 'dt extraction result) \<Rightarrow> string \<Rightarrow> string \<Rightarrow> bool \<Rightarrow>
     string option \<Rightarrow> 'dt stored_query result option" where
  "create_query K find_h extract source language debug id_opt = (case id_opt of
       None \<Rightarrow> Some (Inl (Thrown ParsingFailed ''Failed to extract stored query ID''))
     | Some query_id \<Rightarrow>
         map_option (\<lambda>r. rbind r (\<lambda>(qid, h, ex, params).
             finish_query K source qid language debug h (ex_params ex) params (ex_skipped ex)))
           (redirect_loop find_h extract query_id [query_id]))"

definition create_from_kvp ::
    "(string \<Rightarrow> string) \<Rightarrow> 'dt text_conv \<Rightarrow> 'dt limit_check \<Rightarrow> (string \<Rightarrow> double result) \<Rightarrow> 'dt id_ops \<Rightarrow>
     (string \<Rightarrow> 'dt handler result) \<Rightarrow> string \<Rightarrow> string \<Rightarrow> string \<Rightarrow> (string \<Rightarrow> string option) \<Rightarrow> (string \<times> string) list \<Rightarrow>
     'dt stored_query result option" where
  "create_from_kvp lc T cl dp K find_h source language output_format req items =
     create_query K find_h (extract_kvp_parameters lc T cl dp items) source language (output_format = ''debug'')
       (get_kvp_stored_query_id lc req)"

definition create_from_xml ::
    "(string \<Rightarrow> string) \<Rightarrow> 'dt limit_check \<Rightarrow> 'dt id_ops \<Rightarrow> (string \<Rightarrow> 'dt handler result) \<Rightarrow> string \<Rightarrow> string \<Rightarrow> string \<Rightarrow>
     string \<times> string \<times> string option \<Rightarrow> 'dt xml_param list \<Rightarrow> 'dt stored_query result option" where
  "create_from_xml lc cl K find_h source language output_format root els = (case root of (ns, name, id_attr) \<Rightarrow>
     (case get_xml_stored_query_id ns name id_attr of
        Inl e \<Rightarrow> Some (Inl e)
      | Inr id_opt \<Rightarrow>
          create_query K find_h (extract_xml_parameters lc cl els) source language (output_format = ''debug'') id_opt))"

definition create_from_feature_id ::
    "(string \<Rightarrow> string) \<Rightarrow> bool \<Rightarrow> 'dt id_ops \<Rightarrow> (string \<Rightarrow> 'dt handler result) \<Rightarrow> string \<Rightarrow> string \<Rightarrow> 'dt stored_query \<Rightarrow>
     'dt stored_query result" where
  "create_from_feature_id lc cs K find_h source feature_id orig_query =
     rbind (read_id K feature_id) (\<lambda>f.
       let params = rpm_of_map lc cs (fid_params f)
       in rbind (find_h (fid_query f)) (\<lambda>h.
          finish_query K source (fid_query f) (sq_language orig_query) (sq_debug orig_query) h params params []))"

definition get_param_values :: "(string \<Rightarrow> string) \<Rightarrow> 'dt stored_query \<Rightarrow> string \<Rightarrow> 'dt spine_value list" where
  "get_param_values lc q name = get_values lc (sq_params q) name"

section \<open>Redirection ends\<close>

context handler_directory begin

lemma redirect_terminates:
  assumes spellings: "\<And>k. finite {n. lc n = k}"
    and "query_id \<in> set visited"
  shows "\<exists>r. redirect_loop (find_handler s) extract query_id visited = Some r"
  using assms(2)
proof (induction "card ({n. isOK (find_handler s n)} - set visited)" arbitrary: query_id visited rule: less_induct)
  case less
  let ?known = "{n. isOK (find_handler s n)}"
  show ?case
  proof (cases "query_round (find_handler s) extract query_id")
    case (Inl e)
    then show ?thesis by (subst redirect_loop.simps) simp
  next
    case (Inr r)
    then obtain q redirect where r: "query_round (find_handler s) extract query_id = Inr (q, redirect)"
      by (cases r) auto
    show ?thesis
    proof (cases redirect)
      case None
      with r show ?thesis by (subst redirect_loop.simps) simp
    next
      case (Some new_id)
      show ?thesis
      proof (cases "new_id \<notin> set visited \<and> new_id \<noteq> []")
        case False
        with r Some show ?thesis by (subst redirect_loop.simps) auto
      next
        case True
        have "\<exists>r. redirect_loop (find_handler s) extract new_id (new_id # visited) = Some r"
        proof (cases "isOK (find_handler s new_id)")
          case False
          then obtain e where "find_handler s new_id = Inl e"
            by (cases "find_handler s new_id") auto
          then show ?thesis
            by (subst redirect_loop.simps) (simp add: query_round_def)
        next
          case ok: True
          have "card (?known - set (new_id # visited)) < card (?known - set visited)"
            using ok True finite_spellings [OF spellings, of s]
            by (intro psubset_card_mono) auto
          then show ?thesis by (rule less.hyps) simp
        qed
        with r Some True show ?thesis by (subst redirect_loop.simps) simp
      qed
    qed
  qed
qed

lemma create_query_terminates:
  assumes "\<And>k. finite {n. lc n = k}"
  shows "\<exists>r. create_query K (find_handler s) extract source language debug id_opt = Some r"
proof (cases id_opt)
  case None
  then show ?thesis by (simp add: create_query_def)
next
  case (Some query_id)
  have "\<exists>r. redirect_loop (find_handler s) extract query_id [query_id] = Some r"
    by (rule redirect_terminates [OF assms]) simp
  with Some show ?thesis by (auto simp: create_query_def)
qed

end

section \<open>The query that is created\<close>

lemma redirect_loop_result:
  assumes "redirect_loop find_h extract query_id visited = Some r"
  shows "\<forall>qid q. r = Inr (qid, q) \<longrightarrow> query_round find_h extract qid = Inr (q, None)"
  by (rule redirect_loop.raw_induct [OF _ assms]) (auto split: sum.splits option.splits if_splits)

lemma query_round_Inr:
  "query_round find_h extract qid = Inr ((h, ex, params), redirect) \<longleftrightarrow>
     find_h qid = Inr h \<and> extract (hd_config h) = Inr ex \<and> hd_process h qid (ex_params ex) = Inr params \<and>
     hd_redirect h params = Inr redirect"
  by (auto simp: query_round_def result_simps)

lemma finish_query_Inr:
  "finish_query K source qid language debug h orig params skipped = Inr q \<longleftrightarrow>
     (\<exists>qualifier key. hd_qualifier h params = Inr qualifier \<and>
        make_id K (cache_id qid (get_map True params) source language debug qualifier) = Inr key \<and>
        q = \<lparr>sq_id = qid, sq_cache_key = key, sq_language = language, sq_params = params,
          sq_orig_params = orig, sq_skipped = skipped, sq_handler = h, sq_debug = debug,
          sq_stale = qc_expires (hd_config h)\<rparr>)"
  by (auto simp: finish_query_def result_simps)

lemma create_query_Inr:
  assumes "create_query K find_h extract source language debug id_opt = Some (Inr q)"
  obtains ex qualifier where "find_h (sq_id q) = Inr (sq_handler q)"
    "extract (hd_config (sq_handler q)) = Inr ex" "sq_orig_params q = ex_params ex"
    "hd_process (sq_handler q) (sq_id q) (ex_params ex) = Inr (sq_params q)"
    "hd_redirect (sq_handler q) (sq_params q) = Inr None"
    "hd_qualifier (sq_handler q) (sq_params q) = Inr qualifier" "sq_language q = language" "sq_debug q = debug"
    "make_id K (cache_id (sq_id q) (get_map True (sq_params q)) source language debug qualifier) = Inr (sq_cache_key q)"
proof -
  from assms obtain query_id r where id_opt: "id_opt = Some query_id"
    and loop: "redirect_loop find_h extract query_id [query_id] = Some r"
    and fin: "rbind r (\<lambda>(qid, h, ex, params).
        finish_query K source qid language debug h (ex_params ex) params (ex_skipped ex)) = Inr q"
    by (auto simp: create_query_def split: option.splits)
  from fin obtain qid h ex params where r: "r = Inr (qid, h, ex, params)"
    and q: "finish_query K source qid language debug h (ex_params ex) params (ex_skipped ex) = Inr q"
    by (auto simp: result_simps)
  from redirect_loop_result [OF loop] r have "query_round find_h extract qid = Inr ((h, ex, params), None)"
    by blast
  with q show ?thesis
    using that by (auto simp: query_round_Inr finish_query_Inr)
qed

section \<open>What the cache key covers\<close>

definition reserved_names :: "string list" where
  "reserved_names = [''source'', ''language'', ''debugFormat'', ''cacheKeyQualifier'']"

definition plain_params :: "'dt value_map \<Rightarrow> bool" where
  "plain_params m \<longleftrightarrow> (\<forall>n \<in> set reserved_names. mm_values m n = [])"

definition cache_extra :: "string \<Rightarrow> string \<Rightarrow> bool \<Rightarrow> string \<Rightarrow> string \<Rightarrow> 'dt spine_value list" where
  "cache_extra source language debug qualifier n =
     (if n = ''source'' then [VString source] else if n = ''language'' then [VString language]
      else if n = ''debugFormat'' \<and> debug then [VInt 1]
      else if n = ''cacheKeyQualifier'' \<and> qualifier \<noteq> [] then [VString qualifier] else [])"

lemma cache_id_values:
  assumes "mm_sorted m"
  shows "mm_sorted (fid_params (cache_id qid m source language debug qualifier))"
    and "mm_values (fid_params (cache_id qid m source language debug qualifier)) n =
      mm_values m n @ cache_extra source language debug qualifier n"
    and "fid_query (cache_id qid m source language debug qualifier) = qid"
proof -
  let ?f = "cache_id qid m source language debug qualifier"
  have "mm_sorted (fid_params ?f) \<and> fid_query ?f = qid \<and>
      mm_values (fid_params ?f) n = mm_values m n @ cache_extra source language debug qualifier n"
    using assms by (cases debug; cases "qualifier = []";
        simp add: cache_id_def fid_new_def add_param_def Let_def mm_simps cache_extra_def)
  then show "mm_sorted (fid_params ?f)" "fid_query ?f = qid"
    "mm_values (fid_params ?f) n = mm_values m n @ cache_extra source language debug qualifier n"
    by simp_all
qed

lemma cache_id_inj:
  assumes m: "mm_sorted m" "mm_sorted m'" "plain_params m" "plain_params m'"
    and eq: "cache_id q m s l d u = cache_id q' m' s' l' d' u'"
  shows "q = q' \<and> m = m' \<and> s = s' \<and> l = l' \<and> d = d' \<and> u = u'"
proof -
  have vals: "mm_values m n @ cache_extra s l d u n = mm_values m' n @ cache_extra s' l' d' u' n" for n
    using cache_id_values(2) [OF m(1), of q s l d u n] cache_id_values(2) [OF m(2), of q' s' l' d' u' n]
    by (simp add: eq)
  have plain: "mm_values m n = []" "mm_values m' n = []" if "n \<in> set reserved_names" for n
    using m(3,4) that by (simp_all add: plain_params_def)
  have "q = q'"
    using cache_id_values(3) [OF m(1), of q s l d u] cache_id_values(3) [OF m(2), of q' s' l' d' u']
    by (simp add: eq)
  moreover have "s = s'" "l = l'"
    using vals [of "''source''"] vals [of "''language''"] plain
    by (simp_all add: reserved_names_def cache_extra_def)
  moreover have "d = d'" "u = u'"
    using vals [of "''debugFormat''"] vals [of "''cacheKeyQualifier''"] plain
    by (simp_all add: reserved_names_def cache_extra_def split: if_splits)
  moreover have "m = m'"
  proof (rule mm_ext [OF m(1,2)])
    show "mm_values m n = mm_values m' n" for n
    proof (cases "n \<in> set reserved_names")
      case True
      with plain show ?thesis by simp
    next
      case False
      then have extra: "cache_extra s l d u n = []" for s l d u
        by (simp add: reserved_names_def cache_extra_def)
      show ?thesis
        using vals [of n] by (simp add: extra)
    qed
  qed
  ultimately show ?thesis by simp
qed

section \<open>Properties\<close>

text \<open>
  C17.  The creation of a stored query from a request always ends: redirections visit every query
  id at most once and only finitely many spellings have a handler, so that either a query results
  or an exception, whatever the handlers redirect to.
\<close>

theorem query_creation_terminates:
  fixes s :: "'dt sqm"
  assumes "\<And>k. finite {n. lc n = k}"
  shows "(\<exists>r. create_from_kvp lc T cl dp K (get_handler_by_name lc s) source language fmt req items = Some r) \<and>
    (\<exists>r. create_from_xml lc cl K (get_handler_by_name lc s) source language fmt root els = Some r)"
proof
  show "\<exists>r. create_from_kvp lc T cl dp K (get_handler_by_name lc s) source language fmt req items = Some r"
    unfolding create_from_kvp_def by (rule directory.create_query_terminates) (fact assms)
  show "\<exists>r. create_from_xml lc cl K (get_handler_by_name lc s) source language fmt root els = Some r"
    using directory.create_query_terminates [OF assms]
    by (auto simp: create_from_xml_def split: prod.split sum.split)
qed

lemma finite_ascii_spellings: "finite {n. ascii_lower n = k}"
proof (rule finite_subset)
  show "{n. ascii_lower n = k} \<subseteq> {n. set n \<subseteq> UNIV \<and> length n = length k}"
    by (auto simp: ascii_lower_def)
  show "finite {n :: string. set n \<subseteq> UNIV \<and> length n = length k}"
    by (rule finite_lists_length_eq) simp
qed

definition demo_ops :: "demo_dt id_ops" where
  "demo_ops = \<lparr>io_dt = demo_dt, io_sha = demo_sha, io_encode = demo_encode, io_decode = demo_decode\<rparr>"

lemma query_creation_terminates_witness:
  "\<exists>r. create_from_kvp ascii_lower demo_text (\<lambda>_ _ _. Inr ()) (\<lambda>_. Inr 0) demo_ops
     (get_handler_by_name ascii_lower sqm_new) '''' ''eng'' ''debug'' (\<lambda>_. None) [] = Some r"
  using query_creation_terminates [OF finite_ascii_spellings] by blast

text \<open>
  A stored query that was created in a reachable state of the query map has an enabled
  handler of its own name, which does not redirect it; its parameters are what that handler makes
  of the parameters extracted for its configuration.
\<close>

theorem created_query:
  assumes "sq_reachable lc demo test s"
    and "create_from_kvp lc T cl dp K (get_handler_by_name lc s) source language fmt req items = Some (Inr q)"
  shows "lc (get_query_name (sq_handler q)) = lc (sq_id q) \<and>
    \<not> should_be_ignored demo test (hd_config (sq_handler q)) \<and>
    hd_redirect (sq_handler q) (sq_params q) = Inr None \<and>
    (\<exists>ex. extract_kvp_parameters lc T cl dp items (hd_config (sq_handler q)) = Inr ex \<and>
       sq_orig_params q = ex_params ex \<and>
       hd_process (sq_handler q) (sq_id q) (ex_params ex) = Inr (sq_params q))"
proof -
  have inv: "served_inv lc demo test s"
    using assms(1) by (rule served.reachable_inv)
  show ?thesis
    using assms(2) unfolding create_from_kvp_def
  proof (rule create_query_Inr)
    fix ex qualifier
    assume found: "get_handler_by_name lc s (sq_id q) = Inr (sq_handler q)"
      and rest: "extract_kvp_parameters lc T cl dp items (hd_config (sq_handler q)) = Inr ex"
        "sq_orig_params q = ex_params ex" "hd_process (sq_handler q) (sq_id q) (ex_params ex) = Inr (sq_params q)"
        "hd_redirect (sq_handler q) (sq_params q) = Inr None"
    have "lc (get_query_name (sq_handler q)) = lc (sq_id q)"
      using inv found by (rule directory.found_name)
    moreover have "\<not> should_be_ignored demo test (hd_config (sq_handler q))"
      using inv found by (auto simp: served_inv_def servable_def get_handler_by_name_def split: option.splits)
    ultimately show ?thesis using rest by blast
  qed
qed

lemma cache_id_ok:
  assumes "fid_ok D (fid_new qid m)"
    and "length source < 2 ^ 32" "length language < 2 ^ 32" "length qualifier < 2 ^ 32"
  shows "fid_ok D (cache_id qid m source language debug qualifier)"
proof -
  have add: "fid_ok D (add_param n v f)" if "fid_ok D f" "length n < 2 ^ 32" "value_ok D v" for n v f
    using that by (auto simp: fid_ok_def add_param_def value_map_ok_def mm_simps list_all_iff set_mm_insert)
  show ?thesis
    using assms by (simp add: cache_id_def Let_def add value_ok_def INT64_MIN_def)
qed

text \<open>
  C8.  Two queries have the same key in the response cache only if they agree in the query id, all
  parameters under their real names, the data source, the language, the debug format and the
  qualifier of the handler, when no parameter has one of the four names the key itself uses.
\<close>

theorem cache_key_separates:
  assumes laws: "digest_law (io_sha K)" "base64_law (io_encode K) (io_decode K)"
    and ok: "fid_ok (io_dt K) (fid_new q m)" "fid_ok (io_dt K) (fid_new q' m')"
    and plain: "plain_params m" "plain_params m'"
    and len: "list_all (\<lambda>x. length x < 2 ^ 32) [s, l, u, s', l', u']"
    and same: "make_id K (cache_id q m s l d u) = make_id K (cache_id q' m' s' l' d' u')"
  shows "q = q' \<and> m = m' \<and> s = s' \<and> l = l' \<and> d = d' \<and> u = u'"
proof -
  let ?f = "cache_id q m s l d u" and ?g = "cache_id q' m' s' l' d' u'"
  have fok: "fid_ok (io_dt K) ?f" and gok: "fid_ok (io_dt K) ?g"
    using ok len by (simp_all add: cache_id_ok)
  from create_from_get_id [OF laws fok] obtain str where "make_id K ?f = Inr str"
    by (auto simp: make_id_def result_simps)
  with same have "?f = ?g"
    using get_id_inj [OF laws fok gok] by (simp add: make_id_def)
  moreover have "mm_sorted m" "mm_sorted m'"
    using ok by (simp_all add: fid_ok_def value_map_ok_def fid_new_def)
  ultimately show ?thesis
    using cache_id_inj plain by blast
qed

lemma cache_key_separates_witness:
  "make_id demo_ops (cache_id ''q'' [(''a'', VString ''x'')] '''' ''eng'' False '''') \<noteq>
   make_id demo_ops (cache_id ''q'' [(''a'', VString ''x'')] '''' ''fin'' False '''')"
proof
  let ?m = "[(''a'', VString ''x'')] :: demo_dt value_map"
  assume same: "make_id demo_ops (cache_id ''q'' ?m '''' ''eng'' False '''') =
    make_id demo_ops (cache_id ''q'' ?m '''' ''fin'' False '''')"
  have ok: "fid_ok (io_dt demo_ops) (fid_new ''q'' ?m)"
    by (simp add: fid_ok_def fid_new_def value_map_ok_def mm_sorted_def value_ok_def)
  have plain: "plain_params ?m"
    by (simp add: plain_params_def reserved_names_def mm_values_def)
  from cache_key_separates [OF _ _ ok ok plain plain _ same] show False
    by (simp add: demo_ops_def demo_digest_law demo_base64_law)
qed


text \<open>A request for the only query of a map, for the witnesses.\<close>

definition demo_request :: "string \<Rightarrow> string option" where
  "demo_request n = Some (if n = ''request'' then ''getFeature'' else ''q'')"

lemma demo_created:
  obtains s q where "sq_reachable ascii_lower False False s"
    "create_from_kvp ascii_lower T (\<lambda>_ _ _. Inr ()) dp demo_ops (get_handler_by_name ascii_lower s) '''' ''eng''
       ''xml'' demo_request [] = Some (Inr q)"
    "sq_id q = ''q''" "get_map True (sq_params q) = []" "hd_qualifier (sq_handler q) = base_qualifier"
proof -
  obtain s :: "demo_dt sqm" where reach: "sq_reachable ascii_lower False False s"
    and s: "qm_handlers s = [(ascii_lower ''q'', demo_handler (demo_query ''q'') ''a.conf'')]"
    using demo_served [of "''q''"] by metis
  let ?h = "demo_handler (demo_query ''q'') ''a.conf'' :: demo_dt handler"
  have found: "get_handler_by_name ascii_lower s ''q'' = Inr ?h"
    by (simp add: s get_handler_by_name_def)
  have round: "query_round (get_handler_by_name ascii_lower s)
      (extract_kvp_parameters ascii_lower T (\<lambda>_ _ _. Inr ()) dp []) ''q'' =
      Inr ((?h, extraction_new False, rpm_new False), None)"
    by (simp add: query_round_def found extract_kvp_parameters_def check_min_occurs_def demo_handler_def
        demo_query_def config_new_def base_redirect_def extraction_new_def)
  have empty: "get_map True (rpm_new False :: demo_dt spine_value rpm) = []"
    by (simp add: get_map_def rpm_new_def)
  have "fid_ok demo_dt (cache_id ''q'' [] '''' ''eng'' False '''')"
    by (rule cache_id_ok) (simp_all add: fid_ok_def fid_new_def value_map_ok_def)
  from create_from_get_id [OF demo_digest_law demo_base64_law this]
  obtain key where "make_id demo_ops (cache_id ''q'' [] '''' ''eng'' False '''') = Inr key"
    by (auto simp: make_id_def demo_ops_def result_simps)
  then obtain q where q: "finish_query demo_ops '''' ''q'' ''eng'' False ?h (rpm_new False) (rpm_new False) [] = Inr q"
    by (simp add: finish_query_def demo_handler_def base_qualifier_def empty)
  have "get_kvp_stored_query_id ascii_lower demo_request = Some ''q''"
    by (simp add: get_kvp_stored_query_id_def demo_request_def iequals_def)
  moreover have "redirect_loop (get_handler_by_name ascii_lower s)
      (extract_kvp_parameters ascii_lower T (\<lambda>_ _ _. Inr ()) dp []) ''q'' [''q''] =
      Some (Inr (''q'', ?h, extraction_new False, rpm_new False))"
    by (subst redirect_loop.simps) (simp add: round)
  ultimately have "create_from_kvp ascii_lower T (\<lambda>_ _ _. Inr ()) dp demo_ops (get_handler_by_name ascii_lower s)
      '''' ''eng'' ''xml'' demo_request [] = Some (Inr q)"
    using q by (simp add: create_from_kvp_def create_query_def extraction_new_def)
  moreover have "sq_id q = ''q''" "get_map True (sq_params q) = []" "hd_qualifier (sq_handler q) = base_qualifier"
    using q by (auto simp: finish_query_Inr empty demo_handler_def)
  ultimately show ?thesis
    using that reach by blast
qed

lemma created_query_witness:
  "\<exists>(s :: demo_dt sqm) (q :: demo_dt stored_query). sq_reachable ascii_lower False False s \<and>
     ascii_lower (get_query_name (sq_handler q)) = ascii_lower (sq_id q) \<and> sq_id q = ''q'' \<and>
     hd_redirect (sq_handler q) (sq_params q) = Inr None"
proof -
  obtain s q where q: "sq_reachable ascii_lower False False s"
    "create_from_kvp ascii_lower demo_text (\<lambda>_ _ _. Inr ()) (\<lambda>_. Inr 0) demo_ops (get_handler_by_name ascii_lower s)
       '''' ''eng'' ''xml'' demo_request [] = Some (Inr q)" "sq_id q = ''q''"
    using demo_created by metis
  from created_query [OF q(1,2)] q(1,3) show ?thesis by blast
qed


end
