(* ===== verification/Requests.thy ===== *)
theory Requests
  imports StoredQueries
begin

text \<open>
  What all requests share: \<open>libwfs/RequestBase.cpp\<close> (checks of the request and the substitution of
  place holders in responses), \<open>StandardPresentationParameters.cpp\<close> (paging and formats), the output
  formats of \<open>CapabilitiesConf.cpp\<close>, and \<open>RequestFactory.cpp\<close>, which hands a request to the parser of
  its type.  A request is given by the look up of its parameters, an XML request by the name of its
  root element and the look up of its attributes.  \<open>boost::lexical_cast\<close> and \<open>Fmi::stoul\<close> are
  arguments.
\<close>

section \<open>Substitution in responses\<close>

record request_info =
  ri_language :: string
  ri_apikey :: "string option"
  ri_apikey_prefix :: "string option"
  ri_hostname :: "string option"
  ri_protocol :: "string option"

definition opt_or :: "'a \<Rightarrow> 'a option \<Rightarrow> 'a" where
  "opt_or d x = (case x of None \<Rightarrow> d | Some v \<Rightarrow> v)"

definition FMI_APIKEY_SUBST :: string where "FMI_APIKEY_SUBST = ''@FMI_APIKEY@''"
definition FMI_APIKEY_PREFIX_SUBST :: string where "FMI_APIKEY_PREFIX_SUBST = ''@FMI_APIKEY_PREFIX@''"
definition HOSTNAME_SUBST :: string where "HOSTNAME_SUBST = ''@HOSTNAME@''"
definition PROTOCOL_SUBST :: string where "PROTOCOL_SUBST = ''@PROTOCOL@''"

definition subst_list :: "request_info \<Rightarrow> (string \<times> string) list" where
  "subst_list r =
    [(FMI_APIKEY_PREFIX_SUBST, opt_or [] (ri_apikey_prefix r)),
     (FMI_APIKEY_SUBST, opt_or [] (ri_apikey r)),
     (HOSTNAME_SUBST, opt_or ''localhost'' (ri_hostname r)),
     (PROTOCOL_SUBST, opt_or ''http'' (ri_protocol r) @ ''://'')]"

definition starts :: "string \<Rightarrow> string \<Rightarrow> bool" where
  "starts k s \<longleftrightarrow> take (length k) s = k"

text \<open>
  The table \<open>chm\<close> marks the bytes that begin a place holder.  No place holder is empty, so that
  \<open>drop (length k - 1) cs\<close> is the rest after a match.
\<close>

definition chm :: "(string \<times> string) list \<Rightarrow> char \<Rightarrow> bool" where
  "chm tbl c = list_ex (\<lambda>(k, _). take 1 k = [c]) tbl"

function subst_text :: "(string \<times> string) list \<Rightarrow> string \<Rightarrow> string" where
  "subst_text tbl [] = []"
| "subst_text tbl (c # cs) =
     (if chm tbl c
      then (case find (\<lambda>(k, _). starts k (c # cs)) tbl of
          Some (k, v) \<Rightarrow> v @ subst_text tbl (drop (length k - 1) cs)
        | None \<Rightarrow> c # subst_text tbl cs)
      else c # subst_text tbl cs)"
  by pat_completeness auto
termination by (relation "measure (\<lambda>(_, s). length s)") auto

declare subst_text.simps [simp del]

definition substitute_all :: "request_info \<Rightarrow> string \<Rightarrow> string" where
  "substitute_all r src = subst_text (subst_list r) (c_str src)"

section \<open>Output formats\<close>

definition conv_output_format_str :: "string \<Rightarrow> string" where
  "conv_output_format_str src = (case split_at CHR '';'' src of
       [a, b] \<Rightarrow> trim_copy a @ ''; '' @ trim_copy b
     | _ \<Rightarrow> src)"

definition default_formats :: "string list" where
  "default_formats = fold sset_insert [''text/xml; subtype=gml/3.2'', ''text/xml; version=3.2'',
     ''application/gml+xml; subtype=gml/3.2'', ''application/gml+xml; version=3.2''] []"

definition add_output_format :: "string \<Rightarrow> string list \<Rightarrow> string list" where
  "add_output_format txt fmts = sset_insert (conv_output_format_str txt) fmts"

text \<open>The setting \<open>outputFormats\<close>: a string or an array of strings; \<open>low\<close> is \<open>ba::to_lower_copy\<close>.\<close>

datatype formats_setting = FmtString string | FmtArray "string list" | FmtOther

definition parse_output_formats :: "(string \<Rightarrow> string) \<Rightarrow> formats_setting option \<Rightarrow> string list \<Rightarrow> string list result" where
  "parse_output_formats low setting fmts = (case setting of
       None \<Rightarrow> Inr fmts
     | Some s \<Rightarrow>
         rbind (case s of
             FmtString str \<Rightarrow> Inr [low str]
           | FmtArray strs \<Rightarrow>
               let w = fold (\<lambda>str. sset_insert (low str)) strs []
               in if w = [] then Inl (Thrown NoCode ''Empty array not accepted as value of outputFormats'') else Inr w
           | FmtOther \<Rightarrow> Inl (Thrown NoCode ''Incorrect value of configuration entry outputFormats''))
         (\<lambda>w. Inr (fold (\<lambda>item. sset_insert (conv_output_format_str item)) w [])))"

definition check_output_format_attribute :: "string list \<Rightarrow> string \<Rightarrow> unit result" where
  "check_output_format_attribute fmts value =
     (if conv_output_format_str value \<notin> set fmts then Inl (Thrown ParsingFailed ''Unsupported output format'')
      else Inr ())"

definition check_output_format_xml :: "string list \<Rightarrow> (string \<Rightarrow> string option) \<Rightarrow> unit result" where
  "check_output_format_xml fmts attr = (case attr ''outputFormat'' of
       None \<Rightarrow> Inr ()
     | Some value \<Rightarrow> check_output_format_attribute fmts value)"

section \<open>Checks of a request\<close>

definition extract_request_name :: "(string \<Rightarrow> string option) \<Rightarrow> string result" where
  "extract_request_name req = (case req ''request'' of
       None \<Rightarrow> Inl (Thrown ParsingFailed ''The request parameter is missing'')
     | Some name \<Rightarrow> Inr name)"

definition SOAP_NAMESPACE_URI :: string where
  "SOAP_NAMESPACE_URI = ''http://schemas.xmlsoap.org/soap/envelope/''"

text \<open>The root element of a document, if it has one: its local name and its namespace.\<close>

type_synonym xml_root = "(string \<times> string) option"

definition get_xml_root :: "xml_root \<Rightarrow> (string \<times> string) result" where
  "get_xml_root root = (case root of
       None \<Rightarrow> Inl (Thrown ParsingFailed ''The XML root element is missing'')
     | Some r \<Rightarrow> Inr r)"

definition extract_request_name_xml :: "xml_root \<Rightarrow> string result" where
  "extract_request_name_xml root =
     rbind (get_xml_root root) (\<lambda>(name, ns).
       if ns = SOAP_NAMESPACE_URI then Inl (Thrown NoCode ''HTTP/SOAP requests are not yet supported'')
       else if ns = WFS_NAMESPACE_URI then Inr name
       else if ns = [] then Inl (Thrown NoCode ''no namespace provided'')
       else Inl (Thrown NoCode ''unexpected XML namespace''))"

definition check_request_name :: "(string \<Rightarrow> string) \<Rightarrow> string result \<Rightarrow> string \<Rightarrow> unit result" where
  "check_request_name lc actual name =
     rbind actual (\<lambda>actual_name.
       if lc actual_name \<noteq> lc name then Inl (Thrown NoCode ''conflicting request name'') else Inr ())"

text \<open>The regular expression \<open>^2\.0\.[0-9]$\<close>, matched against the whole string.\<close>

definition check_wfs_version_string :: "string \<Rightarrow> unit result" where
  "check_wfs_version_string v =
     (if length v = 5 \<and> take 4 v = ''2.0.'' \<and> isdigit (v ! 4) then Inr ()
      else Inl (Thrown NoCode ''Unsupported WFS version''))"

definition check_wfs_version :: "(string \<Rightarrow> string option) \<Rightarrow> unit result" where
  "check_wfs_version req = (case req ''version'' of None \<Rightarrow> Inr () | Some v \<Rightarrow> check_wfs_version_string v)"

definition check_value_equal :: "string \<Rightarrow> string \<Rightarrow> unit result" where
  "check_value_equal value expected = (if value \<noteq> expected then Inl (Thrown NoCode ''Unsupported value'') else Inr ())"

definition get_mandatory_attr :: "(string \<Rightarrow> string option) \<Rightarrow> string \<Rightarrow> string result" where
  "get_mandatory_attr attr name = (case attr name of
       None \<Rightarrow> Inl (Thrown NoCode ''mandatory attribute missing'')
     | Some v \<Rightarrow> Inr v)"

definition check_mandatory_attributes :: "xml_root \<Rightarrow> (string \<Rightarrow> string option) \<Rightarrow> unit result" where
  "check_mandatory_attributes root attr =
     rbind (get_xml_root root) (\<lambda>_.
     fold_result (\<lambda>(name, checker) _. rbind (get_mandatory_attr attr name) checker)
       [(''version'', check_wfs_version_string), (''service'', \<lambda>v. check_value_equal v ''WFS'')] ())"

section \<open>Standard presentation parameters\<close>

datatype result_type = SPP_RESULTS | SPP_HITS

record presentation =
  spp_have_counts :: bool
  spp_start :: "32 word"
  spp_count :: "32 word"
  spp_format :: string
  spp_result :: result_type

definition DEFAULT_OUTPUT_FORMAT :: string where
  "DEFAULT_OUTPUT_FORMAT = ''application/gml+xml; version=3.2''"

definition DEBUG_OUTPUT_FORMAT :: string where
  "DEBUG_OUTPUT_FORMAT = ''debug''"

definition SUPPORTED_FORMATS :: "string list" where
  "SUPPORTED_FORMATS = [''text/xml; subtype=gml/3.2'', ''text/xml; version=3.2'',
     ''application/gml+xml; subtype=gml/3.2'', DEFAULT_OUTPUT_FORMAT]"

definition DEFAULT_COUNT :: "32 word" where
  "DEFAULT_COUNT = 0x00FFFFFF"

definition set_output_format :: "(string \<Rightarrow> string) \<Rightarrow> string \<Rightarrow> string result" where
  "set_output_format lc str =
     (let lstr = lc str
      in if lstr \<in> set SUPPORTED_FORMATS then Inr lstr
         else if lstr = DEBUG_OUTPUT_FORMAT then Inr DEBUG_OUTPUT_FORMAT
         else Inl (Thrown ParsingFailed ''Incorrect value of request parameter outputformat''))"

definition set_result_type :: "(string \<Rightarrow> string) \<Rightarrow> string \<Rightarrow> result_type result" where
  "set_result_type lc str =
     (if lc str = ''results'' then Inr SPP_RESULTS
      else if lc str = ''hits'' then Inr SPP_HITS
      else Inl (Thrown ParsingFailed ''Incorrect value of parameter resultType''))"

definition get_param_or :: "(string \<Rightarrow> 'a result) \<Rightarrow> (string \<Rightarrow> string option) \<Rightarrow> string \<Rightarrow> 'a \<Rightarrow> 'a result" where
  "get_param_or lexcast req name default_value = (case req name of
       Some value \<Rightarrow> lexcast value
     | None \<Rightarrow> Inr default_value)"

definition read_spp_kvp ::
    "(string \<Rightarrow> string) \<Rightarrow> (string \<Rightarrow> 32 word result) \<Rightarrow> (string \<Rightarrow> string option) \<Rightarrow> presentation result" where
  "read_spp_kvp lc lexcast req =
     rbind (get_param_or lexcast req ''startindex'' 0) (\<lambda>start_index.
     rbind (get_param_or lexcast req ''count'' DEFAULT_COUNT) (\<lambda>cnt.
     rbind (set_output_format lc (opt_or DEFAULT_OUTPUT_FORMAT (req ''outputformat''))) (\<lambda>fmt.
     rbind (set_result_type lc (opt_or ''results'' (req ''resulttype''))) (\<lambda>rt.
     Inr \<lparr>spp_have_counts = (req ''startindex'' \<noteq> None \<or> req ''count'' \<noteq> None),
       spp_start = start_index, spp_count = cnt, spp_format = fmt, spp_result = rt\<rparr>))))"

text \<open>\<open>Fmi::stoul\<close> yields an \<open>unsigned long\<close>, which the assignment to \<open>unsigned int\<close> cuts.\<close>

definition read_spp_xml ::
    "(string \<Rightarrow> string) \<Rightarrow> (string \<Rightarrow> 64 word result) \<Rightarrow> (string \<Rightarrow> string option) \<Rightarrow> presentation result" where
  "read_spp_xml lc stoul attr =
     rbind (case attr ''startIndex'' of
         Some s \<Rightarrow> rbind (stoul s) (\<lambda>n. let start_index = ucast n in Inr (start_index, start_index \<noteq> 0))
       | None \<Rightarrow> Inr (0, False)) (\<lambda>(start_index, have_start).
     rbind (case attr ''count'' of
         Some s \<Rightarrow> rbind (stoul s) (\<lambda>n. Inr (ucast n, True))
       | None \<Rightarrow> Inr (DEFAULT_COUNT, have_start)) (\<lambda>(cnt, have_counts).
     rbind (set_output_format lc (opt_or DEFAULT_OUTPUT_FORMAT (attr ''outputFormat''))) (\<lambda>fmt.
     rbind (set_result_type lc (opt_or ''results'' (attr ''resultType''))) (\<lambda>rt.
     Inr \<lparr>spp_have_counts = have_counts, spp_start = start_index, spp_count = cnt,
       spp_format = fmt, spp_result = rt\<rparr>))))"


section \<open>The request factory\<close>

text \<open>
  \<open>RequestFactory.cpp\<close>.  A parser takes the language and the request; a request type may lack
  one.  \<open>rf_operations\<close> is the set of operations that \<open>WfsCapabilities\<close> lists.
\<close>

record ('kvp, 'xml, 'r) type_rec =
  kvp_parser :: "(string \<Rightarrow> 'kvp \<Rightarrow> 'r result) option"
  xml_parser :: "(string \<Rightarrow> 'xml \<Rightarrow> 'r result) option"

record ('kvp, 'xml, 'r) factory =
  rf_names :: "string list"
  rf_types :: "(string \<times> ('kvp, 'xml, 'r) type_rec) list"
  rf_unimplemented :: "string list"
  rf_operations :: "string list"

definition factory_new :: "('kvp, 'xml, 'r) factory" where
  "factory_new = \<lparr>rf_names = [], rf_types = [], rf_unimplemented = [], rf_operations = []\<rparr>"

definition register_request_type ::
    "(string \<Rightarrow> string) \<Rightarrow> string \<Rightarrow> string \<Rightarrow> ('kvp, 'xml, 'r) type_rec \<Rightarrow> ('kvp, 'xml, 'r) factory \<Rightarrow>
     ('kvp, 'xml, 'r) factory result" where
  "register_request_type lc name feature_id rec f =
     (let lname = lc name in
      if lname \<in> set (rf_unimplemented f) then Inl (Thrown NoCode ''already registred as unimplemented'')
      else case sm_emplace lname rec (rf_types f) of
          None \<Rightarrow> Inl (Thrown NoCode ''Duplicate WFS request type'')
        | Some types \<Rightarrow>
            Inr (f\<lparr>rf_types := types, rf_names := sset_insert name (rf_names f),
              rf_operations := (if feature_id \<noteq> [] then sset_insert feature_id (rf_operations f)
                else rf_operations f)\<rparr>))"

definition register_unimplemented_request_type ::
    "(string \<Rightarrow> string) \<Rightarrow> string \<Rightarrow> ('kvp, 'xml, 'r) factory \<Rightarrow> ('kvp, 'xml, 'r) factory result" where
  "register_unimplemented_request_type lc name f =
     (if map_of (rf_types f) (lc name) \<noteq> None then Inl (Thrown NoCode ''Implementation is already registred'')
      else Inr (f\<lparr>rf_names := sset_insert name (rf_names f),
        rf_unimplemented := sset_insert (lc name) (rf_unimplemented f)\<rparr>))"

definition get_type_rec ::
    "(string \<Rightarrow> string) \<Rightarrow> ('kvp, 'xml, 'r) factory \<Rightarrow> string \<Rightarrow> ('kvp, 'xml, 'r) type_rec result" where
  "get_type_rec lc f name = (case map_of (rf_types f) (lc name) of
       None \<Rightarrow> Inl (Thrown InvalidParameterValue ''Unrecognized WFS request'')
     | Some rec \<Rightarrow> Inr rec)"

definition known_request_name :: "('kvp, 'xml, 'r) factory \<Rightarrow> string \<Rightarrow> bool" where
  "known_request_name f name \<longleftrightarrow> name \<in> set (rf_names f)"

definition parse_kvp ::
    "(string \<Rightarrow> string) \<Rightarrow> ('kvp \<Rightarrow> string \<Rightarrow> string option) \<Rightarrow> ('kvp, 'xml, 'r) factory \<Rightarrow> string \<Rightarrow> 'kvp \<Rightarrow> 'r result" where
  "parse_kvp lc get_parameter f language http_request =
     (let req = get_parameter http_request in
      rbind (case req ''service'' of
          Some service \<Rightarrow> if service \<noteq> ''WFS'' then Inl (Thrown ParsingFailed ''Incorrect service'') else Inr ()
        | None \<Rightarrow> Inr ()) (\<lambda>_.
      rbind (extract_request_name req) (\<lambda>name.
      if lc name \<in> set (rf_unimplemented f) then Inl (Thrown NotSupported ''not yet implemented'')
      else rbind (get_type_rec lc f name) (\<lambda>rec. case kvp_parser rec of
          Some p \<Rightarrow> p language http_request
        | None \<Rightarrow> Inl (Thrown ParsingFailed ''KVP format not supported'')))))"

definition parse_xml ::
    "(string \<Rightarrow> string) \<Rightarrow> ('xml \<Rightarrow> xml_root) \<Rightarrow> ('kvp, 'xml, 'r) factory \<Rightarrow> string \<Rightarrow> 'xml \<Rightarrow> 'r result" where
  "parse_xml lc root_of f language document =
     (case root_of document of
        None \<Rightarrow> Inl (Thrown ParsingFailed ''The XML root element missing'')
      | Some _ \<Rightarrow>
          rbind (extract_request_name_xml (root_of document)) (\<lambda>name.
          if lc name \<in> set (rf_unimplemented f) then Inl (Thrown NotSupported ''not implemented'')
          else rbind (get_type_rec lc f name) (\<lambda>rec. case xml_parser rec of
              Some p \<Rightarrow> p language document
            | None \<Rightarrow> Inl (Thrown ParsingFailed ''Unsupported WFS request''))))"

text \<open>The registrations of the plugin (\<open>PluginImpl::PluginImpl\<close>), given the parsers of the six types.\<close>

definition implemented_requests :: "(string \<times> string) list" where
  "implemented_requests =
    [(''GetCapabilities'', ''''), (''DescribeFeatureType'', ''supportsDescribeFeatureType''),
     (''GetFeature'', ''supportsGetFeature''), (''GetPropertyValue'', ''supportsGetPropertyValue''),
     (''ListStoredQueries'', ''supportsListStoredQueries''),
     (''DescribeStoredQueries'', ''supportsDescribeStoredQueries'')]"

definition unimplemented_requests :: "string list" where
  "unimplemented_requests =
    [''LockFeature'', ''GetFeatureWithLock'', ''CreateStoredQuery'', ''DropStoredQuery'', ''Transaction'']"

definition create_request_factory ::
    "(string \<Rightarrow> string) \<Rightarrow> (string \<Rightarrow> ('kvp, 'xml, 'r) type_rec) \<Rightarrow> ('kvp, 'xml, 'r) factory result" where
  "create_request_factory lc recs =
     rbind (fold_result (\<lambda>(name, feature_id). register_request_type lc name feature_id (recs name))
         implemented_requests factory_new)
       (fold_result (register_unimplemented_request_type lc) unimplemented_requests)"

section \<open>Type names\<close>

text \<open>\<open>TypeNameStoredQueryMap.cpp\<close>: the stored queries of a type name.\<close>

definition typename_init ::
    "(string \<Rightarrow> string) \<Rightarrow> (string \<times> string) list \<Rightarrow> (string \<times> string list) list \<Rightarrow> (string \<times> string list) list" where
  "typename_init lc = fold (\<lambda>(name, queries). sm_put (lc name) (split_at CHR '';'' queries))"

definition get_stored_queries_by_name ::
    "(string \<Rightarrow> string) \<Rightarrow> (string \<times> string list) list \<Rightarrow> string \<Rightarrow> string list result" where
  "get_stored_queries_by_name lc m name = (case map_of m (lc name) of
       None \<Rightarrow> Inl (Thrown ParsingFailed ''Cannot find a stored query by its name'')
     | Some qs \<Rightarrow> Inr qs)"


section \<open>Substitution of well-formed texts\<close>

text \<open>A text of literals and place holders, the latter given by their position in the list.\<close>

datatype stext = SLit string | SHolder nat

fun stext_source :: "stext \<Rightarrow> string" where
  "stext_source (SLit s) = s"
| "stext_source (SHolder i) = fst (subst_list \<lparr>ri_language = [], ri_apikey = None, ri_apikey_prefix = None,
     ri_hostname = None, ri_protocol = None\<rparr> ! i)"

fun stext_value :: "request_info \<Rightarrow> stext \<Rightarrow> string" where
  "stext_value r (SLit s) = s"
| "stext_value r (SHolder i) = snd (subst_list r ! i)"

fun stext_ok :: "stext \<Rightarrow> bool" where
  "stext_ok (SLit s) \<longleftrightarrow> CHR ''@'' \<notin> set s \<and> CHR 0x00 \<notin> set s"
| "stext_ok (SHolder i) \<longleftrightarrow> i < 4"

lemma starts_simps [simp]:
  "starts [] s" "starts (a # k) (b # s) \<longleftrightarrow> a = b \<and> starts k s" "\<not> starts (a # k) []"
  by (auto simp: starts_def)

lemma chm_list [simp]: "chm (subst_list r) c \<longleftrightarrow> c = CHR ''@''"
  by (auto simp: chm_def subst_list_def FMI_APIKEY_PREFIX_SUBST_def FMI_APIKEY_SUBST_def HOSTNAME_SUBST_def
      PROTOCOL_SUBST_def)

lemma subst_text_literal:
  "CHR ''@'' \<notin> set s \<Longrightarrow> subst_text (subst_list r) (s @ rest) = s @ subst_text (subst_list r) rest"
  by (induction s) (auto simp: subst_text.simps)

lemma subst_text_holder:
  assumes "i < 4"
  shows "subst_text (subst_list r) (stext_source (SHolder i) @ rest) =
    snd (subst_list r ! i) @ subst_text (subst_list r) rest"
proof -
  from assms consider "i = 0" | "i = 1" | "i = 2" | "i = 3" by linarith
  then show ?thesis
    by cases (simp_all add: subst_text.simps(2) chm_def subst_list_def
      FMI_APIKEY_PREFIX_SUBST_def FMI_APIKEY_SUBST_def HOSTNAME_SUBST_def PROTOCOL_SUBST_def)
qed

lemma subst_text_pieces:
  "list_all stext_ok ps \<Longrightarrow>
   subst_text (subst_list r) (concat (map stext_source ps)) = concat (map (stext_value r) ps)"
proof (induction ps)
  case Nil
  then show ?case by (simp add: subst_text.simps)
next
  case (Cons p ps)
  then show ?case
    by (cases p) (auto simp: subst_text_literal subst_text_holder simp del: stext_source.simps(2))
qed

lemma c_str_id: "CHR 0x00 \<notin> set s \<Longrightarrow> c_str s = s"
  by (auto simp: c_str_def takeWhile_eq_all_conv)

lemma stext_no_zero:
  assumes "list_all stext_ok ps"
  shows "CHR 0x00 \<notin> set (concat (map stext_source ps))"
proof -
  have "CHR 0x00 \<notin> set (stext_source p)" if "stext_ok p" for p
  proof (cases p)
    case (SHolder i)
    with that consider "i = 0" | "i = 1" | "i = 2" | "i = 3" by fastforce
    then show ?thesis
      using SHolder by cases (simp_all add: subst_list_def FMI_APIKEY_PREFIX_SUBST_def FMI_APIKEY_SUBST_def
        HOSTNAME_SUBST_def PROTOCOL_SUBST_def)
  qed (use that in simp)
  with assms show ?thesis by (auto simp: list_all_iff)
qed

lemma substitute_pieces:
  "list_all stext_ok ps \<Longrightarrow> substitute_all r (concat (map stext_source ps)) = concat (map (stext_value r) ps)"
  by (simp add: substitute_all_def c_str_id [OF stext_no_zero] subst_text_pieces)

lemma substitute_plain:
  "CHR ''@'' \<notin> set s \<Longrightarrow> CHR 0x00 \<notin> set s \<Longrightarrow> substitute_all r s = s"
  using substitute_pieces [of "[SLit s]" r] by simp


section \<open>Dispatch\<close>

lemma register_Inr:
  "register_request_type lc name feature_id rec f = Inr f' \<longleftrightarrow>
     lc name \<notin> set (rf_unimplemented f) \<and> map_of (rf_types f) (lc name) = None \<and>
     f' = f\<lparr>rf_types := mm_insert (lc name) rec (rf_types f), rf_names := sset_insert name (rf_names f),
       rf_operations := (if feature_id \<noteq> [] then sset_insert feature_id (rf_operations f) else rf_operations f)\<rparr>"
  by (auto simp: register_request_type_def Let_def sm_simps split: option.splits)

lemma register_fold:
  assumes "fold_result (\<lambda>(name, feature_id). register_request_type lc name feature_id (recs name)) reqs f0 = Inr f"
  shows "map_of (rf_types f) k = (case map_of (rf_types f0) k of
      Some r \<Rightarrow> Some r
    | None \<Rightarrow> map_option recs (find (\<lambda>n. lc n = k) (map fst reqs))) \<and>
    rf_unimplemented f = rf_unimplemented f0"
  using assms
proof (induction reqs arbitrary: f0)
  case Nil
  then show ?case by (simp split: option.splits)
next
  case (Cons r reqs)
  obtain name fid where r: "r = (name, fid)" by (cases r)
  with Cons.prems obtain f1 where f1: "register_request_type lc name fid (recs name) f0 = Inr f1"
    and rest: "fold_result (\<lambda>(name, feature_id). register_request_type lc name feature_id (recs name)) reqs f1 = Inr f"
    by (auto simp: result_simps)
  from Cons.IH [OF rest] f1 r show ?case
    by (auto simp: register_Inr sm_simps split: option.splits)
qed

lemma unimplemented_fold:
  assumes "fold_result (register_unimplemented_request_type lc) names f0 = Inr f"
  shows "rf_types f = rf_types f0 \<and> set (rf_unimplemented f) = set (rf_unimplemented f0) \<union> lc ` set names"
  using assms
  by (induction names arbitrary: f0)
    (auto simp: register_unimplemented_request_type_def result_simps split: if_splits)

lemma created_factory:
  assumes "create_request_factory lc recs = Inr f"
  shows "map_of (rf_types f) k = map_option recs (find (\<lambda>n. lc n = k) (map fst implemented_requests))"
    and "set (rf_unimplemented f) = lc ` set unimplemented_requests"
proof -
  from assms obtain f1 where
    f1: "fold_result (\<lambda>(name, feature_id). register_request_type lc name feature_id (recs name))
        implemented_requests factory_new = Inr f1"
    and f: "fold_result (register_unimplemented_request_type lc) unimplemented_requests f1 = Inr f"
    by (auto simp: create_request_factory_def result_simps)
  show "map_of (rf_types f) k = map_option recs (find (\<lambda>n. lc n = k) (map fst implemented_requests))"
    using register_fold [OF f1, of k] unimplemented_fold [OF f] by (simp add: factory_new_def)
  show "set (rf_unimplemented f) = lc ` set unimplemented_requests"
    using register_fold [OF f1] unimplemented_fold [OF f] by (simp add: factory_new_def)
qed


definition demo_recs :: "string \<Rightarrow> (string \<Rightarrow> string option, unit, string) type_rec" where
  "demo_recs n = \<lparr>kvp_parser = Some (\<lambda>_ _. Inr n), xml_parser = None\<rparr>"

definition demo_factory :: "(string \<Rightarrow> string option, unit, string) factory" where
  "demo_factory = (case create_request_factory ascii_lower demo_recs of Inr f \<Rightarrow> f | Inl _ \<Rightarrow> factory_new)"

lemma demo_factory_created: "create_request_factory ascii_lower demo_recs = Inr demo_factory"
proof -
  have "isOK (create_request_factory ascii_lower demo_recs)" by code_simp
  then show ?thesis by (auto simp: demo_factory_def isOK_iff)
qed


section \<open>Paging parameters\<close>

lemma spp_kvp_format:
  "read_spp_kvp lc lexcast req = Inr p \<Longrightarrow> spp_format p \<in> set (DEBUG_OUTPUT_FORMAT # SUPPORTED_FORMATS)"
  by (auto simp: read_spp_kvp_def set_output_format_def Let_def result_simps split: if_splits)

lemma spp_xml_format:
  "read_spp_xml lc stoul attr = Inr p \<Longrightarrow> spp_format p \<in> set (DEBUG_OUTPUT_FORMAT # SUPPORTED_FORMATS)"
  by (auto simp: read_spp_xml_def set_output_format_def Let_def result_simps split: if_splits)

end
