(* ===== verification/GetFeature.thy ===== *)
theory GetFeature
  imports Requests
begin

text \<open>
  \<open>libwfs/request/GetFeature.cpp\<close>: running the queries of a request, the response cache, paging,
  and the composition of the responses.  The XML library is an argument: parsing, XPath, and the
  writing of the documents that the model describes by their contents.  So are the stored query
  handlers (\<open>qu_execute\<close>), the cache of the macgyver library and the text of error responses.
\<close>

section \<open>Queries and their environment\<close>

datatype query_type = QUERY | STORED_QUERY

record query =
  qu_type :: query_type
  qu_key :: string
  qu_stale :: int
  qu_cached :: "string option"
  qu_filter :: string
  qu_execute :: "string \<Rightarrow> string option \<Rightarrow> string result"

text \<open>
  A parsed response: local name, namespace, prefix and time stamp of its root element, and the
  prefix that its name space resolver finds for a namespace.
\<close>

record root_info =
  ro_name :: string
  ro_ns :: string
  ro_prefix :: "string option"
  ro_time :: "string option"

record ('d, 'n) xml_ops =
  xo_parse :: "string \<Rightarrow> 'd result"
  xo_root :: "'d \<Rightarrow> root_info"
  xo_lookup_prefix :: "'d \<Rightarrow> string result"
  xo_select :: "'d \<Rightarrow> string \<Rightarrow> 'n list result"
  xo_no_item :: "int \<Rightarrow> 'n result"

record 'c cache_ops =
  ca_find :: "string \<Rightarrow> 'c \<Rightarrow> string option \<times> 'c"
  ca_insert :: "string \<Rightarrow> string \<Rightarrow> 'c \<Rightarrow> 'c"

text \<open>One member of a response to several queries.\<close>

datatype ('d, 'n) member =
    Collection 'd "'n list"
  | Whole_document 'd

record ('d, 'n) collection_doc =
  cd_members :: "('d, 'n) member list"
  cd_matched :: nat
  cd_returned :: nat
  cd_time :: string

record ('d, 'n, 'c) gf_env =
  ge_xml :: "('d, 'n) xml_ops"
  ge_cache :: "'c cache_ops"
  ge_error_response :: "query \<Rightarrow> error \<Rightarrow> string"
  ge_write_single :: "'d \<Rightarrow> 'n list \<Rightarrow> nat \<Rightarrow> string"
  ge_write_hits :: "nat \<Rightarrow> string \<Rightarrow> string"
  ge_write_multi :: "('d, 'n) collection_doc \<Rightarrow> string"
  ge_time :: string
  ge_default_expires :: int

text \<open>\<open>set_cached_response\<close>, and \<open>get_cached_responses\<close> with its result \<open>fast\<close>.\<close>

definition set_cached_response :: "string \<Rightarrow> query \<Rightarrow> query" where
  "set_cached_response response q = q\<lparr>qu_cached := Some response\<rparr>"

fun get_cached_responses :: "'c cache_ops \<Rightarrow> query list \<Rightarrow> 'c \<Rightarrow> query list \<times> bool \<times> 'c" where
  "get_cached_responses C [] c = ([], True, c)"
| "get_cached_responses C (q # qs) c =
     (case ca_find C (qu_key q) c of (cached, c1) \<Rightarrow>
      case get_cached_responses C qs c1 of (qs', found, c2) \<Rightarrow>
      (case cached of
         Some response \<Rightarrow> (set_cached_response response q # qs', found, c2)
       | None \<Rightarrow> (q # qs', False, c2)))"

definition smaller_stale :: "int \<Rightarrow> int \<Rightarrow> int" where
  "smaller_stale seconds smallest =
     (if smallest < 0 then seconds else if smallest > seconds then seconds else smallest)"

definition get_response_expires_seconds :: "int \<Rightarrow> query list \<Rightarrow> int" where
  "get_response_expires_seconds default_expires qs =
     (let smallest = fold (\<lambda>q. smaller_stale (qu_stale q)) qs (- 1)
      in if smallest \<ge> 0 then smallest else default_expires)"

section \<open>Running the queries\<close>

record 'c collected =
  co_responses :: "string list"
  co_succeeded :: bool
  co_cache :: 'c

definition collect_one ::
    "('d, 'n, 'c) gf_env \<Rightarrow> request_info \<Rightarrow> bool \<Rightarrow> query \<Rightarrow> 'c collected \<Rightarrow> 'c collected result" where
  "collect_one E r handle_errors q co = (case qu_cached q of
       Some response \<Rightarrow>
         Inr (co\<lparr>co_responses := co_responses co @ [substitute_all r response], co_succeeded := True\<rparr>)
     | None \<Rightarrow> (case qu_execute q (ri_language r) (ri_hostname r) of
           Inr response \<Rightarrow>
             Inr (co\<lparr>co_cache := ca_insert (ge_cache E) (qu_key q) response (co_cache co),
               co_responses := co_responses co @ [substitute_all r response], co_succeeded := True\<rparr>)
         | Inl (Undefined what) \<Rightarrow> Inl (Undefined what)
         | Inl (Thrown code msg) \<Rightarrow>
             if handle_errors
             then Inr (co\<lparr>co_responses := co_responses co @ [ge_error_response E q (Thrown code msg)]\<rparr>)
             else Inl (Thrown code msg)))"

definition collect_query_responses ::
    "('d, 'n, 'c) gf_env \<Rightarrow> request_info \<Rightarrow> bool \<Rightarrow> query list \<Rightarrow> 'c \<Rightarrow> 'c collected result" where
  "collect_query_responses E r handle_errors qs c =
     fold_result (collect_one E r handle_errors) qs \<lparr>co_responses = [], co_succeeded = False, co_cache = c\<rparr>"

section \<open>Paging\<close>

definition assert_use_default_format :: "presentation \<Rightarrow> unit result" where
  "assert_use_default_format spp =
     (if spp_format spp \<noteq> DEFAULT_OUTPUT_FORMAT then Inl (Thrown ProcessingFailed ''only with the default output format'')
      else Inr ())"

definition member_path :: "string \<Rightarrow> string" where
  "member_path prefix = ''/'' @ prefix @ ''FeatureCollection/'' @ prefix @ ''member''"

text \<open>\<open>select_response_members\<close> and \<open>AdHocQuery::filter\<close>.\<close>

definition select_response_members :: "('d, 'n) xml_ops \<Rightarrow> query \<Rightarrow> string \<Rightarrow> 'd \<Rightarrow> 'n list result" where
  "select_response_members X q prefix doc =
     (if qu_type q = QUERY
      then xo_select X doc (if qu_filter q = [] then ''//wfs:member'' else qu_filter q)
      else xo_select X doc (member_path prefix))"

definition lookup_prefix :: "('d, 'n) xml_ops \<Rightarrow> 'd \<Rightarrow> string result" where
  "lookup_prefix X doc =
     rbind (xo_lookup_prefix X doc) (\<lambda>prefix. Inr (if prefix \<noteq> [] then prefix @ '':'' else prefix))"

text \<open>
  \<open>get_item\<close> of a snapshot; what the XML library does with an index that is out of range is
  \<open>xo_no_item\<close>.
\<close>

definition get_item :: "('d, 'n) xml_ops \<Rightarrow> 'n list \<Rightarrow> int \<Rightarrow> 'n result" where
  "get_item X ms i = (if 0 \<le> i \<and> i < int (length ms) then Inr (ms ! nat i) else xo_no_item X i)"

text \<open>An \<open>int\<close> made of an unsigned number, and a sum of \<open>int\<close>s, which must not overflow.\<close>

definition to_int :: "nat \<Rightarrow> int" where
  "to_int n = sint (of_nat n :: 32 word)"

definition checked_int :: "int \<Rightarrow> int result" where
  "checked_int i = (if - (2 ^ 31) \<le> i \<and> i < 2 ^ 31 then Inr i else Inl (Undefined ''signed overflow''))"

definition page_members :: "('d, 'n) xml_ops \<Rightarrow> presentation \<Rightarrow> 'n list \<Rightarrow> 'n list result" where
  "page_members X spp ms =
     (let num_members = to_int (length ms);
          start_index = sint (spp_start spp);
          cnt = sint (spp_count spp)
      in rbind (checked_int (start_index + cnt)) (\<lambda>s.
         rbind (checked_int (s - 1)) (\<lambda>end_index.
         map_result (get_item X ms) [start_index .. min end_index (num_members - 1)])))"

definition create_hits_only_response ::
    "('d, 'n, 'c) gf_env \<Rightarrow> presentation \<Rightarrow> query \<Rightarrow> string \<Rightarrow> string result" where
  "create_hits_only_response E spp q src =
     (let X = ge_xml E in
      rbind (assert_use_default_format spp) (\<lambda>_.
      rbind (xo_parse X src) (\<lambda>doc.
      rbind (lookup_prefix X doc) (\<lambda>prefix.
      rbind (select_response_members X q prefix doc) (\<lambda>ms.
      Inr (ge_write_hits E (length ms) (opt_or [] (ro_time (xo_root X doc)))))))))"

definition XML_HEADER :: string where
  "XML_HEADER = ''<?xml version=\"1.0\" encoding=\"UTF-8\" ?>'' @ [CHR 0x0A]"

definition page_response ::
    "('d, 'n, 'c) gf_env \<Rightarrow> presentation \<Rightarrow> query \<Rightarrow> string \<Rightarrow> string result" where
  "page_response E spp q src =
     (let X = ge_xml E in
      rbind (assert_use_default_format spp) (\<lambda>_.
      rbind (xo_parse X src) (\<lambda>doc.
      rbind (lookup_prefix X doc) (\<lambda>prefix.
      rbind (select_response_members X q prefix doc) (\<lambda>ms.
      rbind (page_members X spp ms) (\<lambda>page.
      Inr (XML_HEADER @ ge_write_single E doc page (length page))))))))"


section \<open>Execution\<close>

record 'c gf_result =
  gr_output :: string
  gr_bad_request :: bool
  gr_cache :: 'c

definition execute_single_query ::
    "('d, 'n, 'c) gf_env \<Rightarrow> request_info \<Rightarrow> presentation \<Rightarrow> query \<Rightarrow> 'c \<Rightarrow> 'c gf_result result" where
  "execute_single_query E r spp q c =
     rbind (collect_query_responses E r False [q] c) (\<lambda>co. case co_responses co of
         [] \<Rightarrow> Inl (Thrown NoCode ''vector::at'')
       | src # _ \<Rightarrow>
           rbind (if spp_result spp = SPP_HITS then create_hits_only_response E spp q src
                  else if spp_have_counts spp \<or> qu_type q = QUERY then page_response E spp q src
                  else Inr src) (\<lambda>response.
           Inr \<lparr>gr_output = substitute_all r response, gr_bad_request = False, gr_cache = co_cache co\<rparr>))"

text \<open>
  Several queries: the members of all responses are counted together.  \<open>end_index\<close> is computed at
  the width of \<open>std::size_t\<close>; the members of a document are counted by natural numbers.
\<close>

fun import_members :: "nat \<Rightarrow> nat \<Rightarrow> 'n list \<Rightarrow> nat \<Rightarrow> nat \<Rightarrow> 'n list \<times> nat \<times> nat" where
  "import_members start_index end_index [] member_ind num_matched = ([], member_ind, num_matched)"
| "import_members start_index end_index (m # ms) member_ind num_matched =
     (case import_members start_index end_index ms (member_ind + 1) (num_matched + 1) of (rest, ind, matched) \<Rightarrow>
        (if member_ind \<ge> start_index \<and> member_ind \<le> end_index then m # rest else rest, ind, matched))"

definition multi_end_index :: "presentation \<Rightarrow> nat" where
  "multi_end_index spp = unat (ucast (spp_start spp) + ucast (spp_count spp) - 1 :: 64 word)"

record ('d, 'n) multi_state =
  mu_members :: "('d, 'n) member list"
  mu_index :: nat
  mu_matched :: nat
  mu_time :: "string option"

definition read_time_stamp :: "root_info \<Rightarrow> string option \<Rightarrow> string option" where
  "read_time_stamp root time_stamp = (case ro_time root of Some t \<Rightarrow> Some t | None \<Rightarrow> time_stamp)"

definition response_prefix :: "root_info \<Rightarrow> string" where
  "response_prefix root = (case ro_prefix root of Some p \<Rightarrow> p @ '':'' | None \<Rightarrow> '':'')"

definition is_feature_collection :: "root_info \<Rightarrow> bool" where
  "is_feature_collection root \<longleftrightarrow> ro_ns root = WFS_NAMESPACE_URI \<and> ro_name root = ''FeatureCollection''"

definition multi_step ::
    "('d, 'n) xml_ops \<Rightarrow> presentation \<Rightarrow> query \<times> string \<Rightarrow> ('d, 'n) multi_state \<Rightarrow> ('d, 'n) multi_state result" where
  "multi_step X spp p st = (case p of (q, response) \<Rightarrow>
     rbind (xo_parse X response) (\<lambda>doc.
       let root = xo_root X doc in
       if is_feature_collection root
       then (let st = st\<lparr>mu_time := read_time_stamp root (mu_time st)\<rparr> in
         rbind (select_response_members X q (response_prefix root) doc) (\<lambda>ms.
           if spp_result spp = SPP_HITS then Inr (st\<lparr>mu_index := mu_index st + length ms\<rparr>)
           else case import_members (unat (spp_start spp)) (multi_end_index spp) ms (mu_index st) (mu_matched st) of
               (imported, ind, matched) \<Rightarrow>
                 Inr (st\<lparr>mu_members := mu_members st @ [Collection doc imported], mu_index := ind,
                   mu_matched := matched\<rparr>)))
       else Inr (st\<lparr>mu_members := mu_members st @ [Whole_document doc]\<rparr>)))"

definition execute_multiple_queries ::
    "('d, 'n, 'c) gf_env \<Rightarrow> request_info \<Rightarrow> presentation \<Rightarrow> query list \<Rightarrow> 'c \<Rightarrow> 'c gf_result result" where
  "execute_multiple_queries E r spp qs c =
     rbind (assert_use_default_format spp) (\<lambda>_.
     rbind (collect_query_responses E r True qs c) (\<lambda>co.
     rbind (fold_result (multi_step (ge_xml E) spp) (zip qs (co_responses co))
         \<lparr>mu_members = [], mu_index = 0, mu_matched = 0, mu_time = None\<rparr>) (\<lambda>st.
     Inr \<lparr>gr_output = XML_HEADER @ ge_write_multi E
            \<lparr>cd_members = mu_members st, cd_matched = mu_index st, cd_returned = mu_matched st,
             cd_time = opt_or (ge_time E) (mu_time st)\<rparr>,
          gr_bad_request = (\<not> co_succeeded co \<and> qs \<noteq> []), gr_cache = co_cache co\<rparr>)))"

definition gf_execute ::
    "('d, 'n, 'c) gf_env \<Rightarrow> request_info \<Rightarrow> presentation \<Rightarrow> query list \<Rightarrow> 'c \<Rightarrow> 'c gf_result result" where
  "gf_execute E r spp qs c = (case qs of
       [] \<Rightarrow> Inr \<lparr>gr_output = [], gr_bad_request = False, gr_cache = c\<rparr>
     | [q] \<Rightarrow> execute_single_query E r spp q c
     | _ \<Rightarrow> execute_multiple_queries E r spp qs c)"

section \<open>The cache\<close>

text \<open>
  What the code relies on in a response cache: \<open>holds c k v\<close> if a look up of \<open>k\<close> may yield \<open>v\<close>.  A look
  up adds nothing, and an insertion adds nothing but its own item; items may get lost.
\<close>

definition cache_laws :: "'c cache_ops \<Rightarrow> ('c \<Rightarrow> string \<Rightarrow> string \<Rightarrow> bool) \<Rightarrow> bool" where
  "cache_laws C holds \<longleftrightarrow>
     (\<forall>k c v c'. ca_find C k c = (Some v, c') \<longrightarrow> holds c k v) \<and>
     (\<forall>k c x c' k' v. ca_find C k c = (x, c') \<longrightarrow> holds c' k' v \<longrightarrow> holds c k' v) \<and>
     (\<forall>k v c k' v'. holds (ca_insert C k v c) k' v' \<longrightarrow> k' = k \<and> v' = v \<or> holds c k' v')"

text \<open>\<open>ok k v\<close> says that \<open>v\<close> is an answer for the key \<open>k\<close>.\<close>

definition query_answers :: "request_info \<Rightarrow> (string \<Rightarrow> string \<Rightarrow> bool) \<Rightarrow> query \<Rightarrow> bool" where
  "query_answers r ok q \<longleftrightarrow>
     (\<forall>v. qu_execute q (ri_language r) (ri_hostname r) = Inr v \<longrightarrow> ok (qu_key q) v) \<and>
     (\<forall>v. qu_cached q = Some v \<longrightarrow> ok (qu_key q) v)"

definition cache_ok :: "('c \<Rightarrow> string \<Rightarrow> string \<Rightarrow> bool) \<Rightarrow> (string \<Rightarrow> string \<Rightarrow> bool) \<Rightarrow> 'c \<Rightarrow> bool" where
  "cache_ok holds ok c \<longleftrightarrow> (\<forall>k v. holds c k v \<longrightarrow> ok k v)"

lemma get_cached_responses_ok:
  assumes laws: "cache_laws C holds"
  shows "cache_ok holds ok c \<Longrightarrow> list_all (query_answers r ok) qs \<Longrightarrow>
    get_cached_responses C qs c = (qs', found, c') \<Longrightarrow>
    list_all (query_answers r ok) qs' \<and> cache_ok holds ok c' \<and> map qu_key qs' = map qu_key qs \<and>
    (found \<longrightarrow> list_all (\<lambda>q. qu_cached q \<noteq> None) qs')"
proof (induction qs arbitrary: c qs' found c')
  case Nil
  then show ?case by simp
next
  case (Cons q qs)
  obtain cached c1 where find: "ca_find C (qu_key q) c = (cached, c1)" by (cases "ca_find C (qu_key q) c")
  obtain qs2 found2 c2 where rest: "get_cached_responses C qs c1 = (qs2, found2, c2)"
    by (cases "get_cached_responses C qs c1")
  from laws find Cons.prems(1) have "cache_ok holds ok c1"
    unfolding cache_laws_def cache_ok_def by blast
  moreover have "\<And>v. cached = Some v \<Longrightarrow> ok (qu_key q) v"
    using laws find Cons.prems(1) unfolding cache_laws_def cache_ok_def by blast
  ultimately show ?case
    using Cons.IH [OF _ _ rest] Cons.prems find rest
    by (auto simp: query_answers_def set_cached_response_def split: option.splits)
qed

definition answered :: "('d, 'n, 'c) gf_env \<Rightarrow> request_info \<Rightarrow> (string \<Rightarrow> string \<Rightarrow> bool) \<Rightarrow> bool \<Rightarrow> query \<Rightarrow> string \<Rightarrow> bool" where
  "answered E r ok handle_errors q response \<longleftrightarrow>
     (\<exists>v. ok (qu_key q) v \<and> response = substitute_all r v) \<or>
     handle_errors \<and> (\<exists>code msg. response = ge_error_response E q (Thrown code msg))"

lemma collect_one_answers:
  assumes "collect_one E r h q co = Inr co'" and "query_answers r ok q" "cache_ok holds ok (co_cache co)"
    and "cache_laws (ge_cache E) holds"
  shows "cache_ok holds ok (co_cache co') \<and>
    (\<exists>response. co_responses co' = co_responses co @ [response] \<and> answered E r ok h q response)"
  using assms(1,2,3)
  by (auto simp: collect_one_def answered_def query_answers_def cache_ok_def cache_laws_def
      dest!: assms(4) [unfolded cache_laws_def, THEN conjunct2, THEN conjunct2, rule_format]
      split: option.splits sum.splits error.splits if_splits) blast

lemma collect_answers:
  assumes "fold_result (collect_one E r h) qs co = Inr co'" and "list_all (query_answers r ok) qs"
    and "cache_ok holds ok (co_cache co)" and "cache_laws (ge_cache E) holds"
  shows "cache_ok holds ok (co_cache co') \<and>
    (\<exists>responses. co_responses co' = co_responses co @ responses \<and> list_all2 (answered E r ok h) qs responses)"
  using assms(1-3)
proof (induction qs arbitrary: co)
  case Nil
  then show ?case by simp
next
  case (Cons q qs)
  from Cons.prems(1) obtain co1 where co1: "collect_one E r h q co = Inr co1"
    and rest: "fold_result (collect_one E r h) qs co1 = Inr co'"
    by (auto simp: result_simps)
  from Cons.prems collect_one_answers [OF co1 _ _ assms(4), of ok]
  obtain response where one: "cache_ok holds ok (co_cache co1)" "co_responses co1 = co_responses co @ [response]"
    "answered E r ok h q response"
    by auto
  from Cons.IH [OF rest _ one(1)] Cons.prems(2) one show ?case by fastforce
qed

section \<open>Paging\<close>

lemma import_members_enumerate:
  "import_members s e ms ind matched =
     (map snd (filter (\<lambda>p. s \<le> fst p \<and> fst p \<le> e) (enumerate ind ms)), ind + length ms, matched + length ms)"
  by (induction ms arbitrary: ind matched) auto

lemma slice_enumerate:
  "map snd (filter (\<lambda>p. s \<le> fst p \<and> fst p \<le> e) (enumerate 0 xs)) = take (Suc e - s) (drop s xs)"
proof (induction xs rule: rev_induct)
  case Nil
  then show ?case by simp
next
  case (snoc x xs)
  show ?case
    using snoc.IH by (cases "s \<le> length xs") (auto simp: enumerate_append_eq not_less Suc_diff_le)
qed

lemma enumerate_append_snd:
  "map snd (filter P (enumerate n (xs @ ys))) =
    map snd (filter P (enumerate n xs)) @ map snd (filter P (enumerate (n + length xs) ys))"
  by (simp add: enumerate_append_eq)

lemma map_result_upto:
  assumes "0 \<le> a" "\<And>i. a \<le> i \<Longrightarrow> i \<le> b \<Longrightarrow> f i = Inr (xs ! nat i)" "b < int (length xs)"
  shows "map_result f [a .. b] = Inr (take (nat (b - a + 1)) (drop (nat a) xs))"
  using assms
  by (auto simp: map_result_Inr_iff list_all2_conv_all_nth nat_add_distrib)

lemma sint_small:
  fixes w :: "32 word"
  assumes "unat w < 2 ^ 31"
  shows "sint w = int (unat w)"
proof -
  have w: "uint w = int (unat w)" by simp
  have "- (2 ^ 31) \<le> int (unat w)"
    by (rule order_trans [OF _ of_nat_0_le_iff]) simp
  moreover have "int (unat w) < 2 ^ 31"
    using assms by (metis of_nat_less_iff of_nat_numeral of_nat_power)
  ultimately have "signed_take_bit 31 (int (unat w)) = int (unat w)"
    by (rule signed_take_bit_int_eq_self)
  then show ?thesis by (simp only: sint_uint w) simp
qed

lemma to_int_small: "n < 2 ^ 31 \<Longrightarrow> to_int n = int n"
  by (simp add: to_int_def sint_small unat_of_nat)

lemma page_members_slice:
  assumes "length ms < 2 ^ 31" "unat (spp_start spp) + unat (spp_count spp) < 2 ^ 31"
  shows "page_members X spp ms = Inr (take (unat (spp_count spp)) (drop (unat (spp_start spp)) ms))"
proof -
  define a n where "a = unat (spp_start spp)" and "n = unat (spp_count spp)"
  define e where "e = min (int a + int n - 1) (int (length ms) - 1)"
  have small: "a + n < 2 ^ 31" using assms by (simp add: a_def n_def)
  have ints: "sint (spp_start spp) = int a" "sint (spp_count spp) = int n" "to_int (length ms) = int (length ms)"
    using assms by (simp_all only: a_def n_def sint_small to_int_small)
  have "checked_int (int a + int n) = Inr (int a + int n)" "checked_int (int a + int n - 1) = Inr (int a + int n - 1)"
    using small by (simp_all add: checked_int_def)
  then have "page_members X spp ms = map_result (get_item X ms) [int a .. e]"
    by (simp add: page_members_def Let_def ints e_def)
  also have "\<dots> = Inr (take (nat (e - int a + 1)) (drop (nat (int a)) ms))"
    by (rule map_result_upto) (auto simp: get_item_def e_def)
  also have "take (nat (e - int a + 1)) (drop (nat (int a)) ms) = take n (drop a ms)"
  proof (cases "a + n \<le> length ms")
    case True
    then show ?thesis by (simp add: e_def)
  next
    case False
    then have "length (drop a ms) \<le> nat (e - int a + 1)" "length (drop a ms) \<le> n"
      by (auto simp: e_def)
    then show ?thesis by (metis take_all nat_int)
  qed
  finally show ?thesis by (simp add: a_def n_def)
qed

text \<open>The end index of several queries, at 64 bits.\<close>

lemma multi_end_index_value:
  "multi_end_index spp =
     (if spp_start spp = 0 \<and> spp_count spp = 0 then 2 ^ 64 - 1 else unat (spp_start spp) + unat (spp_count spp) - 1)"
proof -
  let ?a = "ucast (spp_start spp) :: 64 word" and ?b = "ucast (spp_count spp) :: 64 word"
  have bound: "unat (spp_start spp) < 2 ^ 32" "unat (spp_count spp) < 2 ^ 32"
    by (rule order_less_le_trans [OF unsigned_less], simp)+
  then have u: "unat ?a = unat (spp_start spp)" "unat ?b = unat (spp_count spp)"
    by (simp_all add: unsigned_ucast_eq take_bit_nat_eq_self)
  have sum: "unat (?a + ?b) = unat (spp_start spp) + unat (spp_count spp)"
    using bound by (simp add: unat_word_ariths u)
  show ?thesis
  proof (cases "spp_start spp = 0 \<and> spp_count spp = 0")
    case True
    then show ?thesis by (simp add: multi_end_index_def unsigned_minus_1_eq_mask mask_eq_exp_minus_1)
  next
    case False
    then have "?a + ?b \<noteq> 0" using sum by (metis add_is_0 unat_0 unat_eq_zero)
    then have "unat (?a + ?b - 1) = unat (?a + ?b) - 1" by (rule unat_minus_one)
    with False sum show ?thesis by (simp add: multi_end_index_def)
  qed
qed


section \<open>Members of several responses\<close>

fun part_members :: "('d, 'n) member \<Rightarrow> 'n list" where
  "part_members (Collection _ ms) = ms"
| "part_members (Whole_document _) = []"

text \<open>\<open>response_members X (q, response) ms\<close>: the response is a feature collection with the members \<open>ms\<close>.\<close>

definition response_members :: "('d, 'n) xml_ops \<Rightarrow> query \<times> string \<Rightarrow> 'n list \<Rightarrow> bool" where
  "response_members X p ms \<longleftrightarrow> (\<exists>doc. xo_parse X (snd p) = Inr doc \<and> is_feature_collection (xo_root X doc) \<and>
     select_response_members X (fst p) (response_prefix (xo_root X doc)) doc = Inr ms)"

definition in_page :: "presentation \<Rightarrow> nat \<times> 'n \<Rightarrow> bool" where
  "in_page spp p \<longleftrightarrow> unat (spp_start spp) \<le> fst p \<and> fst p \<le> multi_end_index spp"

lemma multi_step_members:
  assumes "response_members X p ms"
  shows "\<exists>st'. multi_step X spp p st = Inr st' \<and> mu_index st' = mu_index st + length ms \<and>
    (if spp_result spp = SPP_HITS then mu_members st' = mu_members st \<and> mu_matched st' = mu_matched st
     else concat (map part_members (mu_members st')) =
         concat (map part_members (mu_members st)) @ map snd (filter (in_page spp) (enumerate (mu_index st) ms)) \<and>
       mu_matched st' = mu_matched st + length ms)"
  using assms
  by (cases "spp_result spp = SPP_HITS")
    (auto simp: multi_step_def response_members_def import_members_enumerate in_page_def [abs_def]
      Let_def split: prod.splits)

lemma multi_fold_members:
  assumes "list_all2 (response_members X) ps mss"
  shows "\<exists>st'. fold_result (multi_step X spp) ps st = Inr st' \<and>
    mu_index st' = mu_index st + length (concat mss) \<and>
    (if spp_result spp = SPP_HITS then mu_members st' = mu_members st \<and> mu_matched st' = mu_matched st
     else concat (map part_members (mu_members st')) =
         concat (map part_members (mu_members st)) @
         map snd (filter (in_page spp) (enumerate (mu_index st) (concat mss))) \<and>
       mu_matched st' = mu_matched st + length (concat mss))"
  using assms
proof (induction ps mss arbitrary: st rule: list_all2_induct)
  case Nil
  then show ?case by simp
next
  case (Cons p ps ms mss)
  obtain st1 where one: "multi_step X spp p st = Inr st1" "mu_index st1 = mu_index st + length ms"
    "if spp_result spp = SPP_HITS then mu_members st1 = mu_members st \<and> mu_matched st1 = mu_matched st
     else concat (map part_members (mu_members st1)) =
         concat (map part_members (mu_members st)) @ map snd (filter (in_page spp) (enumerate (mu_index st) ms)) \<and>
       mu_matched st1 = mu_matched st + length ms"
    using multi_step_members [OF Cons.hyps(1)] by blast
  with Cons.IH [of st1] show ?case
    by (cases "spp_result spp = SPP_HITS") (auto simp: enumerate_append_snd)
qed

lemma page_slice:
  assumes "length xs < 2 ^ 64"
  shows "map snd (filter (in_page spp) (enumerate 0 xs)) =
    (if spp_start spp = 0 \<and> spp_count spp = 0 then xs
     else take (unat (spp_count spp)) (drop (unat (spp_start spp)) xs))"
proof (cases "spp_start spp = 0 \<and> spp_count spp = 0")
  case True
  have "map snd (filter (in_page spp) (enumerate 0 xs)) = take (Suc (multi_end_index spp)) xs"
    using slice_enumerate [of "unat (spp_start spp)" "multi_end_index spp" xs] True
    by (simp add: in_page_def [abs_def])
  also have "\<dots> = xs"
    using True assms by (simp add: multi_end_index_value)
  finally show ?thesis using True by simp
next
  case False
  then have "unat (spp_start spp) + unat (spp_count spp) \<noteq> 0" by (auto simp: unat_eq_zero)
  then have "Suc (multi_end_index spp) - unat (spp_start spp) = unat (spp_count spp)"
    using False by (simp add: multi_end_index_value)
  then have "map snd (filter (in_page spp) (enumerate 0 xs)) =
      take (unat (spp_count spp)) (drop (unat (spp_start spp)) xs)"
    using slice_enumerate [of "unat (spp_start spp)" "multi_end_index spp" xs]
    by (simp add: in_page_def [abs_def])
  with False show ?thesis by (simp only: if_not_P [OF False] if_False)
qed


lemma collect_single:
  "collect_query_responses E r False [q] c = Inr co \<Longrightarrow> \<exists>src. co_responses co = [src]"
  by (auto simp: collect_query_responses_def collect_one_def result_simps
      split: option.splits sum.splits error.splits if_splits)

lemma execute_single_Inr:
  assumes "execute_single_query E r spp q c = Inr res"
  obtains co src where "collect_query_responses E r False [q] c = Inr co" "co_responses co = [src]"
    "gr_cache res = co_cache co"
    "spp_result spp = SPP_RESULTS \<and> \<not> spp_have_counts spp \<and> qu_type q = STORED_QUERY \<longrightarrow>
       gr_output res = substitute_all r src"
proof -
  from assms obtain co where co: "collect_query_responses E r False [q] c = Inr co"
    by (auto simp: execute_single_query_def result_simps)
  from collect_single [OF this] obtain src where src: "co_responses co = [src]" by blast
  show ?thesis
    by (rule that [OF co src]) (use assms co src in \<open>auto simp: execute_single_query_def result_simps\<close>)
qed

section \<open>Properties\<close>





section \<open>Examples\<close>

text \<open>Documents are strings whose members are their characters.\<close>

definition demo_xml :: "(string, char) xml_ops" where
  "demo_xml = \<lparr>xo_parse = Inr,
     xo_root = (\<lambda>_. \<lparr>ro_name = ''FeatureCollection'', ro_ns = WFS_NAMESPACE_URI, ro_prefix = Some ''wfs'', ro_time = None\<rparr>),
     xo_lookup_prefix = (\<lambda>_. Inr ''wfs''), xo_select = (\<lambda>d _. Inr d),
     xo_no_item = (\<lambda>_. Inl (Thrown NoCode ''no item''))\<rparr>"

definition demo_cache :: "(string \<times> string) list cache_ops" where
  "demo_cache = \<lparr>ca_find = (\<lambda>k c. (map_of c k, c)), ca_insert = (\<lambda>k v c. (k, v) # c)\<rparr>"

definition demo_gf :: "(string, char, (string \<times> string) list) gf_env" where
  "demo_gf = \<lparr>ge_xml = demo_xml, ge_cache = demo_cache, ge_error_response = (\<lambda>_ _. ''error''),
     ge_write_single = (\<lambda>_ page _. page), ge_write_hits = (\<lambda>_ _. []),
     ge_write_multi = (\<lambda>d. concat (map part_members (cd_members d))), ge_time = ''now'', ge_default_expires = 60\<rparr>"

definition demo_info :: request_info where
  "demo_info = \<lparr>ri_language = ''fi'', ri_apikey = None, ri_apikey_prefix = None, ri_hostname = None, ri_protocol = None\<rparr>"

definition demo_spp :: "32 word \<Rightarrow> 32 word \<Rightarrow> presentation" where
  "demo_spp start_index cnt = \<lparr>spp_have_counts = True, spp_start = start_index, spp_count = cnt,
     spp_format = DEFAULT_OUTPUT_FORMAT, spp_result = SPP_RESULTS\<rparr>"

definition demo_q :: "string \<Rightarrow> string \<Rightarrow> query" where
  "demo_q k response = \<lparr>qu_type = STORED_QUERY, qu_key = k, qu_stale = 10, qu_cached = None, qu_filter = [],
     qu_execute = (\<lambda>_ _. Inr response)\<rparr>"

lemma demo_cache_laws: "cache_laws (ge_cache demo_gf) (\<lambda>c k v. (k, v) \<in> set c)"
  by (auto simp: cache_laws_def demo_gf_def demo_cache_def dest: map_of_SomeD)




end
