(* ===== verification/XmlParams.thy ===== *)
theory XmlParams
  imports ParamDef
begin

text \<open>
  \<open>libwfs/XmlParameterExtractor.cpp\<close>, \<open>XmlGmlTypes.cpp\<close> and the part of \<open>XmlUtils.cpp\<close> they use:
  values of request parameters from XML elements.  An element is given by its tag, local name and
  name space, its attributes and its child nodes; entities and name spaces are resolved by the
  parser.  \<open>std::stol\<close> and \<open>std::stoul\<close> are modelled; the conversions to a \<open>double\<close>, a time and a
  \<open>bool\<close> are arguments.
\<close>

section \<open>Elements\<close>

datatype xnode =
    XElement string string string "(string \<times> string) list" "xnode list"
  | XText string
  | XComment string
  | XOther

fun xn_tag :: "xnode \<Rightarrow> string" where
  "xn_tag (XElement tag _ _ _ _) = tag" | "xn_tag _ = []"

fun xn_local :: "xnode \<Rightarrow> string" where
  "xn_local (XElement _ name _ _ _) = name" | "xn_local _ = []"

fun xn_ns :: "xnode \<Rightarrow> string" where
  "xn_ns (XElement _ _ ns _ _) = ns" | "xn_ns _ = []"

fun get_attr :: "xnode \<Rightarrow> string \<Rightarrow> string option" where
  "get_attr (XElement _ _ _ attrs _) name = map_of attrs name" | "get_attr _ _ = None"

fun xn_children :: "xnode \<Rightarrow> xnode list" where
  "xn_children (XElement _ _ _ _ cs) = cs" | "xn_children _ = []"

fun is_element :: "xnode \<Rightarrow> bool" where
  "is_element (XElement _ _ _ _ _) = True" | "is_element _ = False"

text \<open>A name \<open>*\<close> matches every name, and so for the name space.\<close>

definition get_child_elements :: "xnode \<Rightarrow> string \<Rightarrow> string \<Rightarrow> xnode list" where
  "get_child_elements el ns name =
     filter (\<lambda>c. is_element c \<and> (ns = ''*'' \<or> xn_ns c = ns) \<and> (name = ''*'' \<or> xn_local c = name)) (xn_children el)"

fun text_of_nodes :: "xnode list \<Rightarrow> string result" where
  "text_of_nodes [] = Inr []"
| "text_of_nodes (XText s # ns) = rbind (text_of_nodes ns) (\<lambda>t. Inr (s @ t))"
| "text_of_nodes (XComment _ # ns) = text_of_nodes ns"
| "text_of_nodes (_ # ns) = Inl (Thrown NoCode ''Unsupported XML node'')"

definition extract_text :: "xnode \<Rightarrow> string result" where
  "extract_text el = text_of_nodes (xn_children el)"

section \<open>Numbers\<close>

text \<open>
  \<open>std::stol\<close> and \<open>std::stoul\<close>: white space, a sign, and as many digits as there are; what follows
  them is ignored.  \<open>std::stoul\<close> takes a minus sign too and negates the number at 64 bits.
\<close>

definition scan_sign :: "string \<Rightarrow> bool \<times> string" where
  "scan_sign s = (case s of
       [] \<Rightarrow> (False, [])
     | c # r \<Rightarrow> if c = CHR ''-'' then (True, r) else if c = CHR ''+'' then (False, r) else (False, s))"

definition scan_number :: "string \<Rightarrow> (bool \<times> nat) option" where
  "scan_number s =
     (let (neg, r) = scan_sign (dropWhile isspace s); ds = takeWhile isdigit r
      in if ds = [] then None else Some (neg, read_nat ds))"

definition stol :: "string \<Rightarrow> int result" where
  "stol s = (case scan_number s of
       None \<Rightarrow> Inl (Thrown NoCode ''stol'')
     | Some (neg, n) \<Rightarrow>
         let v = (if neg then - int n else int n)
         in if - (2 ^ 63) \<le> v \<and> v < 2 ^ 63 then Inr v else Inl (Thrown NoCode ''stol''))"

definition stoul :: "string \<Rightarrow> nat result" where
  "stoul s = (case scan_number s of
       None \<Rightarrow> Inl (Thrown NoCode ''stoul'')
     | Some (neg, n) \<Rightarrow>
         if 2 ^ 64 \<le> n then Inl (Thrown NoCode ''stoul'')
         else Inr (if neg then (2 ^ 64 - n) mod 2 ^ 64 else n))"

record 'dt xml_conv =
  xc_double :: "string \<Rightarrow> double result"
  xc_time :: "string \<Rightarrow> 'dt result"
  xc_bool :: "string \<Rightarrow> bool result"

text \<open>\<open>boost::algorithm::split\<close> by a class of characters with \<open>token_compress_on\<close>.\<close>

function split_compress :: "(char \<Rightarrow> bool) \<Rightarrow> string \<Rightarrow> string list" where
  "split_compress P [] = [[]]"
| "split_compress P (c # cs) =
     (if P c then [] # split_compress P (dropWhile P cs)
      else case split_compress P cs of [] \<Rightarrow> [[c]] | w # ws \<Rightarrow> (c # w) # ws)"
  by pat_completeness auto
termination by (relation "measure (\<lambda>(_, s). length s)") (auto simp: le_imp_less_Suc length_dropWhile_le)

definition is_blank :: "char \<Rightarrow> bool" where
  "is_blank c \<longleftrightarrow> c = CHR '' '' \<or> c = CHR 0x09 \<or> c = CHR 0x0D \<or> c = CHR 0x0A"

section \<open>GML types\<close>

record srs_info =
  si_axis_labels :: "string list"
  si_uom_labels :: "string list"

record srs_reference =
  sr_name :: "string option"
  sr_dimension :: "nat option"
  sr_info :: "srs_info option"

record direct_position =
  dp_srs :: srs_reference
  dp_data :: "double list"

record envelope =
  en_srs :: srs_reference
  en_lower :: direct_position
  en_upper :: direct_position

definition label_sep :: "char \<Rightarrow> bool" where
  "label_sep c \<longleftrightarrow> c = CHR '' '' \<or> c = CHR 0x09"

definition read_gml_srs_info_group :: "xnode \<Rightarrow> srs_info option result" where
  "read_gml_srs_info_group el = (case (get_attr el ''axisLabels'', get_attr el ''uomLabels'') of
       (Some axis, Some uom) \<Rightarrow>
         Inr (Some \<lparr>si_axis_labels = split_compress label_sep (trim_copy axis),
           si_uom_labels = split_compress label_sep (trim_copy uom)\<rparr>)
     | (None, None) \<Rightarrow> Inr None
     | _ \<Rightarrow> Inl (Thrown ProcessingFailed ''Invalid attribute usage''))"

text \<open>The dimension is an \<open>unsigned\<close>.\<close>

definition read_gml_srs_reference_group :: "xnode \<Rightarrow> srs_reference result" where
  "read_gml_srs_reference_group el =
     rbind (read_gml_srs_info_group el) (\<lambda>info.
     rbind (case get_attr el ''srsDimension'' of
         Some s \<Rightarrow> rbind (stoul s) (\<lambda>n. Inr (Some (n mod 2 ^ 32)))
       | None \<Rightarrow> Inr None) (\<lambda>dim.
     Inr \<lparr>sr_name = get_attr el ''srsName'', sr_dimension = dim, sr_info = info\<rparr>))"

definition read_gml_direct_position_type :: "'dt xml_conv \<Rightarrow> xnode \<Rightarrow> direct_position result" where
  "read_gml_direct_position_type C el =
     rbind (read_gml_srs_reference_group el) (\<lambda>srs.
     rbind (extract_text el) (\<lambda>content.
     rbind (map_result (xc_double C) (split_compress is_blank (trim_copy content))) (\<lambda>data.
     if (case sr_dimension srs of Some d \<Rightarrow> d \<noteq> length data | None \<Rightarrow> False)
     then Inl (Thrown ProcessingFailed ''Invalid number of values'')
     else Inr \<lparr>dp_srs = srs, dp_data = data\<rparr>)))"

text \<open>\<open>WfsConst.h\<close>\<close>

definition GML_NAMESPACE_URI :: string where
  "GML_NAMESPACE_URI = ''http://www.opengis.net/gml/3.2''"

definition envelope_corners :: "'dt xml_conv \<Rightarrow> xnode \<Rightarrow> (direct_position \<times> direct_position) result" where
  "envelope_corners C el =
     (case (get_child_elements el GML_NAMESPACE_URI ''lowerCorner'', get_child_elements el GML_NAMESPACE_URI ''upperCorner'') of
        ([lower], [upper]) \<Rightarrow>
          rbind (read_gml_direct_position_type C lower) (\<lambda>a.
          rbind (read_gml_direct_position_type C upper) (\<lambda>b. Inr (a, b)))
      | _ \<Rightarrow>
        (case get_child_elements el GML_NAMESPACE_URI ''pos'' of
           [lower, upper] \<Rightarrow>
             rbind (read_gml_direct_position_type C lower) (\<lambda>a.
             rbind (read_gml_direct_position_type C upper) (\<lambda>b. Inr (a, b)))
         | _ \<Rightarrow>
             if length (get_child_elements el GML_NAMESPACE_URI ''coordinates'') = 1
             then Inl (Thrown ProcessingFailed ''Feature not implemented'')
             else Inl (Thrown ProcessingFailed ''Failed to read gml::EnvelopeType from the XML'')))"

definition read_gml_envelope_type :: "'dt xml_conv \<Rightarrow> xnode \<Rightarrow> envelope result" where
  "read_gml_envelope_type C el =
     rbind (envelope_corners C el) (\<lambda>(lower, upper).
     rbind (read_gml_srs_reference_group el) (\<lambda>srs.
     if length (dp_data lower) = length (dp_data upper) \<and>
        (sr_dimension srs = None \<or>
         sr_dimension srs = Some (length (dp_data lower)) \<and> sr_dimension srs = Some (length (dp_data upper)))
     then Inr \<lparr>en_srs = srs\<lparr>sr_dimension := Some (length (dp_data lower))\<rparr>, en_lower = lower, en_upper = upper\<rparr>
     else Inl (Thrown ProcessingFailed ''Conflicting data provided in the XML'')))"

section \<open>Extractors\<close>

definition int_value :: "int \<Rightarrow> 'dt spine_value" where
  "int_value i = VInt (word_of_int i)"

definition extract_string :: "xnode \<Rightarrow> 'dt spine_value list result" where
  "extract_string el = rbind (extract_text el) (\<lambda>content. Inr [VString content])"

definition extract_boolean :: "'dt xml_conv \<Rightarrow> xnode \<Rightarrow> 'dt spine_value list result" where
  "extract_boolean C el = rbind (extract_text el) (\<lambda>content. rbind (xc_bool C content) (\<lambda>b. Inr [VBool b]))"

definition extract_integer :: "int \<Rightarrow> int \<Rightarrow> xnode \<Rightarrow> 'dt spine_value list result" where
  "extract_integer lower_limit upper_limit el =
     rbind (extract_text el) (\<lambda>content. rbind (stol content) (\<lambda>int_val.
     if lower_limit \<le> int_val \<and> int_val \<le> upper_limit then Inr [int_value int_val]
     else Inl (Thrown NoCode ''value is out of range'')))"

definition extract_unsigned_integer :: "nat \<Rightarrow> nat \<Rightarrow> xnode \<Rightarrow> 'dt spine_value list result" where
  "extract_unsigned_integer lower_limit upper_limit el =
     rbind (extract_text el) (\<lambda>content. rbind (stoul content) (\<lambda>uint_val.
     if lower_limit \<le> uint_val \<and> uint_val \<le> upper_limit then Inr [VUInt (of_nat uint_val)]
     else Inl (Thrown NoCode ''value is out of range'')))"

definition extract_double :: "'dt xml_conv \<Rightarrow> xnode \<Rightarrow> 'dt spine_value list result" where
  "extract_double C el = rbind (extract_text el) (\<lambda>content. rbind (xc_double C content) (\<lambda>x. Inr [VDouble x]))"

definition extract_date_time :: "'dt xml_conv \<Rightarrow> xnode \<Rightarrow> 'dt spine_value list result" where
  "extract_date_time C el =
     rbind (extract_text el) (\<lambda>content. rbind (xc_time C (trim_copy content)) (\<lambda>t. Inr [VTime t]))"

definition extract_name_list :: "xnode \<Rightarrow> 'dt spine_value list result" where
  "extract_name_list el =
     rbind (extract_text el) (\<lambda>content. Inr (map VString (split_compress is_blank (trim_copy content))))"

definition extract_double_list :: "'dt xml_conv \<Rightarrow> xnode \<Rightarrow> 'dt spine_value list result" where
  "extract_double_list C el =
     rbind (extract_text el) (\<lambda>content.
     rbind (map_result (xc_double C) (split_compress (\<lambda>c. c = CHR '' '') (trim_copy content))) (\<lambda>xs.
     Inr (map VDouble xs)))"

definition extract_integer_list :: "xnode \<Rightarrow> 'dt spine_value list result" where
  "extract_integer_list el =
     rbind (extract_text el) (\<lambda>content.
     rbind (map_result stol (split_compress (\<lambda>c. c = CHR '' '') (trim_copy content))) (\<lambda>ints.
     Inr (map int_value ints)))"


text \<open>An access with \<open>operator[]\<close> is undefined beyond the end.\<close>

definition vec_at :: "'a list \<Rightarrow> nat \<Rightarrow> 'a result" where
  "vec_at xs i = (if i < length xs then Inr (xs ! i) else Inl (Undefined ''operator[]''))"

definition extract_gml_pos :: "'dt xml_conv \<Rightarrow> xnode \<Rightarrow> 'dt spine_value list result" where
  "extract_gml_pos C el = (case get_child_elements el GML_NAMESPACE_URI ''pos'' of
       [p] \<Rightarrow>
         rbind (read_gml_direct_position_type C p) (\<lambda>pos.
         if length (dp_data pos) = 2
         then rbind (vec_at (dp_data pos) 0) (\<lambda>x. rbind (vec_at (dp_data pos) 1) (\<lambda>y. Inr [VDouble x, VDouble y]))
         else Inl (Thrown NoCode ''Unexpected size of gml:DirectPositionType''))
     | _ \<Rightarrow> Inl (Thrown NoCode ''Exactly one instance of element pos expected''))"

definition envelope_bbox :: "envelope \<Rightarrow> 'dt spine_value list result" where
  "envelope_bbox e = (case sr_dimension (en_srs e) of
       None \<Rightarrow> Inl (Undefined ''empty optional'')
     | Some dim \<Rightarrow>
         if dim = 2
         then rbind (vec_at (dp_data (en_lower e)) 0) (\<lambda>x1.
              rbind (vec_at (dp_data (en_lower e)) 1) (\<lambda>y1.
              rbind (vec_at (dp_data (en_upper e)) 0) (\<lambda>x2.
              rbind (vec_at (dp_data (en_upper e)) 1) (\<lambda>y2.
              Inr [VBBox x1 y1 x2 y2 (case sr_name (en_srs e) of Some n \<Rightarrow> n | None \<Rightarrow> ''EPSG::4326'')]))))
         else Inl (Thrown NoCode ''Unexpected value of srsDimension''))"

definition extract_gml_envelope :: "'dt xml_conv \<Rightarrow> xnode \<Rightarrow> 'dt spine_value list result" where
  "extract_gml_envelope C el = (case get_child_elements el GML_NAMESPACE_URI ''Envelope'' of
       [e] \<Rightarrow> rbind (read_gml_envelope_type C e) envelope_bbox
     | _ \<Rightarrow> Inl (Thrown NoCode ''Exactly one instance of element Envelope expected''))"

text \<open>The types of \<open>ParameterExtractor\<close>: ranges of the integer types, then the table itself.\<close>

definition int_ranges :: "(string \<times> int \<times> int) list" where
  "int_ranges =
    [(''byte'', - (2 ^ 7), 2 ^ 7 - 1), (''short'', - (2 ^ 15), 2 ^ 15 - 1), (''int'', - (2 ^ 31), 2 ^ 31 - 1),
     (''long'', - (2 ^ 63), 2 ^ 63 - 1), (''integer'', - (2 ^ 63), 2 ^ 63 - 1),
     (''negativeInteger'', - (2 ^ 63), - 1), (''nonNegativeInteger'', 0, 2 ^ 63 - 1),
     (''nonPositiveInteger'', - (2 ^ 63), 0), (''positiveInteger'', 1, 2 ^ 63 - 1)]"

definition uint_ranges :: "(string \<times> nat \<times> nat) list" where
  "uint_ranges =
    [(''unsignedByte'', 0, 2 ^ 8 - 1), (''unsignedShort'', 0, 2 ^ 16 - 1), (''unsignedInt'', 0, 2 ^ 32 - 1),
     (''unsignedLong'', 0, 2 ^ 64 - 1), (''unsignedInteger'', 0, 2 ^ 64 - 1)]"

definition extractor_map :: "'dt xml_conv \<Rightarrow> (string \<times> (xnode \<Rightarrow> 'dt spine_value list result)) list" where
  "extractor_map C =
     (''string'', extract_string) #
     map (\<lambda>(name, lo, hi). (name, extract_integer lo hi)) int_ranges @
     map (\<lambda>(name, lo, hi). (name, extract_unsigned_integer lo hi)) uint_ranges @
    [(''boolean'', extract_boolean C), (''float'', extract_double C), (''double'', extract_double C),
     (''dateTime'', extract_date_time C), (''NameList'', extract_name_list),
     (''doubleList'', extract_double_list C), (''integerList'', extract_integer_list),
     (''pos'', extract_gml_pos C), (''Envelope'', extract_gml_envelope C), (''language'', extract_string)]"

text \<open>The prefix of a type name is ignored.\<close>

definition type_local_name :: "string \<Rightarrow> string" where
  "type_local_name xml_type =
     (if CHR '':'' \<in> set xml_type then tl (dropWhile (\<lambda>c. c \<noteq> CHR '':'') xml_type) else xml_type)"

definition extract_param :: "'dt xml_conv \<Rightarrow> xnode \<Rightarrow> string \<Rightarrow> 'dt spine_value list result" where
  "extract_param C el xml_type = (case map_of (extractor_map C) (type_local_name xml_type) of
       None \<Rightarrow> Inl (Thrown NoCode ''No handler found to extract stored query parameter'')
     | Some handler \<Rightarrow> handler el)"

section \<open>Typing\<close>

text \<open>The values an XML type stands for.\<close>

definition xml_value_ok :: "string \<Rightarrow> 'dt spine_value \<Rightarrow> bool" where
  "xml_value_ok name v \<longleftrightarrow>
     (case map_of int_ranges name of
        Some (lo, hi) \<Rightarrow> \<exists>i. v = VInt i \<and> lo \<le> sint i \<and> sint i \<le> hi
      | None \<Rightarrow>
        (case map_of uint_ranges name of
           Some (lo, hi) \<Rightarrow> \<exists>n. v = VUInt n \<and> lo \<le> unat n \<and> unat n \<le> hi
         | None \<Rightarrow>
             (name \<in> {''string'', ''language'', ''NameList''} \<longrightarrow> (\<exists>s. v = VString s)) \<and>
             (name = ''boolean'' \<longrightarrow> (\<exists>b. v = VBool b)) \<and>
             (name \<in> {''float'', ''double'', ''doubleList'', ''pos''} \<longrightarrow> (\<exists>x. v = VDouble x)) \<and>
             (name = ''integerList'' \<longrightarrow> (\<exists>i. v = VInt i)) \<and>
             (name = ''dateTime'' \<longrightarrow> (\<exists>t. v = VTime t)) \<and>
             (name = ''Envelope'' \<longrightarrow> (\<exists>x1 y1 x2 y2 crs. v = VBBox x1 y1 x2 y2 crs))))"

definition never_undefined :: "('a \<Rightarrow> 'b result) \<Rightarrow> bool" where
  "never_undefined f \<longleftrightarrow> (\<forall>x w. f x \<noteq> Inl (Undefined w))"

definition conv_defined :: "'dt xml_conv \<Rightarrow> bool" where
  "conv_defined C \<longleftrightarrow> never_undefined (xc_double C) \<and> never_undefined (xc_time C) \<and> never_undefined (xc_bool C)"

named_theorems defined_intros

lemma defined_rbind [defined_intros]:
  "(\<And>w. m \<noteq> Inl (Undefined w)) \<Longrightarrow> (\<And>x w. m = Inr x \<Longrightarrow> f x \<noteq> Inl (Undefined w)) \<Longrightarrow> rbind m f \<noteq> Inl (Undefined w)"
  by (cases m) auto

lemma defined_map_result [defined_intros]:
  "(\<And>x w. f x \<noteq> Inl (Undefined w)) \<Longrightarrow> map_result f xs \<noteq> Inl (Undefined w)"
  by (induction xs) (auto simp: result_simps)

lemma defined_text [defined_intros]: "extract_text el \<noteq> Inl (Undefined w)"
proof -
  have "text_of_nodes ns \<noteq> Inl (Undefined w)" for ns
    by (induction ns rule: text_of_nodes.induct) (auto simp: result_simps)
  then show ?thesis by (simp add: extract_text_def)
qed

lemma defined_stol [defined_intros]: "stol s \<noteq> Inl (Undefined w)"
  by (auto simp: stol_def Let_def split: option.splits)

lemma defined_stoul [defined_intros]: "stoul s \<noteq> Inl (Undefined w)"
  by (auto simp: stoul_def Let_def split: option.splits)

lemma defined_srs [defined_intros]: "read_gml_srs_reference_group el \<noteq> Inl (Undefined w)"
  by (auto simp: read_gml_srs_reference_group_def read_gml_srs_info_group_def result_simps defined_stoul
      split: option.splits)

lemma defined_conv [defined_intros]:
  "conv_defined C \<Longrightarrow> xc_double C s \<noteq> Inl (Undefined w)"
  "conv_defined C \<Longrightarrow> xc_time C s \<noteq> Inl (Undefined w)"
  "conv_defined C \<Longrightarrow> xc_bool C s \<noteq> Inl (Undefined w)"
  by (auto simp: conv_defined_def never_undefined_def)

lemma defined_position [defined_intros]:
  "conv_defined C \<Longrightarrow> read_gml_direct_position_type C el \<noteq> Inl (Undefined w)"
  unfolding read_gml_direct_position_type_def by (intro defined_intros) auto

lemma defined_corners [defined_intros]:
  "conv_defined C \<Longrightarrow> envelope_corners C el \<noteq> Inl (Undefined w)"
  by (auto simp: envelope_corners_def result_simps defined_position split: list.splits)


lemma envelope_dimension:
  assumes "read_gml_envelope_type C el = Inr e"
  shows "sr_dimension (en_srs e) = Some (length (dp_data (en_lower e))) \<and>
    length (dp_data (en_upper e)) = length (dp_data (en_lower e))"
  using assms by (auto simp: read_gml_envelope_type_def result_simps split: if_splits)

lemma defined_envelope:
  "conv_defined C \<Longrightarrow> read_gml_envelope_type C el \<noteq> Inl (Undefined w)"
  by (auto simp: read_gml_envelope_type_def result_simps defined_corners defined_srs split: if_splits)

definition typed_extractor :: "string \<Rightarrow> (xnode \<Rightarrow> 'dt spine_value list result) \<Rightarrow> bool" where
  "typed_extractor name h \<longleftrightarrow>
     (\<forall>el w. h el \<noteq> Inl (Undefined w)) \<and> (\<forall>el vs. h el = Inr vs \<longrightarrow> list_all (xml_value_ok name) vs)"

lemma typed_string:
  "name \<in> {''string'', ''language''} \<Longrightarrow> typed_extractor name extract_string"
  by (auto simp: typed_extractor_def extract_string_def result_simps defined_text xml_value_ok_def
      int_ranges_def uint_ranges_def)

lemma typed_integer:
  assumes "map_of int_ranges name = Some (lo, hi)" "- (2 ^ 63) \<le> lo" "hi < 2 ^ 63"
  shows "typed_extractor name (extract_integer lo hi)"
proof -
  have "sint (word_of_int i :: int64) = i" if "lo \<le> i" "i \<le> hi" for i
    using that assms by (simp add: int_word_sint)
  then show ?thesis
    using assms(1)
    by (auto simp: typed_extractor_def extract_integer_def result_simps defined_text defined_stol xml_value_ok_def
        int_value_def split: if_splits)
qed

lemma typed_unsigned:
  assumes "map_of int_ranges name = None" "map_of uint_ranges name = Some (lo, hi)" "hi < 2 ^ 64"
  shows "typed_extractor name (extract_unsigned_integer lo hi)"
proof -
  have "unat (of_nat n :: uint64) = n" if "n \<le> hi" for n
    using that assms by (simp add: unsigned_of_nat take_bit_nat_eq_self)
  then show ?thesis
    using assms(1,2)
    by (auto simp: typed_extractor_def extract_unsigned_integer_def result_simps defined_text defined_stoul
        xml_value_ok_def split: if_splits)
qed

lemma typed_simple:
  assumes "conv_defined C"
  shows "typed_extractor ''boolean'' (extract_boolean C)" "typed_extractor ''float'' (extract_double C)"
    "typed_extractor ''double'' (extract_double C)" "typed_extractor ''dateTime'' (extract_date_time C)"
    "typed_extractor ''NameList'' extract_name_list" "typed_extractor ''doubleList'' (extract_double_list C)"
    "typed_extractor ''integerList'' extract_integer_list"
  using defined_conv [OF assms] defined_map_result [of "xc_double C", OF defined_conv(1) [OF assms]]
    defined_map_result [of stol, OF defined_stol]
  by (auto simp: typed_extractor_def result_simps defined_text xml_value_ok_def int_ranges_def uint_ranges_def
      extract_boolean_def extract_double_def extract_date_time_def extract_name_list_def extract_double_list_def
      extract_integer_list_def int_value_def list_all_iff)

lemma typed_pos: "conv_defined C \<Longrightarrow> typed_extractor ''pos'' (extract_gml_pos C)"
  by (auto simp: typed_extractor_def extract_gml_pos_def result_simps defined_position xml_value_ok_def
      int_ranges_def uint_ranges_def vec_at_def split: list.splits if_splits)

lemma envelope_bbox_typed:
  fixes vs :: "'dt spine_value list"
  assumes "sr_dimension (en_srs e) = Some (length (dp_data (en_lower e)))"
    and "length (dp_data (en_upper e)) = length (dp_data (en_lower e))"
  shows "(envelope_bbox e :: 'dt spine_value list result) \<noteq> Inl (Undefined w)"
    and "envelope_bbox e = Inr vs \<Longrightarrow> list_all (xml_value_ok ''Envelope'') vs"
proof -
  have "envelope_bbox e = (if length (dp_data (en_lower e)) = 2
      then Inr [VBBox (dp_data (en_lower e) ! 0) (dp_data (en_lower e) ! 1) (dp_data (en_upper e) ! 0)
        (dp_data (en_upper e) ! 1) (case sr_name (en_srs e) of Some n \<Rightarrow> n | None \<Rightarrow> ''EPSG::4326'') :: 'dt spine_value]
      else Inl (Thrown NoCode ''Unexpected value of srsDimension''))"
    using assms by (simp add: envelope_bbox_def vec_at_def)
  then show "(envelope_bbox e :: 'dt spine_value list result) \<noteq> Inl (Undefined w)"
    and "envelope_bbox e = Inr vs \<Longrightarrow> list_all (xml_value_ok ''Envelope'') vs"
    by (auto simp: xml_value_ok_def int_ranges_def uint_ranges_def split: if_splits)
qed

lemma typed_envelope:
  assumes "conv_defined C"
  shows "typed_extractor ''Envelope'' (extract_gml_envelope C)"
proof -
  have "rbind (read_gml_envelope_type C e) envelope_bbox \<noteq> Inl (Undefined w) \<and>
      (rbind (read_gml_envelope_type C e) envelope_bbox = Inr vs \<longrightarrow>
        list_all (xml_value_ok ''Envelope'') (vs :: 'a spine_value list))" for e w vs
    using defined_envelope [OF assms] envelope_dimension envelope_bbox_typed by (fastforce simp: result_simps)
  then show ?thesis
    by (auto simp: typed_extractor_def extract_gml_envelope_def split: list.splits)
qed

lemma typed_extractors:
  assumes "conv_defined C"
  shows "list_all (\<lambda>(name, h). typed_extractor name h) (extractor_map C)"
proof -
  have "list_all (\<lambda>(name, lo, hi). map_of int_ranges name = Some (lo, hi) \<and> - (2 ^ 63) \<le> lo \<and> hi < 2 ^ 63) int_ranges"
    by (simp add: int_ranges_def)
  then have ints: "list_all (\<lambda>(name, lo, hi). typed_extractor name (extract_integer lo hi :: _ \<Rightarrow> 'a spine_value list result)) int_ranges"
    unfolding list_all_iff by (force intro!: typed_integer)
  have "list_all (\<lambda>(name, lo, hi). map_of int_ranges name = None \<and> map_of uint_ranges name = Some (lo, hi) \<and> hi < 2 ^ 64)
      uint_ranges"
    by (simp add: int_ranges_def uint_ranges_def)
  then have uints: "list_all (\<lambda>(name, lo, hi). typed_extractor name (extract_unsigned_integer lo hi :: _ \<Rightarrow> 'a spine_value list result)) uint_ranges"
    unfolding list_all_iff by (force intro!: typed_unsigned)
  show ?thesis
    using ints uints typed_simple [OF assms] typed_pos [OF assms] typed_envelope [OF assms] typed_string
    by (auto simp: extractor_map_def list_all_iff)
qed

text \<open>
  C14.  The parameter extractor is typed: whatever an element holds, extraction for a type never
  reads beyond a coordinate list or an empty dimension, and the values it returns are values of the
  type, the integers within the range of their type.
\<close>

theorem extract_param_typed:
  assumes "conv_defined C"
  shows "(\<forall>w. extract_param C el ty \<noteq> Inl (Undefined w)) \<and>
    (\<forall>vs. extract_param C el ty = Inr vs \<longrightarrow> list_all (xml_value_ok (type_local_name ty)) vs)"
proof (cases "map_of (extractor_map C) (type_local_name ty)")
  case None
  then show ?thesis by (simp add: extract_param_def)
next
  case (Some h)
  then have "typed_extractor (type_local_name ty) h"
    using typed_extractors [OF assms] by (auto simp: list_all_iff dest: map_of_SomeD)
  with Some show ?thesis by (simp add: extract_param_def typed_extractor_def)
qed

definition demo_xml_conv :: "unit xml_conv" where
  "demo_xml_conv = \<lparr>xc_double = (\<lambda>s. if s = ''1'' then Inr 1 else Inl (Thrown NoCode ''stod'')),
     xc_time = (\<lambda>_. Inr ()), xc_bool = (\<lambda>s. Inr (s = ''true''))\<rparr>"

definition text_element :: "string \<Rightarrow> xnode" where
  "text_element s = XElement ''p'' ''p'' [] [] [XText s]"

lemma extract_param_typed_witness:
  "extract_param demo_xml_conv (text_element ''42'') ''xsi:byte'' = Inr [VInt 42] \<and> xml_value_ok ''byte'' (VInt 42 :: unit spine_value)"
proof -
  have "type_local_name ''xsi:byte'' = ''byte''" "stol ''42'' = Inr 42"
    by (code_simp, simp add: stol_def scan_number_def scan_sign_def isspace_def isdigit_def read_nat_def digit_val_def)
  then have e: "extract_param demo_xml_conv (text_element ''42'') ''xsi:byte'' = Inr [VInt 42]"
    by (simp add: extract_param_def extractor_map_def int_ranges_def extract_integer_def extract_text_def
        text_element_def int_value_def)
  have "conv_defined demo_xml_conv"
    by (auto simp: conv_defined_def never_undefined_def demo_xml_conv_def)
  from extract_param_typed [OF this, of "text_element ''42''" "''xsi:byte''"] e
  have "xml_value_ok (type_local_name ''xsi:byte'') (VInt 42 :: unit spine_value)" by simp
  moreover have "type_local_name ''xsi:byte'' = ''byte''" by code_simp
  ultimately show ?thesis using e by simp
qed

text \<open>A negative number is accepted where an unsigned one is expected.\<close>

lemma negative_unsigned:
  "extract_param C (text_element ''-1'') ''unsignedLong'' = Inr [VUInt (2 ^ 64 - 1)]"
proof -
  have "type_local_name ''unsignedLong'' = ''unsignedLong''" "stoul ''-1'' = Inr (2 ^ 64 - 1)"
    by (code_simp, simp add: stoul_def scan_number_def scan_sign_def isspace_def isdigit_def read_nat_def digit_val_def)
  then show ?thesis
    by (simp add: extract_param_def extractor_map_def int_ranges_def uint_ranges_def extract_unsigned_integer_def
        extract_text_def text_element_def)
qed

end
