(* ===== verification/Filters.thy ===== *)
theory Filters
  imports GetFeature XmlParams
begin

text \<open>
  The filters of ad hoc queries (\<open>libwfs/AdHocQuery.cpp\<close>): comparison operations become XPath
  conditions, \<open>fes:BBOX\<close> and \<open>gml:timePosition\<close> become parameters of the stored query, and \<open>fes:And\<close>
  and \<open>fes:Or\<close> are resolved into a list of queries.  The code holds raw pointers to the queries of
  the list: the state keeps the query objects in a store, and an access to an object that has left
  the list is undefined.
\<close>

section \<open>Comparisons\<close>

definition FES_NAMESPACE_URI :: string where
  "FES_NAMESPACE_URI = ''http://www.opengis.net/fes/2.0''"

definition comparison_operations :: "(string \<times> string) list" where
  "comparison_operations =
    [(''fes:propertyisequalto'', ''=''), (''fes:propertyisnotequalto'', ''!=''),
     (''fes:propertyislessthan'', ''<''), (''fes:propertyisgreaterthan'', ''>''),
     (''fes:propertyislessthanorequalto'', ''<=''), (''fes:propertyisgreaterthanorequalto'', ''>='')]"

definition is_comparison_operation :: "string \<Rightarrow> bool" where
  "is_comparison_operation element_name \<longleftrightarrow> map_of comparison_operations element_name \<noteq> None"

definition get_comparison_operation :: "string \<Rightarrow> string" where
  "get_comparison_operation element_name =
     (case map_of comparison_operations element_name of Some op \<Rightarrow> op | None \<Rightarrow> [])"

definition is_query_parameter :: "string \<Rightarrow> bool" where
  "is_query_parameter element_name \<longleftrightarrow> element_name = ''fes:bbox'' \<or> element_name = ''gml:timeposition''"

datatype match_action = MatchAll | MatchAny | MatchOne

definition read_match_case :: "xnode \<Rightarrow> bool" where
  "read_match_case el = (get_attr el ''matchCase'' \<noteq> Some ''false'')"

definition read_match_action :: "xnode \<Rightarrow> match_action" where
  "read_match_action el = (case get_attr el ''matchAction'' of
       Some a \<Rightarrow> if a = ''All'' then MatchAll else if a = ''One'' then MatchOne else MatchAny
     | None \<Rightarrow> MatchAny)"

text \<open>
  What \<open>std::strtod\<close> leaves of a C string: an optional sign after white space, then \<open>inf\<close>,
  \<open>infinity\<close>, \<open>nan\<close> with an optional parenthesis, a hexadecimal or a decimal number.  With no
  number nothing is consumed.
\<close>

definition skip_sign :: "string \<Rightarrow> string" where
  "skip_sign s = snd (scan_sign s)"

definition scan_exponent :: "char list \<Rightarrow> string \<Rightarrow> string" where
  "scan_exponent es s = (case s of
       [] \<Rightarrow> []
     | e # r \<Rightarrow>
         if e \<in> set es
         then (let t = skip_sign r in if takeWhile isdigit t = [] then s else dropWhile isdigit t)
         else s)"

definition scan_mantissa :: "(char \<Rightarrow> bool) \<Rightarrow> char list \<Rightarrow> string \<Rightarrow> string option" where
  "scan_mantissa dig es s =
     (let ds = takeWhile dig s; r = dropWhile dig s;
          (fs, t) = (case r of
              c # r' \<Rightarrow> if c = CHR ''.'' then (takeWhile dig r', dropWhile dig r') else ([], r)
            | [] \<Rightarrow> ([], r))
      in if ds = [] \<and> fs = [] then None else Some (scan_exponent es t))"

definition is_hex :: "char \<Rightarrow> bool" where
  "is_hex c \<longleftrightarrow> isdigit c \<or> c \<in> set ''abcdefABCDEF''"

definition skip_nan_payload :: "string \<Rightarrow> string" where
  "skip_nan_payload s = (case s of
       c # r \<Rightarrow>
         if c = CHR ''('' then
           (case dropWhile (\<lambda>d. isalnum d \<or> d = CHR ''_'') r of
              d # t \<Rightarrow> if d = CHR '')'' then t else s
            | [] \<Rightarrow> s)
         else s
     | [] \<Rightarrow> [])"

definition strtod_rest :: "string \<Rightarrow> string" where
  "strtod_rest str =
     (let s = skip_sign (dropWhile isspace str); low = ascii_lower s
      in if starts ''infinity'' low then drop 8 s
         else if starts ''inf'' low then drop 3 s
         else if starts ''nan'' low then skip_nan_payload (drop 3 s)
         else case (if starts ''0x'' low then scan_mantissa is_hex ''pP'' (drop 2 s) else None) of
             Some r \<Rightarrow> r
           | None \<Rightarrow> (case scan_mantissa isdigit ''eE'' s of Some r \<Rightarrow> r | None \<Rightarrow> str))"

text \<open>The text of a literal as an XPath literal, and whether it is a string.\<close>

definition read_literal :: "(string \<Rightarrow> string) \<Rightarrow> string \<Rightarrow> bool \<Rightarrow> string \<times> bool" where
  "read_literal lc value match_case =
     (if strtod_rest (c_str value) \<noteq> [] \<or> value = ''NaN''
      then ([CHR 0x27] @ (if match_case then value else lc value) @ [CHR 0x27], True)
      else (value, False))"

definition read_value_reference :: "string \<Rightarrow> string \<times> bool" where
  "read_value_reference value =
     (if take 1 value = ''@'' then (''descendant::*/'' @ value, True) else (''descendant::'' @ value, False))"

definition match_filter_expression :: "match_action \<Rightarrow> string \<Rightarrow> string \<Rightarrow> string \<Rightarrow> string" where
  "match_filter_expression action reference operation limit_value = (case action of
       MatchAll \<Rightarrow> ''every $x in '' @ reference @ '' satisfies $x '' @ operation @ '' '' @ limit_value
     | MatchOne \<Rightarrow> ''count('' @ reference @ ''[. '' @ operation @ '' '' @ limit_value @ '']) = 1''
     | MatchAny \<Rightarrow> reference @ '' '' @ operation @ '' '' @ limit_value)"

text \<open>The loop over the children of a comparison.  References are counted in an \<open>unsigned char\<close>.\<close>

record comparison =
  cp_references :: byte
  cp_reference :: string
  cp_limit :: string
  cp_string :: bool
  cp_attr1 :: bool
  cp_attr2 :: bool

definition comparison_child ::
    "(string \<Rightarrow> string) \<Rightarrow> 'dt xml_conv \<Rightarrow> bool \<Rightarrow> xnode \<Rightarrow> comparison \<Rightarrow> comparison result" where
  "comparison_child lc C match_case el cp =
     rbind (extract_param C el ''xsi:string'') (\<lambda>vs.
     rbind (vec_at vs 0) (\<lambda>v.
     rbind (case v of VString s \<Rightarrow> Inr s | _ \<Rightarrow> Inl (Thrown NoCode ''not a string'')) (\<lambda>value.
     if lc (xn_tag el) = ''fes:valuereference''
     then (let n = cp_references cp + 1; (ref, is_attr) = read_value_reference value in
       if n = 1 then Inr (cp\<lparr>cp_references := n, cp_reference := ref, cp_attr1 := is_attr\<rparr>)
       else Inr (cp\<lparr>cp_references := n, cp_limit := ref, cp_attr2 := is_attr\<rparr>))
     else if lc (xn_tag el) = ''fes:literal''
     then (let (lit, is_str) = read_literal lc value match_case in
       Inr (cp\<lparr>cp_limit := lit, cp_string := (cp_string cp \<or> is_str)\<rparr>))
     else Inr cp)))"

definition comparison_condition :: "bool \<Rightarrow> match_action \<Rightarrow> string \<Rightarrow> comparison \<Rightarrow> string" where
  "comparison_condition match_case action operation cp =
     (let (reference, limit_value) =
        (if cp_references cp = 2 \<and> operation \<noteq> ''='' \<and> operation \<noteq> ''!=''
         then (''number('' @ cp_reference cp @ '')'', ''number('' @ cp_limit cp @ '')'')
         else if \<not> match_case \<and> (cp_string cp \<or> cp_references cp = 2)
         then (if \<not> cp_attr1 cp then ''lower-case('' @ cp_reference cp @ '')'' else cp_reference cp,
               if cp_references cp = 2 \<and> \<not> cp_attr2 cp then ''lower-case('' @ cp_limit cp @ '')'' else cp_limit cp)
         else (cp_reference cp, cp_limit cp))
      in match_filter_expression action reference operation limit_value)"

definition comparison_filter :: "(string \<Rightarrow> string) \<Rightarrow> 'dt xml_conv \<Rightarrow> string \<Rightarrow> xnode \<Rightarrow> string result" where
  "comparison_filter lc C element_name el =
     (let match_case = read_match_case el in
      rbind (fold_result (comparison_child lc C match_case) (get_child_elements el FES_NAMESPACE_URI ''*'')
          \<lparr>cp_references = 0, cp_reference = [], cp_limit = [], cp_string = False, cp_attr1 = False, cp_attr2 = False\<rparr>)
        (\<lambda>cp. Inr (comparison_condition match_case (read_match_action el) (get_comparison_operation element_name) cp)))"

text \<open>A further condition of a filter expression.\<close>

definition add_condition :: "string \<Rightarrow> string \<Rightarrow> string" where
  "add_condition new_filter expr =
     (if expr = [] then ''//wfs:member[('' @ new_filter @ '')]''
      else butlast expr @ '' and ('' @ new_filter @ '')]'')"


section \<open>The store of queries\<close>

record 'dt adhoc =
  ah_params :: "'dt spine_value rpm"
  ah_handler :: "'dt handler"
  ah_filter :: string
  ah_skipped :: "string list"

text \<open>
  \<open>as_heap\<close> are the query objects in the order of their creation, \<open>as_queries\<close> the list \<open>queries\<close>,
  which owns them, and \<open>as_or\<close> is \<open>or_query_indexes\<close>.
\<close>

record 'dt ah_state =
  as_heap :: "'dt adhoc list"
  as_queries :: "nat list"
  as_or :: "nat list"

record 'dt ah_env =
  ae_lc :: "string \<Rightarrow> string"
  ae_conv :: "'dt xml_conv"
  ae_limit :: "'dt limit_check"
  ae_text :: "xnode \<Rightarrow> string"
  ae_cs :: bool

definition deref :: "'dt ah_state \<Rightarrow> nat \<Rightarrow> 'dt adhoc result" where
  "deref st i = (if i \<in> set (as_queries st) then vec_at (as_heap st) i else Inl (Undefined ''dangling pointer''))"

definition update_query :: "nat \<Rightarrow> 'dt adhoc \<Rightarrow> 'dt ah_state \<Rightarrow> 'dt ah_state" where
  "update_query i q st = st\<lparr>as_heap := (as_heap st)[i := q]\<rparr>"

definition queries_back :: "'dt ah_state \<Rightarrow> nat result" where
  "queries_back st = (if as_queries st = [] then Inl (Undefined ''back of an empty vector'') else Inr (last (as_queries st)))"

definition erase_range :: "nat \<Rightarrow> nat \<Rightarrow> 'a list \<Rightarrow> 'a list result" where
  "erase_range a b xs = (if a \<le> b \<and> b \<le> length xs then Inr (take a xs @ drop b xs) else Inl (Undefined ''erase''))"

definition create_query :: "'dt ah_env \<Rightarrow> 'dt handler \<Rightarrow> 'dt ah_state \<Rightarrow> 'dt ah_state" where
  "create_query E h st =
     st\<lparr>as_heap := as_heap st @ [\<lparr>ah_params = rpm_new (ae_cs E), ah_handler = h, ah_filter = [], ah_skipped = []\<rparr>],
       as_queries := as_queries st @ [length (as_heap st)]\<rparr>"

definition is_query_used :: "'dt adhoc \<Rightarrow> bool" where
  "is_query_used q \<longleftrightarrow> rpm_size (ah_params q) \<noteq> 0 \<or> ah_filter q \<noteq> []"

text \<open>
  \<open>StoredQuery::get_param\<close>, read as if the map it iterates over were alive; in the code that map is
  a temporary which is destroyed before it is read.
\<close>

definition get_param :: "'dt spine_value rpm \<Rightarrow> string \<Rightarrow> 'dt spine_value result" where
  "get_param params name = (case mm_values (get_map False params) name of
       [] \<Rightarrow> Inl (Thrown ParsingFailed ''Mandatory parameter missing'')
     | [v] \<Rightarrow> Inr v
     | _ \<Rightarrow> Inl (Thrown ParsingFailed ''specified more than once''))"

text \<open>
  The conditions of the source follow its first bracket; \<open>find_first_of\<close> plus one is 0 if there is
  none.
\<close>

definition after_bracket :: "string \<Rightarrow> string" where
  "after_bracket s = (if CHR ''['' \<in> set s then tl (dropWhile (\<lambda>c. c \<noteq> CHR ''['') s) else s)"

definition merge_filters :: "string \<Rightarrow> string \<Rightarrow> string" where
  "merge_filters src target =
     (if src = [] then target
      else if target = [] then src
      else butlast target @ '' and '' @ after_bracket src)"

definition copy_params :: "'dt ah_env \<Rightarrow> 'dt adhoc \<Rightarrow> 'dt adhoc \<Rightarrow> 'dt adhoc result" where
  "copy_params E src target =
     rbind (fold_result (\<lambda>key params. rbind (get_param (ah_params src) key) (\<lambda>v.
         Inr (insert_value (ae_lc E) key v params))) (get_keys (ah_params src)) (ah_params target)) (\<lambda>params.
     Inr (target\<lparr>ah_params := params, ah_filter := merge_filters (ah_filter src) (ah_filter target)\<rparr>))"

text \<open>\<open>copy_params\<close> between two objects of the store.\<close>

definition copy_query :: "'dt ah_env \<Rightarrow> nat \<Rightarrow> nat \<Rightarrow> 'dt ah_state \<Rightarrow> 'dt ah_state result" where
  "copy_query E src target st =
     rbind (deref st src) (\<lambda>s. rbind (deref st target) (\<lambda>t. rbind (copy_params E s t) (\<lambda>t'.
       Inr (update_query target t' st))))"

section \<open>Combining queries\<close>

text \<open>
  One round of \<open>combine_or_queries\<close>: \<open>size1\<close> is the number of queries before combining, \<open>ors\<close> the
  index of the first query of every set.
\<close>

definition combine_pair :: "'dt ah_env \<Rightarrow> nat \<Rightarrow> nat \<times> nat \<Rightarrow> 'dt ah_state \<Rightarrow> 'dt ah_state result" where
  "combine_pair E and_query p st = (case p of (index1, index2) \<Rightarrow>
     rbind (vec_at (as_queries st) index1) (\<lambda>q1.
     rbind (vec_at (as_queries st) index2) (\<lambda>q2.
     rbind (deref st and_query) (\<lambda>a.
       let st1 = create_query E (ah_handler a) st; c = length (as_heap st) in
       rbind (copy_query E q1 c st1) (copy_query E q2 c)))))"

definition combine_round :: "'dt ah_env \<Rightarrow> nat list \<Rightarrow> nat \<Rightarrow> nat \<Rightarrow> nat \<Rightarrow> 'dt ah_state \<Rightarrow> 'dt ah_state result" where
  "combine_round E ors and_query size1 or_set st =
     (let n = length ors; size2 = length (as_queries st);
          last1 = (if or_set < n - 1 then ors ! (or_set + 1) else size1);
          first2 = (if or_set = 0 then ors ! 1 else size1);
          last2 = (if or_set = 0 \<and> n > 2 then ors ! (or_set + 2) else size2)
      in rbind (fold_result (combine_pair E and_query)
           (concat (map (\<lambda>i. map (\<lambda>j. (i, j)) [first2..<last2]) [ors ! or_set..<last1])) st) (\<lambda>st.
         rbind (erase_range size1 size2 (as_queries st)) (\<lambda>qs. Inr (st\<lparr>as_queries := qs\<rparr>))))"

text \<open>The rounds start with the sets 0 and 1, then take the sets 2, 3, ...\<close>

definition combine_or_queries :: "'dt ah_env \<Rightarrow> nat list \<Rightarrow> nat \<Rightarrow> 'dt ah_state \<Rightarrow> 'dt ah_state result" where
  "combine_or_queries E ors and_query st =
     (let size1 = length (as_queries st) in
      rbind (fold_result (combine_round E ors and_query size1) (0 # [2..<length ors]) st) (\<lambda>st.
      rbind (erase_range (ors ! 0) size1 (as_queries st)) (\<lambda>qs. Inr (st\<lparr>as_queries := qs\<rparr>))))"

definition handle_end_of_and_element :: "'dt ah_env \<Rightarrow> nat \<Rightarrow> nat \<Rightarrow> 'dt ah_state \<Rightarrow> 'dt ah_state result" where
  "handle_end_of_and_element E and_index and_query st =
     rbind (if 2 \<le> length (as_or st) then combine_or_queries E (as_or st) and_query st else Inr st) (\<lambda>st.
     let st = st\<lparr>as_or := []\<rparr> in
     rbind (deref st and_query) (\<lambda>a.
     if \<not> is_query_used a
     then rbind (erase_range and_index (and_index + 1) (as_queries st)) (\<lambda>qs. Inr (st\<lparr>as_queries := qs\<rparr>))
     else if and_index + 1 < length (as_queries st)
     then rbind (fold_result (copy_query E and_query) (drop (and_index + 1) (as_queries st)) st) (\<lambda>st.
          rbind (erase_range and_index (and_index + 1) (as_queries st)) (\<lambda>qs. Inr (st\<lparr>as_queries := qs\<rparr>)))
     else Inr st))"


section \<open>Reading filter elements\<close>

record filter_local =
  fl_names :: "string list"
  fl_forbidden :: "string list"
  fl_first :: bool

definition filter_local_new :: filter_local where
  "filter_local_new = \<lparr>fl_names = [], fl_forbidden = [], fl_first = True\<rparr>"

definition time_period_param_name :: "string list \<Rightarrow> string \<Rightarrow> string" where
  "time_period_param_name tree param_name = (case rev tree of
       t1 # t2 # t3 # t4 # t5 # _ \<Rightarrow>
         if t4 = ''fes:during'' \<and> t3 = ''gml:timeperiod'' \<and> t1 = ''gml:timeinstant''
         then (if t2 = ''gml:begin'' then ''starttime'' else if t2 = ''gml:end'' then ''endtime'' else param_name)
         else param_name
     | _ \<Rightarrow> param_name)"

definition read_query_parameter ::
    "'dt ah_env \<Rightarrow> xnode \<Rightarrow> string list \<Rightarrow> string \<Rightarrow> filter_local \<Rightarrow> nat \<Rightarrow> 'dt ah_state \<Rightarrow>
     (filter_local \<times> 'dt ah_state) result" where
  "read_query_parameter E el tree element_name loc i st =
     (let lc = ae_lc E; local_name = lc (xn_local el);
          (xml_type, param_name) =
            (if element_name = ''fes:bbox'' then (''xsi:Envelope'', local_name)
             else if element_name = ''gml:timeposition'' then (''xsi:dateTime'', time_period_param_name tree local_name)
             else ([], local_name))
      in rbind (deref st i) (\<lambda>q.
         rbind (get_param_desc lc (hd_config (ah_handler q)) param_name) (\<lambda>desc. case desc of
           None \<Rightarrow> Inr (loc, update_query i (q\<lparr>ah_skipped := ah_skipped q @ [ae_text E el]\<rparr>) st)
         | Some d \<Rightarrow>
             if param_name \<in> set (fl_forbidden loc) then Inl (Thrown ParsingFailed ''conflicts with'')
             else
               rbind (check_param_max_occurs (of_nat (count_list (fl_names loc) param_name + 1)) (de_max_occurs d)) (\<lambda>_.
               rbind (extract_param (ae_conv E) el (if xml_type = [] then de_xml_type d else xml_type)) (\<lambda>vs.
               rbind (fold_result (insert_checked lc (ae_limit E) d param_name) vs (ah_params q)) (\<lambda>params.
               Inr (loc\<lparr>fl_names := param_name # fl_names loc, fl_forbidden := forbid lc d (fl_forbidden loc)\<rparr>,
                 update_query i (q\<lparr>ah_params := params\<rparr>) st)))))))"

definition read_comparison_operation ::
    "'dt ah_env \<Rightarrow> xnode \<Rightarrow> string \<Rightarrow> nat \<Rightarrow> 'dt ah_state \<Rightarrow> 'dt ah_state result" where
  "read_comparison_operation E el element_name i st =
     rbind (comparison_filter (ae_lc E) (ae_conv E) element_name el) (\<lambda>f.
     rbind (deref st i) (\<lambda>q.
     Inr (update_query i (q\<lparr>ah_filter := add_condition f (ah_filter q)\<rparr>) st)))"

definition read_filter_parameter ::
    "'dt ah_env \<Rightarrow> xnode \<Rightarrow> string list \<Rightarrow> string \<Rightarrow> filter_local \<Rightarrow> nat \<Rightarrow> nat option \<Rightarrow> 'dt ah_state \<Rightarrow>
     (filter_local \<times> 'dt ah_state) result" where
  "read_filter_parameter E el tree element_name loc i upper st =
     (let target = (case upper of Some a \<Rightarrow> if last tree \<noteq> ''fes:or'' then a else i | None \<Rightarrow> i)
      in if is_comparison_operation element_name
         then rbind (read_comparison_operation E el element_name target st) (\<lambda>st. Inr (loc, st))
         else read_query_parameter E el tree element_name loc target st)"

text \<open>
  The beginning of the loop body of \<open>extract_filter_elements\<close>: inside \<open>fes:Or\<close> an element gets a new
  query if the last one is used or belongs to the enclosing \<open>fes:And\<close>, and the first query of a
  \<open>fes:Or\<close> directly inside a \<open>fes:And\<close> is remembered.
\<close>

definition next_query ::
    "'dt ah_env \<Rightarrow> string list \<Rightarrow> string \<Rightarrow> nat option \<Rightarrow> filter_local \<Rightarrow> 'dt ah_state \<Rightarrow>
     (nat \<times> filter_local \<times> 'dt ah_state) result" where
  "next_query E tree element_name upper loc st =
     rbind (queries_back st) (\<lambda>i.
     rbind (deref st i) (\<lambda>q.
     if last tree = ''fes:or'' \<and> (is_query_used q \<or> upper = Some i)
     then (let st1 = create_query E (ah_handler q) st;
               loc1 = loc\<lparr>fl_names := [], fl_forbidden := []\<rparr>
           in rbind (if fl_first loc
                then rbind (if length tree < 2 then Inl (Undefined ''operator[]'') else Inr (tree ! (length tree - 2))) (\<lambda>t.
                     Inr (t = ''fes:and'' \<and> element_name \<noteq> ''fes:and'' \<and> element_name \<noteq> ''fes:or''))
                else Inr False) (\<lambda>first.
              Inr (length (as_heap st),
                if first then loc1\<lparr>fl_first := False\<rparr> else loc1,
                if first then st1\<lparr>as_or := as_or st1 @ [length (as_queries st1) - 1]\<rparr> else st1)))
     else Inr (i, loc, st)))"

lemma size_filter_le: "size_list size (filter P xs) \<le> size_list size xs"
  by (induction xs) auto

lemma size_child_elements: "size_list size (get_child_elements el ns name) \<le> size el"
  by (cases el) (auto simp: get_child_elements_def intro: order_trans [OF size_filter_le])

function extract_elements ::
    "'dt ah_env \<Rightarrow> string list \<Rightarrow> nat option \<Rightarrow> xnode list \<Rightarrow> filter_local \<Rightarrow> 'dt ah_state \<Rightarrow> 'dt ah_state result" where
  "extract_elements E tree upper [] loc st = Inr st"
| "extract_elements E tree upper (el # els) loc st =
     (let element_name = ae_lc E (xn_tag el) in
      if element_name = ''fes:not'' then Inl (Thrown ParsingFailed ''fes:not is not supported'')
      else rbind (next_query E tree element_name upper loc st) (\<lambda>(i, loc, st).
        if \<not> is_query_parameter element_name \<and> \<not> is_comparison_operation element_name
        then rbind (queries_back st) (\<lambda>b.
          let and_index = length (as_queries st) - 1;
              and_query = (if element_name = ''fes:and'' then Some b
                else if last tree \<noteq> ''fes:or'' then upper else None)
          in rbind (extract_elements E (tree @ [element_name]) and_query (get_child_elements el ''*'' ''*'')
               filter_local_new st) (\<lambda>st.
             rbind (if element_name = ''fes:and'' then handle_end_of_and_element E and_index b st else Inr st)
               (extract_elements E tree upper els loc)))
        else rbind (read_filter_parameter E el tree element_name loc i upper st) (\<lambda>(loc, st).
          extract_elements E tree upper els loc st)))"
  by pat_completeness auto
termination
  by (relation "measure (\<lambda>(_, _, _, els, _). size_list size els)")
    (auto simp: less_Suc_eq_le intro: trans_le_add1 [OF size_child_elements])

declare extract_elements.simps [simp del]

text \<open>\<open>extract_xml_parameters\<close>: the queries of a filter element, in order.\<close>

definition extract_filter :: "'dt ah_env \<Rightarrow> 'dt handler \<Rightarrow> string list \<Rightarrow> xnode \<Rightarrow> 'dt adhoc list result" where
  "extract_filter E h tree root =
     (let E = E\<lparr>ae_cs := qc_case_sensitive (hd_config h)\<rparr> in
      rbind (extract_elements E tree None (get_child_elements root ''*'' ''*'') filter_local_new
          (create_query E h \<lparr>as_heap = [], as_queries = [], as_or = []\<rparr>)) (\<lambda>st.
      map_result (deref st) (as_queries st)))"

end
