(* ===== verification/FilterDnf.thy ===== *)
theory FilterDnf
  imports Filters
begin

text \<open>
  What the code of \<open>Filters\<close> makes of a filter: a conjunction of comparisons and of disjunctions of
  comparisons becomes its disjunctive normal form, one query for every disjunct.  The state of the
  code is represented by the list of the condition lists of its queries.
\<close>

section \<open>Filter expressions as lists of conditions\<close>

definition filt :: "string list \<Rightarrow> string" where
  "filt cs = fold add_condition cs []"

lemma filt_Nil [simp]: "filt [] = []"
  by (simp add: filt_def)

lemma filt_snoc: "filt (cs @ [c]) = add_condition c (filt cs)"
  by (simp add: filt_def)

definition more_conditions :: "string list \<Rightarrow> string" where
  "more_conditions cs = concat (map (\<lambda>d. '' and ('' @ d @ '')'') cs)"

lemma filt_Cons:
  "filt (c # cs) = ''//wfs:member['' @ ''('' @ c @ '')'' @ more_conditions cs @ '']''"
proof (induction cs rule: rev_induct)
  case Nil
  then show ?case by (simp add: filt_def add_condition_def more_conditions_def)
next
  case (snoc d cs)
  have "filt (c # cs @ [d]) = add_condition d (filt (c # cs))"
    using filt_snoc [of "c # cs" d] by simp
  then show ?case
    by (simp add: snoc.IH add_condition_def more_conditions_def butlast_append)
qed

lemma filt_eq_Nil [simp]: "filt cs = [] \<longleftrightarrow> cs = []"
  by (cases cs) (simp_all add: filt_Cons)

lemma merge_filt: "merge_filters (filt a) (filt b) = filt (b @ a)"
proof (cases a)
  case Nil
  then show ?thesis by (simp add: merge_filters_def)
next
  case (Cons c cs)
  show ?thesis
  proof (cases b)
    case Nil
    then show ?thesis using Cons by (simp add: merge_filters_def)
  next
    case (Cons d ds)
    have "after_bracket (filt a) = ''('' @ c @ '')'' @ more_conditions cs @ '']''"
      using \<open>a = c # cs\<close> by (simp add: after_bracket_def filt_Cons)
    then show ?thesis
      using \<open>a = c # cs\<close> Cons by (simp add: merge_filters_def filt_Cons more_conditions_def butlast_append)
  qed
qed

section \<open>Representation of the state\<close>

definition cond_query :: "'dt ah_env \<Rightarrow> 'dt handler \<Rightarrow> string list \<Rightarrow> 'dt adhoc" where
  "cond_query E h cs = \<lparr>ah_params = rpm_new (ae_cs E), ah_handler = h, ah_filter = filt cs, ah_skipped = []\<rparr>"

lemma cond_query_sel [simp]:
  "ah_params (cond_query E h cs) = rpm_new (ae_cs E)" "ah_handler (cond_query E h cs) = h"
  "ah_filter (cond_query E h cs) = filt cs" "ah_skipped (cond_query E h cs) = []"
  "is_query_used (cond_query E h cs) \<longleftrightarrow> cs \<noteq> []"
  by (simp_all add: cond_query_def is_query_used_def rpm_size_def rpm_new_def)

definition repr :: "'dt ah_env \<Rightarrow> 'dt handler \<Rightarrow> 'dt ah_state \<Rightarrow> string list list \<Rightarrow> bool" where
  "repr E h st css \<longleftrightarrow>
     distinct (as_queries st) \<and> (\<forall>i \<in> set (as_queries st). i < length (as_heap st)) \<and>
     map (nth (as_heap st)) (as_queries st) = map (cond_query E h) css"

lemma repr_length: "repr E h st css \<Longrightarrow> length (as_queries st) = length css"
  unfolding repr_def by (metis length_map)

lemma repr_nth:
  "repr E h st css \<Longrightarrow> k < length css \<Longrightarrow> as_heap st ! (as_queries st ! k) = cond_query E h (css ! k)"
  using repr_length [of E h st css] by (auto simp: repr_def dest: arg_cong [of _ _ "\<lambda>xs. xs ! k"])

lemma repr_deref:
  assumes "repr E h st css" "k < length css"
  shows "deref st (as_queries st ! k) = Inr (cond_query E h (css ! k))"
  using assms repr_length [OF assms(1)] repr_nth [OF assms]
  by (auto simp: deref_def vec_at_def repr_def)

lemma repr_as_or [simp]: "repr E h (st\<lparr>as_or := ors\<rparr>) css = repr E h st css"
  by (simp add: repr_def)

lemma repr_create:
  assumes "repr E h st css"
  shows "repr E h (create_query E h st) (css @ [[]])"
proof -
  have "map (nth (as_heap st @ [q])) (as_queries st) = map (nth (as_heap st)) (as_queries st)" for q
    using assms by (intro map_cong) (auto simp: repr_def nth_append)
  then have "map (nth (as_heap (create_query E h st))) (as_queries st) = map (cond_query E h) css"
    using assms by (simp add: repr_def create_query_def del: map_eq_conv)
  then show ?thesis
    using assms by (auto simp: repr_def create_query_def cond_query_def less_SucI simp del: map_eq_conv)
qed

lemma repr_update:
  assumes "repr E h st css" "k < length css"
  shows "repr E h (update_query (as_queries st ! k) (cond_query E h cs) st) (css[k := cs])"
proof -
  have k: "k < length (as_queries st)" using assms repr_length by metis
  have "distinct (as_queries st)" "\<forall>i \<in> set (as_queries st). i < length (as_heap st)"
    using assms(1) by (simp_all add: repr_def)
  then have "map (nth ((as_heap st)[as_queries st ! k := cond_query E h cs])) (as_queries st) =
      (map (nth (as_heap st)) (as_queries st))[k := cond_query E h cs]"
    using k by (intro nth_equalityI) (auto simp: nth_list_update nth_eq_iff_index_eq)
  then show ?thesis
    using assms by (simp add: repr_def update_query_def map_update)
qed

lemma get_keys_new [simp]: "get_keys (rpm_new cs) = []"
  by (simp add: get_keys_def rpm_new_def mm_keys_def)

lemma repr_copy:
  assumes "repr E h st css" "k < length css" "l < length css"
  shows "\<exists>st'. copy_query E (as_queries st ! k) (as_queries st ! l) st = Inr st' \<and>
    repr E h st' (css[l := css ! l @ css ! k]) \<and> as_queries st' = as_queries st \<and> as_or st' = as_or st"
proof -
  have "copy_params E (cond_query E h (css ! k)) (cond_query E h (css ! l)) = Inr (cond_query E h (css ! l @ css ! k))"
    by (simp add: copy_params_def merge_filt cond_query_def)
  then have "copy_query E (as_queries st ! k) (as_queries st ! l) st =
      Inr (update_query (as_queries st ! l) (cond_query E h (css ! l @ css ! k)) st)"
    using assms by (simp add: copy_query_def repr_deref)
  then show ?thesis
    using repr_update [OF assms(1,3)] by (auto simp: update_query_def)
qed

section \<open>Combining sets of queries\<close>

lemma repr_combine_pair:
  assumes r: "repr E h st css" and "i < length css" "j < length css" "k < length css"
  shows "\<exists>st'. combine_pair E (as_queries st ! k) (i, j) st = Inr st' \<and>
    repr E h st' (css @ [css ! i @ css ! j]) \<and> as_queries st' = as_queries st @ [length (as_heap st)] \<and> as_or st' = as_or st"
proof -
  let ?st1 = "create_query E h st" and ?n = "length css"
  have r1: "repr E h ?st1 (css @ [[]])" by (rule repr_create [OF r])
  have q1: "as_queries ?st1 = as_queries st @ [length (as_heap st)]" "as_or ?st1 = as_or st"
    by (simp_all add: create_query_def)
  have len: "length (as_queries st) = ?n" by (rule repr_length [OF r])
  have ids: "as_queries ?st1 ! i = as_queries st ! i" "as_queries ?st1 ! j = as_queries st ! j"
    "as_queries ?st1 ! ?n = length (as_heap st)"
    using assms len by (simp_all add: q1 nth_append)
  obtain st2 where st2: "copy_query E (as_queries st ! i) (length (as_heap st)) ?st1 = Inr st2"
    "repr E h st2 (css @ [css ! i])" "as_queries st2 = as_queries ?st1" "as_or st2 = as_or st"
    using repr_copy [OF r1, of i ?n] assms(2) ids q1 by (auto simp: nth_append list_update_append)
  obtain st3 where st3: "copy_query E (as_queries st ! j) (length (as_heap st)) st2 = Inr st3"
    "repr E h st3 (css @ [css ! i @ css ! j])" "as_queries st3 = as_queries ?st1" "as_or st3 = as_or st"
    using repr_copy [OF st2(2), of j ?n] assms(3) ids st2(3,4) by (auto simp: nth_append list_update_append)
  show ?thesis
    using assms len st2(1) st3 q1
    by (auto simp: combine_pair_def vec_at_def repr_deref [OF r] Let_def)
qed

lemma repr_combine_pairs:
  assumes "repr E h st css" "k < length css" "\<forall>p \<in> set ps. fst p < length css \<and> snd p < length css"
  shows "\<exists>st'. fold_result (combine_pair E (as_queries st ! k)) ps st = Inr st' \<and>
    repr E h st' (css @ map (\<lambda>(i, j). css ! i @ css ! j) ps) \<and>
    (\<exists>new. as_queries st' = as_queries st @ new) \<and> as_or st' = as_or st"
  using assms
proof (induction ps arbitrary: st css)
  case Nil
  then show ?case by simp
next
  case (Cons p ps)
  obtain i j where p: "p = (i, j)" by (cases p)
  with Cons.prems repr_combine_pair [of E h st css i j k]
  obtain st1 where st1: "combine_pair E (as_queries st ! k) p st = Inr st1"
    "repr E h st1 (css @ [css ! i @ css ! j])" "as_queries st1 = as_queries st @ [length (as_heap st)]"
    "as_or st1 = as_or st"
    by auto
  have k: "as_queries st1 ! k = as_queries st ! k"
    using Cons.prems(2) repr_length [OF Cons.prems(1)] by (simp add: st1 nth_append)
  have "\<forall>p \<in> set ps. fst p < length (css @ [css ! i @ css ! j]) \<and> snd p < length (css @ [css ! i @ css ! j])"
    using Cons.prems(3) by auto
  with Cons.IH [OF st1(2), of ] Cons.prems(2) k
  obtain st' where st': "fold_result (combine_pair E (as_queries st ! k)) ps st1 = Inr st'"
    "repr E h st' ((css @ [css ! i @ css ! j]) @ map (\<lambda>(i', j'). (css @ [css ! i @ css ! j]) ! i' @ (css @ [css ! i @ css ! j]) ! j') ps)"
    "\<exists>new. as_queries st' = as_queries st1 @ new" "as_or st' = as_or st1"
    by fastforce
  have "map (\<lambda>(i', j'). (css @ [css ! i @ css ! j]) ! i' @ (css @ [css ! i @ css ! j]) ! j') ps =
      map (\<lambda>(i', j'). css ! i' @ css ! j') ps"
    using Cons.prems(3) by (auto simp: nth_append)
  with st' st1 p show ?case by auto
qed


text \<open>The conjunctions of two sets, of several sets in the order of the code, and the index of the first
  query of every set.\<close>

definition prod_conds :: "string list list \<Rightarrow> string list list \<Rightarrow> string list list" where
  "prod_conds A B = concat (map (\<lambda>a. map (\<lambda>b. a @ b) B) A)"

fun combine_sets :: "string list list list \<Rightarrow> string list list" where
  "combine_sets (A # B # rest) = fold prod_conds rest (prod_conds A B)"
| "combine_sets S = concat S"

fun offsets :: "nat \<Rightarrow> 'a list list \<Rightarrow> nat list" where
  "offsets p [] = []"
| "offsets p (s # S) = p # offsets (p + length s) S"

lemma length_offsets [simp]: "length (offsets p S) = length S"
  by (induction S arbitrary: p) auto

lemma offsets_nth: "k < length S \<Longrightarrow> offsets p S ! k = p + length (concat (take k S))"
proof (induction S arbitrary: p k)
  case (Cons s S)
  then show ?case by (cases k) auto
qed simp

lemma offsets_snoc: "offsets p (S @ [s]) = offsets p S @ [p + length (concat S)]"
  by (induction S arbitrary: p) auto

lemma map_nth_segment: "map (nth (xs @ ys @ zs)) [length xs..<length xs + length ys] = ys"
  by (rule nth_equalityI) (auto simp: nth_append)

definition set_end :: "nat list \<Rightarrow> nat \<Rightarrow> nat \<Rightarrow> nat" where
  "set_end ors size1 k = (if k < length ors - 1 then ors ! (k + 1) else size1)"

lemma set_end_offsets:
  assumes "k < length S"
  shows "set_end (offsets p S) (p + length (concat S)) k = offsets p S ! k + length (S ! k)"
proof (cases "k + 1 < length S")
  case True
  then have "take (k + 1) S = take k S @ [S ! k]"
    by (simp add: take_Suc_conv_app_nth)
  with True assms show ?thesis
    using offsets_nth [of "k + 1" S p] offsets_nth [of k S p] by (simp add: set_end_def less_diff_conv)
next
  case False
  with assms have k: "k = length S - 1" "S \<noteq> []" by auto
  then have "concat S = concat (take k S) @ S ! k"
    by (metis append_butlast_last_id butlast_conv_take concat.simps concat_append last_conv_nth append_Nil2)
  with k show ?thesis
    using offsets_nth [of k S p] by (simp add: set_end_def)
qed

lemma set_segment:
  assumes "k < length S"
  shows "map (nth (pre @ concat S @ extra))
    [offsets (length pre) S ! k..<set_end (offsets (length pre) S) (length pre + length (concat S)) k] = S ! k"
proof -
  have "concat S = concat (take k S) @ S ! k @ concat (drop (Suc k) S)"
    using assms by (metis concat.simps(2) concat_append id_take_nth_drop)
  then have eq: "pre @ concat S @ extra = (pre @ concat (take k S)) @ S ! k @ (concat (drop (Suc k) S) @ extra)"
    by simp
  have "map (nth (pre @ concat S @ extra)) [length pre + length (concat (take k S))..<
      length pre + length (concat (take k S)) + length (S ! k)] = S ! k"
    using map_nth_segment [of "pre @ concat (take k S)" "S ! k" "concat (drop (Suc k) S) @ extra"]
    by (subst eq) simp
  then show ?thesis
    by (simp only: set_end_offsets [OF assms] offsets_nth [OF assms])
qed

lemma prod_pairs:
  "map (\<lambda>(i, j). css ! i @ css ! j) (concat (map (\<lambda>i. map (\<lambda>j. (i, j)) J) I)) =
    prod_conds (map (nth css) I) (map (nth css) J)"
  by (simp add: prod_conds_def map_concat o_def)

lemma repr_erase:
  assumes "repr E h st css" "a \<le> b" "b \<le> length css"
  shows "\<exists>qs. erase_range a b (as_queries st) = Inr qs \<and> repr E h (st\<lparr>as_queries := qs\<rparr>) (take a css @ drop b css) \<and>
    qs = take a (as_queries st) @ drop b (as_queries st)"
proof -
  have "distinct (take a (as_queries st) @ drop b (as_queries st))"
    using assms(1,2) by (auto simp: repr_def dest: in_set_takeD in_set_dropD)
      (metis disjoint_iff set_take_disj_set_drop_if_distinct)
  moreover have "map (nth (as_heap st)) (take a (as_queries st) @ drop b (as_queries st)) =
      map (cond_query E h) (take a css @ drop b css)"
    using assms(1) by (simp add: repr_def take_map [symmetric] drop_map [symmetric] del: map_eq_conv)
  ultimately show ?thesis
    using assms repr_length [OF assms(1)]
    by (auto simp: repr_def erase_range_def dest: in_set_takeD in_set_dropD simp del: map_eq_conv)
qed


lemma repr_combine_round:
  assumes r: "repr E h st (pre @ concat S @ extra)" and S: "2 \<le> length S" and k: "k < length pre"
    and round: "or_set = 0 \<and> extra = [] \<and> result = prod_conds (S ! 0) (S ! 1) \<or>
      2 \<le> or_set \<and> or_set < length S \<and> result = prod_conds (S ! or_set) extra"
  shows "\<exists>st'. combine_round E (offsets (length pre) S) (as_queries st ! k) (length pre + length (concat S)) or_set st =
      Inr st' \<and> repr E h st' (pre @ concat S @ result) \<and> as_queries st' ! k = as_queries st ! k \<and> as_or st' = as_or st"
proof -
  let ?css = "pre @ concat S @ extra" and ?ors = "offsets (length pre) S" and ?size1 = "length pre + length (concat S)"
  define first2 where "first2 = (if or_set = 0 then ?ors ! 1 else ?size1)"
  define last2 where "last2 = (if or_set = 0 \<and> length ?ors > 2 then ?ors ! (or_set + 2) else length ?css)"
  define ps where "ps = concat (map (\<lambda>i. map (\<lambda>j. (i, j)) [first2..<last2]) [?ors ! or_set..<set_end ?ors ?size1 or_set])"
  have or_set: "or_set < length S" using round S by auto
  have seg1: "map (nth ?css) [?ors ! or_set..<set_end ?ors ?size1 or_set] = S ! or_set"
    by (rule set_segment [OF or_set])
  have seg2: "map (nth ?css) [first2..<last2] = (if or_set = 0 then S ! 1 else extra)"
  proof (cases "or_set = 0")
    case True
    with round S have "last2 = set_end ?ors ?size1 1"
      by (auto simp: last2_def set_end_def)
    moreover have "map (nth ?css) [?ors ! 1..<set_end ?ors ?size1 1] = S ! 1"
      using S by (intro set_segment) simp
    ultimately show ?thesis using True by (simp add: first2_def)
  next
    case False
    then show ?thesis
      using map_nth_segment [of "pre @ concat S" extra "[]"] by (simp add: first2_def last2_def add.assoc)
  qed
  have result: "map (\<lambda>(i, j). ?css ! i @ ?css ! j) ps = result"
    using round by (auto simp: ps_def prod_pairs seg1 seg2)
  have bounds: "last2 \<le> length ?css" "set_end ?ors ?size1 or_set \<le> length ?css"
  proof -
    have le: "?ors ! i + length (S ! i) \<le> length ?css" if "i < length S" for i
      using that offsets_nth [OF that, of "length pre"]
        arg_cong [OF id_take_nth_drop [OF that], of "\<lambda>S. length (concat S)"] by simp
    show "set_end ?ors ?size1 or_set \<le> length ?css"
      using le [OF or_set] by (simp add: set_end_offsets [OF or_set])
    show "last2 \<le> length ?css"
      using le [of 2] by (auto simp: last2_def numeral_2_eq_2)
  qed
  have inside: "\<forall>p \<in> set ps. fst p < length ?css \<and> snd p < length ?css"
    using bounds by (auto simp: ps_def)
  have len: "length (as_queries st) = length ?css" by (rule repr_length [OF r])
  from repr_combine_pairs [OF r _ inside, of k] k result
  obtain st1 new where st1: "fold_result (combine_pair E (as_queries st ! k)) ps st = Inr st1"
    "repr E h st1 (?css @ result)" "as_queries st1 = as_queries st @ new" "as_or st1 = as_or st"
    by auto
  have er: "?size1 \<le> length ?css" "length ?css \<le> length (?css @ result)" by simp_all
  from repr_erase [OF st1(2) er] obtain qs where qs: "erase_range ?size1 (length ?css) (as_queries st1) = Inr qs"
    "repr E h (st1\<lparr>as_queries := qs\<rparr>) (pre @ concat S @ result)" "qs = take ?size1 (as_queries st1) @ drop (length ?css) (as_queries st1)"
    by auto
  have "combine_round E ?ors (as_queries st ! k) ?size1 or_set st =
      rbind (fold_result (combine_pair E (as_queries st ! k)) ps st) (\<lambda>st.
        rbind (erase_range ?size1 (length ?css) (as_queries st)) (\<lambda>qs. Inr (st\<lparr>as_queries := qs\<rparr>)))"
    unfolding combine_round_def Let_def ps_def first2_def last2_def set_end_def len by (rule refl)
  then have "combine_round E ?ors (as_queries st ! k) ?size1 or_set st = Inr (st1\<lparr>as_queries := qs\<rparr>)"
    using st1(1) qs(1) by simp
  moreover have "qs ! k = as_queries st ! k"
    using k len by (simp add: qs(3) st1(3) nth_append)
  ultimately show ?thesis
    using qs(2) st1(4) by auto
qed


lemma repr_combine_rounds:
  assumes "repr E h st (pre @ concat S @ extra)" "2 \<le> length S" "k < length pre"
    and "2 \<le> m" "m \<le> n" "n \<le> length S"
  shows "\<exists>st'. fold_result (combine_round E (offsets (length pre) S) (as_queries st ! k) (length pre + length (concat S)))
        [m..<n] st = Inr st' \<and>
      repr E h st' (pre @ concat S @ fold prod_conds (map (nth S) [m..<n]) extra) \<and>
      as_queries st' ! k = as_queries st ! k \<and> as_or st' = as_or st"
  using assms(5,6)
proof (induction n rule: dec_induct)
  case base
  then show ?case using assms(1) by simp
next
  case (step n)
  from step.IH step.prems obtain st1 where
    st1: "fold_result (combine_round E (offsets (length pre) S) (as_queries st ! k) (length pre + length (concat S)))
        [m..<n] st = Inr st1"
      "repr E h st1 (pre @ concat S @ fold prod_conds (map (nth S) [m..<n]) extra)"
      "as_queries st1 ! k = as_queries st ! k" "as_or st1 = as_or st"
    by auto
  from repr_combine_round [OF st1(2) assms(2,3), of n] st1 step assms(4)
  show ?case by (auto simp: fold_result_append)
qed

lemma repr_combine:
  assumes r: "repr E h st (pre @ concat S)" and S: "2 \<le> length S" and k: "k < length pre"
  shows "\<exists>st'. combine_or_queries E (offsets (length pre) S) (as_queries st ! k) st = Inr st' \<and>
    repr E h st' (pre @ combine_sets S) \<and> as_queries st' ! k = as_queries st ! k"
proof -
  obtain A B rest where S_eq: "S = A # B # rest"
    using S by (cases S; cases "tl S") auto
  have r0: "repr E h st (pre @ concat S @ [])" using r by simp
  from repr_combine_round [OF r0 S k, of 0 "prod_conds A B"] S_eq
  obtain st1 where st1: "combine_round E (offsets (length pre) S) (as_queries st ! k) (length pre + length (concat S)) 0 st = Inr st1"
    "repr E h st1 (pre @ concat S @ prod_conds A B)" "as_queries st1 ! k = as_queries st ! k"
    by auto
  have "map (nth S) [2..<length S] = drop 2 S"
    by (rule nth_equalityI) auto
  then have rest: "map (nth S) [2..<length S] = rest" by (simp add: S_eq)
  from repr_combine_rounds [OF st1(2) S k, of 2 "length S"] S rest
  obtain st2 where st2: "fold_result (combine_round E (offsets (length pre) S) (as_queries st1 ! k) (length pre + length (concat S)))
      [2..<length S] st1 = Inr st2" "repr E h st2 (pre @ concat S @ combine_sets S)" "as_queries st2 ! k = as_queries st1 ! k"
    by (auto simp: S_eq)
  have first: "offsets (length pre) S ! 0 = length pre" by (simp add: S_eq)
  have er: "length pre \<le> length pre + length (concat S)"
    "length pre + length (concat S) \<le> length (pre @ concat S @ combine_sets S)" by simp_all
  from repr_erase [OF st2(2) er] obtain qs where qs: "erase_range (length pre) (length pre + length (concat S)) (as_queries st2) = Inr qs"
    "repr E h (st2\<lparr>as_queries := qs\<rparr>) (pre @ combine_sets S)"
    "qs = take (length pre) (as_queries st2) @ drop (length pre + length (concat S)) (as_queries st2)"
    by auto
  have "length (as_queries st) = length pre + length (concat S)"
    using repr_length [OF r] by simp
  then have "combine_or_queries E (offsets (length pre) S) (as_queries st ! k) st = Inr (st2\<lparr>as_queries := qs\<rparr>)"
    using st1 st2(1) qs(1) first by (simp add: combine_or_queries_def Let_def)
  moreover have "qs ! k = as_queries st ! k"
    using k repr_length [OF st2(2)] st1(3) st2(3) by (simp add: qs(3) nth_append)
  ultimately show ?thesis using qs(2) by auto
qed

section \<open>The end of a conjunction\<close>

definition and_result :: "string list \<Rightarrow> string list list list \<Rightarrow> string list list" where
  "and_result a S =
     (let core = (if 2 \<le> length S then combine_sets S else concat S)
      in if a = [] then core else if core = [] then [a] else map (\<lambda>cs. cs @ a) core)"

lemma repr_copies:
  assumes "repr E h st (pre @ a # prev @ rest)" and "k = length pre"
    and "qs = drop (length pre + 1 + length prev) (as_queries st)"
  shows "\<exists>st'. fold_result (copy_query E (as_queries st ! k)) qs st = Inr st' \<and>
    repr E h st' (pre @ a # prev @ map (\<lambda>cs. cs @ a) rest) \<and> as_queries st' = as_queries st \<and> as_or st' = as_or st"
  using assms
proof (induction rest arbitrary: st prev qs)
  case Nil
  then have "qs = []" using repr_length [OF Nil.prems(1)] by simp
  with Nil show ?case by simp
next
  case (Cons r rest)
  let ?l = "length pre + 1 + length prev"
  have len: "length (as_queries st) = length (pre @ a # prev @ r # rest)"
    by (rule repr_length [OF Cons.prems(1)])
  then have qs: "qs = as_queries st ! ?l # drop (Suc ?l) (as_queries st)"
    using Cons.prems(3) by (simp add: Cons_nth_drop_Suc)
  from repr_copy [OF Cons.prems(1), of k ?l] Cons.prems(2)
  obtain st1 where st1: "copy_query E (as_queries st ! k) (as_queries st ! ?l) st = Inr st1"
    "repr E h st1 (pre @ a # (prev @ [r @ a]) @ rest)" "as_queries st1 = as_queries st" "as_or st1 = as_or st"
    by (auto simp: nth_append list_update_append)
  from Cons.IH [OF st1(2) Cons.prems(2) refl] st1 qs show ?case by simp
qed

lemma repr_erase_one:
  assumes "repr E h st (pre @ a # rest)"
  shows "\<exists>qs. erase_range (length pre) (length pre + 1) (as_queries st) = Inr qs \<and>
    repr E h (st\<lparr>as_queries := qs\<rparr>) (pre @ rest)"
  using repr_erase [OF assms, of "length pre" "length pre + 1"] by auto

lemma repr_end_of_and:
  assumes r: "repr E h st (pre @ a # concat S)" and ors: "as_or st = offsets (length pre + 1) S"
  shows "\<exists>st'. handle_end_of_and_element E (length pre) (as_queries st ! length pre) st = Inr st' \<and>
    repr E h st' (pre @ and_result a S) \<and> as_or st' = []"
proof -
  let ?core = "if 2 \<le> length S then combine_sets S else concat S"
  obtain st1 where st1: "(if 2 \<le> length (as_or st) then combine_or_queries E (as_or st) (as_queries st ! length pre) st
      else Inr st) = Inr st1" "repr E h st1 (pre @ a # ?core)" "as_queries st1 ! length pre = as_queries st ! length pre"
  proof (cases "2 \<le> length S")
    case True
    have "repr E h st ((pre @ [a]) @ concat S)" using r by simp
    from repr_combine [OF this True, of "length pre"] True show ?thesis
      using that by (auto simp: ors)
  next
    case False
    with r show ?thesis using that by (simp add: ors)
  qed
  define st2 where "st2 = st1\<lparr>as_or := []\<rparr>"
  have r2: "repr E h st2 (pre @ a # ?core)" "as_or st2 = []" "as_queries st2 = as_queries st1"
    using st1(2) by (simp_all add: st2_def)
  have deref: "deref st2 (as_queries st ! length pre) = Inr (cond_query E h a)"
    using repr_deref [OF r2(1), of "length pre"] st1(3) r2(3) by (simp add: nth_append)
  have len: "length (as_queries st2) = length pre + 1 + length ?core"
    using repr_length [OF r2(1)] by simp
  consider "a = []" | "a \<noteq> []" "?core = []" | "a \<noteq> []" "?core \<noteq> []" by blast
  then show ?thesis
  proof cases
    case 1
    with repr_erase_one [OF r2(1)] deref st1(1) r2(2) show ?thesis
      by (auto simp: handle_end_of_and_element_def st2_def [symmetric] Let_def and_result_def)
  next
    case 2
    with deref st1(1) r2(1,2) len show ?thesis
      by (auto simp: handle_end_of_and_element_def st2_def [symmetric] Let_def and_result_def)
  next
    case 3
    have "repr E h st2 (pre @ a # [] @ ?core)" using r2(1) by simp
    from repr_copies [OF this refl, of "drop (length pre + 1) (as_queries st2)"] st1(3) r2(2,3)
    obtain st3 where st3: "fold_result (copy_query E (as_queries st ! length pre)) (drop (length pre + 1) (as_queries st2)) st2 = Inr st3"
      "repr E h st3 (pre @ a # map (\<lambda>cs. cs @ a) ?core)" "as_or st3 = []"
      by auto
    from repr_erase_one [OF st3(2)] 3 st3(1,3) deref st1(1) len show ?thesis
      by (auto simp: handle_end_of_and_element_def st2_def [symmetric] Let_def and_result_def)
  qed
qed

section \<open>Comparisons inside a disjunction and a conjunction\<close>

definition is_leaf :: "'dt ah_env \<Rightarrow> xnode \<Rightarrow> string \<Rightarrow> bool" where
  "is_leaf E el c \<longleftrightarrow> is_comparison_operation (ae_lc E (xn_tag el)) \<and>
     comparison_filter (ae_lc E) (ae_conv E) (ae_lc E (xn_tag el)) el = Inr c"

lemma comparison_names:
  "is_comparison_operation name \<Longrightarrow> name \<noteq> ''fes:not'' \<and> name \<noteq> ''fes:and'' \<and> name \<noteq> ''fes:or'' \<and> \<not> is_query_parameter name"
  by (auto simp: is_comparison_operation_def comparison_operations_def is_query_parameter_def split: if_splits)

lemma repr_back:
  assumes "repr E h st css" "css \<noteq> []"
  shows "queries_back st = Inr (as_queries st ! (length css - 1))"
    and "deref st (as_queries st ! (length css - 1)) = Inr (cond_query E h (last css))"
  using assms repr_length [OF assms(1)] repr_deref [OF assms(1), of "length css - 1"]
  by (auto simp: queries_back_def last_conv_nth)

lemma read_leaf:
  assumes "repr E h st css" "k < length css" "is_leaf E el c"
    and target: "(case upper of Some a \<Rightarrow> if last tree \<noteq> ''fes:or'' then a else i | None \<Rightarrow> i) = as_queries st ! k"
  shows "\<exists>st'. read_filter_parameter E el tree (ae_lc E (xn_tag el)) loc i upper st = Inr (loc, st') \<and>
    repr E h st' (css[k := css ! k @ [c]]) \<and> as_queries st' = as_queries st \<and> as_or st' = as_or st"
proof -
  have "add_condition c (filt (css ! k)) = filt (css ! k @ [c])" by (simp add: filt_snoc)
  then have "(cond_query E h (css ! k))\<lparr>ah_filter := add_condition c (filt (css ! k))\<rparr> = cond_query E h (css ! k @ [c])"
    by (simp add: cond_query_def)
  then show ?thesis
    using assms repr_update [OF assms(1,2), of "css ! k @ [c]"]
    by (auto simp: read_filter_parameter_def Let_def is_leaf_def read_comparison_operation_def repr_deref
        update_query_def)
qed

text \<open>The disjuncts of \<open>fes:Or\<close> inside \<open>fes:And\<close>, where the last query is used or is that of the conjunction.\<close>

lemma repr_or_elements:
  assumes "list_all2 (is_leaf E) els cs" "repr E h st css" "css \<noteq> []"
    and "last css \<noteq> [] \<or> upper = Some (as_queries st ! (length css - 1))"
    and "as_or st = ors"
  shows "\<exists>st'. extract_elements E (tree @ [''fes:and'', ''fes:or'']) upper els loc st = Inr st' \<and>
    repr E h st' (css @ map (\<lambda>c. [c]) cs) \<and>
    as_or st' = ors @ (if fl_first loc \<and> cs \<noteq> [] then [length css] else []) \<and>
    take (length css) (as_queries st') = as_queries st"
  using assms
proof (induction els cs arbitrary: st css loc ors rule: list_all2_induct)
  case Nil
  then show ?case using repr_length [OF Nil(1)] by (simp add: extract_elements.simps)
next
  case (Cons el els c cs)
  let ?tree = "tree @ [''fes:and'', ''fes:or'']" and ?name = "ae_lc E (xn_tag el)"
  have name: "is_comparison_operation ?name" "?name \<noteq> ''fes:not'' \<and> ?name \<noteq> ''fes:and'' \<and> ?name \<noteq> ''fes:or''"
    "\<not> is_query_parameter ?name"
    using Cons.hyps(1) comparison_names by (auto simp: is_leaf_def)
  let ?st1 = "create_query E h st" and ?i = "length (as_heap st)"
  define loc1 where "loc1 = loc\<lparr>fl_names := [], fl_forbidden := [], fl_first := False\<rparr>"
  define st2 where "st2 = (if fl_first loc then ?st1\<lparr>as_or := ors @ [length css]\<rparr> else ?st1)"
  have loc1: "(if fl_first loc then loc\<lparr>fl_names := [], fl_forbidden := [], fl_first := False\<rparr>
      else loc\<lparr>fl_names := [], fl_forbidden := []\<rparr>) = loc1"
    by (simp add: loc1_def)
  have len: "length (as_queries st) = length css" by (rule repr_length [OF Cons.prems(1)])
  have next_q: "next_query E ?tree ?name upper loc st = Inr (?i, loc1, st2)"
    using repr_back [OF Cons.prems(1,2)] Cons.prems(3,4) name len loc1
    by (auto simp: next_query_def st2_def Let_def nth_append create_query_def)
  have r2: "repr E h st2 (css @ [[]])"
    using repr_create [OF Cons.prems(1)] by (simp add: st2_def)
  have q2: "as_queries st2 = as_queries st @ [?i]"
    by (simp add: st2_def create_query_def)
  have "(case upper of Some a \<Rightarrow> if last ?tree \<noteq> ''fes:or'' then a else ?i | None \<Rightarrow> ?i) = as_queries st2 ! length css"
    by (simp add: q2 nth_append len split: option.splits)
  from read_leaf [OF r2 _ Cons.hyps(1) this, of loc1]
  obtain st3 where st3: "read_filter_parameter E el ?tree ?name loc1 ?i upper st2 = Inr (loc1, st3)"
    "repr E h st3 (css @ [[c]])" "as_queries st3 = as_queries st @ [?i]" "as_or st3 = as_or st2"
    by (auto simp: q2)
  from Cons.IH [OF st3(2), where loc = loc1 and ors = "as_or st3"] obtain st4 where st4: "extract_elements E ?tree upper els loc1 st3 = Inr st4"
    "repr E h st4 ((css @ [[c]]) @ map (\<lambda>c. [c]) cs)" "as_or st4 = as_or st3"
    "take (length css + 1) (as_queries st4) = as_queries st3"
    by (auto simp: loc1_def)
  have "take (length css) (as_queries st4) = take (length css) (take (length css + 1) (as_queries st4))"
    by simp
  also have "\<dots> = as_queries st"
    using len by (simp only: st4(4) st3(3)) simp
  finally have "take (length css) (as_queries st4) = as_queries st" .
  moreover have "extract_elements E ?tree upper (el # els) loc st = Inr st4"
    using name next_q st3(1) st4(1) by (simp add: extract_elements.simps Let_def)
  ultimately show ?case
    using st4(2,3) st3(4) Cons.prems(4) by (auto simp: st2_def create_query_def)
qed


section \<open>A conjunction of comparisons and disjunctions\<close>

datatype fitem = FLeaf string | FOr "string list"

fun is_item :: "'dt ah_env \<Rightarrow> xnode \<Rightarrow> fitem \<Rightarrow> bool" where
  "is_item E el (FLeaf c) \<longleftrightarrow> is_leaf E el c"
| "is_item E el (FOr cs) \<longleftrightarrow> ae_lc E (xn_tag el) = ''fes:or'' \<and> cs \<noteq> [] \<and>
     list_all2 (is_leaf E) (get_child_elements el ''*'' ''*'') cs"

fun leaf_conds :: "fitem list \<Rightarrow> string list" where
  "leaf_conds [] = []"
| "leaf_conds (FLeaf c # items) = c # leaf_conds items"
| "leaf_conds (FOr cs # items) = leaf_conds items"

fun or_sets :: "fitem list \<Rightarrow> string list list list" where
  "or_sets [] = []"
| "or_sets (FLeaf c # items) = or_sets items"
| "or_sets (FOr cs # items) = map (\<lambda>c. [c]) cs # or_sets items"

definition proper_sets :: "string list list list \<Rightarrow> bool" where
  "proper_sets S \<longleftrightarrow> (\<forall>s \<in> set S. s \<noteq> [] \<and> [] \<notin> set s)"

lemma proper_or_sets: "list_all2 (is_item E) els items \<Longrightarrow> proper_sets (or_sets items)"
proof (induction rule: list_all2_induct)
  case (Cons el els item items)
  then show ?case by (cases item) (auto simp: proper_sets_def)
qed (simp add: proper_sets_def)

lemma last_query_free:
  assumes "repr E h st (pre @ a # concat S)" "proper_sets S"
  shows "last (pre @ a # concat S) \<noteq> [] \<or>
    Some (as_queries st ! length pre) = Some (as_queries st ! (length (pre @ a # concat S) - 1))"
proof (cases S rule: rev_cases)
  case (snoc S' s)
  with assms(2) have "s \<noteq> []" "[] \<notin> set s" by (auto simp: proper_sets_def)
  moreover from \<open>s \<noteq> []\<close> have "last s \<in> set s" by simp
  ultimately have "last s \<noteq> []" by metis
  then show ?thesis using snoc \<open>s \<noteq> []\<close> by simp
qed simp

lemma or_is_container:
  "\<not> is_query_parameter ''fes:or''" "\<not> is_comparison_operation ''fes:or''"
  "\<not> is_query_parameter ''fes:and''" "\<not> is_comparison_operation ''fes:and''"
  by (simp_all add: is_query_parameter_def is_comparison_operation_def comparison_operations_def)

lemma repr_and_elements:
  assumes "list_all2 (is_item E) els items" "repr E h st (pre @ a # concat S)"
    and "as_or st = offsets (length pre + 1) S" "proper_sets S" "aid = as_queries st ! length pre"
  shows "\<exists>st'. extract_elements E (tree @ [''fes:and'']) (Some aid) els loc st = Inr st' \<and>
    repr E h st' (pre @ (a @ leaf_conds items) # concat (S @ or_sets items)) \<and>
    as_or st' = offsets (length pre + 1) (S @ or_sets items) \<and> as_queries st' ! length pre = aid"
  using assms
proof (induction els items arbitrary: st a S loc rule: list_all2_induct)
  case Nil
  then show ?case by (simp add: extract_elements.simps)
next
  case (Cons el els item items)
  let ?css = "pre @ a # concat S" and ?name = "ae_lc E (xn_tag el)" and ?tree = "tree @ [''fes:and'']"
  have last_q: "queries_back st = Inr (as_queries st ! (length ?css - 1))"
    "deref st (as_queries st ! (length ?css - 1)) = Inr (cond_query E h (last ?css))"
    using repr_back [OF Cons.prems(1)] by auto
  have next_q: "next_query E ?tree name (Some aid) loc st = Inr (as_queries st ! (length ?css - 1), loc, st)" for name
    using last_q by (simp add: next_query_def)
  show ?case
  proof (cases item)
    case (FLeaf c)
    then have leaf: "is_leaf E el c" using Cons.hyps by simp
    then have name: "is_comparison_operation ?name" "?name \<noteq> ''fes:not''" "\<not> is_query_parameter ?name"
      using comparison_names by (auto simp: is_leaf_def)
    from read_leaf [OF Cons.prems(1) _ leaf, where k = "length pre" and upper = "Some aid" and tree = ?tree
        and loc = loc and i = "as_queries st ! (length ?css - 1)"] Cons.prems(4)
    obtain st1 where st1: "read_filter_parameter E el ?tree ?name loc (as_queries st ! (length ?css - 1)) (Some aid) st = Inr (loc, st1)"
      "repr E h st1 (pre @ (a @ [c]) # concat S)" "as_queries st1 = as_queries st" "as_or st1 = as_or st"
      by (auto simp: nth_append list_update_append)
    from Cons.IH [OF st1(2), where loc = loc] Cons.prems st1(3,4) FLeaf
    show ?thesis
      using name next_q st1(1) by (simp add: extract_elements.simps Let_def)
  next
    case (FOr cs)
    then have or_el: "?name = ''fes:or''" "cs \<noteq> []" "list_all2 (is_leaf E) (get_child_elements el ''*'' ''*'') cs"
      using Cons.hyps by auto
    have ne: "?css \<noteq> []" by simp
    have "last ?css \<noteq> [] \<or> Some aid = Some (as_queries st ! (length ?css - 1))"
      using last_query_free [OF Cons.prems(1,3)] Cons.prems(4) by simp
    from repr_or_elements [OF or_el(3) Cons.prems(1) ne this refl, of tree filter_local_new]
    obtain st1 where st1: "extract_elements E (tree @ [''fes:and'', ''fes:or'']) (Some aid) (get_child_elements el ''*'' ''*'')
        filter_local_new st = Inr st1" "repr E h st1 (?css @ map (\<lambda>c. [c]) cs)" "as_or st1 = as_or st @ [length ?css]"
      "take (length ?css) (as_queries st1) = as_queries st"
      using or_el(2) by (auto simp: filter_local_new_def)
    have r1: "repr E h st1 (pre @ a # concat (S @ [map (\<lambda>c. [c]) cs]))"
      using st1(2) by simp
    have o1: "as_or st1 = offsets (length pre + 1) (S @ [map (\<lambda>c. [c]) cs])"
      using st1(3) Cons.prems(2) by (simp add: offsets_snoc)
    have p1: "proper_sets (S @ [map (\<lambda>c. [c]) cs])"
      using Cons.prems(3) or_el(2) by (auto simp: proper_sets_def)
    have "as_queries st1 ! length pre = take (length ?css) (as_queries st1) ! length pre" by simp
    also have "\<dots> = aid" using Cons.prems(4) by (simp only: st1(4))
    finally have a1: "aid = as_queries st1 ! length pre" by (rule sym)
    from Cons.IH [OF r1 o1 p1 a1, where loc = loc] FOr
    show ?thesis
      using or_el(1) next_q [of "''fes:or''"] last_q st1(1) or_is_container
      by (simp add: extract_elements.simps Let_def)
  qed
qed

lemma map_deref:
  assumes "repr E h st css"
  shows "map_result (deref st) (as_queries st) = Inr (map (cond_query E h) css)"
  using repr_length [OF assms] repr_deref [OF assms]
  by (auto simp: map_result_Inr_iff list_all2_conv_all_nth)

lemma extract_and:
  assumes items: "list_all2 (is_item E') (get_child_elements el ''*'' ''*'') items"
    and E': "E' = E\<lparr>ae_cs := qc_case_sensitive (hd_config h)\<rparr>"
    and root: "get_child_elements root ''*'' ''*'' = [el]" "ae_lc E (xn_tag el) = ''fes:and''"
    and tree: "last tree \<noteq> ''fes:or''"
  shows "extract_filter E h tree root = Inr (map (cond_query E' h) (and_result (leaf_conds items) (or_sets items)))"
proof -
  let ?st0 = "create_query E' h \<lparr>as_heap = [], as_queries = [], as_or = []\<rparr>"
  have r0: "repr E' h ?st0 ([] @ [] # concat [])"
    by (simp add: repr_def create_query_def cond_query_def)
  have st0: "as_or ?st0 = offsets (length ([] :: string list list) + 1) []" "as_queries ?st0 = [0]"
    by (simp_all add: create_query_def)
  have last_q: "queries_back ?st0 = Inr 0" "deref ?st0 0 = Inr (cond_query E' h [])"
    using repr_back [OF r0] st0 by simp_all
  from repr_and_elements [OF items r0 st0(1), where loc = filter_local_new and tree = tree and aid = 0]
  obtain st1 where st1: "extract_elements E' (tree @ [''fes:and'']) (Some 0) (get_child_elements el ''*'' ''*'')
      filter_local_new ?st0 = Inr st1"
    "repr E' h st1 ([] @ leaf_conds items # concat (or_sets items))"
    "as_or st1 = offsets (length ([] :: string list list) + 1) (or_sets items)" "as_queries st1 ! 0 = 0"
    using st0(2) by (auto simp: proper_sets_def)
  from repr_end_of_and [OF st1(2,3)] st1(4)
  obtain st2 where st2: "handle_end_of_and_element E' 0 0 st1 = Inr st2"
    "repr E' h st2 (and_result (leaf_conds items) (or_sets items))"
    by auto
  have "ae_lc E' (xn_tag el) = ''fes:and''" using root(2) E' by simp
  then have "extract_elements E' tree None [el] filter_local_new ?st0 = Inr st2"
    using st1(1) st2(1) tree last_q or_is_container st0(2)
    by (simp add: extract_elements.simps next_query_def Let_def)
  then show ?thesis
    using root(1) map_deref [OF st2(2)] by (simp add: extract_filter_def Let_def E' [symmetric])
qed


section \<open>The disjunctive normal form\<close>

definition holds_all :: "(string \<Rightarrow> bool) \<Rightarrow> string list list \<Rightarrow> bool" where
  "holds_all P css \<longleftrightarrow> (\<exists>cs \<in> set css. \<forall>c \<in> set cs. P c)"

fun item_holds :: "(string \<Rightarrow> bool) \<Rightarrow> fitem \<Rightarrow> bool" where
  "item_holds P (FLeaf c) = P c"
| "item_holds P (FOr cs) = (\<exists>c \<in> set cs. P c)"

lemma holds_prod: "holds_all P (prod_conds A B) \<longleftrightarrow> holds_all P A \<and> holds_all P B"
  by (auto simp: holds_all_def prod_conds_def)

lemma holds_fold_prod: "holds_all P (fold prod_conds S A) \<longleftrightarrow> holds_all P A \<and> (\<forall>s \<in> set S. holds_all P s)"
  by (induction S arbitrary: A) (auto simp: holds_prod)

lemma holds_core:
  assumes "S \<noteq> []"
  shows "holds_all P (if 2 \<le> length S then combine_sets S else concat S) \<longleftrightarrow> (\<forall>s \<in> set S. holds_all P s)"
proof (cases S)
  case (Cons A rest)
  then show ?thesis
    by (cases rest) (auto simp: holds_fold_prod holds_prod)
qed (use assms in simp)

lemma holds_map_append: "holds_all P (map (\<lambda>cs. cs @ a) core) \<longleftrightarrow> holds_all P core \<and> (\<forall>c \<in> set a. P c)"
  by (auto simp: holds_all_def)

lemma prod_ne: "prod_conds A B \<noteq> [] \<longleftrightarrow> A \<noteq> [] \<and> B \<noteq> []"
  by (cases A; cases B) (simp_all add: prod_conds_def)

lemma prod_eq_Nil: "prod_conds A B = [] \<longleftrightarrow> A = [] \<or> B = []"
  using prod_ne by blast

lemma fold_prod_ne: "fold prod_conds S A \<noteq> [] \<longleftrightarrow> A \<noteq> [] \<and> [] \<notin> set S"
  by (induction S arbitrary: A) (auto simp: prod_eq_Nil)

lemma core_ne:
  assumes "S \<noteq> []" "proper_sets S"
  shows "(if 2 \<le> length S then combine_sets S else concat S) \<noteq> []"
proof (cases S)
  case (Cons A rest)
  then show ?thesis
    using assms Cons by (cases rest) (auto simp: proper_sets_def fold_prod_ne prod_eq_Nil)
qed (use assms in simp)

lemma holds_and_result:
  assumes "proper_sets S" "a \<noteq> [] \<or> S \<noteq> []"
  shows "holds_all P (and_result a S) \<longleftrightarrow> (\<forall>c \<in> set a. P c) \<and> (\<forall>s \<in> set S. holds_all P s)"
proof (cases "S = []")
  case True
  then show ?thesis using assms(2) by (auto simp: and_result_def holds_all_def)
next
  case False
  let ?core = "if 2 \<le> length S then combine_sets S else concat S"
  have "?core \<noteq> []" by (rule core_ne [OF False assms(1)])
  then have "and_result a S = (if a = [] then ?core else map (\<lambda>cs. cs @ a) ?core)"
    by (simp only: and_result_def Let_def if_False)
  then show ?thesis
    using holds_core [OF False, of P] holds_map_append [of P a ?core] by (cases "a = []") auto
qed

lemma holds_items:
  "(\<forall>c \<in> set (leaf_conds items). P c) \<and> (\<forall>s \<in> set (or_sets items). holds_all P s) \<longleftrightarrow>
   (\<forall>item \<in> set items. item_holds P item)"
proof (induction items)
  case (Cons item items)
  then show ?case by (cases item) (auto simp: holds_all_def)
qed simp

lemma items_ne: "items \<noteq> [] \<Longrightarrow> leaf_conds items \<noteq> [] \<or> or_sets items \<noteq> []"
  by (cases items rule: leaf_conds.cases) auto

text \<open>C3. A filter that is a conjunction of comparisons and of disjunctions of comparisons becomes
  its disjunctive normal form: the queries made of it are ad hoc queries of the same handler whose
  filter expressions are conjunctions of comparisons, and a member satisfies every item of the
  conjunction exactly when it satisfies all the comparisons of one of the queries, whatever the
  comparisons mean.\<close>

theorem filter_dnf:
  assumes "list_all2 (is_item E') (get_child_elements el ''*'' ''*'') items" "items \<noteq> []"
    and "E' = E\<lparr>ae_cs := qc_case_sensitive (hd_config h)\<rparr>"
    and "get_child_elements root ''*'' ''*'' = [el]" "ae_lc E (xn_tag el) = ''fes:and''"
    and "last tree \<noteq> ''fes:or''"
  shows "\<exists>css. extract_filter E h tree root = Inr (map (cond_query E' h) css) \<and>
    (\<forall>P. holds_all P css \<longleftrightarrow> (\<forall>item \<in> set items. item_holds P item))"
  using extract_and [OF assms(1,3-6)] holds_and_result [OF proper_or_sets [OF assms(1)] items_ne [OF assms(2)]]
  by (auto simp: holds_items)

text \<open>Filters over comparisons of one property with a number.\<close>

definition demo_ah :: "unit ah_env" where
  "demo_ah = \<lparr>ae_lc = ascii_lower, ae_conv = demo_xml_conv, ae_limit = (\<lambda>_ _ _. Inr ()), ae_text = (\<lambda>_. []), ae_cs = False\<rparr>"

definition demo_fh :: "unit handler" where
  "demo_fh = demo_handler (demo_query ''q'') ''f''"

definition fes_element :: "string \<Rightarrow> xnode list \<Rightarrow> xnode" where
  "fes_element name children = XElement (''fes:'' @ name) name FES_NAMESPACE_URI [] children"

definition equal_to :: "string \<Rightarrow> xnode" where
  "equal_to v = fes_element ''PropertyIsEqualTo''
     [fes_element ''ValueReference'' [XText ''a''], fes_element ''Literal'' [XText v]]"

lemma fes_element_sel [simp]:
  "xn_tag (fes_element n c) = ''fes:'' @ n" "xn_ns (fes_element n c) = FES_NAMESPACE_URI"
  "xn_local (fes_element n c) = n" "is_element (fes_element n c)" "xn_children (fes_element n c) = c"
  "get_attr (fes_element n c) a = None"
  by (simp_all add: fes_element_def)

lemma fes_children [simp]:
  "list_all is_element cs \<Longrightarrow> get_child_elements (fes_element n cs) ''*'' ''*'' = cs"
  by (simp add: get_child_elements_def filter_id_conv list_all_iff)

lemma lower_names [simp]: "ascii_lower ''fes:PropertyIsEqualTo'' = ''fes:propertyisequalto''"
  "ascii_lower ''fes:And'' = ''fes:and''" "ascii_lower ''fes:Or'' = ''fes:or''"
  "ascii_lower ''fes:ValueReference'' = ''fes:valuereference''" "ascii_lower ''fes:Literal'' = ''fes:literal''"
  by code_simp+

lemma string_param: "extract_param C (fes_element n [XText v]) ''xsi:string'' = Inr [VString v]"
proof -
  have "type_local_name ''xsi:string'' = ''string''" by code_simp
  then show ?thesis
   by (simp add: extract_param_def extractor_map_def extract_string_def extract_text_def)
qed

lemma equal_to_condition:
  assumes "strtod_rest (c_str v) = []" "v \<noteq> ''NaN''"
  shows "comparison_filter ascii_lower C ''fes:propertyisequalto'' (equal_to v) = Inr (''descendant::a = '' @ v)"
  using assms
  by (simp add: comparison_filter_def equal_to_def get_child_elements_def comparison_child_def string_param
     vec_at_def read_value_reference_def read_literal_def comparison_condition_def read_match_case_def read_match_action_def
     match_filter_expression_def get_comparison_operation_def comparison_operations_def)
lemma digits:
  "strtod_rest (c_str ''1'') = []" "strtod_rest (c_str ''2'') = []" "strtod_rest (c_str ''3'') = []"
  "strtod_rest (c_str ''4'') = []" "strtod_rest (c_str ''5'') = []"
  by code_simp+

lemma names [simp]: "is_comparison_operation ''fes:propertyisequalto''" "\<not> is_query_parameter ''fes:propertyisequalto''"
  by (simp_all add: is_query_parameter_def is_comparison_operation_def comparison_operations_def)

lemma equal_to_sel [simp]: "is_element (equal_to v)" "ascii_lower (xn_tag (equal_to v)) = ''fes:propertyisequalto''"
  by (simp_all only: equal_to_def fes_element_sel append.simps lower_names)
lemma equal_to_leaf: "is_leaf demo_ah (equal_to ''1'') ''descendant::a = 1''" "is_leaf demo_ah (equal_to ''2'') ''descendant::a = 2''"
  using equal_to_condition [OF digits(1)] equal_to_condition [OF digits(2)]
  by (simp_all add: is_leaf_def demo_ah_def)

definition demo_filter :: xnode where
  "demo_filter = fes_element ''Filter'' [fes_element ''And'' [equal_to ''1'', fes_element ''Or'' [equal_to ''1'', equal_to ''2'']]]"

lemma filter_dnf_witness:
  "\<exists>css. extract_filter demo_ah demo_fh [''fes:filter''] demo_filter = Inr (map (cond_query demo_ah demo_fh) css) \<and>
    (\<forall>P. holds_all P css \<longleftrightarrow> P ''descendant::a = 1'' \<and> (P ''descendant::a = 1'' \<or> P ''descendant::a = 2''))"
proof -
  let ?and = "fes_element ''And'' [equal_to ''1'', fes_element ''Or'' [equal_to ''1'', equal_to ''2'']]"
  have ch: "get_child_elements ?and ''*'' ''*'' = [equal_to ''1'', fes_element ''Or'' [equal_to ''1'', equal_to ''2'']]"
    "get_child_elements (fes_element ''Or'' [equal_to ''1'', equal_to ''2'']) ''*'' ''*'' = [equal_to ''1'', equal_to ''2'']"
    "get_child_elements demo_filter ''*'' ''*'' = [?and]"
    by (simp_all add: demo_filter_def)
  have nm: "ae_lc demo_ah (xn_tag (fes_element ''Or'' [equal_to ''1'', equal_to ''2''])) = ''fes:or''"
    "ae_lc demo_ah (xn_tag ?and) = ''fes:and''"
    by (simp_all add: demo_ah_def)
  have items: "list_all2 (is_item demo_ah) (get_child_elements ?and ''*'' ''*'')
      [FLeaf ''descendant::a = 1'', FOr [''descendant::a = 1'', ''descendant::a = 2'']]"
    using equal_to_leaf ch(1,2) nm(1) by simp
  have E: "demo_ah = demo_ah\<lparr>ae_cs := qc_case_sensitive (hd_config demo_fh)\<rparr>"
    by (simp add: demo_ah_def demo_fh_def demo_handler_def demo_query_def config_new_def)
  from filter_dnf [OF items _ E ch(3) nm(2), of "[''fes:filter'']"] show ?thesis by simp
qed

section \<open>Filters that are not resolved\<close>

text \<open>The filter expressions of the queries of a filter.\<close>

definition filters_of :: "xnode \<Rightarrow> string list result" where
  "filters_of root = rbind (extract_filter demo_ah demo_fh [''fes:filter''] root) (\<lambda>qs. Inr (map ah_filter qs))"

lemmas run_defs = filters_of_def extract_filter_def extract_elements.simps next_query_def Let_def demo_ah_def create_query_def
  queries_back_def deref_def vec_at_def or_is_container is_query_used_def handle_end_of_and_element_def rpm_size_def rpm_new_def
  erase_range_def read_filter_parameter_def read_comparison_operation_def equal_to_condition digits update_query_def add_condition_def
 combine_or_queries_def combine_round_def combine_pair_def copy_query_def copy_params_def get_keys_def merge_filters_def after_bracket_def filter_local_new_def mm_keys_def
text \<open>
  An empty conjunction leaves no query behind, and the next element then reads the last element of
  an empty vector.
\<close>

lemma empty_and_undefined:
  "filters_of (fes_element ''Filter'' [fes_element ''And'' [fes_element ''And'' [], equal_to ''1'']]) =
     Inl (Undefined ''back of an empty vector'')"
  by (simp add: run_defs)

text \<open>
  A conjunction inside a conjunction is resolved into the last query of the enclosing one: after a
  disjunction the nested conditions join its last disjunct only.
\<close>

lemma nested_and_joins_last:
  "filters_of (fes_element ''Filter'' [fes_element ''And''
      [fes_element ''Or'' [equal_to ''1'', equal_to ''2''], fes_element ''And'' [equal_to ''3'', equal_to ''4'']]]) =
     Inr [''//wfs:member[(descendant::a = 1)]'',
       ''//wfs:member[(descendant::a = 2) and (descendant::a = 3) and (descendant::a = 4)]'']"
  by (simp add: run_defs)

text \<open>A disjunction whose first disjunct is a conjunction is not combined with the next one.\<close>

lemma and_in_or_not_combined:
  "filters_of (fes_element ''Filter'' [fes_element ''And''
      [fes_element ''Or'' [fes_element ''And'' [equal_to ''1'', equal_to ''2''], equal_to ''3''],
       fes_element ''Or'' [equal_to ''4'', equal_to ''5'']]]) = Inr [''//wfs:member[(descendant::a = 1) and (descendant::a = 2)]'',
       ''//wfs:member[(descendant::a = 3) and (descendant::a = 4)]'',
       ''//wfs:member[(descendant::a = 3) and (descendant::a = 5)]'']"
  by (simp add: run_defs)
end
