(* ===== verification/AdHoc.thy ===== *)
theory AdHoc
  imports Filters
begin

text \<open>
  Ad hoc queries (\<open>libwfs/AdHocQuery.cpp\<close>): from the parameters of a request or a \<open>wfs:Query\<close> element
  to the queries that the stored queries of the type names are asked with.  The filters are those of
  \<open>Filters\<close>, the handlers are found in a directory as in \<open>StoredQueries\<close>.
\<close>

section \<open>Parameters of a request\<close>

record kvp_query_params =
  kq_request :: "string option"
  kq_bbox :: "string option"
  kq_resource_id :: "string option"
  kq_filter :: "string option"
  kq_filter_language :: "string option"
  kq_property_names :: "string list"
  kq_type_names :: "string list"
  kq_aliases :: "string list"

definition kvp_new :: kvp_query_params where
  "kvp_new = \<lparr>kq_request = None, kq_bbox = None, kq_resource_id = None, kq_filter = None, kq_filter_language = None,
     kq_property_names = [], kq_type_names = [], kq_aliases = []\<rparr>"

text \<open>\<open>uc\<close> is \<open>Fmi::ascii_toupper_copy\<close>; a parameter that occurs again replaces what was read.\<close>

definition read_kvp_param :: "(string \<Rightarrow> string) \<Rightarrow> string \<times> string \<Rightarrow> kvp_query_params \<Rightarrow> kvp_query_params" where
  "read_kvp_param uc item kvp = (case item of (name, val) \<Rightarrow>
     let param_name = uc name in
     if param_name = ''REQUEST'' then kvp\<lparr>kq_request := Some val\<rparr>
     else if param_name = ''BBOX'' then kvp\<lparr>kq_bbox := Some val\<rparr>
     else if param_name = ''RESOURCEID'' then kvp\<lparr>kq_resource_id := Some val\<rparr>
     else if param_name = ''FILTER'' then kvp\<lparr>kq_filter := Some val\<rparr>
     else if param_name = ''FILTER_LANGUAGE'' then kvp\<lparr>kq_filter_language := Some val\<rparr>
     else if param_name = ''PROPERTYNAME'' then kvp\<lparr>kq_property_names := split_at CHR '','' val\<rparr>
     else if param_name = ''TYPENAMES'' then kvp\<lparr>kq_type_names := split_at CHR '','' val\<rparr>
     else if param_name = ''ALIASES'' then kvp\<lparr>kq_aliases := split_at CHR '','' val\<rparr>
     else kvp)"

definition read_kvp_query_params :: "(string \<Rightarrow> string) \<Rightarrow> (string \<times> string) list \<Rightarrow> kvp_query_params" where
  "read_kvp_query_params uc items = fold (read_kvp_param uc) items kvp_new"

definition get_stored_query_ids_from_typenames ::
    "(string \<Rightarrow> string) \<Rightarrow> (string \<times> string list) list \<Rightarrow> string list \<Rightarrow> string list result" where
  "get_stored_query_ids_from_typenames lc tm type_names =
     rbind (map_result (\<lambda>t. get_stored_queries_by_name lc tm (lc t)) type_names) (\<lambda>ids. Inr (concat ids))"

definition get_xml_typenames :: "xnode \<Rightarrow> string list result" where
  "get_xml_typenames query_root =
     (if xn_ns query_root = WFS_NAMESPACE_URI \<and> xn_local query_root = ''Query''
      then rbind (get_mandatory_attr (get_attr query_root) ''typeNames'') (\<lambda>t. Inr (split_at CHR '' '' t))
      else Inr [])"

section \<open>Finished queries\<close>

text \<open>\<open>AdHocQuery\<close> is derived from \<open>StoredQuery\<close>; a request holds queries of both kinds.\<close>

record 'dt adhoc_query = "'dt stored_query" +
  aq_filter :: string

datatype 'dt any_query = Stored "'dt stored_query" | AdHoc "'dt adhoc_query"

text \<open>
  The key has the query, its parameters, the language and the debug format, but neither the data
  source nor the qualifier of the handler that \<open>StoredQuery\<close> puts into it.
\<close>

definition adhoc_cache_id :: "string \<Rightarrow> 'dt value_map \<Rightarrow> string \<Rightarrow> bool \<Rightarrow> 'dt feature_id" where
  "adhoc_cache_id query_id params language debug =
     (let f = add_param ''language'' (VString language) (fid_new query_id params)
      in if debug then add_param ''debugFormat'' (VInt 1) f else f)"

definition finish_adhoc ::
    "'dt id_ops \<Rightarrow> string \<Rightarrow> string \<Rightarrow> bool \<Rightarrow> 'dt adhoc \<Rightarrow> 'dt adhoc_query result" where
  "finish_adhoc K language query_id debug q =
     rbind (hd_process (ah_handler q) query_id (ah_params q)) (\<lambda>params.
     rbind (make_id K (adhoc_cache_id query_id (get_map True params) language debug)) (\<lambda>key.
     Inr \<lparr>sq_id = query_id, sq_cache_key = key, sq_language = language, sq_params = params,
       sq_orig_params = ah_params q, sq_skipped = ah_skipped q, sq_handler = ah_handler q, sq_debug = debug,
       sq_stale = qc_expires (hd_config (ah_handler q)), aq_filter = ah_filter q\<rparr>))"

text \<open>\<open>process_parms\<close>.\<close>

definition process_parms ::
    "'dt id_ops \<Rightarrow> string \<Rightarrow> string \<Rightarrow> presentation \<Rightarrow> 'dt adhoc list \<Rightarrow> 'dt any_query list result" where
  "process_parms K language query_id spp qs =
     rbind (map_result (finish_adhoc K language query_id (spp_format spp = ''debug'')) qs) (\<lambda>fs. Inr (map AdHoc fs))"

section \<open>Projections and aliases\<close>

fun join_bar :: "string list \<Rightarrow> string" where
  "join_bar [] = []"
| "join_bar [p] = p"
| "join_bar (p # ps) = p @ '' | '' @ join_bar ps"

text \<open>
  Both operations treat all queries of the request; a stored query among them makes the cast to
  \<open>AdHocQuery\<close> throw.
\<close>

definition map_adhoc :: "(string \<Rightarrow> string) \<Rightarrow> 'dt any_query \<Rightarrow> 'dt any_query result" where
  "map_adhoc f q = (case q of
       Stored _ \<Rightarrow> Inl (Thrown NoCode ''std::bad_cast'')
     | AdHoc a \<Rightarrow> Inr (AdHoc (a\<lparr>aq_filter := f (aq_filter a)\<rparr>)))"

definition add_projection_clause :: "string list \<Rightarrow> 'dt any_query list \<Rightarrow> 'dt any_query list result" where
  "add_projection_clause property_names queries =
     (if property_names = [] then Inr queries
      else map_result (map_adhoc (\<lambda>f. f @ ''//('' @ join_bar property_names @ '')'')) queries)"

function replace_all :: "string \<Rightarrow> string \<Rightarrow> string \<Rightarrow> string" where
  "replace_all old new_text s =
     (if s = [] \<or> old = [] then s
      else if starts old s then new_text @ replace_all old new_text (drop (length old) s)
      else hd s # replace_all old new_text (tl s))"
  by pat_completeness auto
termination
  by (relation "measure (\<lambda>(_, _, s). length s)") auto

declare replace_all.simps [simp del]

definition replace_alias :: "string \<times> string \<Rightarrow> string \<Rightarrow> string" where
  "replace_alias p f = (case p of (alias, type_name) \<Rightarrow>
     if alias \<noteq> [] then replace_all (alias @ ''/'') (type_name @ ''/'') f else f)"

definition replace_aliases :: "string list \<Rightarrow> string list \<Rightarrow> 'dt any_query list \<Rightarrow> 'dt any_query list result" where
  "replace_aliases aliases type_names queries =
     (if aliases = [] then Inr queries
      else if length aliases \<noteq> length type_names
      then Inl (Thrown ParsingFailed ''The number of aliases does not match the number of type names'')
      else map_result (map_adhoc (\<lambda>f. if f \<noteq> [] then fold replace_alias (zip aliases type_names) f else f)) queries)"

section \<open>Requests in key-value form\<close>

text \<open>
  \<open>af_find\<close> is \<open>get_handler_by_name\<close> of the stored query map, \<open>af_parse\<close> yields the root element of an
  XML text, \<open>af_cs\<close> is \<open>use_case_sensitive_params\<close> and \<open>af_types\<close> the map of the type names.
\<close>

record 'dt adhoc_env =
  af_env :: "'dt ah_env"
  af_text :: "'dt text_conv"
  af_ids :: "'dt id_ops"
  af_find :: "string \<Rightarrow> 'dt handler result"
  af_parse :: "string \<Rightarrow> xnode result"
  af_cs :: bool
  af_types :: "(string \<times> string list) list"

definition adhoc_new :: "bool \<Rightarrow> 'dt handler \<Rightarrow> 'dt adhoc" where
  "adhoc_new cs h = \<lparr>ah_params = rpm_new cs, ah_handler = h, ah_filter = [], ah_skipped = []\<rparr>"

definition create_bbox_query_one ::
    "'dt adhoc_env \<Rightarrow> string \<Rightarrow> string \<Rightarrow> presentation \<Rightarrow> string \<Rightarrow> 'dt any_query result" where
  "create_bbox_query_one F bbox_string language spp query_id =
     rbind (af_find F query_id) (\<lambda>h.
     rbind (get_param_desc (ae_lc (af_env F)) (hd_config h) ''bbox'') (\<lambda>desc. case desc of
       None \<Rightarrow> Inl (Thrown ParsingFailed ''Stored query does not support BBOX'')
     | Some d \<Rightarrow> parsing_failed
         (rbind (read_value (af_text F) (de_def d) bbox_string) (\<lambda>v.
          rbind (insert_checked (ae_lc (af_env F)) (ae_limit (af_env F)) d ''bbox'' v (rpm_new (af_cs F))) (\<lambda>params.
          rbind (finish_adhoc (af_ids F) language query_id (spp_format spp = ''debug'')
              ((adhoc_new (af_cs F) h)\<lparr>ah_params := params\<rparr>)) (\<lambda>q. Inr (AdHoc q)))))))"

definition create_bbox_query_from_kvp ::
    "'dt adhoc_env \<Rightarrow> string \<Rightarrow> string \<Rightarrow> string list \<Rightarrow> presentation \<Rightarrow> 'dt any_query list \<Rightarrow> 'dt any_query list result" where
  "create_bbox_query_from_kvp F bbox_string language ids spp queries =
     rbind (map_result (create_bbox_query_one F bbox_string language spp) ids) (\<lambda>qs. Inr (queries @ qs))"

text \<open>The queries that the filter element makes of one stored query.\<close>

definition filter_batch ::
    "'dt adhoc_env \<Rightarrow> xnode \<Rightarrow> string \<Rightarrow> presentation \<Rightarrow> string \<Rightarrow> 'dt any_query list result" where
  "filter_batch F root language spp query_id =
     rbind (af_find F query_id) (\<lambda>h.
     rbind (extract_filter (af_env F) h [ae_lc (af_env F) (xn_tag root)] root) (\<lambda>qs.
     process_parms (af_ids F) language query_id spp qs))"

definition default_batch :: "'dt adhoc_env \<Rightarrow> string \<Rightarrow> presentation \<Rightarrow> string \<Rightarrow> 'dt any_query list result" where
  "default_batch F language spp query_id =
     rbind (af_find F query_id) (\<lambda>h. process_parms (af_ids F) language query_id spp [adhoc_new (af_cs F) h])"

definition add_batches ::
    "(string \<Rightarrow> 'dt any_query list result) \<Rightarrow> string list \<Rightarrow> 'dt any_query list \<Rightarrow> 'dt any_query list result" where
  "add_batches batch ids queries = rbind (map_result batch ids) (\<lambda>qss. Inr (queries @ concat qss))"

definition FES_FILTER_LANGUAGE :: string where
  "FES_FILTER_LANGUAGE = ''urn:ogc:def:query Language:OGC-FES:Filter''"

definition create_filter_query_from_kvp ::
    "'dt adhoc_env \<Rightarrow> string \<Rightarrow> string option \<Rightarrow> string \<Rightarrow> string list \<Rightarrow> presentation \<Rightarrow> 'dt any_query list \<Rightarrow>
     'dt any_query list result" where
  "create_filter_query_from_kvp F flt filter_language language ids spp queries =
     (if opt_or FES_FILTER_LANGUAGE filter_language = FES_FILTER_LANGUAGE
      then rbind (af_parse F flt) (\<lambda>root.
        if xn_tag root \<noteq> ''fes:Filter'' then Inl (Thrown ParsingFailed ''Failed to parse filter xml'')
        else add_batches (filter_batch F root language spp) ids queries)
      else Inl (Thrown ParsingFailed ''Selected FILTER_LANGUAGE not implemented''))"

definition create_by_kvp ::
    "'dt adhoc_env \<Rightarrow> string \<Rightarrow> presentation \<Rightarrow> kvp_query_params \<Rightarrow> string list \<Rightarrow> 'dt any_query list \<Rightarrow>
     'dt any_query list result" where
  "create_by_kvp F language spp kvp ids queries = (case kq_bbox kvp of
       Some b \<Rightarrow> create_bbox_query_from_kvp F b language ids spp queries
     | None \<Rightarrow>
         if kq_resource_id kvp \<noteq> None then Inl (Thrown ParsingFailed ''RESOURCEID not implemented'')
         else (case kq_filter kvp of
             Some f \<Rightarrow> create_filter_query_from_kvp F f (kq_filter_language kvp) language ids spp queries
           | None \<Rightarrow> add_batches (default_batch F language spp) ids queries))"

definition adhoc_from_kvp ::
    "(string \<Rightarrow> string) \<Rightarrow> 'dt adhoc_env \<Rightarrow> string \<Rightarrow> presentation \<Rightarrow> (string \<times> string) list \<Rightarrow> 'dt any_query list \<Rightarrow>
     'dt any_query list result" where
  "adhoc_from_kvp uc F language spp items queries =
     (let lc = ae_lc (af_env F); kvp = read_kvp_query_params uc items in
      case kq_request kvp of
        None \<Rightarrow> Inl (Thrown ParsingFailed ''Not a request'')
      | Some request \<Rightarrow>
          if \<not> iequals lc request ''getFeature'' \<and> \<not> iequals lc request ''getPropertyValue''
          then Inl (Thrown ParsingFailed ''Expected getFeature or getPropertyValue request'')
          else if kq_type_names kvp = [] then Inl (Thrown ParsingFailed ''No TYPENAMES parameter found'')
          else
            rbind (get_stored_query_ids_from_typenames lc (af_types F) (kq_type_names kvp)) (\<lambda>ids.
            if ids = [] then Inl (Thrown ParsingFailed ''Failed to extract storedquery_id'')
            else
              rbind (create_by_kvp F language spp kvp ids queries) (\<lambda>queries.
              rbind (add_projection_clause (kq_property_names kvp) queries) (\<lambda>queries.
              replace_aliases (kq_aliases kvp) (kq_type_names kvp) queries))))"

section \<open>Query elements\<close>

definition property_name :: "'dt xml_conv \<Rightarrow> xnode \<Rightarrow> string result" where
  "property_name C el =
     rbind (extract_param C el ''xsi:string'') (\<lambda>vs. rbind (vec_at vs 0) (\<lambda>v. case v of
       VString s \<Rightarrow> Inr s | _ \<Rightarrow> Inl (Thrown NoCode ''not a string'')))"

definition add_projection_clause_from_xml :: "'dt ah_env \<Rightarrow> xnode \<Rightarrow> 'dt any_query list \<Rightarrow> 'dt any_query list result" where
  "add_projection_clause_from_xml E query_root queries =
     rbind (map_result (property_name (ae_conv E)) (get_child_elements query_root WFS_NAMESPACE_URI ''PropertyName'')) (\<lambda>names.
     add_projection_clause names queries)"

definition replace_aliases_from_xml :: "xnode \<Rightarrow> 'dt any_query list \<Rightarrow> 'dt any_query list result" where
  "replace_aliases_from_xml query_root queries = (case get_attr query_root ''aliases'' of
       None \<Rightarrow> Inr queries
     | Some a \<Rightarrow>
         if a = [] then Inr queries
         else replace_aliases (split_at CHR '' '' a) (split_at CHR '' '' (opt_or [] (get_attr query_root ''typeNames''))) queries)"

definition adhoc_from_xml ::
    "'dt adhoc_env \<Rightarrow> string \<Rightarrow> presentation \<Rightarrow> xnode \<Rightarrow> 'dt any_query list \<Rightarrow> 'dt any_query list result" where
  "adhoc_from_xml F language spp query_root queries =
     rbind (get_xml_typenames query_root) (\<lambda>type_names.
     rbind (get_stored_query_ids_from_typenames (ae_lc (af_env F)) (af_types F) type_names) (\<lambda>ids.
     if ids = [] then Inl (Thrown ParsingFailed ''Failed to get stored query ID'')
     else
       rbind (add_batches (case get_child_elements query_root FES_NAMESPACE_URI ''Filter'' of
           root # _ \<Rightarrow> filter_batch F root language spp
         | [] \<Rightarrow> default_batch F language spp) ids queries) (\<lambda>queries.
       rbind (add_projection_clause_from_xml (af_env F) query_root queries) (\<lambda>queries.
       replace_aliases_from_xml query_root queries))))"


section \<open>The handler of the queries of a filter\<close>

definition all_handler :: "'dt handler \<Rightarrow> 'dt ah_state \<Rightarrow> bool" where
  "all_handler h st \<longleftrightarrow> (\<forall>q \<in> set (as_heap st). ah_handler q = h)"

lemma deref_heap: "deref st i = Inr q \<Longrightarrow> q \<in> set (as_heap st)"
  by (auto simp: deref_def vec_at_def split: if_splits)

lemma deref_handler: "all_handler h st \<Longrightarrow> deref st i = Inr q \<Longrightarrow> ah_handler q = h"
  using deref_heap by (auto simp: all_handler_def)

lemma all_handler_create: "all_handler h st \<Longrightarrow> all_handler h (create_query E h st)"
  by (simp add: all_handler_def create_query_def)

lemma all_handler_update: "all_handler h st \<Longrightarrow> ah_handler q = h \<Longrightarrow> all_handler h (update_query i q st)"
  by (auto simp: all_handler_def update_query_def dest: set_update_subset_insert [THEN subsetD])

lemma all_handler_queries [simp]:
  "all_handler h (st\<lparr>as_queries := qs\<rparr>) = all_handler h st" "all_handler h (st\<lparr>as_or := os\<rparr>) = all_handler h st"
  by (simp_all add: all_handler_def)

lemma copy_query_handler:
  assumes "copy_query E src target st = Inr st'" "all_handler h st"
  shows "all_handler h st'"
proof -
  from assms(1) obtain s t t' where t: "deref st target = Inr t" "copy_params E s t = Inr t'" "st' = update_query target t' st"
    by (auto simp: copy_query_def result_simps)
  then have "ah_handler t' = h" using deref_handler [OF assms(2) t(1)] by (auto simp: copy_params_def result_simps)
  with t assms(2) show ?thesis by (simp add: all_handler_update)
qed

lemma fold_handler:
  assumes "fold_result f xs st = Inr st'" "all_handler h st"
    and "\<And>x st st'. f x st = Inr st' \<Longrightarrow> all_handler h st \<Longrightarrow> all_handler h st'"
  shows "all_handler h st'"
  using fold_result_invariant [OF assms(1), of "all_handler h"] assms(2,3) by blast

lemma combine_pair_handler:
  assumes "combine_pair E a p st = Inr st'" "all_handler h st"
  shows "all_handler h st'"
proof -
  obtain i j where p: "p = (i, j)" by (cases p)
  from assms(1) p obtain q1 q2 q st2 where q: "deref st a = Inr q"
    "copy_query E q1 (length (as_heap st)) (create_query E (ah_handler q) st) = Inr st2"
    "copy_query E q2 (length (as_heap st)) st2 = Inr st'"
    by (auto simp: combine_pair_def Let_def result_simps)
  have "ah_handler q = h" using deref_handler [OF assms(2) q(1)] .
  then have "all_handler h (create_query E (ah_handler q) st)" using all_handler_create [OF assms(2)] by simp
  from copy_query_handler [OF q(3) copy_query_handler [OF q(2) this]] show ?thesis .
qed

lemma combine_round_handler:
  assumes "combine_round E ors a n s st = Inr st'" "all_handler h st"
  shows "all_handler h st'"
proof -
  from assms(1) obtain xs st1 qs where "fold_result (combine_pair E a) xs st = Inr st1" "st' = st1\<lparr>as_queries := qs\<rparr>"
    by (auto simp: combine_round_def Let_def result_simps)
  with fold_handler [OF this(1) assms(2) combine_pair_handler] show ?thesis by simp
qed

lemma combine_or_handler:
  assumes "combine_or_queries E ors a st = Inr st'" "all_handler h st"
  shows "all_handler h st'"
proof -
  from assms(1) obtain st1 qs where
    "fold_result (combine_round E ors a (length (as_queries st))) (0 # [2..<length ors]) st = Inr st1"
    "st' = st1\<lparr>as_queries := qs\<rparr>"
    by (auto simp: combine_or_queries_def Let_def result_simps simp del: fold_result.simps)
  with fold_handler [OF this(1) assms(2) combine_round_handler] show ?thesis by simp
qed

lemma end_of_and_handler:
  assumes "handle_end_of_and_element E i a st = Inr st'" "all_handler h st"
  shows "all_handler h st'"
proof -
  from assms(1) obtain st1 where st1: "(if 2 \<le> length (as_or st) then combine_or_queries E (as_or st) a st else Inr st) = Inr st1"
    by (auto simp: handle_end_of_and_element_def result_simps)
  then have "all_handler h st1" using assms(2) combine_or_handler by (auto split: if_splits)
  with assms(1) st1 show ?thesis
    by (auto simp: handle_end_of_and_element_def Let_def result_simps split: if_splits dest: fold_handler [OF _ _ copy_query_handler])
qed

lemma read_query_parameter_handler:
  assumes "read_query_parameter E el tree name loc i st = Inr (loc', st')" "all_handler h st"
  shows "all_handler h st'"
proof -
  let ?ty = "if name = ''fes:bbox'' then (''xsi:Envelope'', ae_lc E (xn_local el))
    else if name = ''gml:timeposition'' then (''xsi:dateTime'', time_period_param_name tree (ae_lc E (xn_local el)))
    else ([], ae_lc E (xn_local el))"
  obtain xml_type param_name where ty: "?ty = (xml_type, param_name)" by (cases ?ty)
  from assms(1) obtain q desc where q: "deref st i = Inr q"
    "get_param_desc (ae_lc E) (hd_config (ah_handler q)) param_name = Inr desc"
    by (auto simp: read_query_parameter_def ty Let_def result_simps)
  have "\<exists>q'. st' = update_query i q' st \<and> ah_handler q' = ah_handler q"
  proof (cases desc)
    case None
    with assms(1) q show ?thesis by (auto simp: read_query_parameter_def ty Let_def)
  next
    case (Some d)
    with assms(1) q show ?thesis by (auto simp: read_query_parameter_def ty Let_def result_simps split: if_splits)
  qed
  with deref_handler [OF assms(2) q(1)] assms(2) show ?thesis by (auto intro: all_handler_update)
qed

lemma read_filter_handler:
  assumes "read_filter_parameter E el tree name loc i upper st = Inr (loc', st')" "all_handler h st"
  shows "all_handler h st'"
proof -
  let ?i = "case upper of Some a \<Rightarrow> if last tree \<noteq> ''fes:or'' then a else i | None \<Rightarrow> i"
  show ?thesis
  proof (cases "is_comparison_operation name")
    case True
    with assms(1) obtain q f where "deref st ?i = Inr q" "st' = update_query ?i (q\<lparr>ah_filter := f\<rparr>) st"
      by (auto simp: read_filter_parameter_def Let_def read_comparison_operation_def result_simps)
    with deref_handler [OF assms(2) this(1)] assms(2) show ?thesis by (auto intro: all_handler_update)
  next
    case False
    with assms show ?thesis
      using read_query_parameter_handler [of E el tree name loc ?i st loc' st' h] by (simp add: read_filter_parameter_def Let_def)
  qed
qed

lemma create_for_handler:
  "deref st x = Inr q \<Longrightarrow> all_handler h st \<Longrightarrow> all_handler h (create_query E (ah_handler q) st)"
  using all_handler_create deref_handler by metis

lemma next_query_handler:
  "next_query E tree name upper loc st = Inr (i, loc', st') \<Longrightarrow> all_handler h st \<Longrightarrow> all_handler h st'"
  by (auto simp: next_query_def Let_def result_simps split: if_splits intro: create_for_handler)

lemma extract_elements_handler:
  "extract_elements E tree upper els loc st = Inr st' \<Longrightarrow> all_handler h st \<Longrightarrow> all_handler h st'"
proof (induction E tree upper els loc st arbitrary: st' rule: extract_elements.induct)
  case (1 E tree upper loc st)
  then show ?case by (simp add: extract_elements.simps)
next
  case (2 E tree upper el els loc st)
  let ?name = "ae_lc E (xn_tag el)"
  from "2.prems"(1) have name: "?name \<noteq> ''fes:not''" by (auto simp: extract_elements.simps Let_def split: if_splits)
  with "2.prems"(1) obtain i loc1 st1 where nq: "next_query E tree ?name upper loc st = Inr (i, loc1, st1)"
    by (auto simp: extract_elements.simps Let_def result_simps split: prod.splits)
  have st1: "all_handler h st1" using next_query_handler [OF nq "2.prems"(2)] .
  show ?case
  proof (cases "\<not> is_query_parameter ?name \<and> \<not> is_comparison_operation ?name")
    case True
    with "2.prems"(1) name nq obtain b st2 st3 where
      b: "queries_back st1 = Inr b"
      and in_el: "extract_elements E (tree @ [?name]) (if ?name = ''fes:and'' then Some b else if last tree \<noteq> ''fes:or'' then upper else None)
        (get_child_elements el ''*'' ''*'') filter_local_new st1 = Inr st2"
      and fin: "(if ?name = ''fes:and'' then handle_end_of_and_element E (length (as_queries st1) - Suc 0) b st2 else Inr st2) = Inr st3"
      and rest: "extract_elements E tree upper els loc1 st3 = Inr st'"
      by (auto simp: extract_elements.simps Let_def result_simps)
    have "all_handler h st2"
      by (rule "2.IH"(1) [OF refl name nq refl refl True b refl refl in_el st1])
    then have st3: "all_handler h st3" using fin end_of_and_handler by (auto split: if_splits)
    have fin': "(if ?name = ''fes:and'' then handle_end_of_and_element E (length (as_queries st1) - 1) b st2 else Inr st2) = Inr st3"
      using fin by (simp split: if_splits)
    show ?thesis
      by (rule "2.IH"(2) [OF refl name nq refl refl True b refl refl in_el fin' rest st3])
  next
    case False
    with "2.prems"(1) name nq obtain loc2 st2 where
      rd: "read_filter_parameter E el tree ?name loc1 i upper st1 = Inr (loc2, st2)" and
      rest: "extract_elements E tree upper els loc2 st2 = Inr st'"
      by (auto simp: extract_elements.simps Let_def result_simps split: if_splits)
    show ?thesis
      by (rule "2.IH"(3) [OF refl name nq refl refl False rd refl rest read_filter_handler [OF rd st1]])
  qed
qed

lemma extract_filter_handler:
  assumes "extract_filter E h tree root = Inr qs" "q \<in> set qs"
  shows "ah_handler q = h"
proof -
  let ?E = "E\<lparr>ae_cs := qc_case_sensitive (hd_config h)\<rparr>"
  let ?st = "create_query ?E h \<lparr>as_heap = [], as_queries = [], as_or = []\<rparr>"
  from assms(1) obtain st where st: "extract_elements ?E tree None (get_child_elements root ''*'' ''*'') filter_local_new ?st = Inr st"
    "map_result (deref st) (as_queries st) = Inr qs"
    by (auto simp: extract_filter_def Let_def result_simps)
  have "all_handler h ?st" by (simp add: all_handler_def create_query_def)
  from extract_elements_handler [OF st(1) this] have all: "all_handler h st" .
  from st(2) assms(2) obtain i where "deref st i = Inr q"
    by (auto simp: map_result_Inr_iff list_all2_conv_all_nth in_set_conv_nth)
  with deref_handler [OF all] show ?thesis by blast
qed

section \<open>The queries of a request\<close>

text \<open>
  A query that the handler of one of the stored queries will run: its parameters are those of its
  handler, its cache key is made of them.
\<close>

fun served :: "'dt adhoc_env \<Rightarrow> string \<Rightarrow> bool \<Rightarrow> string list \<Rightarrow> 'dt any_query \<Rightarrow> bool" where
  "served F language debug ids (Stored q) = False"
| "served F language debug ids (AdHoc q) \<longleftrightarrow>
     sq_id q \<in> set ids \<and> af_find F (sq_id q) = Inr (sq_handler q) \<and>
     hd_process (sq_handler q) (sq_id q) (sq_orig_params q) = Inr (sq_params q) \<and>
     make_id (af_ids F) (adhoc_cache_id (sq_id q) (get_map True (sq_params q)) language debug) = Inr (sq_cache_key q) \<and>
     sq_language q = language \<and> sq_debug q = debug \<and> sq_stale q = qc_expires (hd_config (sq_handler q))"

fun query_id :: "'dt any_query \<Rightarrow> string" where
  "query_id (Stored q) = sq_id q"
| "query_id (AdHoc q) = sq_id q"

text \<open>Two queries that differ at most in their filter.\<close>

fun same_query :: "'dt any_query \<Rightarrow> 'dt any_query \<Rightarrow> bool" where
  "same_query (Stored q) r \<longleftrightarrow> r = Stored q"
| "same_query (AdHoc q) r \<longleftrightarrow> (\<exists>f. r = AdHoc (q\<lparr>aq_filter := f\<rparr>))"

lemma same_query_refl [simp]: "same_query q q"
proof (cases q)
  case (AdHoc a)
  have "a = a\<lparr>aq_filter := aq_filter a\<rparr>" by simp
  then show ?thesis unfolding AdHoc same_query.simps by metis
qed simp

lemma same_query_trans: "same_query p q \<Longrightarrow> same_query q r \<Longrightarrow> same_query p r"
  by (cases p; cases q) auto

lemma same_query_served: "same_query q r \<Longrightarrow> served F language debug ids r = served F language debug ids q \<and> query_id r = query_id q"
  by (cases q) auto

lemma map_adhoc_same: "map_adhoc f q = Inr r \<Longrightarrow> same_query q r"
  by (auto simp: map_adhoc_def split: any_query.splits)

lemma map_adhoc_all: "map_result (map_adhoc f) qs = Inr rs \<Longrightarrow> list_all2 same_query qs rs"
  by (auto simp: map_result_Inr_iff elim: list_all2_mono dest: map_adhoc_same)

lemma add_projection_same: "add_projection_clause ns qs = Inr rs \<Longrightarrow> list_all2 same_query qs rs"
  by (auto simp: add_projection_clause_def list_all2_same split: if_splits dest: map_adhoc_all)

lemma replace_aliases_same: "replace_aliases as ts qs = Inr rs \<Longrightarrow> list_all2 same_query qs rs"
  by (auto simp: replace_aliases_def list_all2_same split: if_splits dest: map_adhoc_all)

lemma list_same_trans: "list_all2 same_query xs ys \<Longrightarrow> list_all2 same_query ys zs \<Longrightarrow> list_all2 same_query xs zs"
  by (rule list_all2_trans [of same_query same_query]) (auto intro: same_query_trans)

lemma list_same_served:
  "list_all2 same_query qs rs \<Longrightarrow> list_all (served F language debug ids) qs \<Longrightarrow>
     list_all (served F language debug ids) rs \<and> map query_id rs = map query_id qs"
  by (induction rule: list_all2_induct) (auto dest: same_query_served)

lemma finish_adhoc_served:
  assumes "finish_adhoc (af_ids F) language qid debug q = Inr r" "af_find F qid = Inr (ah_handler q)" "qid \<in> set ids"
  shows "served F language debug ids (AdHoc r) \<and> sq_id r = qid"
  using assms by (auto simp: finish_adhoc_def result_simps)

lemma process_parms_served:
  assumes "process_parms (af_ids F) language qid spp qs = Inr rs" "af_find F qid = Inr h" "qid \<in> set ids"
    and "\<forall>q \<in> set qs. ah_handler q = h"
  shows "list_all (served F language (spp_format spp = ''debug'') ids) rs \<and> map query_id rs = replicate (length qs) qid"
proof -
  from assms(1) obtain fs where fs: "list_all2 (\<lambda>q f. finish_adhoc (af_ids F) language qid (spp_format spp = ''debug'') q = Inr f) qs fs"
    "rs = map AdHoc fs"
    by (auto simp: process_parms_def result_simps map_result_Inr_iff)
  from fs(1) assms(2-4) have "list_all (served F language (spp_format spp = ''debug'') ids) (map AdHoc fs) \<and>
      map query_id (map AdHoc fs) = replicate (length qs) qid"
    by (induction rule: list_all2_induct) (auto simp del: served.simps dest!: finish_adhoc_served)
  then show ?thesis by (simp add: fs(2))
qed


text \<open>
  What a request makes of the queries it already has: they stay, and those of the stored queries \<open>ids\<close>
  are added, one for each of them if \<open>exact\<close>.
\<close>

definition created ::
    "'dt adhoc_env \<Rightarrow> string \<Rightarrow> bool \<Rightarrow> string list \<Rightarrow> bool \<Rightarrow> 'dt any_query list \<Rightarrow> 'dt any_query list \<Rightarrow> bool" where
  "created F language debug ids exact queries qs \<longleftrightarrow>
     (\<exists>old new. qs = old @ new \<and> list_all2 same_query queries old \<and> list_all (served F language debug ids) new \<and>
        (exact \<longrightarrow> map query_id new = ids))"

lemma created_same:
  assumes "created F language debug ids exact queries qs" "list_all2 same_query qs rs"
  shows "created F language debug ids exact queries rs"
proof -
  from assms(1) obtain old new where on: "qs = old @ new" "list_all2 same_query queries old"
    "list_all (served F language debug ids) new" "exact \<longrightarrow> map query_id new = ids"
    by (auto simp: created_def)
  from assms(2) on(1) obtain old' new' where rs: "rs = old' @ new'" "list_all2 same_query old old'" "list_all2 same_query new new'"
    by (auto simp: list_all2_append1)
  have "list_all2 same_query queries old'" using list_same_trans [OF on(2) rs(2)] .
  moreover have "list_all (served F language debug ids) new' \<and> (exact \<longrightarrow> map query_id new' = ids)"
    using list_same_served [OF rs(3) on(3)] on(4) by auto
  ultimately show ?thesis using rs(1) by (auto simp: created_def)
qed

lemma batch_created:
  assumes "add_batches batch ids queries = Inr qs"
    and each: "\<And>qid rs. qid \<in> set ids \<Longrightarrow> batch qid = Inr rs \<Longrightarrow>
      list_all (served F language debug ids) rs \<and> (exact \<longrightarrow> map query_id rs = [qid])"
  shows "created F language debug ids exact queries qs"
proof -
  from assms(1) obtain rss where rss: "list_all2 (\<lambda>i rs. batch i = Inr rs) ids rss" "qs = queries @ concat rss"
    by (auto simp: add_batches_def result_simps map_result_Inr_iff)
  have "list_all (served F language debug ids) (concat rss) \<and> (exact \<longrightarrow> map query_id (concat rss) = is)"
    if "list_all2 (\<lambda>i rs. batch i = Inr rs) is rss" "set is \<subseteq> set ids" for "is" rss
    using that by (induction rule: list_all2_induct) (auto dest!: each)
  from this [OF rss(1)] show ?thesis
    unfolding created_def by (intro exI [of _ queries] exI [of _ "concat rss"]) (auto simp: rss(2) list_all2_same)
qed

lemma default_batch_created:
  assumes "add_batches (default_batch F language spp) ids queries = Inr qs"
  shows "created F language (spp_format spp = ''debug'') ids exact queries qs"
  by (rule batch_created [OF assms])
    (auto simp: default_batch_def result_simps adhoc_new_def dest!: process_parms_served)

lemma filter_batch_created:
  assumes "add_batches (filter_batch F root language spp) ids queries = Inr qs"
  shows "created F language (spp_format spp = ''debug'') ids False queries qs"
  by (rule batch_created [OF assms])
    (auto simp: filter_batch_def result_simps dest!: process_parms_served dest: extract_filter_handler)

lemma parsing_failed_eq_Inr: "parsing_failed r = Inr x \<longleftrightarrow> r = Inr x"
  by (auto simp: parsing_failed_def split: sum.splits error.splits err_code.splits)

lemma bbox_created:
  assumes "create_bbox_query_from_kvp F b language ids spp queries = Inr qs"
  shows "created F language (spp_format spp = ''debug'') ids exact queries qs"
proof -
  let ?batch = "\<lambda>i. rbind (create_bbox_query_one F b language spp i) (\<lambda>q. Inr [q])"
  from assms obtain ns where ns: "list_all2 (\<lambda>i q. create_bbox_query_one F b language spp i = Inr q) ids ns" "qs = queries @ ns"
    by (auto simp: create_bbox_query_from_kvp_def result_simps map_result_Inr_iff)
  have one: "served F language (spp_format spp = ''debug'') ids q \<and> query_id q = i"
    if i: "i \<in> set ids" "create_bbox_query_one F b language spp i = Inr q" for i q
  proof -
    from i(2) obtain h desc where h: "af_find F i = Inr h" "get_param_desc (ae_lc (af_env F)) (hd_config h) ''bbox'' = Inr desc"
      by (auto simp: create_bbox_query_one_def result_simps)
    with i(2) obtain d where "desc = Some d"
      by (cases desc) (auto simp: create_bbox_query_one_def)
    with i(2) h obtain params r where
      fin: "finish_adhoc (af_ids F) language i (spp_format spp = ''debug'') ((adhoc_new (af_cs F) h)\<lparr>ah_params := params\<rparr>) = Inr r"
      "q = AdHoc r"
      by (auto simp: create_bbox_query_one_def parsing_failed_eq_Inr result_simps)
    with h finish_adhoc_served [OF fin(1) _ i(1)] show ?thesis by (simp add: adhoc_new_def del: served.simps)
  qed
  have "list_all2 (\<lambda>i rs. ?batch i = Inr rs) ids (map (\<lambda>q. [q]) ns)"
    using ns(1) by (simp add: list_all2_map2 list.rel_mono_strong)
  then have "add_batches ?batch ids queries = Inr qs"
    using ns(2) by (simp add: add_batches_def map_result_Inr_iff [symmetric])
  then show ?thesis
    by (rule batch_created) (auto simp: result_simps simp del: served.simps dest!: one)
qed


lemma created_by_kvp:
  assumes "create_by_kvp F language spp kvp ids queries = Inr qs"
  shows "created F language (spp_format spp = ''debug'') ids (kq_bbox kvp \<noteq> None \<or> kq_filter kvp = None) queries qs"
proof (cases "kq_bbox kvp")
  case (Some b)
  with assms show ?thesis by (auto simp: create_by_kvp_def dest: bbox_created)
next
  case none: None
  show ?thesis
  proof (cases "kq_filter kvp")
    case None
    with none assms show ?thesis by (auto simp: create_by_kvp_def dest: default_batch_created split: if_splits)
  next
    case (Some f)
    with none assms show ?thesis
      by (auto simp: create_by_kvp_def create_filter_query_from_kvp_def result_simps dest: filter_batch_created split: if_splits)
  qed
qed

lemma kvp_created:
  assumes "adhoc_from_kvp uc F language spp items queries = Inr qs" and kvp: "kvp = read_kvp_query_params uc items"
  shows "\<exists>ids. get_stored_query_ids_from_typenames (ae_lc (af_env F)) (af_types F) (kq_type_names kvp) = Inr ids \<and>
    created F language (spp_format spp = ''debug'') ids (kq_bbox kvp \<noteq> None \<or> kq_filter kvp = None) queries qs"
proof -
  from assms obtain ids qs1 qs2 where
    ids: "get_stored_query_ids_from_typenames (ae_lc (af_env F)) (af_types F) (kq_type_names kvp) = Inr ids"
    and qs1: "create_by_kvp F language spp kvp ids queries = Inr qs1"
    and "add_projection_clause (kq_property_names kvp) qs1 = Inr qs2" "replace_aliases (kq_aliases kvp) (kq_type_names kvp) qs2 = Inr qs"
    by (auto simp: adhoc_from_kvp_def Let_def result_simps split: option.splits if_splits)
  then have "list_all2 same_query qs1 qs"
    using list_same_trans [OF add_projection_same replace_aliases_same] by blast
  from created_same [OF created_by_kvp [OF qs1] this] ids show ?thesis by blast
qed

lemma xml_created:
  assumes "adhoc_from_xml F language spp root queries = Inr qs"
  shows "\<exists>names ids. get_xml_typenames root = Inr names \<and>
    get_stored_query_ids_from_typenames (ae_lc (af_env F)) (af_types F) names = Inr ids \<and>
    created F language (spp_format spp = ''debug'') ids (get_child_elements root FES_NAMESPACE_URI ''Filter'' = []) queries qs"
proof -
  let ?dbg = "spp_format spp = ''debug''" and ?filter = "get_child_elements root FES_NAMESPACE_URI ''Filter''"
  from assms obtain names ids qs1 qs2 where
    ids: "get_xml_typenames root = Inr names"
      "get_stored_query_ids_from_typenames (ae_lc (af_env F)) (af_types F) names = Inr ids"
    and qs1: "add_batches (case ?filter of
         root # _ \<Rightarrow> filter_batch F root language spp
       | [] \<Rightarrow> default_batch F language spp) ids queries = Inr qs1"
    and fin: "add_projection_clause_from_xml (af_env F) root qs1 = Inr qs2" "replace_aliases_from_xml root qs2 = Inr qs"
    by (auto simp: adhoc_from_xml_def result_simps split: if_splits)
  have "list_all2 same_query qs1 qs2"
    using fin(1) by (auto simp: add_projection_clause_from_xml_def result_simps dest: add_projection_same)
  moreover have "list_all2 same_query qs2 qs"
    using fin(2) by (auto simp: replace_aliases_from_xml_def list_all2_same split: option.splits if_splits dest: replace_aliases_same)
  ultimately have same: "list_all2 same_query qs1 qs" by (rule list_same_trans)
  have "created F language ?dbg ids (?filter = []) queries qs1"
    using qs1 by (cases ?filter) (auto dest: default_batch_created filter_batch_created)
  from created_same [OF this same] ids show ?thesis by blast
qed

section \<open>Properties\<close>

text \<open>
  C6. The queries that an ad hoc request creates: every query it had before stays, up to its filter;
  every new one belongs to a stored query of one of the type names, is served by the handler
  registered under that name with the parameters that this handler makes of its own, and has the
  cache key of the parameters, the language and the debug format.  Without a filter there is exactly
  one query for every stored query of the type names, in their order.
\<close>

theorem adhoc_queries_served:
  "(adhoc_from_kvp uc F language spp items queries = Inr qs \<longrightarrow>
      (\<exists>ids. get_stored_query_ids_from_typenames (ae_lc (af_env F)) (af_types F)
           (kq_type_names (read_kvp_query_params uc items)) = Inr ids \<and>
         created F language (spp_format spp = ''debug'') ids
           (kq_bbox (read_kvp_query_params uc items) \<noteq> None \<or> kq_filter (read_kvp_query_params uc items) = None) queries qs)) \<and>
   (adhoc_from_xml F language spp root queries = Inr qs \<longrightarrow>
      (\<exists>names ids. get_xml_typenames root = Inr names \<and>
         get_stored_query_ids_from_typenames (ae_lc (af_env F)) (af_types F) names = Inr ids \<and>
         created F language (spp_format spp = ''debug'') ids
           (get_child_elements root FES_NAMESPACE_URI ''Filter'' = []) queries qs))"
  using kvp_created xml_created by blast

definition ascii_upper :: "string \<Rightarrow> string" where
  "ascii_upper s = map (\<lambda>c. let n = (of_char c :: nat) in if 97 \<le> n \<and> n \<le> 122 then char_of (n - 32) else c) s"

definition demo_adhoc :: "demo_dt adhoc_env" where
  "demo_adhoc = \<lparr>af_env = \<lparr>ae_lc = ascii_lower,
       ae_conv = \<lparr>xc_double = (\<lambda>_. Inr 0), xc_time = (\<lambda>_. Inl (Thrown NoCode ''no time'')), xc_bool = (\<lambda>s. Inr (s = ''true''))\<rparr>,
       ae_limit = (\<lambda>_ _ _. Inr ()), ae_text = (\<lambda>_. []), ae_cs = False\<rparr>,
     af_text = demo_text, af_ids = demo_ops,
     af_find = (\<lambda>n. Inr (demo_handler (demo_query n) ''a.conf'')),
     af_parse = (\<lambda>_. Inl (Thrown NoCode ''no XML'')), af_cs = False, af_types = [(''t'', [''q''])]\<rparr>"

definition demo_presentation :: presentation where
  "demo_presentation = \<lparr>spp_have_counts = False, spp_start = 0, spp_count = DEFAULT_COUNT,
     spp_format = DEFAULT_OUTPUT_FORMAT, spp_result = SPP_RESULTS\<rparr>"

definition demo_items :: "(string \<times> string) list" where
  "demo_items = [(''propertyname'', ''a,b''), (''request'', ''GetFeature''), (''typenames'', ''t'')]"

lemma demo_kvp: "read_kvp_query_params ascii_upper demo_items =
    kvp_new\<lparr>kq_request := Some ''GetFeature'', kq_property_names := [''a'', ''b''], kq_type_names := [''t'']\<rparr>"
  by code_simp

lemma demo_ids: "get_stored_query_ids_from_typenames (ae_lc (af_env demo_adhoc)) (af_types demo_adhoc) [''t''] = Inr [''q'']"
  by code_simp

lemma demo_adhoc_created:
  "\<exists>q. adhoc_from_kvp ascii_upper demo_adhoc ''eng'' demo_presentation demo_items [] = Inr [AdHoc q] \<and> aq_filter q = ''//(a | b)''"
proof -
  have "fid_ok demo_dt (adhoc_cache_id ''q'' [] ''eng'' False)"
    by (simp add: adhoc_cache_id_def fid_ok_def fid_new_def add_param_def value_map_ok_def mm_sorted_def value_ok_def)
  from create_from_get_id [OF demo_digest_law demo_base64_law this]
  obtain key where key: "make_id demo_ops (adhoc_cache_id ''q'' [] ''eng'' False) = Inr key"
    by (auto simp: make_id_def demo_ops_def result_simps)
  have "get_map True (rpm_new False :: demo_dt spine_value rpm) = []"
    by (simp add: get_map_def rpm_new_def)
  with key obtain q where q: "default_batch demo_adhoc ''eng'' demo_presentation ''q'' = Inr [AdHoc q]" "aq_filter q = []"
    by (simp add: default_batch_def demo_adhoc_def process_parms_def finish_adhoc_def adhoc_new_def demo_handler_def
        demo_presentation_def DEFAULT_OUTPUT_FORMAT_def)
  have "iequals ascii_lower ''GetFeature'' ''getFeature''" by code_simp
  then have "adhoc_from_kvp ascii_upper demo_adhoc ''eng'' demo_presentation demo_items [] =
      Inr [AdHoc (q\<lparr>aq_filter := ''//(a | b)''\<rparr>)]"
    using demo_ids q
    by (simp add: adhoc_from_kvp_def demo_kvp kvp_new_def create_by_kvp_def add_batches_def add_projection_clause_def
        map_adhoc_def replace_aliases_def Let_def) (simp add: demo_adhoc_def)
  then show ?thesis by simp
qed

lemma adhoc_queries_served_witness:
  "\<exists>q. adhoc_from_kvp ascii_upper demo_adhoc ''eng'' demo_presentation demo_items [] = Inr [AdHoc q] \<and>
     created demo_adhoc ''eng'' False [''q''] True [] [AdHoc q] \<and> aq_filter q = ''//(a | b)''"
proof -
  obtain q where q: "adhoc_from_kvp ascii_upper demo_adhoc ''eng'' demo_presentation demo_items [] = Inr [AdHoc q]"
    "aq_filter q = ''//(a | b)''"
    using demo_adhoc_created by blast
  with adhoc_queries_served [of ascii_upper demo_adhoc "''eng''" demo_presentation demo_items "[]" "[AdHoc q]"] demo_ids
  show ?thesis
    by (auto simp: demo_kvp kvp_new_def demo_presentation_def DEFAULT_OUTPUT_FORMAT_def)
qed

section \<open>Requests with several queries\<close>

text \<open>
  The projection of a query is added to all queries of the request: to those of an earlier
  \<open>wfs:Query\<close> element as well, and a request with a stored query before it fails.
\<close>

lemma projection_reaches_others:
  "add_projection_clause [''b''] (AdHoc (q\<lparr>aq_filter := ''//(a)''\<rparr>) # qs) = Inr rs \<Longrightarrow>
     \<exists>rs'. rs = AdHoc (q\<lparr>aq_filter := ''//(a)//(b)''\<rparr>) # rs'"
  by (auto simp: add_projection_clause_def map_adhoc_def result_simps)

lemma projection_after_stored_query:
  "names \<noteq> [] \<Longrightarrow> add_projection_clause names (Stored q # qs) = Inl (Thrown NoCode ''std::bad_cast'')"
  by (simp add: add_projection_clause_def map_adhoc_def)

text \<open>An alias is replaced wherever it ends a name that a slash follows.\<close>

lemma alias_inside_name: "replace_alias (''a'', ''t'') ''//(data/x)'' = ''//(datt/x)''"
  by (simp add: replace_alias_def replace_all.simps starts_def)

end
