(* ===== verification/PropertyValue.thy ===== *)
theory PropertyValue
  imports GetFeature
begin

text \<open>
  \<open>libwfs/request/GetPropertyValue.cpp\<close>: the values that an XPath expression selects from the
  responses of the queries, paged and collected into one document.  The XML library is an argument
  as in \<open>GetFeature\<close>; the writing of the resulting document takes its contents.
\<close>

section \<open>Documents\<close>

text \<open>What the code asks of a node, and of the root element of a response.\<close>

datatype node_kind = Element_node string | Attribute_node string | Other_node

record ('d, 'n) pv_ops =
  po_xml :: "('d, 'n) xml_ops"
  po_kind :: "'n \<Rightarrow> node_kind"
  po_same_name :: "string \<Rightarrow> string \<Rightarrow> bool"
  po_to_string :: "'n \<Rightarrow> string"
  po_schema_location :: "'d \<Rightarrow> string option"

datatype 'n pv_member = Own_member 'n | Member_text string | Member_of 'n

record 'n pv_state =
  pv_members :: "'n pv_member list"
  pv_returned :: int
  pv_matched :: int
  pv_max :: "int option"
  pv_start :: "int option"
  pv_time :: "string option"
  pv_schema :: "string option"

record 'n value_collection =
  vc_members :: "'n pv_member list"
  vc_matched :: int
  vc_returned :: int
  vc_time :: string
  vc_schema :: string

section \<open>Operations\<close>

definition decrease :: "int option \<Rightarrow> int option" where
  "decrease v = (case v of Some i \<Rightarrow> if i > 0 then Some (i - 1) else Some i | None \<Rightarrow> None)"

text \<open>\<open>initialize\<close>: the number of members wanted and the index of the first.\<close>

definition pv_initialize :: "presentation \<Rightarrow> int option \<times> int option" where
  "pv_initialize spp =
     (if spp_result spp = SPP_HITS then (Some 0, None)
      else if spp_have_counts spp then (Some (sint (spp_count spp)), Some (sint (spp_start spp)))
      else (None, None))"

definition calculate_loop_limits :: "int option \<Rightarrow> int option \<Rightarrow> int \<Rightarrow> (int \<times> int) result" where
  "calculate_loop_limits max_members start_index num_members =
     (let first = opt_or 0 start_index; cnt = min (opt_or 0x7FFFFF max_members) num_members
      in rbind (checked_int (first + cnt)) (\<lambda>s. rbind (checked_int (s - 1)) (\<lambda>last. Inr (first, last))))"

definition copy_timestamp :: "root_info \<Rightarrow> string option \<Rightarrow> string option" where
  "copy_timestamp root cur = (case cur of Some t \<Rightarrow> Some t | None \<Rightarrow> ro_time root)"

definition copy_schema_location :: "string option \<Rightarrow> string option \<Rightarrow> string option" where
  "copy_schema_location source cur = (case cur of Some t \<Rightarrow> Some t | None \<Rightarrow> source)"

definition result_member :: "('d, 'n) pv_ops \<Rightarrow> 'n \<Rightarrow> 'n pv_member" where
  "result_member P n = (case po_kind P n of
       Element_node name \<Rightarrow> if po_same_name P name ''wfs:member'' then Own_member n else Member_of n
     | Attribute_node v \<Rightarrow> Member_text v
     | Other_node \<Rightarrow> Member_of n)"

definition append_member :: "('d, 'n) pv_ops \<Rightarrow> 'n list \<Rightarrow> int \<Rightarrow> 'n pv_state \<Rightarrow> 'n pv_state result" where
  "append_member P ms i st =
     rbind (get_item (po_xml P) ms i) (\<lambda>n.
     rbind (checked_int (pv_returned st + 1)) (\<lambda>returned.
     Inr (st\<lparr>pv_members := pv_members st @ [result_member P n], pv_returned := returned,
       pv_start := decrease (pv_start st), pv_max := decrease (pv_max st)\<rparr>)))"

definition append_members :: "('d, 'n) pv_ops \<Rightarrow> 'd \<Rightarrow> 'n list \<Rightarrow> 'n pv_state \<Rightarrow> 'n pv_state result" where
  "append_members P doc ms st =
     (let st = st\<lparr>pv_time := copy_timestamp (xo_root (po_xml P) doc) (pv_time st),
                  pv_schema := copy_schema_location (po_schema_location P doc) (pv_schema st)\<rparr>
      in rbind (calculate_loop_limits (pv_max st) (pv_start st) (to_int (length ms))) (\<lambda>(first, last).
         fold_result (append_member P ms) [first .. last] st))"

definition extract_property ::
    "('d, 'n) pv_ops \<Rightarrow> string \<Rightarrow> string \<Rightarrow> 'n pv_state \<Rightarrow> 'n pv_state result" where
  "extract_property P xpath_string response st =
     rbind (xo_parse (po_xml P) response) (\<lambda>doc.
     rbind (xo_select (po_xml P) doc xpath_string) (\<lambda>ms.
     let num_members = to_int (length ms) in
     if num_members > 0
     then rbind (checked_int (pv_matched st + num_members)) (\<lambda>matched.
       let st = st\<lparr>pv_matched := matched\<rparr> in
       if opt_or 1 (pv_max st) > 0 then append_members P doc ms st else Inr st)
     else Inr st))"

text \<open>\<open>filter\<close>: the members that the filter of an ad hoc query selects are treated one by one.\<close>

definition pv_filter ::
    "('d, 'n) pv_ops \<Rightarrow> string \<Rightarrow> query \<times> string \<Rightarrow> 'n pv_state \<Rightarrow> 'n pv_state result" where
  "pv_filter P xpath_string p st = (case p of (q, response) \<Rightarrow>
     if qu_type q = QUERY \<and> qu_filter q \<noteq> []
     then rbind (xo_parse (po_xml P) response) (\<lambda>doc.
          rbind (xo_select (po_xml P) doc (qu_filter q)) (\<lambda>ms.
          fold_result (\<lambda>i st. rbind (get_item (po_xml P) ms i) (\<lambda>n.
            extract_property P xpath_string (po_to_string P n) st)) [0 .. to_int (length ms) - 1] st))
     else extract_property P xpath_string response st)"

definition add_responses ::
    "('d, 'n) pv_ops \<Rightarrow> presentation \<Rightarrow> string \<Rightarrow> query list \<Rightarrow> string list \<Rightarrow> 'n pv_state \<Rightarrow> 'n pv_state result" where
  "add_responses P spp xpath_string qs responses st =
     (case pv_initialize spp of (max_members, start_index) \<Rightarrow>
        fold_result (pv_filter P xpath_string) (zip qs responses) (st\<lparr>pv_max := max_members, pv_start := start_index\<rparr>))"

definition DEFAULT_SCHEMA_LOCATION :: string where
  "DEFAULT_SCHEMA_LOCATION =
     ''http://www.opengis.net/wfs/2.0 http://schemas.opengis.net/wfs/2.0/wfs.xsd '' @
     ''http://www.opengis.net/gml/3.2 http://schemas.opengis.net/gml/3.2.1/gml.xsd''"

definition pv_finalize :: "string \<Rightarrow> 'n pv_state \<Rightarrow> 'n value_collection" where
  "pv_finalize now st =
     \<lparr>vc_members = pv_members st, vc_matched = pv_matched st, vc_returned = pv_returned st,
      vc_time = opt_or now (pv_time st), vc_schema = opt_or DEFAULT_SCHEMA_LOCATION (pv_schema st)\<rparr>"

definition pv_empty :: "'n pv_state" where
  "pv_empty = \<lparr>pv_members = [], pv_returned = 0, pv_matched = 0, pv_max = None, pv_start = None,
     pv_time = None, pv_schema = None\<rparr>"

text \<open>
  \<open>collect_query_responses\<close> of this request does what that of \<open>GetFeature\<close> does when it does not
  handle errors.
\<close>

definition pv_collect ::
    "('d, 'n, 'c) gf_env \<Rightarrow> request_info \<Rightarrow> query list \<Rightarrow> 'c \<Rightarrow> 'c collected result" where
  "pv_collect E r qs c = collect_query_responses E r False qs c"

definition pv_execute ::
    "('d, 'n, 'c) gf_env \<Rightarrow> ('d, 'n) pv_ops \<Rightarrow> ('n value_collection \<Rightarrow> string) \<Rightarrow> request_info \<Rightarrow> presentation \<Rightarrow>
     string \<Rightarrow> query list \<Rightarrow> 'c \<Rightarrow> 'c gf_result result" where
  "pv_execute E P render r spp xpath_string qs c =
     (if spp_format spp = DEBUG_OUTPUT_FORMAT then Inl (Thrown ProcessingFailed ''debug output is not supported'')
      else rbind (if qs = [] then Inr (pv_empty, False, c)
        else rbind (pv_collect E r qs c) (\<lambda>co.
          if co_succeeded co
          then rbind (add_responses P spp xpath_string qs (co_responses co) pv_empty) (\<lambda>st. Inr (st, False, co_cache co))
          else Inr (pv_empty, True, co_cache co))) (\<lambda>(st, bad, c).
      Inr \<lparr>gr_output = XML_HEADER @ render (pv_finalize (ge_time E) st), gr_bad_request = bad, gr_cache = c\<rparr>))"


section \<open>Paging\<close>

text \<open>
  The members of the documents that a response is made of, one list for every document whose
  properties are extracted.
\<close>

definition sources :: "('d, 'n) xml_ops \<Rightarrow> ('n \<Rightarrow> string) \<Rightarrow> query \<times> string \<Rightarrow> string list result" where
  "sources X to_string p = (case p of (q, response) \<Rightarrow>
     if qu_type q = QUERY \<and> qu_filter q \<noteq> []
     then rbind (xo_parse X response) (\<lambda>doc. rbind (xo_select X doc (qu_filter q)) (\<lambda>ms. Inr (map to_string ms)))
     else Inr [response])"

definition matches :: "('d, 'n) xml_ops \<Rightarrow> string \<Rightarrow> string \<Rightarrow> 'n list result" where
  "matches X xpath_string src = rbind (xo_parse X src) (\<lambda>doc. xo_select X doc xpath_string)"

definition page_of :: "int option \<Rightarrow> 'a list \<Rightarrow> 'a list" where
  "page_of max_members xs = (case max_members of Some k \<Rightarrow> take (nat k) xs | None \<Rightarrow> xs)"

definition left_over :: "int option \<Rightarrow> nat \<Rightarrow> int option" where
  "left_over max_members n = map_option (\<lambda>k. max 0 (k - int n)) max_members"

lemma page_of_append: "page_of m (xs @ ys) = page_of m xs @ page_of (left_over m (length xs)) ys"
proof (cases m)
  case (Some k)
  have "nat k - length xs = nat (max 0 (k - int (length xs)))" by (simp add: max_def nat_diff_distrib')
  then show ?thesis by (simp add: page_of_def left_over_def Some take_append)
qed (simp add: page_of_def left_over_def)

lemma left_over_add: "left_over (left_over m a) b = left_over m (a + b)"
  by (cases m) (auto simp: left_over_def max_def)

lemma left_over_0: "opt_or 1 m \<ge> 0 \<Longrightarrow> left_over m 0 = m"
  by (cases m) (auto simp: left_over_def opt_or_def max_def)

text \<open>A state in which the members \<open>xs\<close> have been matched since the state \<open>st\<close>, with no start index to skip.\<close>

definition after_members :: "('d, 'n) pv_ops \<Rightarrow> 'n pv_state \<Rightarrow> 'n list \<Rightarrow> 'n pv_state \<Rightarrow> bool" where
  "after_members P st xs st' \<longleftrightarrow>
     pv_members st' = pv_members st @ map (result_member P) (page_of (pv_max st) xs) \<and>
     pv_returned st' = pv_returned st + int (length (page_of (pv_max st) xs)) \<and>
     pv_matched st' = pv_matched st + int (length xs) \<and>
     pv_max st' = left_over (pv_max st) (length xs) \<and> pv_start st' = pv_start st"

lemma after_members_append:
  "after_members P st xs st1 \<Longrightarrow> after_members P st1 ys st2 \<Longrightarrow> after_members P st (xs @ ys) st2"
  by (simp add: after_members_def page_of_append left_over_add add.commute)

lemma decrease_left_over: "opt_or 1 m \<ge> 0 \<Longrightarrow> decrease m = left_over m 1"
  by (cases m) (auto simp: decrease_def left_over_def opt_or_def max_def)

lemma left_over_nonneg: "opt_or 1 m \<ge> 0 \<Longrightarrow> opt_or 1 (left_over m n) \<ge> 0"
  by (cases m) (auto simp: left_over_def opt_or_def)

definition at_start :: "'n pv_state \<Rightarrow> bool" where
  "at_start st \<longleftrightarrow> (pv_start st = None \<or> pv_start st = Some 0) \<and> opt_or 1 (pv_max st) \<ge> 0 \<and>
     0 \<le> pv_returned st \<and> pv_returned st \<le> pv_matched st"

lemma append_fold:
  assumes "n \<le> length ms" "at_start st" "pv_returned st + int n < 2 ^ 31"
  shows "\<exists>st'. fold_result (append_member P ms) [0 .. int n - 1] st = Inr st' \<and>
    pv_members st' = pv_members st @ map (result_member P) (take n ms) \<and>
    pv_returned st' = pv_returned st + int n \<and> pv_matched st' = pv_matched st \<and>
    pv_max st' = left_over (pv_max st) n \<and> pv_start st' = pv_start st"
  using assms(1,3)
proof (induction n)
  case 0
  then show ?case using assms(2) by (simp add: at_start_def left_over_0)
next
  case (Suc n)
  from Suc.IH Suc.prems obtain st1 where st1: "fold_result (append_member P ms) [0 .. int n - 1] st = Inr st1"
    "pv_members st1 = pv_members st @ map (result_member P) (take n ms)" "pv_returned st1 = pv_returned st + int n"
    "pv_matched st1 = pv_matched st" "pv_max st1 = left_over (pv_max st) n" "pv_start st1 = pv_start st"
    by auto
  have "[0 .. int (Suc n) - 1] = [0 .. int n - 1] @ [int n]" using upto_rec2 [of 0 "int n"] by simp
  moreover have "get_item (po_xml P) ms (int n) = Inr (ms ! n)" using Suc.prems by (simp add: get_item_def)
  moreover have "checked_int (pv_returned st1 + 1) = Inr (pv_returned st1 + 1)"
    using Suc.prems st1(3) assms(2) by (simp add: checked_int_def at_start_def)
  moreover have "decrease (pv_max st1) = left_over (pv_max st) (Suc n)"
    using assms(2) st1(5) by (simp add: decrease_left_over left_over_nonneg at_start_def left_over_add)
  moreover have "decrease (pv_start st1) = pv_start st"
    using assms(2) st1(6) by (auto simp: decrease_def at_start_def)
  ultimately have "fold_result (append_member P ms) [0 .. int (Suc n) - 1] st =
      Inr (st1\<lparr>pv_members := pv_members st1 @ [result_member P (ms ! n)], pv_returned := pv_returned st1 + 1,
        pv_start := pv_start st, pv_max := left_over (pv_max st) (Suc n)\<rparr>)"
    using st1(1) by (simp only: fold_result_append rbind_Inr fold_result.simps append_member_def)
  then show ?case
    using st1 Suc.prems by (simp add: take_Suc_conv_app_nth)
qed

lemma page_length:
  assumes "length ms \<le> 0x7FFFFF" "opt_or 1 m \<ge> 0"
  shows "int (length (page_of m ms)) = min (opt_or 0x7FFFFF m) (int (length ms))"
    and "page_of m ms = take (length (page_of m ms)) ms"
    and "left_over m (length (page_of m ms)) = left_over m (length ms)"
  using assms by (cases m; auto simp: page_of_def opt_or_def left_over_def min_def max_def)+

lemma append_members_page:
  assumes "at_start st" "length ms \<le> 0x7FFFFF" "pv_returned st + int (length ms) < 2 ^ 31"
  shows "\<exists>st'. append_members P doc ms st = Inr st' \<and>
    pv_members st' = pv_members st @ map (result_member P) (page_of (pv_max st) ms) \<and>
    pv_returned st' = pv_returned st + int (length (page_of (pv_max st) ms)) \<and> pv_matched st' = pv_matched st \<and>
    pv_max st' = left_over (pv_max st) (length ms) \<and> pv_start st' = pv_start st"
proof -
  let ?st = "st\<lparr>pv_time := copy_timestamp (xo_root (po_xml P) doc) (pv_time st),
    pv_schema := copy_schema_location (po_schema_location P doc) (pv_schema st)\<rparr>"
  let ?n = "length (page_of (pv_max st) ms)"
  have max: "opt_or 1 (pv_max st) \<ge> 0" using assms(1) by (simp add: at_start_def)
  note pg = page_length [OF assms(2) max]
  have n: "?n \<le> length ms" using pg(1) by linarith
  have "opt_or 0 (pv_start st) = 0" using assms(1) by (auto simp: at_start_def opt_or_def)
  then have limits: "calculate_loop_limits (pv_max st) (pv_start st) (to_int (length ms)) = Inr (0, int ?n - 1)"
    using assms(2) pg(1) n by (simp add: calculate_loop_limits_def to_int_small checked_int_def Let_def)
  have "at_start ?st" using assms(1) by (simp add: at_start_def)
  from append_fold [OF n this] assms(3) n
  obtain st' where "fold_result (append_member P ms) [0 .. int ?n - 1] ?st = Inr st'"
    "pv_members st' = pv_members st @ map (result_member P) (take ?n ms)" "pv_returned st' = pv_returned st + int ?n"
    "pv_matched st' = pv_matched st" "pv_max st' = left_over (pv_max st) ?n" "pv_start st' = pv_start st"
    by auto
  then show ?thesis
    using limits pg(2,3) by (simp add: append_members_def Let_def)
qed

lemma extract_members:
  assumes "matches (po_xml P) xpath_string src = Inr ms" "at_start st" "length ms \<le> 0x7FFFFF"
    and "pv_matched st + int (length ms) < 2 ^ 31"
  shows "\<exists>st'. extract_property P xpath_string src st = Inr st' \<and> after_members P st ms st' \<and> at_start st'"
proof -
  from assms(1) obtain doc where doc: "xo_parse (po_xml P) src = Inr doc" "xo_select (po_xml P) doc xpath_string = Inr ms"
    by (auto simp: matches_def result_simps)
  have len: "to_int (length ms) = int (length ms)"
    using assms(3) by (simp add: to_int_small)
  have matched: "checked_int (pv_matched st + int (length ms)) = Inr (pv_matched st + int (length ms))"
    using assms(2,4) by (simp add: checked_int_def at_start_def)
  have max: "opt_or 1 (pv_max st) \<ge> 0" using assms(2) by (simp add: at_start_def)
  let ?st = "st\<lparr>pv_matched := pv_matched st + int (length ms)\<rparr>"
  consider "ms = []" | "ms \<noteq> []" "pv_max st = Some 0" | "ms \<noteq> []" "opt_or 1 (pv_max st) > 0"
    using max by (cases "pv_max st") (auto simp: opt_or_def le_less)
  then show ?thesis
  proof cases
    case 1
    then show ?thesis
      using doc len assms(2) left_over_0 [OF max]
      by (cases "pv_max st") (simp_all add: extract_property_def after_members_def page_of_def)
  next
    case 2
    then show ?thesis
      using doc len matched assms(2)
      by (simp add: extract_property_def after_members_def page_of_def left_over_def opt_or_def at_start_def)
  next
    case 3
    have "at_start ?st" using assms(2) by (simp add: at_start_def)
    moreover have "pv_returned ?st + int (length ms) < 2 ^ 31" using assms(2,4) by (simp add: at_start_def)
    ultimately obtain st' where st': "append_members P doc ms ?st = Inr st'"
      "pv_members st' = pv_members st @ map (result_member P) (page_of (pv_max st) ms)"
      "pv_returned st' = pv_returned st + int (length (page_of (pv_max st) ms))"
      "pv_matched st' = pv_matched st + int (length ms)"
      "pv_max st' = left_over (pv_max st) (length ms)" "pv_start st' = pv_start st"
      using append_members_page [OF _ assms(3), of ?st P doc] by auto
    have "int (length (page_of (pv_max st) ms)) \<le> int (length ms)"
      using page_length(1) [OF assms(3) max] by linarith
    then have "after_members P st ms st' \<and> at_start st'"
      using st' assms(2) left_over_nonneg [OF max] by (auto simp: after_members_def at_start_def)
    then show ?thesis
      using doc len matched st'(1) 3 by (auto simp: extract_property_def)
  qed
qed


lemma extract_sources:
  assumes "list_all2 (\<lambda>s ms. matches (po_xml P) xpath_string s = Inr ms) srcs mss" "at_start st"
    and "list_all (\<lambda>ms. length ms \<le> 0x7FFFFF) mss" "pv_matched st + int (length (concat mss)) < 2 ^ 31"
  shows "\<exists>st'. fold_result (extract_property P xpath_string) srcs st = Inr st' \<and>
    after_members P st (concat mss) st' \<and> at_start st'"
  using assms
proof (induction srcs mss arbitrary: st rule: list_all2_induct)
  case Nil
  then show ?case by (cases "pv_max st") (auto simp: after_members_def page_of_def at_start_def left_over_0)
next
  case (Cons s ss ms mss)
  from Cons.prems(2,3) have "length ms \<le> 0x7FFFFF" "pv_matched st + int (length ms) < 2 ^ 31" by simp_all
  from extract_members [OF Cons.hyps(1) Cons.prems(1) this]
  obtain st1 where st1: "extract_property P xpath_string s st = Inr st1" "after_members P st ms st1" "at_start st1" by blast
  from Cons.IH [OF st1(3)] Cons.prems(2,3) st1(2)
  obtain st2 where "fold_result (extract_property P xpath_string) ss st1 = Inr st2"
    "after_members P st1 (concat mss) st2" "at_start st2"
    by (auto simp: after_members_def)
  then show ?case using st1 after_members_append [OF st1(2)] by auto
qed

lemma fold_result_one: "fold_result f [x] = f x"
  by (rule ext) (simp add: rbind_def split: sum.splits)

lemma filter_sources:
  assumes "sources (po_xml P) (po_to_string P) p = Inr srcs" "length srcs < 2 ^ 31"
  shows "pv_filter P xpath_string p st = fold_result (extract_property P xpath_string) srcs st"
proof (cases "qu_type (fst p) = QUERY \<and> qu_filter (fst p) \<noteq> []")
  case True
  then obtain doc ms where doc: "xo_parse (po_xml P) (snd p) = Inr doc"
    "xo_select (po_xml P) doc (qu_filter (fst p)) = Inr ms" "srcs = map (po_to_string P) ms"
    using assms(1) by (auto simp: sources_def result_simps split: prod.splits)
  have item: "get_item (po_xml P) ms (int i) = Inr (ms ! i)" if "i < length ms" for i
    using that by (simp add: get_item_def)
  have "fold_result (\<lambda>i st. rbind (get_item (po_xml P) ms i) (\<lambda>n.
          extract_property P xpath_string (po_to_string P n) st)) [0 .. int n - 1] st =
      fold_result (extract_property P xpath_string) (map (po_to_string P) (take n ms)) st"
    if "n \<le> length ms" for n
    using that
  proof (induction n)
    case (Suc n)
    have "[0 .. int (Suc n) - 1] = [0 .. int n - 1] @ [int n]" using upto_rec2 [of 0 "int n"] by simp
    then show ?case
      using Suc item [of n] by (simp add: fold_result_append fold_result_one take_Suc_conv_app_nth)
  qed simp
  from this [of "length ms"] show ?thesis
    using True doc assms(2) by (simp add: pv_filter_def split_beta to_int_small)
next
  case False
  then show ?thesis using assms(1) by (auto simp: sources_def pv_filter_def split_beta fold_result_one simp del: fold_result.simps)
qed

lemma filter_all_sources:
  assumes "list_all2 (\<lambda>p srcs. sources (po_xml P) (po_to_string P) p = Inr srcs) ps srcss"
    and "list_all (\<lambda>srcs. length srcs < 2 ^ 31) srcss"
  shows "fold_result (pv_filter P xpath_string) ps st = fold_result (extract_property P xpath_string) (concat srcss) st"
  using assms
proof (induction ps srcss arbitrary: st rule: list_all2_induct)
  case (Cons p ps srcs srcss)
  then have "fold_result (pv_filter P xpath_string) ps = fold_result (extract_property P xpath_string) (concat srcss)"
    by (intro ext) simp
  then show ?case using Cons by (simp add: filter_sources fold_result_append)
qed simp

lemma append_valid:
  assumes "set is \<subseteq> {0..<int (length ms)}" "0 \<le> pv_returned st" "pv_returned st + int (length is) < 2 ^ 31"
  shows "\<exists>st'. fold_result (append_member P ms) is st = Inr st'"
  using assms
proof (induction "is" arbitrary: st)
  case (Cons i "is")
  let ?st = "st\<lparr>pv_members := pv_members st @ [result_member P (ms ! nat i)], pv_returned := pv_returned st + 1,
    pv_start := decrease (pv_start st), pv_max := decrease (pv_max st)\<rparr>"
  have "append_member P ms i st = Inr ?st"
    using Cons.prems by (simp add: append_member_def get_item_def checked_int_def)
  with Cons.IH [of ?st] Cons.prems show ?case by simp
qed simp

text \<open>
  With a start index above 0 the last index is not clipped to the number of values: if the
  limit reaches beyond the values of the first response, the answer depends on what the XML library
  does with an index that is out of range; if it throws, the request fails.
\<close>

lemma property_page_overrun:
  assumes "pv_start st = Some s" "0 < s" "s \<le> int (length ms)" "pv_max st = Some k" "int (length ms) - s < k"
    and "length ms \<le> 0x7FFFFF" "pv_returned st = 0" "xo_no_item (po_xml P) (int (length ms)) = Inl e"
  shows "append_members P doc ms st = Inl e"
proof -
  let ?n = "int (length ms)"
  let ?st = "st\<lparr>pv_time := copy_timestamp (xo_root (po_xml P) doc) (pv_time st),
    pv_schema := copy_schema_location (po_schema_location P doc) (pv_schema st)\<rparr>"
  define last where "last = s + min k ?n - 1"
  have last: "?n \<le> last" "last < 2 ^ 31" "s + min k ?n < 2 ^ 31" "0 \<le> last"
    using assms by (auto simp: last_def min_def)
  have limits: "calculate_loop_limits (pv_max st) (pv_start st) (to_int (length ms)) = Inr (s, last)"
    using assms last by (simp add: calculate_loop_limits_def checked_int_def to_int_small opt_or_def last_def)
  have sub: "set [s .. ?n - 1] \<subseteq> {0..<?n}" using assms(2) by auto
  obtain st' where st': "fold_result (append_member P ms) [s .. ?n - 1] ?st = Inr st'"
    using append_valid [OF sub, of ?st P] assms by (auto simp: assms(7))
  have "[s .. last] = [s .. ?n - 1] @ ?n # [?n + 1 .. last]"
    using upto_split1 [of s ?n last] upto_rec1 [of ?n last] assms(3) last(1) upto_split3 [of s ?n last] by simp
  moreover have "append_member P ms ?n st' = Inl e"
    using assms(8) by (simp add: append_member_def get_item_def)
  ultimately show ?thesis
    using limits st' by (simp add: append_members_def Let_def fold_result_append)
qed

section \<open>Properties\<close>

text \<open>
  C25. With start index 0 or none, the answer holds the first of all values that the expression
  selects, taken over the responses in their order: as many as asked for, all without a limit, none
  if only the number of hits is asked for.  \<open>numberMatched\<close> counts all values, \<open>numberReturned\<close> those of
  the answer.
\<close>

theorem property_page:
  fixes P :: "('d, 'n) pv_ops"
  assumes "pv_collect E r qs c = Inr co" "co_succeeded co" "qs \<noteq> []" "spp_format spp \<noteq> DEBUG_OUTPUT_FORMAT"
    and "list_all2 (\<lambda>p srcs. sources (po_xml P) (po_to_string P) p = Inr srcs) (zip qs (co_responses co)) srcss"
    and "list_all2 (\<lambda>s ms. matches (po_xml P) xpath_string s = Inr ms) (concat srcss) mss"
    and "list_all (\<lambda>srcs. length srcs < 2 ^ 31) srcss" "length (concat mss) \<le> 0x7FFFFF"
    and "spp_start spp = 0" "unat (spp_count spp) < 2 ^ 31"
    and page: "page = (if spp_result spp = SPP_HITS then [] else if spp_have_counts spp
       then take (unat (spp_count spp)) (concat mss) else concat mss)"
  shows "\<exists>vc. pv_execute E P render r spp xpath_string qs c =
      Inr \<lparr>gr_output = XML_HEADER @ render vc, gr_bad_request = False, gr_cache = co_cache co\<rparr> \<and>
    vc_members vc = map (result_member P) page \<and> vc_matched vc = int (length (concat mss)) \<and>
    vc_returned vc = int (length page)"
proof -
  obtain m s where ms: "pv_initialize spp = (m, s)" by (cases "pv_initialize spp") auto
  have cnt: "sint (spp_count spp) = int (unat (spp_count spp))" using assms(10) by (simp add: sint_small)
  let ?st = "pv_empty\<lparr>pv_max := m, pv_start := s\<rparr> :: 'n pv_state"
  have st: "at_start ?st"
    using ms assms(9) cnt by (auto simp: at_start_def pv_initialize_def pv_empty_def opt_or_def split: if_splits)
  have each: "list_all (\<lambda>ms. length ms \<le> 0x7FFFFF) mss"
    using assms(8) member_le_sum_list [of _ "map length mss"] by (fastforce simp: list_all_iff length_concat)
  from extract_sources [OF assms(6) st each] assms(8)
  obtain st' where st': "fold_result (extract_property P xpath_string) (concat srcss) ?st = Inr st'"
    "after_members P ?st (concat mss) st'"
    by (auto simp: pv_empty_def)
  have page': "page_of m (concat mss) = page"
    using ms cnt page by (auto simp: pv_initialize_def page_of_def split: if_splits)
  have "pv_execute E P render r spp xpath_string qs c =
      Inr \<lparr>gr_output = XML_HEADER @ render (pv_finalize (ge_time E) st'), gr_bad_request = False, gr_cache = co_cache co\<rparr>"
    using assms(1-4) ms st'(1) filter_all_sources [OF assms(5,7), of xpath_string ?st]
    by (simp add: pv_execute_def add_responses_def)
  then show ?thesis
    using st'(2) page' by (auto simp: pv_finalize_def after_members_def pv_empty_def)
qed


section \<open>An example\<close>

definition demo_pv :: "(string, char) pv_ops" where
  "demo_pv = \<lparr>po_xml = demo_xml, po_kind = (\<lambda>c. Attribute_node [c]), po_same_name = (\<lambda>_ _. False),
     po_to_string = (\<lambda>c. [c]), po_schema_location = (\<lambda>_. None)\<rparr>"

lemma property_page_witness:
  "\<exists>vc :: char value_collection. pv_execute demo_gf demo_pv (\<lambda>vc :: char value_collection. concat (map (\<lambda>m. case m of Member_text t \<Rightarrow> t | _ \<Rightarrow> []) (vc_members vc)))
       demo_info (demo_spp 0 2) ''p'' [demo_q ''k'' ''abcd''] [] =
     Inr \<lparr>gr_output = XML_HEADER @ ''ab'', gr_bad_request = False, gr_cache = [(''k'', ''abcd'')]\<rparr> \<and>
     vc_matched vc = 4 \<and> vc_returned vc = (2 :: int)"
proof -
  let ?render = "\<lambda>vc :: char value_collection. concat (map (\<lambda>m. case m of Member_text t \<Rightarrow> t | _ \<Rightarrow> []) (vc_members vc)) :: string"
  have co: "pv_collect demo_gf demo_info [demo_q ''k'' ''abcd''] [] =
      Inr \<lparr>co_responses = [''abcd''], co_succeeded = True, co_cache = [(''k'', ''abcd'')]\<rparr>"
    by (simp add: pv_collect_def collect_query_responses_def collect_one_def demo_q_def demo_gf_def demo_cache_def substitute_plain)
  have src: "list_all2 (\<lambda>p srcs. sources (po_xml demo_pv) (po_to_string demo_pv) p = Inr srcs)
      (zip [demo_q ''k'' ''abcd''] (co_responses \<lparr>co_responses = [''abcd''], co_succeeded = True, co_cache = [(''k'', ''abcd'')]\<rparr>)) [[''abcd'']]"
    by (simp add: sources_def demo_q_def)
  have mat: "list_all2 (\<lambda>s ms. matches (po_xml demo_pv) ''p'' s = Inr ms) (concat [[''abcd'']]) [''abcd'']"
    by (simp add: matches_def demo_pv_def demo_xml_def)
  have "\<exists>vc. pv_execute demo_gf demo_pv ?render demo_info (demo_spp 0 2) ''p'' [demo_q ''k'' ''abcd''] [] =
      Inr \<lparr>gr_output = XML_HEADER @ ?render vc, gr_bad_request = False, gr_cache =
        co_cache \<lparr>co_responses = [''abcd''], co_succeeded = True, co_cache = [(''k'', ''abcd'')]\<rparr>\<rparr> \<and>
    vc_members vc = map (result_member demo_pv) ''ab'' \<and> vc_matched vc = int (length (concat [''abcd''])) \<and>
    vc_returned vc = int (length ''ab'')"
    by (rule property_page [OF co _ _ _ src mat])
      (simp_all add: demo_spp_def DEFAULT_OUTPUT_FORMAT_def DEBUG_OUTPUT_FORMAT_def)
  then obtain vc where vc: "pv_execute demo_gf demo_pv ?render demo_info (demo_spp 0 2) ''p'' [demo_q ''k'' ''abcd''] [] =
      Inr \<lparr>gr_output = XML_HEADER @ ?render vc, gr_bad_request = False, gr_cache =
        co_cache \<lparr>co_responses = [''abcd''], co_succeeded = True, co_cache = [(''k'', ''abcd'')]\<rparr>\<rparr>"
    "vc_members vc = map (result_member demo_pv) ''ab''" "vc_matched vc = int (length (concat [''abcd'']))"
    "vc_returned vc = int (length ''ab'')"
    by (elim exE conjE) (rule that)
  have out: "?render vc = ''ab''" by (simp only: vc(2)) (simp add: result_member_def demo_pv_def)
  show ?thesis
    by (rule exI [of _ vc]) (simp only: vc(1) out collected.select_convs, simp add: vc(3,4))
qed

end
