(* ===== verification/FeatureRequests.thy ===== *)
theory FeatureRequests
  imports AdHoc PropertyValue
begin

text \<open>
  From a request to its answer: the parsing of \<open>GetFeature\<close> and \<open>GetPropertyValue\<close> requests
  (\<open>libwfs/request/GetFeature.cpp\<close>, \<open>libwfs/request/GetPropertyValue.cpp\<close>), which composes the
  request checks, the presentation parameters, stored and ad hoc queries and the response cache.
\<close>

section \<open>The environment\<close>

text \<open>
  \<open>fr_run\<close> is the virtual \<open>query\<close> of the handler of a query, \<open>fr_formats\<close> the configured output
  formats, \<open>fr_lexcast\<close> and \<open>fr_stoul\<close> the conversions of the libraries.
\<close>

record 'dt fr_env =
  fr_uc :: "string \<Rightarrow> string"
  fr_adhoc :: "'dt adhoc_env"
  fr_formats :: "string list"
  fr_source :: string
  fr_double :: "string \<Rightarrow> double result"
  fr_lexcast :: "string \<Rightarrow> 32 word result"
  fr_stoul :: "string \<Rightarrow> 64 word result"
  fr_run :: "'dt any_query \<Rightarrow> string \<Rightarrow> string option \<Rightarrow> string result"

definition fr_lc :: "'dt fr_env \<Rightarrow> string \<Rightarrow> string" where
  "fr_lc F = ae_lc (af_env (fr_adhoc F))"

text \<open>An HTTP request: the look up of a parameter and all parameters; an XML request: its root element.\<close>

record http_request =
  hr_get :: "string \<Rightarrow> string option"
  hr_items :: "(string \<times> string) list"

definition xml_root_of :: "xnode \<Rightarrow> xml_root" where
  "xml_root_of root = Some (xn_local root, xn_ns root)"

text \<open>A query as its execution sees it.\<close>

definition query_of :: "'dt fr_env \<Rightarrow> 'dt any_query \<Rightarrow> query" where
  "query_of F q = (case q of
       Stored s \<Rightarrow> \<lparr>qu_type = STORED_QUERY, qu_key = sq_cache_key s, qu_stale = sint (sq_stale s), qu_cached = None,
         qu_filter = [], qu_execute = fr_run F q\<rparr>
     | AdHoc a \<Rightarrow> \<lparr>qu_type = QUERY, qu_key = sq_cache_key a, qu_stale = sint (sq_stale a), qu_cached = None,
         qu_filter = aq_filter a, qu_execute = fr_run F q\<rparr>)"

section \<open>Parsing\<close>

text \<open>The parsers of the stored queries may loop for ever only as \<open>StoredQueries\<close> says.\<close>

definition stored_from_kvp ::
    "'dt fr_env \<Rightarrow> string \<Rightarrow> presentation \<Rightarrow> http_request \<Rightarrow> 'dt stored_query result option" where
  "stored_from_kvp F language spp r =
     create_from_kvp (fr_lc F) (af_text (fr_adhoc F)) (ae_limit (af_env (fr_adhoc F))) (fr_double F) (af_ids (fr_adhoc F))
       (af_find (fr_adhoc F)) (fr_source F) language (spp_format spp) (hr_get r) (hr_items r)"

definition xml_params_of :: "'dt ah_env \<Rightarrow> xnode \<Rightarrow> 'dt xml_param list" where
  "xml_params_of E el =
     map (\<lambda>p. \<lparr>xp_name = get_attr p ''name'', xp_text = ae_text E p, xp_values = extract_param (ae_conv E) p\<rparr>)
       (get_child_elements el WFS_NAMESPACE_URI ''Parameter'')"

definition stored_from_xml ::
    "'dt fr_env \<Rightarrow> string \<Rightarrow> presentation \<Rightarrow> xnode \<Rightarrow> 'dt stored_query result option" where
  "stored_from_xml F language spp el =
     create_from_xml (fr_lc F) (ae_limit (af_env (fr_adhoc F))) (af_ids (fr_adhoc F)) (af_find (fr_adhoc F)) (fr_source F)
       language (spp_format spp) (xn_ns el, xn_local el, get_attr el ''id'') (xml_params_of (af_env (fr_adhoc F)) el)"

definition queries_from_kvp ::
    "'dt fr_env \<Rightarrow> string \<Rightarrow> presentation \<Rightarrow> http_request \<Rightarrow> 'dt any_query list result option" where
  "queries_from_kvp F language spp r =
     (if hr_get r ''storedquery_id'' \<noteq> None
      then map_option (\<lambda>q. rbind q (\<lambda>q. Inr [Stored q])) (stored_from_kvp F language spp r)
      else Some (adhoc_from_kvp (fr_uc F) (fr_adhoc F) language spp (hr_items r) []))"

text \<open>The children of the root element; \<open>check_name_info\<close> accepts \<open>Query\<close> and \<open>StoredQuery\<close>.\<close>

definition check_name_info :: "string \<Rightarrow> string list \<Rightarrow> xnode \<Rightarrow> string result" where
  "check_name_info ns allowed_names el =
     (if xn_local el \<notin> set allowed_names \<or> xn_ns el \<noteq> ns then Inl (Thrown NoCode ''invalid element name'')
      else Inr (xn_local el))"

definition query_from_xml ::
    "'dt fr_env \<Rightarrow> string \<Rightarrow> presentation \<Rightarrow> xnode \<Rightarrow> 'dt any_query list \<Rightarrow> 'dt any_query list result option" where
  "query_from_xml F language spp el queries =
     (case check_name_info WFS_NAMESPACE_URI [''Query'', ''StoredQuery''] el of
        Inl e \<Rightarrow> Some (Inl e)
      | Inr name \<Rightarrow>
          if name = ''Query'' then Some (adhoc_from_xml (fr_adhoc F) language spp el queries)
          else map_option (\<lambda>q. rbind q (\<lambda>q. Inr (queries @ [Stored q]))) (stored_from_xml F language spp el))"

fun queries_from_xml ::
    "'dt fr_env \<Rightarrow> string \<Rightarrow> presentation \<Rightarrow> xnode list \<Rightarrow> 'dt any_query list \<Rightarrow> 'dt any_query list result option" where
  "queries_from_xml F language spp [] queries = Some (Inr queries)"
| "queries_from_xml F language spp (el # els) queries =
     (case query_from_xml F language spp el queries of
        None \<Rightarrow> None
      | Some (Inl e) \<Rightarrow> Some (Inl e)
      | Some (Inr queries) \<Rightarrow> queries_from_xml F language spp els queries)"

text \<open>
  What a parsed request holds.  \<open>pr_xpath\<close> is the value reference of \<open>GetPropertyValue\<close>, \<open>pr_fast\<close> says
  that all responses were found in the cache.
\<close>

record parsed_request =
  pr_spp :: presentation
  pr_queries :: "query list"
  pr_fast :: bool
  pr_xpath :: string

definition with_cache ::
    "'dt fr_env \<Rightarrow> 'c cache_ops \<Rightarrow> presentation \<Rightarrow> string \<Rightarrow> 'dt any_query list \<Rightarrow> 'c \<Rightarrow> parsed_request \<times> 'c" where
  "with_cache F C spp xpath qs c = (case get_cached_responses C (map (query_of F) qs) c of (qs', fast, c') \<Rightarrow>
     (\<lparr>pr_spp = spp, pr_queries = qs', pr_fast = fast, pr_xpath = xpath\<rparr>, c'))"

definition checked_kvp :: "'dt fr_env \<Rightarrow> string \<Rightarrow> http_request \<Rightarrow> unit result" where
  "checked_kvp F name r =
     rbind (check_request_name (fr_lc F) (extract_request_name (hr_get r)) name) (\<lambda>_. check_wfs_version (hr_get r))"

definition check_format_kvp :: "'dt fr_env \<Rightarrow> http_request \<Rightarrow> unit result" where
  "check_format_kvp F r = (case hr_get r ''outputformat'' of
       None \<Rightarrow> Inr () | Some f \<Rightarrow> check_output_format_attribute (fr_formats F) f)"

definition is_request :: "'dt fr_env \<Rightarrow> string \<Rightarrow> http_request \<Rightarrow> unit result" where
  "is_request F name r = (case hr_get r ''request'' of
       Some q \<Rightarrow> if iequals (fr_lc F) (c_str q) name then Inr () else Inl (Thrown ParsingFailed ''Not a request of this type'')
     | None \<Rightarrow> Inl (Thrown ParsingFailed ''Not a request of this type''))"

definition gf_from_kvp ::
    "'dt fr_env \<Rightarrow> 'c cache_ops \<Rightarrow> string \<Rightarrow> http_request \<Rightarrow> 'c \<Rightarrow> (parsed_request \<times> 'c) result option" where
  "gf_from_kvp F C language r c =
     (case rbind (checked_kvp F ''GetFeature'' r) (\<lambda>_.
           rbind (check_format_kvp F r) (\<lambda>_.
           rbind (is_request F ''getFeature'' r) (\<lambda>_.
           read_spp_kvp (fr_lc F) (fr_lexcast F) (hr_get r)))) of
        Inl e \<Rightarrow> Some (Inl e)
      | Inr spp \<Rightarrow> map_option (\<lambda>qs. rbind qs (\<lambda>qs. Inr (with_cache F C spp [] qs c))) (queries_from_kvp F language spp r))"

definition checked_xml :: "'dt fr_env \<Rightarrow> string \<Rightarrow> xnode \<Rightarrow> presentation result" where
  "checked_xml F name root =
     rbind (check_request_name (fr_lc F) (extract_request_name_xml (xml_root_of root)) name) (\<lambda>_.
     rbind (check_output_format_xml (fr_formats F) (get_attr root)) (\<lambda>_.
     rbind (check_mandatory_attributes (xml_root_of root) (get_attr root)) (\<lambda>_.
     read_spp_xml (fr_lc F) (fr_stoul F) (get_attr root))))"

definition gf_from_xml ::
    "'dt fr_env \<Rightarrow> 'c cache_ops \<Rightarrow> string \<Rightarrow> xnode \<Rightarrow> 'c \<Rightarrow> (parsed_request \<times> 'c) result option" where
  "gf_from_xml F C language root c =
     (case checked_xml F ''GetFeature'' root of
        Inl e \<Rightarrow> Some (Inl e)
      | Inr spp \<Rightarrow> map_option (\<lambda>qs. rbind qs (\<lambda>qs. Inr (with_cache F C spp [] qs c)))
          (queries_from_xml F language spp (get_child_elements root WFS_NAMESPACE_URI ''*'') []))"

definition pv_from_kvp ::
    "'dt fr_env \<Rightarrow> 'c cache_ops \<Rightarrow> string \<Rightarrow> http_request \<Rightarrow> 'c \<Rightarrow> (parsed_request \<times> 'c) result option" where
  "pv_from_kvp F C language r c =
     (case rbind (checked_kvp F ''GetPropertyValue'' r) (\<lambda>_.
           rbind (is_request F ''GetPropertyValue'' r) (\<lambda>_.
           rbind (case hr_get r ''valuereference'' of
               None \<Rightarrow> Inl (Thrown ParsingFailed ''VALUEREFERENCE missing'') | Some v \<Rightarrow> Inr v) (\<lambda>v.
           rbind (check_format_kvp F r) (\<lambda>_.
           rbind (read_spp_kvp (fr_lc F) (fr_lexcast F) (hr_get r)) (\<lambda>spp. Inr (spp, v)))))) of
        Inl e \<Rightarrow> Some (Inl e)
      | Inr (spp, v) \<Rightarrow> map_option (\<lambda>qs. rbind qs (\<lambda>qs. Inr (with_cache F C spp v qs c))) (queries_from_kvp F language spp r))"

definition pv_from_xml ::
    "'dt fr_env \<Rightarrow> 'c cache_ops \<Rightarrow> string \<Rightarrow> xnode \<Rightarrow> 'c \<Rightarrow> (parsed_request \<times> 'c) result option" where
  "pv_from_xml F C language root c =
     (case rbind (checked_xml F ''GetPropertyValue'' root) (\<lambda>spp.
           rbind (get_mandatory_attr (get_attr root) ''valueReference'') (\<lambda>v. Inr (spp, v))) of
        Inl e \<Rightarrow> Some (Inl e)
      | Inr (spp, v) \<Rightarrow> map_option (\<lambda>qs. rbind qs (\<lambda>qs. Inr (with_cache F C spp v qs c)))
          (queries_from_xml F language spp (get_child_elements root WFS_NAMESPACE_URI ''*'') []))"


section \<open>Every request is parsed\<close>

lemma queries_from_xml_total:
  assumes "\<And>el. \<exists>r. stored_from_xml F language spp el = Some r"
  shows "\<exists>r. queries_from_xml F language spp els queries = Some r"
proof (induction els arbitrary: queries)
  case (Cons el els)
  obtain r where "stored_from_xml F language spp el = Some r" using assms by blast
  then have "query_from_xml F language spp el queries \<noteq> None"
    by (simp add: query_from_xml_def split: sum.split)
  then obtain q where "query_from_xml F language spp el queries = Some q" by blast
  with Cons.IH show ?case by (cases q) auto
qed simp

lemma stored_total:
  fixes s :: "'dt sqm"
  assumes "af_find (fr_adhoc F) = get_handler_by_name (fr_lc F) s" "\<And>k. finite {n. fr_lc F n = k}"
  shows "\<exists>q. stored_from_kvp F language spp r = Some q" and "\<exists>q. stored_from_xml F language spp el = Some q"
proof -
  note total = directory.create_query_terminates [where s = s, OF assms(2)]
  show "\<exists>q. stored_from_kvp F language spp r = Some q"
    unfolding stored_from_kvp_def create_from_kvp_def assms(1) by (rule total)
  show "\<exists>q. stored_from_xml F language spp el = Some q"
    using total by (auto simp: stored_from_xml_def create_from_xml_def assms(1) split: sum.split)
qed

lemma queries_from_kvp_total:
  "\<exists>q. stored_from_kvp F language spp r = Some q \<Longrightarrow> \<exists>qs. queries_from_kvp F language spp r = Some qs"
  by (auto simp: queries_from_kvp_def)


definition demo_fr :: "demo_dt fr_env" where
  "demo_fr = \<lparr>fr_uc = ascii_upper, fr_adhoc = demo_adhoc\<lparr>af_find := get_handler_by_name ascii_lower sqm_new\<rparr>,
     fr_formats = default_formats, fr_source = [], fr_double = (\<lambda>_. Inr 0), fr_lexcast = (\<lambda>_. Inr 0),
     fr_stoul = (\<lambda>_. Inr 0), fr_run = (\<lambda>_ _ _. Inr [])\<rparr>"


end
