(* ===== verification/XmlParsing.thy ===== *)
theory XmlParsing
  imports Prelude
begin

text \<open>
  The XML parser of the plugin: the errors collected by \<open>libwfs/XmlErrorHandler.cpp\<close>, the parser of
  \<open>XmlParser.cpp\<close> around Xerces-C, and the schemas that \<open>XmlEntityResolver.cpp\<close> gives to it.  What
  Xerces-C makes of an input is an argument: the sequence of its call backs and its end.  Downloads
  (\<open>libcurl\<close>, \<open>std::async\<close>) are arguments too.
\<close>

section \<open>Exceptions of the parser\<close>

text \<open>
  \<open>XmlError\<close> is a class of its own beside \<open>Fmi::Exception\<close>.  \<open>Fmi::Exception::Trace\<close>, called in a
  \<open>catch\<close> block, makes an \<open>Fmi::Exception\<close> of whatever has been caught and keeps a WFS exception code
  only if that was an \<open>Fmi::Exception\<close> itself.
\<close>

datatype error_level = LEVEL_ERROR | LEVEL_FATAL

datatype exn =
    Xml_error error_level "string list"
  | Fmi_exception error
  | Std_exception string

definition trace :: "exn \<Rightarrow> exn" where
  "trace e = (case e of
       Fmi_exception x \<Rightarrow> Fmi_exception x
     | Xml_error _ _ \<Rightarrow> Fmi_exception (Thrown NoCode ''XML error'')
     | Std_exception what \<Rightarrow> Fmi_exception (Thrown NoCode what))"

definition traced :: "exn + 'a \<Rightarrow> exn + 'a" where
  "traced r = (case r of Inl e \<Rightarrow> Inl (trace e) | Inr x \<Rightarrow> Inr x)"

section \<open>The error handler\<close>

record error_handler =
  eh_throw :: bool
  eh_messages :: "string list"
  eh_warnings :: int
  eh_errors :: int
  eh_fatal_errors :: int

definition error_handler_new :: "bool \<Rightarrow> error_handler" where
  "error_handler_new throw_on_error =
     \<lparr>eh_throw = throw_on_error, eh_messages = [], eh_warnings = 0, eh_errors = 0, eh_fatal_errors = 0\<rparr>"

definition isOk :: "error_handler \<Rightarrow> bool" where
  "isOk h \<longleftrightarrow> eh_errors h = 0 \<and> eh_fatal_errors h = 0"

definition resetErrors :: "error_handler \<Rightarrow> error_handler" where
  "resetErrors h = h\<lparr>eh_warnings := 0, eh_errors := 0, eh_fatal_errors := 0, eh_messages := []\<rparr>"

text \<open>
  \<open>add_message\<close>: the message with its prefix and its place in the input; the call backs and
  \<open>check_terminate\<close>, whose own \<open>catch\<close> traces the exception that it throws.
\<close>

definition add_message :: "string \<Rightarrow> string \<Rightarrow> error_handler \<Rightarrow> error_handler" where
  "add_message prefix msg h = h\<lparr>eh_messages := eh_messages h @ [prefix @ '': '' @ msg]\<rparr>"

definition check_terminate :: "error_level \<Rightarrow> error_handler \<Rightarrow> exn option" where
  "check_terminate level h = (if eh_throw h then Some (trace (Xml_error level [])) else None)"

datatype sax_event = Warning string | Error string | FatalError string

definition handle_event :: "sax_event \<Rightarrow> error_handler \<Rightarrow> exn option \<times> error_handler" where
  "handle_event ev h = (case ev of
       Warning msg \<Rightarrow> let h = add_message ''WARNING'' msg h in (None, h\<lparr>eh_warnings := eh_warnings h + 1\<rparr>)
     | Error msg \<Rightarrow> let h = add_message ''ERROR'' msg h; h = h\<lparr>eh_errors := eh_errors h + 1\<rparr>
         in (map_option trace (check_terminate LEVEL_ERROR h), h)
     | FatalError msg \<Rightarrow> let h = add_message ''FATAL ERROR'' msg h; h = h\<lparr>eh_fatal_errors := eh_fatal_errors h + 1\<rparr>
         in (map_option trace (check_terminate LEVEL_FATAL h), h))"

definition check_errors :: "error_handler \<Rightarrow> exn option" where
  "check_errors h =
     (if \<not> isOk h
      then Some (Xml_error (if eh_fatal_errors h > 0 then LEVEL_FATAL else LEVEL_ERROR) (eh_messages h))
      else None)"

section \<open>Parsing\<close>

text \<open>
  The root element that \<open>startElement\<close> sees: its prefix, local name and attributes under their
  qualified names.
\<close>

record root_element =
  re_prefix :: string
  re_name :: string
  re_attrs :: "(string \<times> string) list"

record root_elem_info =
  rei_prefix :: string
  rei_nqname :: string
  rei_ns_uri :: string
  rei_attrs :: "(string \<times> string) list"

definition no_root_info :: root_elem_info where
  "no_root_info = \<lparr>rei_prefix = [], rei_nqname = [], rei_ns_uri = [], rei_attrs = []\<rparr>"

text \<open>\<open>startElement\<close> of a root element with a call back that stores its argument, as in \<open>PluginImpl\<close>.\<close>

definition start_root :: "root_element \<Rightarrow> root_elem_info \<Rightarrow> root_elem_info" where
  "start_root e info =
     (let attrs = fold (\<lambda>(k, v). sm_put k v) (re_attrs e) [];
          xmlns_name = (if re_prefix e \<noteq> [] then ''xmlns'' @ '':'' @ re_prefix e else ''xmlns'')
      in case map_of attrs xmlns_name of
           Some uri \<Rightarrow> \<lparr>rei_prefix = re_prefix e, rei_nqname = re_name e, rei_ns_uri = uri, rei_attrs = attrs\<rparr>
         | None \<Rightarrow> info)"

text \<open>
  A run of Xerces-C on an input: call backs to the error handler and for the root element, in their
  order; an exception of the library's own, if it ends in one; the document.
\<close>

datatype sax_call = To_handler sax_event | Root_element root_element

record 'd xml_run =
  xr_calls :: "sax_call list"
  xr_failure :: "string option"
  xr_document :: 'd

fun run_calls :: "sax_call list \<Rightarrow> error_handler \<Rightarrow> root_elem_info \<Rightarrow> exn option \<times> error_handler \<times> root_elem_info" where
  "run_calls [] h info = (None, h, info)"
| "run_calls (Root_element e # cs) h info = run_calls cs h (start_root e info)"
| "run_calls (To_handler ev # cs) h info = (case handle_event ev h of
      (Some e, h') \<Rightarrow> (Some e, h', info)
    | (None, h') \<Rightarrow> run_calls cs h' info)"

text \<open>\<open>parse_input\<close> and \<open>parse_string\<close>; the root element found so far is kept when they fail.\<close>

definition parse_input :: "bool \<Rightarrow> 'd xml_run \<Rightarrow> (exn + 'd) \<times> root_elem_info" where
  "parse_input stop_on_error run =
     (case run_calls (xr_calls run) (resetErrors (error_handler_new stop_on_error)) no_root_info of
        (Some e, _, info) \<Rightarrow> (Inl (trace e), info)
      | (None, h, info) \<Rightarrow> (case xr_failure run of
            Some what \<Rightarrow> (Inl (trace (Std_exception what)), info)
          | None \<Rightarrow> (case check_errors h of
                Some e \<Rightarrow> (Inl (trace e), info)
              | None \<Rightarrow> (Inr (xr_document run), info))))"

definition parse_string :: "(string \<Rightarrow> 'd xml_run) \<Rightarrow> bool \<Rightarrow> string \<Rightarrow> (exn + 'd) \<times> root_elem_info" where
  "parse_string xerces stop_on_error xml_data =
     (case parse_input stop_on_error (xerces xml_data) of (r, info) \<Rightarrow> (traced r, info))"

text \<open>\<open>str2xmldom\<close>: parsing without validation; the handler stops at the first error.\<close>

definition str2xmldom :: "(string \<Rightarrow> 'd xml_run) \<Rightarrow> string \<Rightarrow> exn + 'd" where
  "str2xmldom xerces src =
     (let run = xerces src in
      traced (case run_calls (xr_calls run) (error_handler_new True) no_root_info of
          (Some e, _, _) \<Rightarrow> (case e of Xml_error _ _ \<Rightarrow> Inl (trace e) | _ \<Rightarrow> Inl e)
        | (None, h, _) \<Rightarrow> (case xr_failure run of
              Some what \<Rightarrow> Inl (Std_exception what)
            | None \<Rightarrow> (case check_errors h of Some e \<Rightarrow> Inl e | None \<Rightarrow> Inr (xr_document run)))))"

text \<open>No \<open>XmlError\<close> reaches a caller of the parser: every function traces it on the way.\<close>

lemma trace_not_xml [simp]: "trace e \<noteq> Xml_error l ms"
  by (simp add: trace_def split: exn.splits)

lemma traced_not_xml: "traced r \<noteq> Inl (Xml_error l ms)"
  by (simp add: traced_def split: sum.splits)

lemma parse_string_not_xml: "fst (parse_string xerces stop src) \<noteq> Inl (Xml_error l ms)"
  by (simp add: parse_string_def traced_not_xml split: prod.splits)

lemma str2xmldom_not_xml: "str2xmldom xerces src \<noteq> Inl (Xml_error l ms)"
  by (simp add: str2xmldom_def Let_def traced_not_xml)

text \<open>What they throw carries no WFS exception code.\<close>

lemma run_calls_no_code:
  "run_calls cs h info = (Some e, h', info') \<Longrightarrow> \<exists>m. e = Fmi_exception (Thrown NoCode m)"
proof (induction cs h info arbitrary: h' rule: run_calls.induct)
  case (3 ev cs h info)
  then show ?case
    by (cases ev) (auto simp: handle_event_def Let_def check_terminate_def trace_def split: if_splits)
qed auto

lemma parse_string_no_code:
  "fst (parse_string xerces stop src) = Inl e \<Longrightarrow> \<exists>m. e = Fmi_exception (Thrown NoCode m)"
  by (auto simp: parse_string_def parse_input_def traced_def trace_def check_errors_def
      split: prod.splits option.splits if_splits dest!: run_calls_no_code)

text \<open>
  Without \<open>stop_on_error\<close> a document is accepted exactly if the library reports no error and does not
  fail: then the counters stay at zero.
\<close>

fun is_error :: "sax_call \<Rightarrow> bool" where
  "is_error (To_handler (Warning _)) = False"
| "is_error (To_handler _) = True"
| "is_error (Root_element _) = False"

lemma run_calls_errors:
  assumes "\<not> eh_throw h" "eh_errors h \<ge> 0" "eh_fatal_errors h \<ge> 0" "run_calls cs h info = (e, h', info')"
  shows "e = None \<and> (isOk h' \<longleftrightarrow> isOk h \<and> \<not> list_ex is_error cs)"
  using assms
proof (induction cs h info arbitrary: h' rule: run_calls.induct)
  case (3 ev cs h info)
  then show ?case
    by (cases ev) (auto simp: handle_event_def Let_def add_message_def check_terminate_def isOk_def)
qed auto

lemma parse_string_accepts:
  "fst (parse_string xerces False src) = Inr d \<longleftrightarrow>
    (let run = xerces src in d = xr_document run \<and> xr_failure run = None \<and> \<not> list_ex is_error (xr_calls run))"
proof -
  obtain e h' info where run: "run_calls (xr_calls (xerces src)) (resetErrors (error_handler_new False)) no_root_info = (e, h', info)"
    by (cases "run_calls (xr_calls (xerces src)) (resetErrors (error_handler_new False)) no_root_info")
  have "e = None \<and> (isOk h' \<longleftrightarrow> \<not> list_ex is_error (xr_calls (xerces src)))"
    using run_calls_errors [OF _ _ _ run] by (auto simp: resetErrors_def error_handler_new_def isOk_def)
  with run show ?thesis
    by (auto simp: parse_string_def parse_input_def traced_def check_errors_def Let_def split: option.splits)
qed

section \<open>Schemas\<close>

text \<open>
  \<open>XmlEntityResolver.cpp\<close>.  A shared future is its outcome, \<open>None\<close> before a task is assigned to it.
  The times are those of \<open>std::time\<close>; an iterator of the download map is identified with its key.
\<close>

record download =
  dl_task :: "string result option"
  dl_failed :: int
  dl_last_failed :: int

record resolver =
  rs_proxy :: string
  rs_no_proxy :: string
  rs_cache :: "(string \<times> string) list"
  rs_downloads :: "(string \<times> download) list"
  rs_enabled :: bool

definition resolver_new :: "(string \<times> string) list \<Rightarrow> resolver" where
  "resolver_new cache = \<lparr>rs_proxy = [], rs_no_proxy = [], rs_cache = cache, rs_downloads = [], rs_enabled = False\<rparr>"

definition init_schema_download :: "string \<Rightarrow> string \<Rightarrow> resolver \<Rightarrow> resolver" where
  "init_schema_download proxy no_proxy st = st\<lparr>rs_enabled := True, rs_proxy := proxy, rs_no_proxy := no_proxy\<rparr>"

definition is_url :: "string \<Rightarrow> bool" where
  "is_url s \<longleftrightarrow> take 7 s = ''http://'' \<or> take 8 s = ''https://''"

definition select_download :: "int \<Rightarrow> string \<Rightarrow> (string \<times> download) list \<Rightarrow> bool \<times> (string \<times> download) list" where
  "select_download now uri ds = (case map_of ds uri of
       None \<Rightarrow> (True, sm_put uri \<lparr>dl_task = None, dl_failed = 0, dl_last_failed = 0\<rparr> ds)
     | Some d \<Rightarrow>
         (dl_failed d \<noteq> 0 \<and> dl_failed d < 100 \<and> now > dl_last_failed d + (if dl_failed d < 10 then 10 else 600), ds))"

text \<open>
  \<open>get_schema\<close> in the two parts between which it gives the mutex back.  \<open>launch uri\<close> is the outcome of
  the task started by \<open>std::async\<close>, \<open>None\<close> if no thread can be started.
\<close>

datatype schema_lookup =
    Cached string
  | Not_allowed
  | Launch_failed
  | Waiting bool "string result option"

definition begin_get_schema ::
    "(string \<Rightarrow> string result option) \<Rightarrow> int \<Rightarrow> bool \<Rightarrow> string \<Rightarrow> resolver \<Rightarrow> schema_lookup \<times> resolver" where
  "begin_get_schema launch now allowed uri st = (case map_of (rs_cache st) uri of
       Some content \<Rightarrow> (Cached content, st)
     | None \<Rightarrow>
         if rs_enabled st \<and> allowed
         then (case select_download now uri (rs_downloads st) of (downloading, ds) \<Rightarrow>
           let st = st\<lparr>rs_downloads := ds\<rparr> in
           if downloading
           then (case launch uri of
               None \<Rightarrow> (Launch_failed, st)
             | Some outcome \<Rightarrow>
                 (Waiting True (Some outcome), st\<lparr>rs_downloads := sm_update uri (\<lambda>d. d\<lparr>dl_task := Some outcome\<rparr>) ds\<rparr>))
           else (Waiting False (case map_of ds uri of Some d \<Rightarrow> dl_task d | None \<Rightarrow> None), st))
         else (Not_allowed, st))"

definition end_get_schema ::
    "int \<Rightarrow> string \<Rightarrow> bool \<Rightarrow> string result option \<Rightarrow> resolver \<Rightarrow> string result \<times> resolver" where
  "end_get_schema now uri downloading task st =
     (if map_of (rs_downloads st) uri = None then (Inl (Undefined ''iterator of an erased download''), st)
      else case task of
          None \<Rightarrow> (Inl (Undefined ''get() of a shared_future without state''), st)
        | Some (Inr content) \<Rightarrow>
            (Inr content, st\<lparr>rs_downloads := sm_update uri (\<lambda>d. d\<lparr>dl_failed := 0\<rparr>) (rs_downloads st)\<rparr>)
        | Some (Inl e) \<Rightarrow>
            (Inl e, if downloading
              then st\<lparr>rs_downloads := sm_update uri (\<lambda>d. d\<lparr>dl_failed := dl_failed d + 1, dl_last_failed := now\<rparr>) (rs_downloads st)\<rparr>
              else st))"

definition get_schema ::
    "(string \<Rightarrow> string result option) \<Rightarrow> int \<Rightarrow> int \<Rightarrow> bool \<Rightarrow> string \<Rightarrow> resolver \<Rightarrow> string option result \<times> resolver" where
  "get_schema launch now later allowed uri st = (case begin_get_schema launch now allowed uri st of
       (Cached content, st) \<Rightarrow> (Inr (Some content), st)
     | (Not_allowed, st) \<Rightarrow> (Inr None, st)
     | (Launch_failed, st) \<Rightarrow> (Inl (Thrown NoCode ''std::async''), st)
     | (Waiting downloading task, st) \<Rightarrow> (case end_get_schema later uri downloading task st of
           (Inr content, st) \<Rightarrow> (Inr (Some content), st)
         | (Inl e, st) \<Rightarrow> (Inl e, st)))"

datatype resource_type =
    SchemaGrammar | SchemaImport | SchemaInclude | SchemaRedefine | ExternalEntity | UnKnown

record resource_identifier =
  rid_type :: resource_type
  rid_system_id :: string
  rid_base_uri :: string

definition remote_uri :: "string \<Rightarrow> string \<Rightarrow> string option" where
  "remote_uri system_id base_uri =
     (if is_url system_id then Some system_id
      else if system_id = [] then None
      else if hd system_id = CHR ''/'' \<or> base_uri \<noteq> [] \<and> hd base_uri = CHR ''/'' then None
      else case rev (dropWhile (\<lambda>c. c \<noteq> CHR ''/'') (rev base_uri)) of
          [] \<Rightarrow> None
        | dir \<Rightarrow> Some (dir @ system_id))"

definition resolveEntity ::
    "(string \<Rightarrow> string result option) \<Rightarrow> int \<Rightarrow> int \<Rightarrow> bool \<Rightarrow> resource_identifier \<Rightarrow> resolver \<Rightarrow>
     (string \<times> string) option result \<times> resolver" where
  "resolveEntity launch now later allowed r st =
     (if rid_type r \<notin> {SchemaGrammar, SchemaImport, SchemaInclude, SchemaRedefine} then (Inr None, st)
      else case remote_uri (rid_system_id r) (rid_base_uri r) of
          None \<Rightarrow> (Inr None, st)
        | Some uri \<Rightarrow> (case get_schema launch now later allowed uri st of
              (Inr (Some content), st) \<Rightarrow> (Inr (Some (uri, content)), st)
            | (Inr None, st) \<Rightarrow> (Inl (Thrown NoCode ''Failed to resolve URI''), st)
            | (Inl e, st) \<Rightarrow> (Inl e, st)))"

text \<open>\<open>merge_downloaded_schemas\<close>, which waits for every task and ignores those that failed.\<close>

definition merge_one :: "string \<times> download \<Rightarrow> bool \<times> resolver \<Rightarrow> (bool \<times> resolver) result" where
  "merge_one p s = (case p of (uri, d) \<Rightarrow> case s of (changed, st) \<Rightarrow> (case dl_task d of
       None \<Rightarrow> Inl (Undefined ''get() of a shared_future without state'')
     | Some (Inl _) \<Rightarrow> Inr (changed, st)
     | Some (Inr content) \<Rightarrow>
         Inr (True, st\<lparr>rs_cache := sm_put uri content (rs_cache st), rs_downloads := mm_erase uri (rs_downloads st)\<rparr>)))"

definition merge_downloaded_schemas :: "resolver \<Rightarrow> (bool \<times> resolver) result" where
  "merge_downloaded_schemas st = fold_result merge_one (rs_downloads st) (False, st)"

section \<open>Where schemas come from\<close>

text \<open>
  The states of a resolver that starts with the preloaded schemas \<open>c0\<close>: requests of parsers, with and
  without the permission to download, and merges.  \<open>served u s\<close> says that a download of \<open>u\<close> may
  yield \<open>s\<close>.
\<close>

definition launch_ok :: "(string \<Rightarrow> string \<Rightarrow> bool) \<Rightarrow> (string \<Rightarrow> string result option) \<Rightarrow> bool" where
  "launch_ok served launch \<longleftrightarrow> (\<forall>u s. launch u = Some (Inr s) \<longrightarrow> served u s)"

inductive resolver_reachable :: "(string \<times> string) list \<Rightarrow> (string \<Rightarrow> string \<Rightarrow> bool) \<Rightarrow> resolver \<Rightarrow> bool"
  for c0 served where
  rr_start: "resolver_reachable c0 served (resolver_new c0)"
| rr_enable: "resolver_reachable c0 served st \<Longrightarrow> resolver_reachable c0 served (init_schema_download p np st)"
| rr_resolve: "resolver_reachable c0 served st \<Longrightarrow> launch_ok served launch \<Longrightarrow>
    resolver_reachable c0 served (snd (resolveEntity launch now later allowed r st))"
| rr_merge: "resolver_reachable c0 served st \<Longrightarrow> merge_downloaded_schemas st = Inr (changed, st') \<Longrightarrow>
    resolver_reachable c0 served st'"

definition schema_known :: "(string \<times> string) list \<Rightarrow> (string \<Rightarrow> string \<Rightarrow> bool) \<Rightarrow> string \<Rightarrow> string \<Rightarrow> bool" where
  "schema_known c0 served u s \<longleftrightarrow> map_of c0 u = Some s \<or> served u s"

lemma served_known: "served u s \<Longrightarrow> schema_known c0 served u s"
  by (simp add: schema_known_def)

definition resolver_inv :: "(string \<times> string) list \<Rightarrow> (string \<Rightarrow> string \<Rightarrow> bool) \<Rightarrow> resolver \<Rightarrow> bool" where
  "resolver_inv c0 served st \<longleftrightarrow>
     (\<forall>u s. map_of (rs_cache st) u = Some s \<longrightarrow> schema_known c0 served u s) \<and>
     (\<forall>u d s. map_of (rs_downloads st) u = Some d \<longrightarrow> dl_task d = Some (Inr s) \<longrightarrow> served u s)"

lemma begin_get_schema_inv:
  assumes "resolver_inv c0 served st" "launch_ok served launch" "begin_get_schema launch now allowed uri st = (l, st')"
  shows "resolver_inv c0 served st' \<and>
    (\<forall>s. l = Cached s \<longrightarrow> schema_known c0 served uri s) \<and>
    (\<forall>d s. l = Waiting d (Some (Inr s)) \<longrightarrow> served uri s)"
  using assms
  by (auto simp: begin_get_schema_def select_download_def resolver_inv_def launch_ok_def sm_simps Let_def
      split: option.splits prod.splits if_splits)

lemma end_get_schema_inv:
  assumes "resolver_inv c0 served st" "end_get_schema now uri downloading task st = (r, st')"
  shows "resolver_inv c0 served st' \<and> (\<forall>s. r = Inr s \<longrightarrow> task = Some (Inr s))"
  using assms
  by (auto simp: end_get_schema_def resolver_inv_def sm_simps served_known split: option.splits sum.splits if_splits)

lemma get_schema_inv:
  assumes inv: "resolver_inv c0 served st" and launch: "launch_ok served launch"
    and get: "get_schema launch now later allowed uri st = (r, st')"
  shows "resolver_inv c0 served st' \<and> (\<forall>s. r = Inr (Some s) \<longrightarrow> schema_known c0 served uri s)"
proof -
  obtain l st1 where first: "begin_get_schema launch now allowed uri st = (l, st1)"
    by (cases "begin_get_schema launch now allowed uri st")
  note inv1 = begin_get_schema_inv [OF inv launch first]
  show ?thesis
  proof (cases l)
    case (Waiting d task)
    obtain r2 st2 where e: "end_get_schema later uri d task st1 = (r2, st2)"
      by (cases "end_get_schema later uri d task st1")
    from end_get_schema_inv [OF _ e] inv1 have "resolver_inv c0 served st2 \<and> (\<forall>s. r2 = Inr s \<longrightarrow> task = Some (Inr s))"
      by blast
    with inv1 get first e Waiting show ?thesis
      by (auto simp: get_schema_def served_known split: sum.splits)
  qed (use inv1 get first in \<open>auto simp: get_schema_def\<close>)
qed

lemma resolveEntity_inv:
  assumes inv: "resolver_inv c0 served st" and launch: "launch_ok served launch"
    and res: "resolveEntity launch now later allowed r st = (x, st')"
  shows "resolver_inv c0 served st' \<and>
    (\<forall>u s. x = Inr (Some (u, s)) \<longrightarrow> remote_uri (rid_system_id r) (rid_base_uri r) = Some u \<and>
      rid_type r \<notin> {ExternalEntity, UnKnown} \<and> schema_known c0 served u s)"
proof (cases "remote_uri (rid_system_id r) (rid_base_uri r)")
  case None
  with inv res show ?thesis by (auto simp: resolveEntity_def split: if_splits)
next
  case (Some uri)
  obtain g st1 where g: "get_schema launch now later allowed uri st = (g, st1)"
    by (cases "get_schema launch now later allowed uri st")
  from get_schema_inv [OF inv launch g] res Some g inv show ?thesis
    by (auto simp: resolveEntity_def split: if_splits sum.splits option.splits)
qed

lemma merge_one_inv:
  assumes "resolver_inv c0 served (snd s)" "\<forall>x. dl_task (snd p) = Some (Inr x) \<longrightarrow> served (fst p) x"
    and "merge_one p s = Inr t"
  shows "resolver_inv c0 served (snd t)"
proof -
  have erase: "map_of (mm_erase u ds) v = (if u = v then None else map_of ds v)" for u v :: string and ds :: "(string \<times> download) list"
    by (induction ds) (auto simp: mm_erase_def)
  from assms show ?thesis
    by (auto simp: merge_one_def resolver_inv_def sm_simps erase served_known split: prod.splits option.splits sum.splits if_splits)
qed

lemma begin_get_schema_ok:
  "sm_ok (rs_downloads st) \<Longrightarrow> sm_ok (rs_downloads (snd (begin_get_schema launch now allowed uri st)))"
  by (auto simp: begin_get_schema_def select_download_def sm_simps Let_def split: option.splits)

lemma end_get_schema_ok:
  "sm_ok (rs_downloads st) \<Longrightarrow> sm_ok (rs_downloads (snd (end_get_schema now uri downloading task st)))"
  by (auto simp: end_get_schema_def sm_simps split: option.splits sum.splits)

lemma get_schema_ok:
  assumes "sm_ok (rs_downloads st)"
  shows "sm_ok (rs_downloads (snd (get_schema launch now later allowed uri st)))"
proof -
  obtain l st1 where first: "begin_get_schema launch now allowed uri st = (l, st1)"
    by (cases "begin_get_schema launch now allowed uri st")
  with begin_get_schema_ok [OF assms, of launch now allowed uri] have ok: "sm_ok (rs_downloads st1)" by simp
  show ?thesis
  proof (cases l)
    case (Waiting d task)
    then show ?thesis
      using end_get_schema_ok [OF ok, of later uri d task] first
      by (auto simp: get_schema_def split: prod.splits sum.splits)
  qed (use first ok in \<open>auto simp: get_schema_def\<close>)
qed

lemma snd_resolveEntity:
  "snd (resolveEntity launch now later allowed r st) =
    (if rid_type r \<in> {ExternalEntity, UnKnown} then st
     else case remote_uri (rid_system_id r) (rid_base_uri r) of
         None \<Rightarrow> st
       | Some uri \<Rightarrow> snd (get_schema launch now later allowed uri st))"
proof (cases "remote_uri (rid_system_id r) (rid_base_uri r)")
  case None
  then show ?thesis by (cases "rid_type r") (simp_all add: resolveEntity_def)
next
  case (Some uri)
  obtain g st1 where "get_schema launch now later allowed uri st = (g, st1)"
    by (cases "get_schema launch now later allowed uri st")
  with Some show ?thesis
    by (cases "rid_type r") (auto simp: resolveEntity_def split: sum.splits option.splits)
qed

lemma resolver_downloads_ok: "resolver_reachable c0 served st \<Longrightarrow> sm_ok (rs_downloads st)"
proof (induction rule: resolver_reachable.induct)
  case (rr_resolve st launch now later allowed r)
  then show ?case
    by (simp add: snd_resolveEntity get_schema_ok split: option.splits)
next
  case (rr_merge st changed st')
  have "sm_ok (rs_downloads (snd (changed, st')))"
    by (rule fold_result_invariant [where P = "\<lambda>s. sm_ok (rs_downloads (snd s))",
          OF rr_merge.hyps(2) [unfolded merge_downloaded_schemas_def]])
      (use rr_merge in \<open>auto simp: merge_one_def mm_erase_def sm_simps split: option.splits sum.splits\<close>)
  then show ?case by simp
qed (simp_all add: resolver_new_def init_schema_download_def)

lemma reachable_resolver_inv: "resolver_reachable c0 served st \<Longrightarrow> resolver_inv c0 served st"
proof (induction rule: resolver_reachable.induct)
  case rr_start
  then show ?case by (simp add: resolver_inv_def resolver_new_def schema_known_def)
next
  case (rr_enable st p np)
  then show ?case by (simp add: resolver_inv_def init_schema_download_def)
next
  case (rr_resolve st launch now later allowed r)
  then show ?case
    by (cases "resolveEntity launch now later allowed r st") (auto dest: resolveEntity_inv)
next
  case (rr_merge st changed st')
  have "resolver_inv c0 served (snd (changed, st'))"
  proof (rule fold_result_invariant [where P = "\<lambda>s. resolver_inv c0 served (snd s)",
        OF rr_merge.hyps(2) [unfolded merge_downloaded_schemas_def]])
    fix p s t assume p: "p \<in> set (rs_downloads st)" and s: "resolver_inv c0 served (snd s)" "merge_one p s = Inr t"
    from p have "map_of (rs_downloads st) (fst p) = Some (snd p)"
      using map_of_in [OF resolver_downloads_ok [OF rr_merge.hyps(1)], of "fst p" "snd p"] by simp
    then have "\<forall>x. dl_task (snd p) = Some (Inr x) \<longrightarrow> served (fst p) x"
      using rr_merge.IH by (auto simp: resolver_inv_def)
    with s show "resolver_inv c0 served (snd t)" by (blast intro: merge_one_inv)
  qed (use rr_merge.IH in simp)
  then show ?case by simp
qed

lemma get_schema_without_download:
  "get_schema launch now later False uri st = (Inr (map_of (rs_cache st) uri), st)"
  by (simp add: get_schema_def begin_get_schema_def split: option.splits)

text \<open>
  C20.  While the document of a client is parsed no schema is downloaded: outside a download scope
  resolving an entity does not depend on the network and the clock, changes nothing, and yields only
  schemas, never an external entity, that were preloaded or downloaded earlier for that very URI in a
  download scope of the plugin.
\<close>

theorem client_schemas:
  assumes "resolver_reachable c0 served st"
  shows "resolveEntity launch now later False r st = resolveEntity launch' now' later' False r st \<and>
    snd (resolveEntity launch now later False r st) = st \<and>
    (\<forall>u s. fst (resolveEntity launch now later False r st) = Inr (Some (u, s)) \<longrightarrow>
      rid_type r \<in> {SchemaGrammar, SchemaImport, SchemaInclude, SchemaRedefine} \<and>
      remote_uri (rid_system_id r) (rid_base_uri r) = Some u \<and> (map_of c0 u = Some s \<or> served u s)) \<and>
    (\<forall>what. fst (resolveEntity launch now later False r st) \<noteq> Inl (Undefined what))"
proof (intro conjI allI impI)
  show "resolveEntity launch now later False r st = resolveEntity launch' now' later' False r st"
    by (simp add: resolveEntity_def get_schema_without_download split: option.splits)
  show "snd (resolveEntity launch now later False r st) = st"
    by (simp add: snd_resolveEntity get_schema_without_download split: option.splits)
  show "fst (resolveEntity launch now later False r st) \<noteq> Inl (Undefined what)" for what
    by (simp add: resolveEntity_def get_schema_without_download split: option.splits)
next
  fix u s assume res: "fst (resolveEntity launch now later False r st) = Inr (Some (u, s))"
  note facts = res reachable_resolver_inv [OF assms]
  show "rid_type r \<in> {SchemaGrammar, SchemaImport, SchemaInclude, SchemaRedefine}"
    and "remote_uri (rid_system_id r) (rid_base_uri r) = Some u" and "map_of c0 u = Some s \<or> served u s"
    using facts
    by (auto simp: resolveEntity_def get_schema_without_download resolver_inv_def schema_known_def
        split: option.splits if_splits)
qed

definition demo_schemas :: "(string \<times> string) list" where
  "demo_schemas = [(''http://h/s/b.xsd'', ''<xs/>'')]"

definition demo_import :: resource_identifier where
  "demo_import = \<lparr>rid_type = SchemaImport, rid_system_id = ''b.xsd'', rid_base_uri = ''http://h/s/a.xsd''\<rparr>"

lemma client_schemas_witness:
  "fst (resolveEntity (\<lambda>_. None) 0 0 False demo_import (resolver_new demo_schemas)) = Inr (Some (''http://h/s/b.xsd'', ''<xs/>'')) \<and>
   remote_uri (rid_system_id demo_import) (rid_base_uri demo_import) = Some ''http://h/s/b.xsd''"
proof -
  have *: "fst (resolveEntity (\<lambda>_. None) 0 0 False demo_import (resolver_new demo_schemas)) =
      Inr (Some (''http://h/s/b.xsd'', ''<xs/>''))"
    by (simp add: demo_import_def demo_schemas_def resolver_new_def resolveEntity_def get_schema_without_download
        remote_uri_def is_url_def)
  with client_schemas [OF rr_start] show ?thesis by blast
qed

text \<open>
  If no thread can be started for the first download of a URI, its entry stays without a task and
  without a failure: every later request for it calls \<open>get()\<close> on a future without state.
\<close>

lemma launch_failure_persists:
  assumes "map_of (rs_cache st) uri = None" "map_of (rs_downloads st) uri = None" "rs_enabled st" "launch uri = None"
    and "get_schema launch now later True uri st = (r, st')"
  shows "fst (get_schema launch' now' later' True uri st') = Inl (Undefined ''get() of a shared_future without state'')"
  using assms
  by (auto simp: get_schema_def begin_get_schema_def end_get_schema_def select_download_def sm_simps)

text \<open>A URI that has failed a hundred times is not tried again.\<close>

lemma no_more_downloads:
  assumes "map_of (rs_downloads st) uri = Some d" "dl_failed d \<ge> 100" "map_of (rs_cache st) uri = None"
  shows "begin_get_schema launch now allowed uri st = begin_get_schema launch' now' allowed uri st"
  using assms by (simp add: begin_get_schema_def select_download_def)

end
