(* ===== verification/Convenience.thy ===== *)
theory Convenience
  imports Prelude
begin

text \<open>
  \<open>libwfs/WfsConvenience.cpp\<close> and \<open>.h\<close>: helpers of the requests and handlers, and the decimal form of
  integers (\<open>std::to_string\<close>, \<open>Fmi::to_string\<close>) in which several components print numbers.  The
  arithmetic of \<open>double\<close> is an argument.
\<close>

section \<open>Decimal numbers\<close>

definition digit_char :: "nat \<Rightarrow> char" where
  "digit_char n = char_of (48 + n)"

function dec_nat :: "nat \<Rightarrow> string" where
  "dec_nat n = (if n < 10 then [digit_char n] else dec_nat (n div 10) @ [digit_char (n mod 10)])"
  by pat_completeness auto
termination by (relation "measure id") auto

declare dec_nat.simps [simp del]

definition dec_int :: "int \<Rightarrow> string" where
  "dec_int i = (if i < 0 then CHR ''-'' # dec_nat (nat (- i)) else dec_nat (nat i))"

definition char_digit :: "char \<Rightarrow> nat" where
  "char_digit c = of_char c - 48"

definition nat_of_dec :: "string \<Rightarrow> nat" where
  "nat_of_dec s = foldl (\<lambda>n c. 10 * n + char_digit c) 0 s"

lemma of_digit_char: "n < 10 \<Longrightarrow> (of_char (digit_char n) :: nat) = 48 + n"
  by (simp add: digit_char_def)

lemma isdigit_digit_char: "n < 10 \<Longrightarrow> isdigit (digit_char n)"
  by (simp add: isdigit_def of_digit_char)

lemma char_digit_char: "n < 10 \<Longrightarrow> char_digit (digit_char n) = n"
  by (simp add: char_digit_def of_digit_char)

lemma dec_nat_digits: "list_all isdigit (dec_nat n)"
  by (induction n rule: dec_nat.induct) (subst dec_nat.simps, auto simp: isdigit_digit_char)

lemma dec_nat_nonempty [simp]: "dec_nat n \<noteq> []"
  by (subst dec_nat.simps) simp

lemma nat_of_dec_nat [simp]: "nat_of_dec (dec_nat n) = n"
proof (induction n rule: dec_nat.induct)
  case (1 n)
  then show ?case
    by (subst dec_nat.simps) (auto simp: nat_of_dec_def char_digit_char)
qed

lemma dec_nat_inj: "dec_nat m = dec_nat n \<longleftrightarrow> m = n"
  by (metis nat_of_dec_nat)

lemma dec_nat_no_sign: "dec_nat n \<noteq> CHR ''-'' # s"
proof
  assume "dec_nat n = CHR ''-'' # s"
  with dec_nat_digits [of n] show False by (simp add: isdigit_def)
qed

lemma dec_int_inj: "dec_int i = dec_int j \<longleftrightarrow> i = j"
  using dec_nat_no_sign by (auto simp: dec_int_def dec_nat_inj dest: sym)

section \<open>The functions\<close>

definition escape_char :: "char \<Rightarrow> string" where
  "escape_char c =
     (if c = CHR ''<'' then ''&lt;'' else if c = CHR ''>'' then ''&gt;'' else if c = CHR ''&'' then ''&amp;''
      else if c = CHR 0x27 then ''&apos;'' else if c = CHR 0x22 then ''&quot;'' else [c])"

definition xml_escape :: "string \<Rightarrow> string" where
  "xml_escape src = concat (map escape_char src)"

definition get_mandatory_header :: "(string \<Rightarrow> string option) \<Rightarrow> string \<Rightarrow> string result" where
  "get_mandatory_header get_header name = (case get_header name of
       None \<Rightarrow> Inl (Thrown ParsingFailed ''Missing the mandatory HTTP request header'')
     | Some v \<Rightarrow> Inr v)"

text \<open>
  Times and durations are seconds; \<open>whole h\<close> and \<open>rest_seconds h\<close> are the integers that
  \<open>std::floor(h)\<close> and \<open>std::floor(3600.0 * (h - whole h))\<close> give for the \<open>double\<close> value \<open>h\<close>.
\<close>

definition check_time_interval :: "('d \<Rightarrow> int) \<Rightarrow> ('d \<Rightarrow> int) \<Rightarrow> int \<Rightarrow> int \<Rightarrow> 'd \<Rightarrow> unit result" where
  "check_time_interval whole rest_seconds start_time end_time max_hours =
     (if start_time > end_time then Inl (Thrown ParsingFailed ''Invalid time interval'')
      else if end_time - start_time > 3600 * whole max_hours + rest_seconds max_hours
      then Inl (Thrown ProcessingFailed ''Too long time interval requested'')
      else Inr ())"

text \<open>\<open>cast_int_type<int>\<close> of a 64 bit integer.\<close>

definition cast_to_int :: "64 word \<Rightarrow> 32 word result" where
  "cast_to_int value =
     (if sint value < - (2 ^ 31) \<or> sint value > 2 ^ 31 - 1 then Inl (Thrown NoCode ''Value is out of range'')
      else Inr (scast value))"

text \<open>
  \<open>remove_trailing_0\<close>: the scan from the end, on the reversed text.  Reading before the first
  character is undefined.
\<close>

fun strip_zeros :: "string \<Rightarrow> string result" where
  "strip_zeros [] = Inl (Undefined ''read before the string'')"
| "strip_zeros [c] = (if c = CHR ''0'' then Inl (Undefined ''read before the string'') else Inr [c])"
| "strip_zeros (c # d # cs) = (if c = CHR ''0'' \<and> isdigit d then strip_zeros (d # cs) else Inr (c # d # cs))"

definition remove_trailing_0 :: "string \<Rightarrow> string result" where
  "remove_trailing_0 src =
     (let tmp = trim_copy src
      in if list_all (\<lambda>c. c \<in> set ''+-.0123456789'') tmp \<and> CHR ''.'' \<in> set tmp
         then rbind (strip_zeros (rev tmp)) (\<lambda>r. Inr (rev r))
         else Inr src)"

section \<open>What they do\<close>

text \<open>The escaped text can stand between tags and in attributes, and its entities give back the text.\<close>

lemma xml_escape_safe:
  "CHR ''<'' \<notin> set (xml_escape s)" "CHR ''>'' \<notin> set (xml_escape s)"
  "CHR 0x22 \<notin> set (xml_escape s)" "CHR 0x27 \<notin> set (xml_escape s)"
  by (induction s) (auto simp: xml_escape_def escape_char_def)

definition entities :: "(string \<times> char) list" where
  "entities = [(''&lt;'', CHR ''<''), (''&gt;'', CHR ''>''), (''&amp;'', CHR ''&''), (''&apos;'', CHR 0x27),
     (''&quot;'', CHR 0x22)]"

function xml_unescape :: "string \<Rightarrow> string" where
  "xml_unescape [] = []"
| "xml_unescape (c # cs) = (case find (\<lambda>(e, _). take (length e) (c # cs) = e) entities of
       Some (e, x) \<Rightarrow> x # xml_unescape (drop (length e - 1) cs)
     | None \<Rightarrow> c # xml_unescape cs)"
  by pat_completeness auto
termination by (relation "measure length") auto

lemma xml_unescape_step: "xml_unescape (escape_char c @ s) = c # xml_unescape s"
  by (auto simp: escape_char_def entities_def)

lemma xml_unescape_escape: "xml_unescape (xml_escape s) = s"
  by (induction s) (simp_all add: xml_escape_def xml_unescape_step)

lemma strip_zeros_dot:
  "CHR ''.'' \<in> set s \<Longrightarrow> \<exists>n r. strip_zeros s = Inr r \<and> s = replicate n (CHR ''0'') @ r \<and> CHR ''.'' \<in> set r \<and>
     (\<forall>c d cs. r = c # d # cs \<longrightarrow> \<not> (c = CHR ''0'' \<and> isdigit d)) \<and> (n > 0 \<longrightarrow> isdigit (hd r))"
proof (induction s rule: strip_zeros.induct)
  case (3 c d cs)
  show ?case
  proof (cases "c = CHR ''0'' \<and> isdigit d")
    case True
    with 3 have "CHR ''.'' \<in> set (d # cs)" by auto
    with 3(1) [OF True] obtain n r where r: "strip_zeros (d # cs) = Inr r" "d # cs = replicate n (CHR ''0'') @ r"
      "CHR ''.'' \<in> set r" "\<forall>c d cs. r = c # d # cs \<longrightarrow> \<not> (c = CHR ''0'' \<and> isdigit d)" "n > 0 \<longrightarrow> isdigit (hd r)"
      by blast
    have "isdigit (hd r)" using r(2,5) True by (cases n) (auto simp: Cons_eq_append_conv)
    moreover have "strip_zeros (c # d # cs) = strip_zeros (d # cs)" using True by simp
    then have "strip_zeros (c # d # cs) = Inr r" using r(1) by (rule trans)
    moreover have "c # d # cs = replicate (Suc n) (CHR ''0'') @ r" using r(2) True by simp
    ultimately show ?thesis using r(3,4) by blast
  next
    case False
    with 3(2) show ?thesis by (intro exI [of _ 0] exI [of _ "c # d # cs"]) auto
  qed
qed (auto intro: exI [of _ 0])

text \<open>
  A decimal number with a point keeps its value: only zeros at the end of the fraction are removed,
  all but one of them if there is nothing else, and the scan stays inside of the text.
\<close>

lemma remove_trailing_0_decimal:
  assumes "CHR ''.'' \<in> set (trim_copy src)" "list_all (\<lambda>c. c \<in> set ''+-.0123456789'') (trim_copy src)"
  shows "\<exists>n r. remove_trailing_0 src = Inr r \<and> trim_copy src = r @ replicate n (CHR ''0'') \<and> CHR ''.'' \<in> set r \<and>
    (n > 0 \<longrightarrow> isdigit (last r))"
proof -
  have "CHR ''.'' \<in> set (rev (trim_copy src))" using assms by simp
  then obtain n r where r: "strip_zeros (rev (trim_copy src)) = Inr r" "rev (trim_copy src) = replicate n (CHR ''0'') @ r"
    "CHR ''.'' \<in> set r" "n > 0 \<longrightarrow> isdigit (hd r)"
    using strip_zeros_dot by blast
  from r(2) have "trim_copy src = rev r @ replicate n (CHR ''0'')"
    by (metis rev_append rev_replicate rev_rev_ident)
  with r assms show ?thesis
    by (intro exI [of _ n] exI [of _ "rev r"]) (auto simp: remove_trailing_0_def Let_def last_rev)
qed

lemma remove_trailing_0_defined: "remove_trailing_0 src \<noteq> Inl e"
  using remove_trailing_0_decimal [of src] by (auto simp: remove_trailing_0_def Let_def)

end
