(* ===== verification/Frontend.thy ===== *)
theory Frontend
  imports Requests XmlParsing Convenience
begin

text \<open>
  \<open>libwfs/PluginImpl.cpp\<close>: from an HTTP request to the HTTP response, with the error responses of
  \<open>ErrorResponseGenerator.cpp\<close>.  A request object is given by its virtual functions, at the state of
  the caches and engines in which it runs.  The XML library, the API keys of the spine library, the
  template of error reports and the HTTP format of times are arguments; times are seconds.  The log
  output is left out, and so is the check of the output in builds with \<open>WFS_DEBUG\<close>.
\<close>

section \<open>Requests, responses and the environment\<close>

datatype http_method = GET | POST | Other_method string

record http_request =
  hr_method :: http_method
  hr_header :: "string \<Rightarrow> string option"
  hr_parameter :: "string \<Rightarrow> string option"
  hr_protocol :: "string option"
  hr_content :: string
  hr_uri :: string

datatype http_status = Not_a_status | Status_ok | Bad_request | Internal_server_error

record http_response =
  rp_status :: http_status
  rp_content :: string
  rp_headers :: "(string \<times> string) list"

definition set_header :: "string \<Rightarrow> string \<Rightarrow> http_response \<Rightarrow> http_response" where
  "set_header name val resp = resp\<lparr>rp_headers := sm_put name val (rp_headers resp)\<rparr>"

record request_object =
  rq_language :: string
  rq_may_validate :: bool
  rq_execute :: "request_info \<Rightarrow> (string \<times> http_status) result"
  rq_expires :: int

record request_result =
  rr_status :: http_status
  rr_may_validate :: bool
  rr_output :: string
  rr_expires :: "int option"

record 'xml plugin_env =
  pe_lc :: "string \<Rightarrow> string"
  pe_factory :: "(http_request, 'xml, request_object) factory"
  pe_xerces :: "string \<Rightarrow> 'xml xml_run"
  pe_xerces_download :: "string \<Rightarrow> 'xml xml_run"
  pe_root_of :: "'xml \<Rightarrow> xml_root"
  pe_fallback_hostname :: string
  pe_fallback_protocol :: string
  pe_languages :: "string list"
  pe_default_expires :: int
  pe_validate_output :: bool
  pe_fail_on_validate :: bool
  pe_fmi_apikey :: "http_request \<Rightarrow> string option"
  pe_should_return_apikey :: "http_request \<Rightarrow> bool"
  pe_http_time :: "int \<Rightarrow> string"

section \<open>Execution\<close>

text \<open>\<open>std::strchr\<close> also finds the zero byte that ends \<open>extra\<close>.\<close>

definition is_valid :: "string \<Rightarrow> string \<Rightarrow> bool" where
  "is_valid s extra \<longleftrightarrow> s \<noteq> [] \<and> list_all (\<lambda>c. isalnum c \<or> c \<in> set extra \<or> c = CHR 0x00) s"

definition output_info ::
    "'xml plugin_env \<Rightarrow> request_object \<Rightarrow> http_request \<Rightarrow> string \<Rightarrow> string \<Rightarrow> string option \<Rightarrow> request_info" where
  "output_info E rq req hostname protocol fmi_apikey =
     (let key = (case fmi_apikey of
          Some k \<Rightarrow> if is_valid k ''-_'' \<and> pe_should_return_apikey E req then Some k else None
        | None \<Rightarrow> None)
      in \<lparr>ri_language = rq_language rq, ri_apikey = key,
        ri_apikey_prefix = (if key = None then None else Some ''/fmi-apikey/''),
        ri_hostname = Some (if is_valid hostname ''.-:[]'' then hostname else pe_fallback_hostname E),
        ri_protocol = Some (if protocol = ''http'' \<or> protocol = ''https'' then protocol else pe_fallback_protocol E)\<rparr>)"

definition execute_request ::
    "'xml plugin_env \<Rightarrow> request_object \<Rightarrow> http_request \<Rightarrow> string \<Rightarrow> string \<Rightarrow> string option \<Rightarrow> request_result result" where
  "execute_request E rq req hostname protocol fmi_apikey =
     rbind (rq_execute rq (output_info E rq req hostname protocol fmi_apikey)) (\<lambda>(output, status).
     Inr \<lparr>rr_status = status, rr_may_validate = rq_may_validate rq, rr_output = output,
       rr_expires = Some (rq_expires rq)\<rparr>)"

section \<open>XML requests\<close>

definition throw_xml_request_error ::
    "('kvp, 'xml, 'r) factory \<Rightarrow> error_level \<Rightarrow> root_elem_info \<Rightarrow> error" where
  "throw_xml_request_error f level root_info =
     (if level \<noteq> LEVEL_FATAL \<and> rei_nqname root_info \<noteq> [] \<and> rei_ns_uri root_info = WFS_NAMESPACE_URI \<and>
         known_request_name f (rei_nqname root_info)
      then (case map_of (rei_attrs root_info) ''service'' of
          None \<Rightarrow> Thrown MissingParameterValue ''Missing the service attribute''
        | Some service \<Rightarrow>
            if service \<noteq> ''WFS'' then Thrown InvalidParameterValue ''Incorrect value for the service attribute''
            else (case map_of (rei_attrs root_info) ''version'' of
                None \<Rightarrow> Thrown MissingParameterValue ''Missing the version attribute''
              | Some version \<Rightarrow>
                  if version \<noteq> ''2.0.0'' then Thrown InvalidParameterValue ''Incorrect value for the version attribute''
                  else Thrown ParsingFailed ''Parsing of the incoming XML request failed''))
      else Thrown ParsingFailed ''Parsing of the incoming XML request failed'')"

text \<open>What an exception is to the code that does not catch \<open>XmlError\<close>.\<close>

definition exn_error :: "exn \<Rightarrow> error" where
  "exn_error e = (case trace e of Fmi_exception x \<Rightarrow> x | _ \<Rightarrow> Thrown NoCode [])"

definition parse_xml_request :: "'xml plugin_env \<Rightarrow> string \<Rightarrow> 'xml result" where
  "parse_xml_request E content =
     (if content = [] then Inl (Thrown ParsingFailed ''No request content available'')
      else (case parse_string (pe_xerces E) False content of
          (Inr doc, _) \<Rightarrow> Inr doc
        | (Inl (Xml_error level _), root_info) \<Rightarrow> Inl (throw_xml_request_error (pe_factory E) level root_info)
        | (Inl e, _) \<Rightarrow> Inl (exn_error e)))"

definition query_post ::
    "'xml plugin_env \<Rightarrow> string \<Rightarrow> http_request \<Rightarrow> string \<Rightarrow> string \<Rightarrow> request_result result" where
  "query_post E language req hostname protocol =
     rbind (get_mandatory_header (hr_header req) ''Content-Type'') (\<lambda>content_type.
     let fmi_apikey = pe_fmi_apikey E req in
     if content_type = ''application/x-www-form-urlencoded''
     then rbind (parse_kvp (pe_lc E) hr_parameter (pe_factory E) language req) (\<lambda>request.
       execute_request E request req hostname protocol fmi_apikey)
     else if content_type = ''text/xml''
     then rbind (parse_xml_request E (hr_content req)) (\<lambda>xml_doc.
       rbind (parse_xml (pe_lc E) (pe_root_of E) (pe_factory E) language xml_doc) (\<lambda>request.
       execute_request E request req hostname protocol fmi_apikey))
     else Inl (Thrown ParsingFailed ''Unsupported content type''))"

definition request_hostname :: "'xml plugin_env \<Rightarrow> http_request \<Rightarrow> string" where
  "request_hostname E req = (case hr_header req ''X-Forwarded-Host'' of
       Some h \<Rightarrow> h
     | None \<Rightarrow> (case hr_header req ''Host'' of Some h \<Rightarrow> h | None \<Rightarrow> pe_fallback_hostname E))"

definition request_language :: "'xml plugin_env \<Rightarrow> string \<Rightarrow> string result" where
  "request_language E req_language =
     (if req_language \<noteq> [] then Inr req_language
      else (case pe_languages E of [] \<Rightarrow> Inl (Undefined ''begin() of no languages'') | l # _ \<Rightarrow> Inr l))"

definition plugin_query :: "'xml plugin_env \<Rightarrow> string \<Rightarrow> http_request \<Rightarrow> request_result result" where
  "plugin_query E req_language req =
     (let hostname = request_hostname E req;
          protocol = opt_or (pe_fallback_protocol E) (hr_protocol req)
      in rbind (request_language E req_language) (\<lambda>language. case hr_method req of
           GET \<Rightarrow> rbind (parse_kvp (pe_lc E) hr_parameter (pe_factory E) language req) (\<lambda>request.
             execute_request E request req hostname protocol (pe_fmi_apikey E req))
         | POST \<Rightarrow> query_post E language req hostname protocol
         | Other_method _ \<Rightarrow> Inl (Thrown ParsingFailed ''HTTP method is not supported'')))"

section \<open>Error responses\<close>

text \<open>
  \<open>ErrorResponseGenerator.cpp\<close>.  Of an \<open>Fmi::Exception\<close> the model keeps the WFS exception code; its
  language, location and texts are given by \<open>exception_info\<close>.
\<close>

record exception_info =
  xi_language :: "string option"
  xi_location :: "string option"
  xi_texts :: "string list"

record error_hash =
  er_language :: "string option"
  er_code :: string
  er_location :: "string option"
  er_texts :: "string list"

definition exception_code :: "err_code \<Rightarrow> string" where
  "exception_code c = (case c of
       NoCode \<Rightarrow> ''InvalidExceptionCode''
     | ParsingFailed \<Rightarrow> ''OperationParsingFailed''
     | ProcessingFailed \<Rightarrow> ''OperationProcessingFailed''
     | NotSupported \<Rightarrow> ''OperationNotSupported''
     | InvalidParameterValue \<Rightarrow> ''InvalidParameterValue''
     | MissingParameterValue \<Rightarrow> ''MissingParameterValue'')"

definition handle_wfs_exception :: "err_code \<Rightarrow> exception_info \<Rightarrow> error_hash" where
  "handle_wfs_exception code x =
     \<lparr>er_language = xi_language x, er_code = exception_code code, er_location = xi_location x, er_texts = xi_texts x\<rparr>"

datatype processing_phase = REQ_PARSING | REQ_PROCESSING

definition get_wfs_err_code :: "processing_phase \<Rightarrow> string" where
  "get_wfs_err_code phase = (case phase of
       REQ_PARSING \<Rightarrow> ''OperationParsingFailed''
     | REQ_PROCESSING \<Rightarrow> ''OperationProcessingFailed'')"

definition handle_other_exception :: "processing_phase \<Rightarrow> string \<Rightarrow> error_hash" where
  "handle_other_exception phase msg =
     \<lparr>er_language = None, er_code = get_wfs_err_code phase, er_location = None, er_texts = [msg]\<rparr>"

definition add_texts :: "string list \<Rightarrow> error_hash \<Rightarrow> error_hash" where
  "add_texts ts h = h\<lparr>er_texts := er_texts h @ ts\<rparr>"

definition http_request_texts :: "http_request \<Rightarrow> string list" where
  "http_request_texts req = (case hr_method req of
       POST \<Rightarrow> [''URI: '' @ hr_uri req]
         @ (case hr_header req ''Content-Type'' of Some t \<Rightarrow> [''Content-Type: '' @ t] | None \<Rightarrow> [])
         @ (if hr_content req \<noteq> [] then [''Content: '' @ hr_content req @ '')''] else [])
     | GET \<Rightarrow> [''URI: '' @ hr_uri req]
     | Other_method _ \<Rightarrow> [])"

text \<open>A failed query of several is reported with its id, its parameters and the filter of an ad hoc query.\<close>

record query_info =
  qi_id :: string
  qi_params :: string
  qi_filter :: "string option"

definition stored_query_texts :: "query_info \<Rightarrow> string list" where
  "stored_query_texts q =
     [''ID: '' @ qi_id q, ''Parameters: '' @ qi_params q] @
     (case qi_filter q of Some f \<Rightarrow> [''Filter-expression: '' @ f] | None \<Rightarrow> [])"

datatype query_source = From_http http_request | From_query query_info

definition add_query_info :: "query_source \<Rightarrow> error_hash \<Rightarrow> error_hash" where
  "add_query_info src h = (case src of
       From_http req \<Rightarrow> add_texts (http_request_texts req) h
     | From_query q \<Rightarrow> add_texts (stored_query_texts q) h)"

text \<open>
  What the \<open>catch\<close> blocks tell apart; the text of a \<open>std::exception\<close> is given with its time and type.
  The text on an unknown exception goes to \<open>std::cerr\<close>, not to the report.
\<close>

datatype caught = Caught_fmi err_code exception_info | Caught_std string | Caught_unknown

record error_response =
  es_status :: http_status
  es_response :: string
  es_code :: string

text \<open>The formatter of the exception template fails with \<open>None\<close>.\<close>

definition format_message :: "(error_hash \<Rightarrow> string option) \<Rightarrow> error_hash \<Rightarrow> string" where
  "format_message formatter h = opt_or ''INTERNAL ERROR'' (formatter h)"

definition create_error_response ::
    "(error_hash \<Rightarrow> string option) \<Rightarrow> processing_phase \<Rightarrow> caught \<Rightarrow> query_source \<Rightarrow> error_response" where
  "create_error_response formatter phase e src =
     (let respond = (\<lambda>status h0. let h = add_query_info src h0
          in \<lparr>es_status = status, es_response = format_message formatter h, es_code = er_code h\<rparr>)
      in case e of
           Caught_fmi code x \<Rightarrow> respond Bad_request (handle_wfs_exception code x)
         | Caught_std msg \<Rightarrow> respond Bad_request (handle_other_exception phase msg)
         | Caught_unknown \<Rightarrow> respond Internal_server_error (handle_other_exception phase []))"

section \<open>The request handler\<close>

text \<open>
  \<open>maybe_validate_output\<close>: the exception with which it ends, if any.  Documents are parsed in a
  download scope.
\<close>

definition maybe_validate_output :: "'xml plugin_env \<Rightarrow> string \<Rightarrow> error option" where
  "maybe_validate_output E content =
     (if \<not> pe_validate_output E then None
      else (case dropWhile (\<lambda>c. c \<in> {CHR '' '', CHR 0x09, CHR 0x0D, CHR 0x0A}) content of
          [] \<Rightarrow> None
        | c # rest \<Rightarrow>
            if ascii_lower (take 6 (c # rest)) = ''<html>'' \<or> c \<noteq> CHR ''<'' then None
            else (case fst (parse_string (pe_xerces_download E) False content) of
                Inr _ \<Rightarrow> None
              | Inl (Xml_error _ _) \<Rightarrow> None
              | Inl e \<Rightarrow> Some (exn_error e))))"

text \<open>
  The first part of \<open>realRequestHandler\<close> up to its inner \<open>catch\<close>: the response as it is then, and the
  exception, if there is one.
\<close>

definition validated :: "'xml plugin_env \<Rightarrow> bool \<Rightarrow> http_response \<Rightarrow> http_response \<times> error option" where
  "validated E may_validate resp =
     (if may_validate
      then (case maybe_validate_output E (rp_content resp) of
          None \<Rightarrow> (resp, None)
        | Some _ \<Rightarrow>
            (resp, if pe_fail_on_validate E then Some (Thrown ProcessingFailed ''Response XML validation failed'') else None))
      else (resp, None))"

definition cache_headers :: "'xml plugin_env \<Rightarrow> int \<Rightarrow> int \<Rightarrow> http_response \<Rightarrow> http_response" where
  "cache_headers E now expires_seconds resp =
     set_header ''Access-Control-Allow-Origin'' ''*''
      (set_header ''Last-Modified'' (pe_http_time E now)
        (set_header ''Expires'' (pe_http_time E (now + expires_seconds))
          (set_header ''Cache-Control'' (''public, max-age='' @ dec_int expires_seconds) resp)))"

definition respond_to_query ::
    "'xml plugin_env \<Rightarrow> int \<Rightarrow> string \<Rightarrow> http_request \<Rightarrow> http_response \<Rightarrow> http_response \<times> error option" where
  "respond_to_query E now language req resp = (case plugin_query E language req of
       Inl e \<Rightarrow> (resp, Some e)
     | Inr result \<Rightarrow>
         let content = rr_output result;
             status = (if rr_status result \<noteq> Not_a_status then rr_status result else Status_ok);
             expires_seconds = opt_or (pe_default_expires E) (rr_expires result);
             mime = (if take 6 content = ''<html>'' then ''text/html; charset=UTF-8'' else ''text/xml; charset=UTF-8'');
             resp = set_header ''Content-Type'' mime (resp\<lparr>rp_content := content, rp_status := status\<rparr>)
         in if content = [] then (resp, Some (Thrown ProcessingFailed ''Empty input for request''))
            else validated E (rr_may_validate result)
              (if status = Status_ok then cache_headers E now expires_seconds resp else resp))"

definition respond_error ::
    "(error_hash \<Rightarrow> string option) \<Rightarrow> (error \<Rightarrow> exception_info) \<Rightarrow> http_request \<Rightarrow> err_code \<Rightarrow> string \<Rightarrow>
     http_response \<Rightarrow> http_response" where
  "respond_error formatter info req code msg resp =
     (let er = create_error_response formatter REQ_PROCESSING (Caught_fmi code (info (Thrown code msg))) (From_http req)
      in set_header ''X-WFS-Error'' (es_code er)
          (set_header ''Access-Control-Allow-Origin'' ''*''
            (set_header ''Content-Type'' ''text/xml; charset=UTF8''
              (resp\<lparr>rp_content := es_response er, rp_status := es_status er\<rparr>))))"

definition realRequestHandler ::
    "'xml plugin_env \<Rightarrow> (error_hash \<Rightarrow> string option) \<Rightarrow> (error \<Rightarrow> exception_info) \<Rightarrow> int \<Rightarrow> string \<Rightarrow> http_request \<Rightarrow>
     http_response \<Rightarrow> http_response result" where
  "realRequestHandler E formatter info now language req resp =
     (case respond_to_query E now language req resp of
        (resp, None) \<Rightarrow> Inr resp
      | (resp, Some (Undefined what)) \<Rightarrow> Inl (Undefined what)
      | (resp, Some (Thrown code msg)) \<Rightarrow>
          let resp = respond_error formatter info req code msg resp
          in (case maybe_validate_output E (rp_content resp) of
               None \<Rightarrow> Inr resp
             | Some e \<Rightarrow> Inl e))"

section \<open>Values from the request in the output\<close>

definition safe_output_char :: "char \<Rightarrow> bool" where
  "safe_output_char c \<longleftrightarrow> isalnum c \<or> c \<in> set ''.-:[]_/'' \<or> c = CHR 0x00"

lemma is_valid_safe: "is_valid s extra \<Longrightarrow> set extra \<subseteq> set ''.-:[]_/'' \<Longrightarrow> list_all safe_output_char s"
  unfolding is_valid_def safe_output_char_def list_all_iff by blast

lemma markup_not_safe:
  "safe_output_char c \<Longrightarrow> c \<notin> {CHR ''<'', CHR ''>'', CHR ''&'', CHR 0x22, CHR 0x27, CHR ''@'', CHR '' ''}"
proof -
  have "list_all (\<lambda>c. \<not> safe_output_char c) [CHR ''<'', CHR ''>'', CHR ''&'', CHR 0x22, CHR 0x27, CHR ''@'', CHR '' '']"
    by code_simp
  then show "safe_output_char c \<Longrightarrow> ?thesis"
    unfolding list.pred_inject insert_iff empty_iff by blast
qed

lemma output_info_safe:
  assumes "list_all safe_output_char (pe_fallback_hostname E)" "list_all safe_output_char (pe_fallback_protocol E)"
    and "(k, v) \<in> set (subst_list (output_info E rq req hostname protocol key))"
  shows "list_all safe_output_char v"
proof -
  have plain: "list_all safe_output_char ''://''" "list_all safe_output_char ''/fmi-apikey/''"
    "list_all safe_output_char ''http''" "list_all safe_output_char ''https''"
    by code_simp+
  from assms plain show ?thesis
    by (auto simp: subst_list_def output_info_def opt_or_def Let_def is_valid_safe split: option.splits if_splits)
qed

lemma executed_by_request:
  assumes "plugin_query E language req = Inr rr"
  obtains rq hostname protocol key where
    "execute_request E rq req hostname protocol key = Inr rr"
  using assms
  by (cases "hr_method req") (auto simp: plugin_query_def query_post_def Let_def result_simps split: if_splits)

lemma subst_twice:
  assumes ps: "list_all stext_ok ps"
    and vals: "\<And>k v. (k, v) \<in> set (subst_list r) \<Longrightarrow> CHR ''@'' \<notin> set v \<and> CHR 0x00 \<notin> set v"
  shows "substitute_all r (substitute_all r (concat (map stext_source ps))) = substitute_all r (concat (map stext_source ps))"
proof -
  have "CHR ''@'' \<notin> set (stext_value r p) \<and> CHR 0x00 \<notin> set (stext_value r p)" if p: "stext_ok p" for p
  proof (cases p)
    case (SHolder i)
    with p have "subst_list r ! i \<in> set (subst_list r)" by (intro nth_mem) (simp add: subst_list_def)
    with vals [of "fst (subst_list r ! i)" "snd (subst_list r ! i)"] SHolder show ?thesis by simp
  qed (use p in simp)
  with ps have "CHR ''@'' \<notin> set (concat (map (stext_value r) ps))" "CHR 0x00 \<notin> set (concat (map (stext_value r) ps))"
    by (auto simp: list_all_iff)
  with ps show ?thesis by (simp add: substitute_pieces substitute_plain)
qed


definition echo_request :: request_object where
  "echo_request = \<lparr>rq_language = ''fi'', rq_may_validate = True,
     rq_execute = (\<lambda>info. Inr (opt_or [] (ri_hostname info), Not_a_status)), rq_expires = 60\<rparr>"

definition demo_env :: "unit plugin_env" where
  "demo_env = \<lparr>pe_lc = ascii_lower,
     pe_factory = \<lparr>rf_names = [''GetFeature''],
       rf_types = [(''getfeature'', \<lparr>kvp_parser = Some (\<lambda>_ _. Inr echo_request), xml_parser = None\<rparr>)],
       rf_unimplemented = [], rf_operations = []\<rparr>,
     pe_xerces = (\<lambda>_. \<lparr>xr_calls = [Root_element \<lparr>re_prefix = [], re_name = ''GetFeature'',
         re_attrs = [(''xmlns'', WFS_NAMESPACE_URI)]\<rparr>, To_handler (Error ''attribute service is required'')],
       xr_failure = None, xr_document = ()\<rparr>),
     pe_xerces_download = (\<lambda>_. \<lparr>xr_calls = [], xr_failure = None, xr_document = ()\<rparr>),
     pe_root_of = (\<lambda>_. None), pe_fallback_hostname = ''localhost'', pe_fallback_protocol = ''http'',
     pe_languages = [''en''], pe_default_expires = 60, pe_validate_output = False, pe_fail_on_validate = False,
     pe_fmi_apikey = (\<lambda>_. None), pe_should_return_apikey = (\<lambda>_. True), pe_http_time = dec_int\<rparr>"

definition demo_request :: "http_method \<Rightarrow> http_request" where
  "demo_request m = \<lparr>hr_method = m,
     hr_header = [''Host'' \<mapsto> ''<script>'', ''Content-Type'' \<mapsto> ''text/xml''],
     hr_parameter = [''request'' \<mapsto> ''GetFeature''], hr_protocol = None, hr_content = ''<GetFeature/>'',
     hr_uri = ''/wfs''\<rparr>"

lemma demo_query:
  "plugin_query demo_env ''fi'' (demo_request GET) =
    Inr \<lparr>rr_status = Not_a_status, rr_may_validate = True, rr_output = ''localhost'', rr_expires = Some 60\<rparr>"
proof -
  have [simp]: "ascii_lower ''GetFeature'' = ''getfeature''" by code_simp
  have [simp]: "\<not> is_valid ''<script>'' ''.-:[]''" by code_simp
  show ?thesis
    by (simp add: plugin_query_def demo_env_def demo_request_def request_hostname_def request_language_def parse_kvp_def
        extract_request_name_def get_type_rec_def execute_request_def output_info_def echo_request_def opt_or_def Let_def)
qed


section \<open>The responses\<close>

lemma set_header_simps [simp]:
  "rp_status (set_header k v resp) = rp_status resp"
  "rp_content (set_header k v resp) = rp_content resp"
  "map_of (rp_headers (set_header k v resp)) k' = (if k' = k then Some v else map_of (rp_headers resp) k')"
  by (simp_all add: set_header_def sm_simps)

lemma respond_error_simps [simp]:
  "rp_status (respond_error formatter info req code msg resp) = Bad_request"
  "map_of (rp_headers (respond_error formatter info req code msg resp)) ''X-WFS-Error'' = Some (exception_code code)"
  "map_of (rp_headers (respond_error formatter info req code msg resp)) ''Cache-Control'' =
    map_of (rp_headers resp) ''Cache-Control''"
  by (simp_all add: respond_error_def create_error_response_def Let_def handle_wfs_exception_def add_query_info_def
      add_texts_def split: query_source.splits)

lemma cache_headers_simps [simp]:
  "rp_status (cache_headers E now n resp) = rp_status resp"
  "rp_content (cache_headers E now n resp) = rp_content resp"
  "map_of (rp_headers (cache_headers E now n resp)) ''Cache-Control'' = Some (''public, max-age='' @ dec_int n)"
  "map_of (rp_headers (cache_headers E now n resp)) ''X-WFS-Error'' = map_of (rp_headers resp) ''X-WFS-Error''"
  by (simp_all add: cache_headers_def)

text \<open>The query yielded a text.\<close>

definition answered_query :: "'xml plugin_env \<Rightarrow> string \<Rightarrow> http_request \<Rightarrow> bool" where
  "answered_query E language req = (case plugin_query E language req of Inr rr \<Rightarrow> rr_output rr \<noteq> [] | Inl _ \<Rightarrow> False)"

lemma validated_cases:
  assumes "validated E m resp = (resp', e)"
  shows "resp' = resp" "\<not> (pe_validate_output E \<and> pe_fail_on_validate E) \<Longrightarrow> e = None"
  using assms by (auto simp: validated_def maybe_validate_output_def split: if_splits option.splits)

lemma respond_to_query_cases:
  assumes "respond_to_query E now language req resp0 = (resp, e)"
    and no_fail: "\<not> (pe_validate_output E \<and> pe_fail_on_validate E)" and start: "rp_headers resp0 = []"
  shows "case e of
      Some _ \<Rightarrow> \<not> answered_query E language req \<and> map_of (rp_headers resp) ''Cache-Control'' = None
    | None \<Rightarrow> \<exists>rr. plugin_query E language req = Inr rr \<and> rr_output rr \<noteq> [] \<and> rp_content resp = rr_output rr \<and>
        rp_status resp = (if rr_status rr \<noteq> Not_a_status then rr_status rr else Status_ok) \<and>
        map_of (rp_headers resp) ''X-WFS-Error'' = None \<and>
        map_of (rp_headers resp) ''Cache-Control'' =
          (if rp_status resp = Status_ok
           then Some (''public, max-age='' @ dec_int (opt_or (pe_default_expires E) (rr_expires rr))) else None)"
proof (cases "plugin_query E language req")
  case (Inl x)
  with assms show ?thesis by (auto simp: respond_to_query_def answered_query_def)
next
  case (Inr rr)
  show ?thesis
  proof (cases "rr_output rr = []")
    case True
    with Inr assms show ?thesis by (auto simp: respond_to_query_def answered_query_def Let_def)
  next
    case False
    with Inr assms(1) obtain resp1 where
      v: "validated E (rr_may_validate rr) resp1 = (resp, e)" and
      resp1: "resp1 = (let status = (if rr_status rr \<noteq> Not_a_status then rr_status rr else Status_ok);
          r = set_header ''Content-Type'' (if take 6 (rr_output rr) = ''<html>'' then ''text/html; charset=UTF-8''
            else ''text/xml; charset=UTF-8'') (resp0\<lparr>rp_content := rr_output rr, rp_status := status\<rparr>)
        in if status = Status_ok then cache_headers E now (opt_or (pe_default_expires E) (rr_expires rr)) r else r)"
      by (simp add: respond_to_query_def Let_def)
    from validated_cases [OF v] no_fail have "resp = resp1" "e = None" by auto
    with resp1 Inr False start show ?thesis by (simp add: Let_def)
  qed
qed



text \<open>
  A posted document that the XML parser rejects is always answered with the code
  \<open>InvalidExceptionCode\<close>: the parser never lets an \<open>XmlError\<close> through to \<open>parse_xml_request\<close>, so that
  the classification of the error by \<open>throw_xml_request_error\<close>, which would name a proper code, is
  never reached.
\<close>

theorem rejected_document_unclassified:
  assumes rejected: "fst (parse_string (pe_xerces E) False (hr_content req)) = Inl e"
    and post: "hr_method req = POST" "hr_header req ''Content-Type'' = Some ''text/xml''" "hr_content req \<noteq> []"
    and plain: "language \<noteq> []" "\<not> pe_validate_output E"
  shows "(\<exists>resp. realRequestHandler E formatter info now language req resp0 = Inr resp \<and>
      rp_status resp = Bad_request \<and> map_of (rp_headers resp) ''X-WFS-Error'' = Some ''InvalidExceptionCode'') \<and>
    throw_xml_request_error (pe_factory E) level root_info \<noteq> Thrown NoCode msg"
proof -
  obtain m where e: "e = Fmi_exception (Thrown NoCode m)"
    using parse_string_no_code [OF rejected] ..
  then have "parse_xml_request E (hr_content req) = Inl (Thrown NoCode m)"
    using rejected post
    by (cases "parse_string (pe_xerces E) False (hr_content req)")
      (auto simp: parse_xml_request_def exn_error_def trace_def)
  then have "plugin_query E language req = Inl (Thrown NoCode m)"
    using post plain by (simp add: plugin_query_def query_post_def request_language_def get_mandatory_header_def Let_def)
  with plain show ?thesis
    by (simp add: realRequestHandler_def respond_to_query_def Let_def maybe_validate_output_def exception_code_def
        throw_xml_request_error_def split: option.splits)
qed

lemma rejected_document_unclassified_witness:
  "\<exists>resp. realRequestHandler demo_env (\<lambda>_. None) (\<lambda>_. \<lparr>xi_language = None, xi_location = None, xi_texts = []\<rparr>)
      1000 ''fi'' (demo_request POST) \<lparr>rp_status = Not_a_status, rp_content = [], rp_headers = []\<rparr> = Inr resp \<and>
    map_of (rp_headers resp) ''X-WFS-Error'' = Some ''InvalidExceptionCode''"
proof -
  have "fst (parse_string (pe_xerces demo_env) False (hr_content (demo_request POST))) =
      Inl (Fmi_exception (Thrown NoCode ''XML error''))"
    by (simp add: demo_env_def demo_request_def parse_string_def parse_input_def error_handler_new_def resetErrors_def
        handle_event_def add_message_def check_terminate_def check_errors_def isOk_def trace_def traced_def start_root_def
        Let_def sm_put_def)
  from rejected_document_unclassified [OF this] show ?thesis
    by (simp add: demo_env_def demo_request_def) blast
qed

text \<open>
  A validation failure that the configuration makes an error leaves the cache headers of the produced
  text in the error report.
\<close>

lemma cacheable_error:
  assumes "plugin_query E language req = Inr rr" "rr_output rr \<noteq> []" "rr_status rr = Status_ok" "rr_may_validate rr"
    and "maybe_validate_output E (rr_output rr) = Some e" "pe_fail_on_validate E"
    and "realRequestHandler E formatter info now language req resp0 = Inr resp"
  shows "rp_status resp = Bad_request \<and> map_of (rp_headers resp) ''Cache-Control'' =
    Some (''public, max-age='' @ dec_int (opt_or (pe_default_expires E) (rr_expires rr)))"
proof -
  obtain resp1 where "respond_to_query E now language req resp0 =
      (resp1, Some (Thrown ProcessingFailed ''Response XML validation failed''))"
    and "map_of (rp_headers resp1) ''Cache-Control'' =
      Some (''public, max-age='' @ dec_int (opt_or (pe_default_expires E) (rr_expires rr)))"
    using assms by (simp add: respond_to_query_def Let_def validated_def)
  with assms(7) show ?thesis
    by (auto simp: realRequestHandler_def Let_def split: option.splits)
qed

end
