(* ===== verification/Describe.thy ===== *)
theory Describe
  imports Requests XmlParams Convenience
begin

text \<open>
  The requests that describe the service: \<open>libwfs/WfsCapabilities.cpp\<close>, \<open>WfsFeatureDef.cpp\<close> and
  \<open>libwfs/request/GetCapabilities.cpp\<close>, \<open>DescribeFeatureType.cpp\<close>, \<open>ListStoredQueries.cpp\<close> and
  \<open>DescribeStoredQueries.cpp\<close>.  The hash given to a template is a record; the template formatter, texts
  in several languages and the registry of coordinate systems are arguments.
\<close>

section \<open>Features\<close>

record feature_def =
  ft_name :: string
  ft_xml_type :: string
  ft_ns :: string
  ft_ns_loc :: "string option"
  ft_title :: mlang
  ft_abstract :: mlang
  ft_default_crs :: string
  ft_other_crs :: "string list"
  ft_bbox :: "double list"
  ft_hidden :: bool

record raw_feature =
  rt_name :: "string option"
  rt_xml_type :: "string option"
  rt_ns :: "string option"
  rt_ns_loc :: "string option"
  rt_title :: "mlang option"
  rt_abstract :: "mlang option"
  rt_default_crs :: "string option"
  rt_other_crs :: "string list"
  rt_bbox :: "double list option"
  rt_hidden :: "bool option"

text \<open>The default box, -180, -90, 180, 90, as IEEE 754 numbers.\<close>

definition default_bbox :: "double list" where
  "default_bbox = [0xC066800000000000, 0xC056800000000000, 0x4066800000000000, 0x4056800000000000]"

definition resolve_crs_url :: "(string \<Rightarrow> string option) \<Rightarrow> string \<Rightarrow> string" where
  "resolve_crs_url proj_uri name = opt_or name (proj_uri name)"

definition read_bbox :: "double list option \<Rightarrow> double list result" where
  "read_bbox setting = (case setting of
       None \<Rightarrow> Inr default_bbox
     | Some b \<Rightarrow> if length b = 4 then Inr b else Inl (Thrown NoCode ''wrong size of configuration array''))"

definition feature_def_new :: "(string \<Rightarrow> string option) \<Rightarrow> raw_feature \<Rightarrow> feature_def result" where
  "feature_def_new proj_uri r =
     rbind (mandatory (rt_name r)) (\<lambda>name.
     rbind (mandatory (rt_xml_type r)) (\<lambda>xml_type.
     rbind (mandatory (rt_ns r)) (\<lambda>ns.
     rbind (mandatory (rt_title r)) (\<lambda>title.
     rbind (mandatory (rt_abstract r)) (\<lambda>abstract.
     rbind (mandatory (rt_default_crs r)) (\<lambda>crs.
     rbind (read_bbox (rt_bbox r)) (\<lambda>bbox.
     Inr \<lparr>ft_name = name, ft_xml_type = xml_type, ft_ns = ns, ft_ns_loc = rt_ns_loc r, ft_title = title,
       ft_abstract = abstract, ft_default_crs = resolve_crs_url proj_uri crs,
       ft_other_crs = map (resolve_crs_url proj_uri) (rt_other_crs r), ft_bbox = bbox,
       ft_hidden = or_default False (rt_hidden r)\<rparr>)))))))"

section \<open>Capabilities\<close>

record capabilities =
  wc_operations :: "string list"
  wc_features :: "(string \<times> feature_def) list"
  wc_used :: "string list"
  wc_data_sets :: "(string \<times> string) list"

definition capabilities_new :: capabilities where
  "capabilities_new = \<lparr>wc_operations = [], wc_features = [], wc_used = [], wc_data_sets = []\<rparr>"

definition register_operation :: "string \<Rightarrow> capabilities \<Rightarrow> bool \<times> capabilities" where
  "register_operation name c = (name \<notin> set (wc_operations c), c\<lparr>wc_operations := sset_insert name (wc_operations c)\<rparr>)"

definition find_feature :: "capabilities \<Rightarrow> string \<Rightarrow> feature_def option" where
  "find_feature c name = map_of (wc_features c) name"

definition register_feature :: "feature_def \<Rightarrow> capabilities \<Rightarrow> capabilities result" where
  "register_feature f c = (case sm_emplace (ft_name f) f (wc_features c) of
       None \<Rightarrow> Inl (Thrown NoCode ''The feature is already registered'')
     | Some fs \<Rightarrow> Inr (c\<lparr>wc_features := fs\<rparr>))"

definition register_feature_use :: "string \<Rightarrow> capabilities \<Rightarrow> capabilities result" where
  "register_feature_use name c =
     (if map_of (wc_features c) name \<noteq> None then Inr (c\<lparr>wc_used := sset_insert name (wc_used c)\<rparr>)
      else Inl (Thrown NoCode ''Feature not found''))"

definition register_data_set :: "string \<Rightarrow> string \<Rightarrow> capabilities \<Rightarrow> capabilities result" where
  "register_data_set code ns c = (case sm_emplace code ns (wc_data_sets c) of
       None \<Rightarrow> Inl (Thrown NoCode ''Duplicate data set registration'')
     | Some m \<Rightarrow> Inr (c\<lparr>wc_data_sets := m\<rparr>))"

text \<open>The constructor of \<open>StoredQueryHandlerBase\<close> registers the return types of a handler that is not hidden.\<close>

definition register_handler_types :: "bool \<Rightarrow> string list \<Rightarrow> capabilities \<Rightarrow> capabilities result" where
  "register_handler_types hidden return_types c =
     (if hidden then Inr c else fold_result register_feature_use return_types c)"

section \<open>The environment of the requests\<close>

text \<open>
  \<open>ds_hidden\<close> is the flag \<open>hidden\<close> of a handler; \<open>ds_all_types\<close> says that its class is one of those
  whose \<open>get_return_types\<close> collects the types of all handlers (\<open>GetFeatureByIdHandler\<close>,
  \<open>GetDataSetByIdHandler\<close>).  \<open>ds_text\<close> is \<open>MultiLanguageString::get\<close>.
\<close>

record 'dt describe_env =
  ds_lc :: "string \<Rightarrow> string"
  ds_uc :: "string \<Rightarrow> string"
  ds_hidden :: "'dt handler \<Rightarrow> bool"
  ds_all_types :: "'dt handler \<Rightarrow> bool"
  ds_text :: "mlang \<Rightarrow> string \<Rightarrow> string"
  ds_fallback_hostname :: string
  ds_fallback_protocol :: string
  ds_default_expires :: int

definition get_return_types :: "'dt describe_env \<Rightarrow> 'dt sqm \<Rightarrow> 'dt handler \<Rightarrow> string list" where
  "get_return_types D s h =
     (if ds_all_types D h then get_return_type_names s else qc_return_types (hd_config h))"

record common_hash =
  ch_apikey :: string
  ch_apikey_prefix :: string
  ch_hostname :: string
  ch_protocol :: string

definition common_hash_of :: "'dt describe_env \<Rightarrow> request_info \<Rightarrow> common_hash" where
  "common_hash_of D r =
     \<lparr>ch_apikey = opt_or [] (ri_apikey r), ch_apikey_prefix = FMI_APIKEY_PREFIX_SUBST,
      ch_hostname = opt_or (ds_fallback_hostname D) (ri_hostname r),
      ch_protocol = opt_or (ds_fallback_protocol D) (ri_protocol r) @ ''://''\<rparr>"

text \<open>\<open>process\<close> of a template formatter, its exceptions replaced, and the place holders of the output.\<close>

definition format_response :: "('h \<Rightarrow> string result) \<Rightarrow> 'h \<Rightarrow> string result" where
  "format_response process hash = (case process hash of
       Inl (Thrown _ _) \<Rightarrow> Inl (Thrown ProcessingFailed ''Template formatter exception'')
     | r \<Rightarrow> r)"

section \<open>ListStoredQueries\<close>

record listed_type =
  ly_name :: string
  ly_ns :: string
  ly_ns_loc :: "string option"

record listed_query =
  lq_id :: string
  lq_title :: string
  lq_types :: "listed_type list"

definition listed_type_of :: "capabilities \<Rightarrow> string \<Rightarrow> listed_type result" where
  "listed_type_of c name = (case find_feature c name of
       Some f \<Rightarrow> Inr \<lparr>ly_name = ft_xml_type f, ly_ns = ft_ns f, ly_ns_loc = ft_ns_loc f\<rparr>
     | None \<Rightarrow> Inl (Thrown ProcessingFailed ''INTERNAL ERROR: feature not found''))"

definition list_query ::
    "'dt describe_env \<Rightarrow> capabilities \<Rightarrow> 'dt sqm \<Rightarrow> string \<Rightarrow> string \<Rightarrow> listed_query list \<Rightarrow> listed_query list result" where
  "list_query D c s language name acc =
     rbind (get_handler_by_name (ds_lc D) s name) (\<lambda>h.
       if ds_hidden D h then Inr acc
       else rbind (map_result (listed_type_of c) (get_return_types D s h)) (\<lambda>types.
         Inr (acc @ [\<lparr>lq_id = get_query_name h, lq_title = ds_text D (qc_title (hd_config h)) language,
           lq_types = types\<rparr>])))"

definition listed_queries ::
    "'dt describe_env \<Rightarrow> capabilities \<Rightarrow> 'dt sqm \<Rightarrow> string \<Rightarrow> listed_query list result" where
  "listed_queries D c s language = fold_result (list_query D c s language) (sort (get_handler_names s)) []"

definition list_stored_queries ::
    "'dt describe_env \<Rightarrow> (common_hash \<times> listed_query list \<Rightarrow> string result) \<Rightarrow> request_info \<Rightarrow> capabilities \<Rightarrow>
     'dt sqm \<Rightarrow> string result" where
  "list_stored_queries D process r c s =
     rbind (listed_queries D c s (ri_language r)) (\<lambda>qs.
     rbind (format_response process (common_hash_of D r, qs)) (\<lambda>out. Inr (substitute_all r out)))"

definition lsq_from_kvp :: "'dt describe_env \<Rightarrow> (string \<Rightarrow> string option) \<Rightarrow> unit result" where
  "lsq_from_kvp D req =
     rbind (check_request_name (ds_lc D) (extract_request_name req) ''ListStoredQueries'') (\<lambda>_. check_wfs_version req)"

definition lsq_from_xml :: "'dt describe_env \<Rightarrow> xml_root \<Rightarrow> (string \<Rightarrow> string option) \<Rightarrow> unit result" where
  "lsq_from_xml D root attr =
     rbind (check_request_name (ds_lc D) (extract_request_name_xml root) ''ListStoredQueries'') (\<lambda>_.
       check_mandatory_attributes root attr)"

section \<open>DescribeStoredQueries\<close>

record describe_request =
  dr_ids :: "string list"
  dr_show_hidden :: bool
  dr_show_all :: bool

definition describe_new :: "'dt sqm \<Rightarrow> string list \<Rightarrow> describe_request" where
  "describe_new s ids =
     (if ids = [] then \<lparr>dr_ids = sort (get_handler_names s), dr_show_hidden = False, dr_show_all = True\<rparr>
      else \<lparr>dr_ids = ids, dr_show_hidden = True, dr_show_all = False\<rparr>)"

definition has_hidden_feature :: "capabilities \<Rightarrow> string list \<Rightarrow> bool" where
  "has_hidden_feature c return_types \<longleftrightarrow>
     list_ex (\<lambda>name. case find_feature c name of Some f \<Rightarrow> ft_hidden f | None \<Rightarrow> False) return_types"

record described_param =
  dq_name :: string
  dq_title :: string
  dq_abstract :: string
  dq_type :: string

text \<open>\<open>get_param_desc\<close> by index: \<open>at\<close> of the parameter map.\<close>

definition param_description ::
    "'dt describe_env \<Rightarrow> 'dt config \<Rightarrow> string \<Rightarrow> string \<Rightarrow> described_param result" where
  "param_description D cfg language name = (case map_of (qc_param_map cfg) name of
       None \<Rightarrow> Inl (Thrown NoCode ''map::at'')
     | Some d \<Rightarrow> Inr \<lparr>dq_name = de_name d, dq_title = ds_text D (de_title d) language,
         dq_abstract = ds_text D (de_abstract d) language, dq_type = de_xml_type d\<rparr>)"

record namespace_def =
  nd_prefix :: string
  nd_ns :: string
  nd_loc :: "string option"

text \<open>The prefix \<open>wfs_%03u\<close> of the \<open>ind\<close>-th namespace.\<close>

definition pad3 :: "nat \<Rightarrow> string" where
  "pad3 n = (let d = dec_nat n in replicate (3 - length d) (CHR ''0'') @ d)"

definition ns_prefix :: "nat \<Rightarrow> string" where
  "ns_prefix ind = ''wfs_'' @ pad3 (1 + ind)"

definition add_namespace_def ::
    "capabilities \<Rightarrow> string \<Rightarrow> (string \<times> string) list \<times> namespace_def list \<Rightarrow>
     ((string \<times> string) list \<times> namespace_def list) result" where
  "add_namespace_def c name st = (case st of (ns_map, defs) \<Rightarrow> (case find_feature c name of
       None \<Rightarrow> Inl (Thrown ProcessingFailed ''INTERNAL ERROR: feature not found'')
     | Some f \<Rightarrow>
         (case map_of ns_map (ft_ns f) of
            Some _ \<Rightarrow> Inr (ns_map, defs)
          | None \<Rightarrow> let prefix = ns_prefix (length ns_map)
              in Inr (sm_put (ft_ns f) prefix ns_map,
                  defs @ [\<lparr>nd_prefix = prefix, nd_ns = ft_ns f, nd_loc = ft_ns_loc f\<rparr>]))))"

definition set_namespace_defs ::
    "capabilities \<Rightarrow> string list \<Rightarrow> ((string \<times> string) list \<times> namespace_def list) result" where
  "set_namespace_defs c return_types = fold_result (add_namespace_def c) return_types ([], [])"

definition prefixed_type :: "capabilities \<Rightarrow> (string \<times> string) list \<Rightarrow> string \<Rightarrow> string result" where
  "prefixed_type c ns_map name = (case find_feature c name of
       None \<Rightarrow> Inl (Undefined ''null feature'')
     | Some f \<Rightarrow> (case map_of ns_map (ft_ns f) of
           None \<Rightarrow> Inl (Thrown NoCode ''map::at'')
         | Some prefix \<Rightarrow> Inr (prefix @ '':'' @ ft_xml_type f)))"

record description =
  dn_id :: string
  dn_title :: string
  dn_abstract :: string
  dn_params :: "described_param list"
  dn_namespaces :: "namespace_def list"
  dn_have_loc :: bool
  dn_types :: "string list"

definition describe_handler ::
    "'dt describe_env \<Rightarrow> capabilities \<Rightarrow> 'dt sqm \<Rightarrow> string \<Rightarrow> 'dt handler \<Rightarrow> description result" where
  "describe_handler D c s language h =
     (let cfg = hd_config h; return_types = get_return_types D s h
      in rbind (map_result (param_description D cfg language) (qc_param_names cfg)) (\<lambda>params.
         rbind (set_namespace_defs c return_types) (\<lambda>(ns_map, defs).
         rbind (map_result (prefixed_type c ns_map) return_types) (\<lambda>types.
         Inr \<lparr>dn_id = qc_id cfg, dn_title = ds_text D (qc_title cfg) language,
           dn_abstract = ds_text D (qc_abstract cfg) language, dn_params = params, dn_namespaces = defs,
           dn_have_loc = list_ex (\<lambda>d. nd_loc d \<noteq> None) defs, dn_types = types\<rparr>))))"

definition describe_one ::
    "'dt describe_env \<Rightarrow> capabilities \<Rightarrow> 'dt sqm \<Rightarrow> string \<Rightarrow> describe_request \<Rightarrow> string \<Rightarrow> description list \<Rightarrow>
     description list result" where
  "describe_one D c s language req qid acc =
     rbind (get_handler_by_name (ds_lc D) s qid) (\<lambda>h.
       if \<not> dr_show_hidden req \<and> ds_hidden D h then Inr acc
       else if dr_show_all req \<and> has_hidden_feature c (get_return_types D s h) then Inr acc
       else rbind (describe_handler D c s language h) (\<lambda>d. Inr (acc @ [d])))"

definition descriptions ::
    "'dt describe_env \<Rightarrow> capabilities \<Rightarrow> 'dt sqm \<Rightarrow> string \<Rightarrow> describe_request \<Rightarrow> description list result" where
  "descriptions D c s language req = fold_result (describe_one D c s language req) (dr_ids req) []"

definition describe_stored_queries ::
    "'dt describe_env \<Rightarrow> (common_hash \<times> description list \<Rightarrow> string result) \<Rightarrow> request_info \<Rightarrow> capabilities \<Rightarrow>
     'dt sqm \<Rightarrow> describe_request \<Rightarrow> string result" where
  "describe_stored_queries D process r c s req =
     rbind (descriptions D c s (ri_language r) req) (\<lambda>ds.
     rbind (format_response process (common_hash_of D r, ds)) (\<lambda>out. Inr (substitute_all r out)))"

definition dsq_from_kvp :: "'dt describe_env \<Rightarrow> (string \<Rightarrow> string option) \<Rightarrow> 'dt sqm \<Rightarrow> describe_request result" where
  "dsq_from_kvp D req s =
     rbind (check_request_name (ds_lc D) (extract_request_name req) ''DescribeStoredQueries'') (\<lambda>_.
     rbind (check_wfs_version req) (\<lambda>_.
     Inr (describe_new s (case req ''storedquery_id'' of
         None \<Rightarrow> []
       | Some ids \<Rightarrow> map trim_copy (split_compress (\<lambda>c. c = CHR '','') (trim_copy ids))))))"

definition dsq_from_xml :: "'dt describe_env \<Rightarrow> xnode \<Rightarrow> 'dt sqm \<Rightarrow> describe_request result" where
  "dsq_from_xml D root s =
     (let xroot = Some (xn_local root, xn_ns root) in
      rbind (check_request_name (ds_lc D) (extract_request_name_xml xroot) ''DescribeStoredQueries'') (\<lambda>_.
      rbind (map_result (\<lambda>el. rbind (extract_text el) (\<lambda>t. Inr (trim_copy t)))
          (get_child_elements root WFS_NAMESPACE_URI ''StoredQueryId'')) (\<lambda>ids.
      rbind (check_mandatory_attributes xroot (get_attr root)) (\<lambda>_. Inr (describe_new s ids)))))"

section \<open>DescribeFeatureType\<close>

type_synonym ns_locs = "(string \<times> string option) list"

definition ns_insert :: "feature_def \<Rightarrow> ns_locs \<Rightarrow> ns_locs" where
  "ns_insert f m = (case sm_emplace (ft_ns f) (ft_ns_loc f) m of Some m' \<Rightarrow> m' | None \<Rightarrow> m)"

definition feature_at :: "capabilities \<Rightarrow> string \<Rightarrow> feature_def result" where
  "feature_at c name = (case find_feature c name of Some f \<Rightarrow> Inr f | None \<Rightarrow> Inl (Thrown NoCode ''map::at''))"

text \<open>\<open>add_type_namespace\<close>: the first used feature of the type; \<open>None\<close> for \<open>false\<close>.\<close>

fun add_type_namespace ::
    "capabilities \<Rightarrow> string list \<Rightarrow> string \<Rightarrow> string \<Rightarrow> ns_locs \<Rightarrow> ns_locs option result" where
  "add_type_namespace c [] ns name m = Inr None"
| "add_type_namespace c (u # us) ns name m =
     rbind (feature_at c u) (\<lambda>f.
       if name = ft_xml_type f \<and> (ns = ''*'' \<or> ns = ft_ns f) then Inr (Some (ns_insert f m))
       else add_type_namespace c us ns name m)"

definition type_namespace :: "capabilities \<Rightarrow> string \<times> string \<Rightarrow> ns_locs \<Rightarrow> ns_locs result" where
  "type_namespace c item m =
     rbind (add_type_namespace c (wc_used c) (fst item) (snd item) m) (\<lambda>r. case r of
       Some m' \<Rightarrow> Inr m'
     | None \<Rightarrow> Inl (Thrown ProcessingFailed ''Type not found''))"

definition described_namespaces :: "capabilities \<Rightarrow> (string \<times> string) list \<Rightarrow> ns_locs result" where
  "described_namespaces c type_names =
     (if type_names = []
      then fold_result (\<lambda>name m. rbind (feature_at c name) (\<lambda>f. Inr (ns_insert f m))) (wc_used c) []
      else fold_result (type_namespace c) type_names [])"

record feature_type_hash =
  fh_common :: common_hash
  fh_target :: "(string \<times> string \<times> string) option"
  fh_ns_list :: "(string \<times> string option) list"

text \<open>\<open>set_namespaces\<close>: the first namespace is the target, with its prefix and location.\<close>

definition set_namespaces :: "ns_locs \<Rightarrow> (string \<times> string \<times> string) option \<times> (string \<times> string option) list" where
  "set_namespaces m = (case m of
       [] \<Rightarrow> (None, [])
     | (name, loc) # rest \<Rightarrow> (Some (name, ''wfsns001'', opt_or name loc), rest))"

definition describe_feature_type ::
    "'dt describe_env \<Rightarrow> (feature_type_hash \<Rightarrow> string result) \<Rightarrow> request_info \<Rightarrow> capabilities \<Rightarrow>
     (string \<times> string) list \<Rightarrow> string result" where
  "describe_feature_type D process r c type_names =
     rbind (described_namespaces c type_names) (\<lambda>m. case set_namespaces m of (target, rest) \<Rightarrow>
       format_response process \<lparr>fh_common = common_hash_of D r, fh_target = target, fh_ns_list = rest\<rparr>)"

text \<open>The parts of a name before and after its last colon.\<close>

definition split_last_colon :: "string \<Rightarrow> (string \<times> string) option" where
  "split_last_colon s =
     (if CHR '':'' \<in> set s
      then Some (rev (drop 1 (dropWhile (\<lambda>c. c \<noteq> CHR '':'') (rev s))), rev (takeWhile (\<lambda>c. c \<noteq> CHR '':'') (rev s)))
      else None)"

definition dft_from_kvp ::
    "'dt describe_env \<Rightarrow> string list \<Rightarrow> (string \<Rightarrow> string option) \<Rightarrow> (string \<times> string) list result" where
  "dft_from_kvp D formats req =
     rbind (check_request_name (ds_lc D) (extract_request_name req) ''DescribeFeatureType'') (\<lambda>_.
     rbind (check_wfs_version req) (\<lambda>_.
     rbind (case req ''outputformat'' of None \<Rightarrow> Inr () | Some f \<Rightarrow> check_output_format_attribute formats f) (\<lambda>_.
     Inr (case req ''typename'' of
         None \<Rightarrow> []
       | Some names \<Rightarrow> map (\<lambda>item. (''*'', case split_last_colon item of Some (_, n) \<Rightarrow> n | None \<Rightarrow> item))
           (split_at CHR '','' (trim_copy names))))))"

definition dft_type_name :: "(string option \<Rightarrow> string option) \<Rightarrow> xnode \<Rightarrow> (string \<times> string) result" where
  "dft_type_name ns_uri el =
     rbind (extract_text el) (\<lambda>t. let item = trim_copy t;
         (uri, name) = (case split_last_colon item of
             None \<Rightarrow> (ns_uri None, item) | Some (prefix, n) \<Rightarrow> (ns_uri (Some prefix), n))
       in case uri of
           None \<Rightarrow> Inl (Thrown ProcessingFailed ''failed to get XML namespace'')
         | Some u \<Rightarrow> Inr (u, name))"

definition dft_from_xml ::
    "'dt describe_env \<Rightarrow> string list \<Rightarrow> (string option \<Rightarrow> string option) \<Rightarrow> xnode \<Rightarrow> (string \<times> string) list result" where
  "dft_from_xml D formats ns_uri root =
     (let xroot = Some (xn_local root, xn_ns root) in
      rbind (check_request_name (ds_lc D) (extract_request_name_xml xroot) ''DescribeFeatureType'') (\<lambda>_.
      rbind (check_output_format_xml formats (get_attr root)) (\<lambda>_.
      rbind (map_result (dft_type_name ns_uri) (get_child_elements root WFS_NAMESPACE_URI ''TypeName'')) (\<lambda>names.
      rbind (check_mandatory_attributes xroot (get_attr root)) (\<lambda>_. Inr names)))))"

section \<open>GetCapabilities\<close>

record capability_feature =
  cf_ns_alias :: string
  cf_xml_type :: string
  cf_name :: string
  cf_ns :: string
  cf_loc :: "string option"
  cf_title :: string
  cf_abstract :: string
  cf_default_crs :: string
  cf_other_crs :: "string list"

record capabilities_hash =
  ca_common :: common_hash
  ca_language :: string
  ca_operations :: "string list"
  ca_features :: "capability_feature list"
  ca_data_sets :: "(string \<times> string) list"

definition ns_alias :: "string \<Rightarrow> string" where
  "ns_alias name = (if CHR '':'' \<in> set name then takeWhile (\<lambda>c. c \<noteq> CHR '':'') name else ''wfsns001'')"

definition capability_of :: "'dt describe_env \<Rightarrow> string \<Rightarrow> feature_def \<Rightarrow> capability_feature" where
  "capability_of D language f =
     \<lparr>cf_ns_alias = ns_alias (ft_name f), cf_xml_type = ft_xml_type f, cf_name = ft_name f, cf_ns = ft_ns f,
      cf_loc = ft_ns_loc f, cf_title = ds_text D (ft_title f) language,
      cf_abstract = ds_text D (ft_abstract f) language, cf_default_crs = ft_default_crs f,
      cf_other_crs = ft_other_crs f\<rparr>"

definition capability_features :: "'dt describe_env \<Rightarrow> capabilities \<Rightarrow> string \<Rightarrow> capability_feature list result" where
  "capability_features D c language =
     fold_result (\<lambda>name acc. rbind (feature_at c name) (\<lambda>f.
       Inr (if ft_hidden f then acc else acc @ [capability_of D language f]))) (wc_used c) []"

text \<open>\<open>languages\<close> are those of the configuration; \<open>CapabilitiesConf::apply\<close> is part of \<open>process\<close>.\<close>

definition get_capabilities ::
    "'dt describe_env \<Rightarrow> string list \<Rightarrow> (capabilities_hash \<Rightarrow> string result) \<Rightarrow> request_info \<Rightarrow> string option \<Rightarrow>
     capabilities \<Rightarrow> string result" where
  "get_capabilities D languages process r requested_language c =
     (let language = (case requested_language of
          Some l \<Rightarrow> if l \<in> set languages then l else ri_language r
        | None \<Rightarrow> ri_language r)
      in rbind (capability_features D c language) (\<lambda>fs.
         rbind (format_response process \<lparr>ca_common = common_hash_of D r, ca_language = language,
             ca_operations = wc_operations c, ca_features = fs, ca_data_sets = wc_data_sets c\<rparr>) (\<lambda>out.
         Inr (substitute_all r out))))"

definition gc_from_kvp :: "'dt describe_env \<Rightarrow> (string \<Rightarrow> string option) \<Rightarrow> string option result" where
  "gc_from_kvp D req =
     rbind (check_request_name (ds_lc D) (extract_request_name req) ''GetCapabilities'') (\<lambda>_. Inr (req ''language''))"

definition gc_from_xml :: "'dt describe_env \<Rightarrow> xml_root \<Rightarrow> string option result" where
  "gc_from_xml D root =
     rbind (check_request_name (ds_lc D) (extract_request_name_xml root) ''GetCapabilities'') (\<lambda>_. Inr None)"

section \<open>The capabilities\<close>

text \<open>The registrations of the configuration and of the handlers.\<close>

inductive caps_reachable :: "capabilities \<Rightarrow> bool" where
  caps_start: "caps_reachable capabilities_new"
| caps_operation: "caps_reachable c \<Longrightarrow> caps_reachable (snd (register_operation op c))"
| caps_feature: "caps_reachable c \<Longrightarrow> register_feature f c = Inr c' \<Longrightarrow> caps_reachable c'"
| caps_handler: "caps_reachable c \<Longrightarrow> register_handler_types hidden types c = Inr c' \<Longrightarrow> caps_reachable c'"
| caps_data_set: "caps_reachable c \<Longrightarrow> register_data_set code ns c = Inr c' \<Longrightarrow> caps_reachable c'"

definition caps_inv :: "capabilities \<Rightarrow> bool" where
  "caps_inv c \<longleftrightarrow> sm_ok (wc_features c) \<and> (\<forall>n f. map_of (wc_features c) n = Some f \<longrightarrow> ft_name f = n) \<and>
     (\<forall>n \<in> set (wc_used c). map_of (wc_features c) n \<noteq> None) \<and> distinct (wc_used c)"

lemma register_use_inv: "register_feature_use n c = Inr c' \<Longrightarrow> caps_inv c \<Longrightarrow> caps_inv c'"
  by (auto simp: register_feature_use_def caps_inv_def distinct_sset_insert split: if_splits)

lemma caps_invariant: "caps_reachable c \<Longrightarrow> caps_inv c"
proof (induction rule: caps_reachable.induct)
  case caps_start
  then show ?case by (simp add: caps_inv_def capabilities_new_def)
next
  case (caps_operation c op)
  then show ?case by (simp add: caps_inv_def register_operation_def)
next
  case (caps_feature c f c')
  then show ?case
    by (auto simp: caps_inv_def register_feature_def sm_simps split: option.splits if_splits)
next
  case (caps_handler c hidden types c')
  then show ?case
    by (cases hidden)
      (auto simp: register_handler_types_def intro: register_use_inv
        dest!: fold_result_invariant [where P = caps_inv])
next
  case (caps_data_set c code ns c')
  then show ?case
    by (auto simp: caps_inv_def register_data_set_def split: option.splits)
qed

lemma capability_features_eq:
  assumes "caps_inv c"
  shows "capability_features D c language =
    Inr (map (capability_of D language) (filter (\<lambda>f. \<not> ft_hidden f) (map (\<lambda>n. the (find_feature c n)) (wc_used c))))"
proof -
  have "fold_result (\<lambda>name acc. rbind (feature_at c name) (\<lambda>f.
       Inr (if ft_hidden f then acc else acc @ [capability_of D language f]))) ns acc =
    Inr (acc @ map (capability_of D language) (filter (\<lambda>f. \<not> ft_hidden f) (map (\<lambda>n. the (find_feature c n)) ns)))"
    if "\<forall>n \<in> set ns. map_of (wc_features c) n \<noteq> None" for ns acc
    using that by (induction ns arbitrary: acc) (auto simp: feature_at_def find_feature_def)
  from this [of "wc_used c" "[]"] assms show ?thesis
    by (simp add: capability_features_def caps_inv_def)
qed

lemma described_namespaces_all:
  assumes "caps_inv c"
  shows "\<exists>m. described_namespaces c [] = Inr m \<and> sm_ok m \<and>
    fst ` set m = (\<lambda>n. ft_ns (the (find_feature c n))) ` set (wc_used c)"
proof -
  have ins: "sm_ok m \<Longrightarrow> sm_ok (ns_insert f m) \<and> fst ` set (ns_insert f m) = insert (ft_ns f) (fst ` set m)" for f m
    by (auto simp: ns_insert_def sm_emplace_def sm_simps set_mm_insert dest!: map_of_SomeD split: option.splits)
      (force simp: image_iff)
  have "\<exists>m'. fold_result (\<lambda>name m. rbind (feature_at c name) (\<lambda>f. Inr (ns_insert f m))) ns m = Inr m' \<and> sm_ok m' \<and>
      fst ` set m' = fst ` set m \<union> (\<lambda>n. ft_ns (the (find_feature c n))) ` set ns"
    if "\<forall>n \<in> set ns. map_of (wc_features c) n \<noteq> None" "sm_ok m" for ns m
    using that
  proof (induction ns arbitrary: m)
    case (Cons n ns)
    then obtain f where "find_feature c n = Some f" by (auto simp: find_feature_def)
    with Cons.IH [of "ns_insert f m"] Cons.prems ins [of m f] show ?case by (auto simp: feature_at_def)
  qed simp
  from this [of "wc_used c" "[]"] assms show ?thesis
    by (simp add: described_namespaces_def caps_inv_def)
qed

section \<open>The descriptions\<close>

lemma nat_of_dec_zeros: "nat_of_dec (replicate n (CHR ''0'') @ s) = nat_of_dec s"
proof -
  have "foldl (\<lambda>n c. 10 * n + char_digit c) 0 (replicate n (CHR ''0'')) = 0"
    by (induction n) (simp_all add: char_digit_def)
  then show ?thesis by (simp add: nat_of_dec_def)
qed

lemma ns_prefix_inj: "ns_prefix i = ns_prefix j \<longleftrightarrow> i = j"
proof -
  have "nat_of_dec (pad3 n) = n" for n by (simp add: pad3_def Let_def nat_of_dec_zeros)
  then have "pad3 m = pad3 n \<longleftrightarrow> m = n" for m n by metis
  then show ?thesis by (simp add: ns_prefix_def)
qed

definition ns_defs_inv :: "(string \<times> string) list \<times> namespace_def list \<Rightarrow> bool" where
  "ns_defs_inv st \<longleftrightarrow> (case st of (ns_map, defs) \<Rightarrow> length ns_map = length defs \<and>
     (\<forall>ns p. map_of ns_map ns = Some p \<longleftrightarrow> (\<exists>d \<in> set defs. nd_ns d = ns \<and> nd_prefix d = p)) \<and>
     map nd_prefix defs = map ns_prefix [0..<length defs] \<and> distinct (map nd_ns defs))"

lemma length_mm_insert [simp]: "length (mm_insert k v m) = Suc (length m)"
  by (induction m) auto

lemma add_namespace_def_inv:
  assumes "ns_defs_inv st" "add_namespace_def c name st = Inr st'"
  shows "ns_defs_inv st'"
proof -
  obtain ns_map defs where st: "st = (ns_map, defs)" by (cases st)
  from assms(2) obtain f where f: "find_feature c name = Some f"
    by (auto simp: add_namespace_def_def st split: option.splits)
  show ?thesis
  proof (cases "map_of ns_map (ft_ns f)")
    case None
    with assms f st have st': "st' = (mm_insert (ft_ns f) (ns_prefix (length ns_map)) ns_map,
        defs @ [\<lparr>nd_prefix = ns_prefix (length ns_map), nd_ns = ft_ns f, nd_loc = ft_ns_loc f\<rparr>])"
      by (simp add: add_namespace_def_def sm_put_def Let_def)
    from None assms(1) have "ft_ns f \<notin> nd_ns ` set defs"
      unfolding ns_defs_inv_def st by (auto simp: image_iff) (metis option.distinct(1))
    with assms(1) None show ?thesis
      unfolding ns_defs_inv_def st st' by (auto simp: map_of_mm_insert image_iff)
  qed (use assms f st in \<open>auto simp: add_namespace_def_def\<close>)
qed

lemma set_namespace_defs_inv:
  "set_namespace_defs c types = Inr st \<Longrightarrow> ns_defs_inv st"
  unfolding set_namespace_defs_def
  by (erule fold_result_invariant [where P = ns_defs_inv])
    (simp add: ns_defs_inv_def, blast intro: add_namespace_def_inv)

definition description_ok :: "capabilities \<Rightarrow> string list \<Rightarrow> description \<Rightarrow> bool" where
  "description_ok c types d \<longleftrightarrow> distinct (map nd_prefix (dn_namespaces d)) \<and> distinct (map nd_ns (dn_namespaces d)) \<and>
     list_all2 (\<lambda>name t. \<exists>f nd. find_feature c name = Some f \<and> nd \<in> set (dn_namespaces d) \<and>
       nd_ns nd = ft_ns f \<and> t = nd_prefix nd @ '':'' @ ft_xml_type f) types (dn_types d)"

lemma describe_handler_ok:
  assumes "describe_handler D c s language h = Inr d"
  shows "description_ok c (get_return_types D s h) d \<and> dn_id d = qc_id (hd_config h)"
proof -
  from assms obtain params ns_map defs types where
    ns: "set_namespace_defs c (get_return_types D s h) = Inr (ns_map, defs)" and
    types: "map_result (prefixed_type c ns_map) (get_return_types D s h) = Inr types" and
    d: "dn_namespaces d = defs" "dn_types d = types" "dn_id d = qc_id (hd_config h)"
    by (auto simp: describe_handler_def Let_def result_simps)
  note inv = set_namespace_defs_inv [OF ns]
  have "list_all2 (\<lambda>name t. \<exists>f nd. find_feature c name = Some f \<and> nd \<in> set defs \<and>
      nd_ns nd = ft_ns f \<and> t = nd_prefix nd @ '':'' @ ft_xml_type f) (get_return_types D s h) types"
    using types [unfolded map_result_Inr_iff]
  proof (rule list_all2_mono)
    fix name t assume "prefixed_type c ns_map name = Inr t"
    with inv show "\<exists>f nd. find_feature c name = Some f \<and> nd \<in> set defs \<and> nd_ns nd = ft_ns f \<and>
        t = nd_prefix nd @ '':'' @ ft_xml_type f"
      by (auto simp: prefixed_type_def ns_defs_inv_def split: option.splits)
  qed
  moreover have "distinct (map nd_prefix defs)"
    using inv by (simp add: ns_defs_inv_def distinct_map inj_on_def ns_prefix_inj)
  ultimately show ?thesis
    using inv d by (simp add: description_ok_def ns_defs_inv_def)
qed

text \<open>The handlers as the requests find them, in the order of their names.\<close>

lemma handler_found:
  assumes "sq_reachable lc demo test s" "\<And>n. lc (lc n) = lc n" "(k, h) \<in> set (qm_handlers s)"
  shows "get_handler_by_name lc s k = Inr h"
proof -
  have inv: "served_inv lc demo test s" using assms(1) by (rule served.reachable_inv)
  then have "map_of (qm_handlers s) k = Some h" using assms(3) by (simp add: served_inv_def sm_ok_def)
  moreover from this inv have "lc k = k" using assms(2) by (auto simp: served_inv_def)
  ultimately show ?thesis by (simp add: get_handler_by_name_def)
qed

lemma handler_names_sorted:
  assumes "sq_reachable lc demo test s"
  shows "sort (get_handler_names s) = map fst (qm_handlers s)"
proof -
  have "served_inv lc demo test s" using assms by (rule served.reachable_inv)
  then show ?thesis by (simp add: served_inv_def sm_ok_def get_handler_names_def sorted_sort_id)
qed

definition shown :: "'dt describe_env \<Rightarrow> capabilities \<Rightarrow> 'dt sqm \<Rightarrow> 'dt handler \<Rightarrow> bool" where
  "shown D c s h \<longleftrightarrow> \<not> ds_hidden D h \<and> \<not> has_hidden_feature c (get_return_types D s h)"

lemma describe_fold:
  assumes "\<And>k h. (k, h) \<in> set hs \<Longrightarrow> get_handler_by_name (ds_lc D) s k = Inr h"
    and "fold_result (describe_one D c s language req) (map fst hs) acc = Inr ds"
    and "dr_show_all req" "\<not> dr_show_hidden req"
  shows "\<exists>new. ds = acc @ new \<and>
    list_all2 (\<lambda>h d. dn_id d = qc_id (hd_config h) \<and> description_ok c (get_return_types D s h) d)
      (filter (shown D c s) (map snd hs)) new"
  using assms
proof (induction hs arbitrary: acc)
  case (Cons p hs)
  obtain k h where p: "p = (k, h)" by (cases p)
  have found: "get_handler_by_name (ds_lc D) s k = Inr h" using Cons.prems(1) p by simp
  have step: "describe_one D c s language req k acc =
      (if shown D c s h then rbind (describe_handler D c s language h) (\<lambda>d. Inr (acc @ [d])) else Inr acc)"
    using found Cons.prems(3,4) by (auto simp: describe_one_def shown_def)
  show ?case
  proof (cases "shown D c s h")
    case True
    with Cons.prems(2) p step obtain d where d: "describe_handler D c s language h = Inr d"
      and rest: "fold_result (describe_one D c s language req) (map fst hs) (acc @ [d]) = Inr ds"
      by (auto simp: result_simps)
    from Cons.IH [OF _ rest] Cons.prems obtain new where new: "ds = (acc @ [d]) @ new"
      and all: "list_all2 (\<lambda>h d. dn_id d = qc_id (hd_config h) \<and> description_ok c (get_return_types D s h) d)
        (filter (shown D c s) (map snd hs)) new" by auto
    show ?thesis
      using new all True p describe_handler_ok [OF d] by (intro exI [of _ "d # new"]) simp
  next
    case False
    with Cons.prems(2) p step have rest: "fold_result (describe_one D c s language req) (map fst hs) acc = Inr ds"
      by simp
    from Cons.IH [OF _ rest] Cons.prems False p show ?thesis by auto
  qed
qed simp

text \<open>
  Without ids \<open>DescribeStoredQueries\<close> describes, in the order of their names, exactly the served
  queries that are neither hidden nor return a hidden feature type.  Every description declares each
  namespace once and with a prefix of its own, and names each return type with the prefix of its
  namespace.
\<close>

theorem described_queries:
  assumes reach: "sq_reachable lc demo test s" and lc: "ds_lc D = lc" "\<And>n. lc (lc n) = lc n"
    and ds: "descriptions D c s language (describe_new s []) = Inr ds"
  shows "list_all2 (\<lambda>h d. dn_id d = qc_id (hd_config h) \<and> description_ok c (get_return_types D s h) d)
    (filter (\<lambda>h. \<not> ds_hidden D h \<and> \<not> has_hidden_feature c (get_return_types D s h)) (map snd (qm_handlers s))) ds"
proof -
  have found: "(k, h) \<in> set (qm_handlers s) \<Longrightarrow> get_handler_by_name (ds_lc D) s k = Inr h" for k h
    using handler_found [OF reach lc(2)] lc(1) by simp
  have "fold_result (describe_one D c s language (describe_new s [])) (map fst (qm_handlers s)) [] = Inr ds"
    using ds handler_names_sorted [OF reach] by (simp add: descriptions_def describe_new_def)
  from describe_fold [OF found this] show ?thesis
    by (simp add: describe_new_def shown_def [abs_def])
qed

definition demo_feature :: feature_def where
  "demo_feature = \<lparr>ft_name = ''f'', ft_xml_type = ''T'', ft_ns = ''urn:n'', ft_ns_loc = None, ft_title = [],
     ft_abstract = [], ft_default_crs = [], ft_other_crs = [], ft_bbox = default_bbox, ft_hidden = False\<rparr>"

definition demo_caps :: capabilities where
  "demo_caps = capabilities_new\<lparr>wc_features := [(''f'', demo_feature)], wc_used := [''f'']\<rparr>"

definition demo_describe :: "unit describe_env" where
  "demo_describe = \<lparr>ds_lc = ascii_lower, ds_uc = (\<lambda>s. s), ds_hidden = (\<lambda>_. False), ds_all_types = (\<lambda>_. False),
     ds_text = (\<lambda>_ l. l), ds_fallback_hostname = ''localhost'', ds_fallback_protocol = ''http'',
     ds_default_expires = 60\<rparr>"

lemma described_queries_witness:
  "\<exists>(s :: unit sqm) d. sq_reachable ascii_lower False False s \<and>
    descriptions demo_describe demo_caps s ''fi'' (describe_new s []) = Inr [d] \<and> dn_id d = ''q''"
proof -
  obtain s :: "unit sqm" where reach: "sq_reachable ascii_lower False False s"
    and s: "qm_handlers s = [(ascii_lower ''q'', demo_handler (demo_query ''q'') ''a.conf'')]"
    using demo_served [of "''q''"] by metis
  have q: "ascii_lower ''q'' = ''q''" by code_simp
  obtain d where d: "descriptions demo_describe demo_caps s ''fi'' (describe_new s []) = Inr [d]"
    by (simp add: descriptions_def describe_new_def get_handler_names_def s q describe_one_def get_handler_by_name_def
        demo_describe_def describe_handler_def demo_handler_def demo_query_def config_new_def Let_def
        set_namespace_defs_def has_hidden_feature_def get_return_types_def)
  have lc: "ds_lc demo_describe = ascii_lower" by (simp add: demo_describe_def)
  from described_queries [OF reach lc ascii_lower_idem d] s have "dn_id d = ''q''"
    by (auto simp: demo_handler_def demo_query_def has_hidden_feature_def get_return_types_def demo_describe_def
        list_all2_Cons2 split: if_splits)
  with reach d show ?thesis by blast
qed

text \<open>
  One visible handler with a return type that is no registered feature makes \<open>ListStoredQueries\<close> fail for
  all; the constructors of the handlers exclude that for the types of their configuration, but
  \<open>GetFeatureByIdHandler\<close> also collects the types of hidden handlers, which nobody checks.
\<close>

lemma unknown_type_blocks_list:
  assumes reach: "sq_reachable lc demo test s" and lc: "ds_lc D = lc" "\<And>n. lc (lc n) = lc n"
    and h: "(k, h) \<in> set (qm_handlers s)" "\<not> ds_hidden D h"
    and t: "t \<in> set (get_return_types D s h)" "find_feature c t = None"
  shows "\<not> isOK (listed_queries D c s language)"
proof -
  have found: "get_handler_by_name (ds_lc D) s k = Inr h"
    using handler_found [OF reach lc(2) h(1)] lc(1) by simp
  obtain xs ys where split: "sort (get_handler_names s) = xs @ k # ys"
    using h(1) handler_names_sorted [OF reach] by (force dest: split_list simp: in_set_conv_decomp)
  have "map_result (listed_type_of c) (get_return_types D s h) \<noteq> Inr types" for types
    using t by (auto simp: map_result_Inr_iff list_all2_conv_all_nth in_set_conv_nth listed_type_of_def)
  then have "list_query D c s language k acc \<noteq> Inr acc'" for acc acc'
    using found h(2) by (auto simp: list_query_def result_simps)
  then show ?thesis
    by (auto simp: listed_queries_def split fold_result_append isOK_iff result_simps)
qed

end
