(* ===== verification/UrlTemplate.thy ===== *)
theory UrlTemplate
  imports Prelude
begin

text \<open>
  \<open>libwfs/UrlTemplateGenerator.cpp\<close>: a URL and its parameters are made of a template by substituting
  the values of named parameters; what is put into the query part is encoded as the content type
  \<open>application/x-www-form-urlencoded\<close> wants it.
\<close>

section \<open>Templates\<close>

datatype url_param =
    ParamRef string bool bool
  | StringParam string string

record url_template =
  ug_url :: string
  ug_params :: "url_param list"

type_synonym param_getter = "string \<Rightarrow> string list result"

definition is_name_char :: "char \<Rightarrow> bool" where
  "is_name_char c \<longleftrightarrow> isalnum c \<or> c = CHR ''_''"

text \<open>
  The grammar of a parameter definition, without a skipper inside: \<open>name=value\<close>, or a reference in
  braces with an optional mark.  What follows a reference is not read.
\<close>

definition parse_const :: "string \<Rightarrow> url_param option" where
  "parse_const s =
     (let name = takeWhile is_name_char s in case dropWhile is_name_char s of
        c # value \<Rightarrow> if name \<noteq> [] \<and> c = CHR ''='' then Some (StringParam name value) else None
      | [] \<Rightarrow> None)"

definition parse_ref :: "string \<Rightarrow> url_param option" where
  "parse_ref s = (case s of
       c # d # r \<Rightarrow>
         if c = CHR ''$'' \<and> d = CHR ''{''
         then (let may_skip = (take 1 r = ''?''); separate = (take 1 r = ''*'');
                   t = (if may_skip \<or> separate then tl r else r);
                   name = takeWhile is_name_char t
               in if name \<noteq> [] \<and> take 1 (dropWhile is_name_char t) = ''}''
                  then Some (ParamRef name may_skip separate) else None)
         else None
     | _ \<Rightarrow> None)"

definition parse_param_def :: "string \<Rightarrow> url_param result" where
  "parse_param_def str =
     (let src = trim_copy str in case parse_const src of
        Some p \<Rightarrow> Inr p
      | None \<Rightarrow> (case parse_ref src of
          Some p \<Rightarrow> Inr p
        | None \<Rightarrow> Inl (Thrown NoCode ''Failed to parse parameter definition'')))"

definition url_template_new :: "string \<Rightarrow> string list \<Rightarrow> url_template result" where
  "url_template_new url templates =
     rbind (map_result parse_param_def templates) (\<lambda>ps. Inr \<lparr>ug_url = url, ug_params = ps\<rparr>)"

section \<open>Substitution\<close>

fun join_comma :: "string list \<Rightarrow> string" where
  "join_comma [] = []"
| "join_comma [v] = v"
| "join_comma (v # vs) = v @ '','' @ join_comma vs"

text \<open>\<open>substitute_param_ref\<close> after the dollar sign: the text substituted and the rest of the source.\<close>

definition substitute_param_ref :: "param_getter \<Rightarrow> bool \<Rightarrow> string \<Rightarrow> (string \<times> string) result" where
  "substitute_param_ref cb allow_list s =
     (if take 1 s \<noteq> ''{'' then Inl (Thrown NoCode ''missing { after $'')
      else (let name = takeWhile is_name_char (tl s); r = dropWhile is_name_char (tl s) in
        if take 1 r \<noteq> ''}'' then Inl (Thrown NoCode ''invalid parameter name or closing } missing'')
        else rbind (cb name) (\<lambda>values.
          if \<not> allow_list \<and> length values > 1 then Inl (Thrown NoCode ''scalar value expected'')
          else Inr (join_comma values, tl r))))"

lemma substitute_rest: "substitute_param_ref cb b s = Inr (v, t) \<Longrightarrow> length t < length s"
proof -
  assume "substitute_param_ref cb b s = Inr (v, t)"
  then have "take 1 s = ''{''" and t: "t = tl (dropWhile is_name_char (tl s))"
    by (auto simp: substitute_param_ref_def Let_def result_simps split: if_splits)
  then have "s \<noteq> []" by auto
  have "length t \<le> length (dropWhile is_name_char (tl s))" by (simp add: t)
  also have "\<dots> \<le> length (tl s)" by (rule length_dropWhile_le)
  finally show ?thesis using \<open>s \<noteq> []\<close> by (cases s) auto
qed

function eval_text :: "param_getter \<Rightarrow> bool \<Rightarrow> string \<Rightarrow> string result" where
  "eval_text cb allow_list [] = Inr []"
| "eval_text cb allow_list (c # s) =
     (if c = CHR 0x5C
      then (case s of [] \<Rightarrow> Inl (Thrown NoCode ''unexpected end of source string'')
         | d # t \<Rightarrow> rbind (eval_text cb allow_list t) (\<lambda>r. Inr (d # r)))
      else if c = CHR ''$''
      then (case substitute_param_ref cb allow_list s of
           Inl e \<Rightarrow> Inl e
         | Inr (v, t) \<Rightarrow> rbind (eval_text cb allow_list t) (\<lambda>r. Inr (v @ r)))
      else rbind (eval_text cb allow_list s) (\<lambda>r. Inr (c # r)))"
  by pat_completeness auto
termination
  by (relation "measure (\<lambda>(_, _, s). length s)") (auto dest: substitute_rest)

declare eval_text.simps [simp del]

definition eval_string_param :: "param_getter \<Rightarrow> bool \<Rightarrow> string \<Rightarrow> string result" where
  "eval_string_param cb allow_list param_str = eval_text cb allow_list (c_str param_str)"

section \<open>Encoding\<close>

definition hex_digit :: "nat \<Rightarrow> char" where
  "hex_digit n = char_of (if n < 10 then 48 + n else 55 + n)"

definition url_special :: "char list" where
  "url_special = ''$&+/=?@'' @ [CHR 0x27, CHR 0x22] @ ''<>#%{}|'' @ [CHR 0x5C] @ ''^~[]''"

definition encode_char :: "char \<Rightarrow> string" where
  "encode_char c =
     (let n = (of_char c :: nat) in
      if n \<le> 0x1F \<or> n \<ge> 0x7F \<or> c \<in> set url_special then [CHR ''%'', hex_digit (n div 16), hex_digit (n mod 16)]
      else if c = CHR '' '' then ''+''
      else [c])"

definition encode :: "string \<Rightarrow> string" where
  "encode text = concat (map encode_char text)"

text \<open>The separator is chosen from the template, not from the URL that it yields.\<close>

definition first_param_separator :: "string \<Rightarrow> string" where
  "first_param_separator url =
     (if url \<noteq> [] \<and> last url \<noteq> CHR ''?''
      then (if CHR ''?'' \<in> set (c_str url) then (if last url \<noteq> CHR ''&'' then ''&'' else []) else ''?'')
      else [])"

fun append_separate :: "string \<Rightarrow> string list \<Rightarrow> string \<times> string \<Rightarrow> string \<times> string" where
  "append_separate name [] (out, sep) = (out, sep)"
| "append_separate name (v # vs) (out, sep) =
     append_separate name vs (out @ sep @ encode name @ ''='' @ encode v, ''&'')"

fun append_list :: "string list \<Rightarrow> string \<Rightarrow> string \<Rightarrow> string result" where
  "append_list [] sep2 out = Inr out"
| "append_list (v # vs) sep2 out =
     (if CHR '','' \<in> set (c_str v) then Inl (Thrown NoCode ''List items are not permitted to contain commas'')
      else append_list vs '','' (out @ sep2 @ encode v))"

definition append_param_ref :: "string \<Rightarrow> bool \<Rightarrow> bool \<Rightarrow> string list \<Rightarrow> string \<times> string \<Rightarrow> (string \<times> string) result" where
  "append_param_ref name omit_empty separate values st = (case st of (out, sep) \<Rightarrow>
     if separate then Inr (append_separate name values (out, sep))
     else if \<not> (omit_empty \<and> values = [])
     then rbind (append_list values [] (out @ sep @ encode name @ ''='')) (\<lambda>out. Inr (out, ''&''))
     else Inr (out, sep))"

definition append_url_param :: "param_getter \<Rightarrow> url_param \<Rightarrow> string \<times> string \<Rightarrow> (string \<times> string) result" where
  "append_url_param cb p st = (case p of
       ParamRef name omit_empty separate \<Rightarrow> rbind (cb name) (\<lambda>values. append_param_ref name omit_empty separate values st)
     | StringParam name value \<Rightarrow> (case st of (out, sep) \<Rightarrow>
         rbind (eval_string_param cb True value) (\<lambda>v. Inr (out @ sep @ encode name @ ''='' @ encode v, ''&''))))"

definition generate :: "url_template \<Rightarrow> param_getter \<Rightarrow> string result" where
  "generate g cb =
     rbind (eval_string_param cb False (ug_url g)) (\<lambda>u.
       if ug_params g = [] then Inr u
       else rbind (fold_result (append_url_param cb) (ug_params g) (u, first_param_separator (ug_url g))) (\<lambda>(out, sep).
         Inr out))"

section \<open>Decoding\<close>

text \<open>What the receiver of a query string makes of it.\<close>

definition hex_value :: "char \<Rightarrow> nat" where
  "hex_value c = (let n = of_char c in if n < 58 then n - 48 else n - 55)"

fun decode_form :: "string \<Rightarrow> string" where
  "decode_form (c # h # l # s) =
     (if c = CHR ''%'' then char_of (16 * hex_value h + hex_value l) # decode_form s
      else (if c = CHR ''+'' then CHR '' '' else c) # decode_form (h # l # s))"
| "decode_form (c # s) = (if c = CHR ''+'' then CHR '' '' else c) # decode_form s"
| "decode_form [] = []"

definition decode_pair :: "string \<Rightarrow> string \<times> string" where
  "decode_pair s = (decode_form (takeWhile (\<lambda>c. c \<noteq> CHR ''='') s), decode_form (tl (dropWhile (\<lambda>c. c \<noteq> CHR ''='') s)))"

definition decode_query :: "string \<Rightarrow> (string \<times> string) list" where
  "decode_query s = (if s = [] then [] else map decode_pair (split_at CHR ''&'' s))"

text \<open>The name and value pairs that a template promises.\<close>

definition param_pairs :: "param_getter \<Rightarrow> url_param \<Rightarrow> (string \<times> string) list result" where
  "param_pairs cb p = (case p of
       ParamRef name omit_empty separate \<Rightarrow> rbind (cb name) (\<lambda>values.
         if separate then Inr (map (\<lambda>v. (name, v)) values)
         else if omit_empty \<and> values = [] then Inr []
         else Inr [(name, join_comma values)])
     | StringParam name value \<Rightarrow> rbind (eval_string_param cb True value) (\<lambda>v. Inr [(name, v)]))"


section \<open>Decoding of encoded text\<close>

lemma hex_value_digit: "n < 16 \<Longrightarrow> hex_value (hex_digit n) = n"
  by (simp add: hex_value_def hex_digit_def)

lemma hex_digit_plain: "n < 16 \<Longrightarrow> hex_digit n \<noteq> CHR ''&'' \<and> hex_digit n \<noteq> CHR ''=''"
proof -
  assume "n < 16"
  then have "(of_char (hex_digit n) :: nat) = (if n < 10 then 48 + n else 55 + n)"
    by (simp add: hex_digit_def)
  with \<open>n < 16\<close> have "(of_char (hex_digit n) :: nat) \<noteq> 38" "(of_char (hex_digit n) :: nat) \<noteq> 61" by auto
  then show ?thesis by auto
qed

lemma decode_plain: "c \<noteq> CHR ''%'' \<Longrightarrow> decode_form (c # t) = (if c = CHR ''+'' then CHR '' '' else c) # decode_form t"
  by (cases t rule: decode_form.cases) simp_all

lemma decode_encode_char: "decode_form (encode_char c @ t) = c # decode_form t"
proof -
  let ?n = "of_char c :: nat"
  have n: "?n < 256" by simp
  have "char_of (16 * (?n div 16) + ?n mod 16) = c" by (simp only: mult_div_mod_eq) simp
  then have hex: "decode_form (CHR ''%'' # hex_digit (?n div 16) # hex_digit (?n mod 16) # t) = c # decode_form t"
    using n by (simp add: hex_value_digit less_mult_imp_div_less)
  show ?thesis
  proof (cases "?n \<le> 0x1F \<or> ?n \<ge> 0x7F \<or> c \<in> set url_special")
    case True
    then show ?thesis using hex by (simp add: encode_char_def Let_def)
  next
    case False
    then have "c \<noteq> CHR ''%''" "c \<noteq> CHR ''+''" by (auto simp: url_special_def)
    with False show ?thesis by (auto simp: encode_char_def Let_def decode_plain)
  qed
qed

lemma decode_encode: "decode_form (encode s @ t) = s @ decode_form t"
  by (induction s) (simp_all add: encode_def decode_encode_char)

lemma encode_char_free: "CHR ''&'' \<notin> set (encode_char c) \<and> CHR ''='' \<notin> set (encode_char c)"
proof -
  have special: "CHR ''&'' \<in> set url_special" "CHR ''='' \<in> set url_special" by (simp_all add: url_special_def)
  define h l where "h = hex_digit (of_char c div 16)" and "l = hex_digit (of_char c mod 16)"
  have "(of_char c :: nat) < 256" by simp
  then have "(of_char c :: nat) div 16 < 16" by (simp add: less_mult_imp_div_less)
  then have "h \<noteq> CHR ''&''" "h \<noteq> CHR ''=''" "l \<noteq> CHR ''&''" "l \<noteq> CHR ''=''"
    using hex_digit_plain by (auto simp: h_def l_def)
  moreover have "encode_char c = [CHR ''%'', h, l] \<or> encode_char c = ''+'' \<or> encode_char c = [c] \<and> c \<notin> set url_special"
    by (simp add: encode_char_def Let_def h_def l_def)
  ultimately show ?thesis using special by auto
qed

lemma encode_free: "CHR ''&'' \<notin> set (encode s)" "CHR ''='' \<notin> set (encode s)"
  using encode_char_free by (auto simp: encode_def)

section \<open>Pieces of a query\<close>

fun join_amp :: "string list \<Rightarrow> string" where
  "join_amp [] = []"
| "join_amp [p] = p"
| "join_amp (p # ps) = p @ ''&'' @ join_amp ps"

lemma join_amp_snoc: "join_amp (ps @ [p]) = (if ps = [] then p else join_amp ps @ ''&'' @ p)"
  by (induction ps rule: join_amp.induct) auto

lemma split_at_append: "c \<notin> set p \<Longrightarrow> split_at c (p @ c # s) = p # split_at c s"
  by (induction p) auto

lemma split_at_free_one: "c \<notin> set p \<Longrightarrow> split_at c p = [p]"
  by (induction p) auto

lemma split_join: "ps \<noteq> [] \<Longrightarrow> \<forall>p \<in> set ps. CHR ''&'' \<notin> set p \<Longrightarrow> split_at CHR ''&'' (join_amp ps) = ps"
  by (induction ps rule: join_amp.induct) (auto simp: split_at_append split_at_free_one)

definition piece_of :: "string \<Rightarrow> string \<times> string \<Rightarrow> bool" where
  "piece_of p pr \<longleftrightarrow> (\<exists>w. p = encode (fst pr) @ ''='' @ w \<and> CHR ''&'' \<notin> set w \<and> decode_form w = snd pr)"

lemma piece_decode:
  assumes "piece_of p pr"
  shows "decode_pair p = pr" and "CHR ''&'' \<notin> set p"
proof -
  from assms obtain w where w: "p = encode (fst pr) @ CHR ''='' # w" "CHR ''&'' \<notin> set w" "decode_form w = snd pr"
    by (auto simp: piece_of_def)
  have tw: "takeWhile (\<lambda>c. c \<noteq> CHR ''='') p = encode (fst pr)" "dropWhile (\<lambda>c. c \<noteq> CHR ''='') p = CHR ''='' # w"
    using encode_free(2) [of "fst pr"] by (auto simp: w(1) takeWhile_append dropWhile_append)
  show "decode_pair p = pr"
    using w(3) decode_encode [of "fst pr" "[]"] by (simp add: decode_pair_def tw)
  show "CHR ''&'' \<notin> set p" using w(1,2) encode_free(1) by auto
qed

lemma decode_query_join:
  assumes "list_all2 piece_of ps prs"
  shows "decode_query (join_amp ps) = prs"
proof (cases "ps = []")
  case True
  then show ?thesis using assms by (simp add: decode_query_def)
next
  case False
  have "\<forall>p \<in> set ps. CHR ''&'' \<notin> set p"
    using assms by (induction rule: list_all2_induct) (auto dest: piece_decode(2))
  then have "split_at CHR ''&'' (join_amp ps) = ps" by (rule split_join [OF False])
  moreover have "map decode_pair ps = prs"
    using assms by (induction rule: list_all2_induct) (auto dest: piece_decode(1))
  moreover have "join_amp ps \<noteq> []"
    using False assms by (cases ps rule: join_amp.cases) (auto simp: piece_of_def list_all2_Cons1)
  ultimately show ?thesis by (simp add: decode_query_def)
qed

text \<open>The state of the loop over the parameters once the pieces \<open>ps\<close> have been written after \<open>u\<close>.\<close>

definition written :: "string \<Rightarrow> string \<Rightarrow> string list \<Rightarrow> string \<times> string" where
  "written u sep ps = (u @ (if ps = [] then [] else sep @ join_amp ps), if ps = [] then sep else ''&'')"

lemma written_snoc: "written u sep (ps @ [p]) = (fst (written u sep ps) @ snd (written u sep ps) @ p, ''&'')"
  by (simp add: written_def join_amp_snoc)

lemma append_separate_written:
  "\<exists>qs. append_separate name vs (written u sep ps) = written u sep (ps @ qs) \<and>
     list_all2 piece_of qs (map (\<lambda>v. (name, v)) vs)"
proof (induction vs arbitrary: ps)
  case Nil
  then show ?case by (simp add: written_def)
next
  case (Cons v vs)
  let ?p = "encode name @ ''='' @ encode v"
  have "piece_of ?p (name, v)"
    using decode_encode [of v "[]"] encode_free(1) by (auto simp: piece_of_def)
  moreover obtain a b where ab: "written u sep ps = (a, b)" by (cases "written u sep ps")
  then have "append_separate name (v # vs) (written u sep ps) = append_separate name vs (written u sep (ps @ [?p]))"
    by (simp add: written_snoc)
  moreover obtain qs where "append_separate name vs (written u sep (ps @ [?p])) = written u sep ((ps @ [?p]) @ qs)"
    "list_all2 piece_of qs (map (\<lambda>v. (name, v)) vs)"
    using Cons.IH [of "ps @ [?p]"] by blast
  ultimately show ?case by (intro exI [of _ "?p # qs"]) simp
qed

lemma append_list_decodes:
  assumes "append_list vs sep2 out = Inr out'" "sep2 = [] \<or> sep2 = '',''"
  shows "\<exists>w. out' = out @ w \<and> CHR ''&'' \<notin> set w \<and> decode_form w = (if vs = [] then [] else sep2 @ join_comma vs)"
  using assms
proof (induction vs arbitrary: sep2 out)
  case (Cons v vs)
  then have "append_list vs '','' (out @ sep2 @ encode v) = Inr out'" by (simp split: if_splits)
  from Cons.IH [OF this] obtain w where w: "out' = (out @ sep2 @ encode v) @ w" "CHR ''&'' \<notin> set w"
    "decode_form w = (if vs = [] then [] else '','' @ join_comma vs)"
    by blast
  have "decode_form (sep2 @ encode v @ w) = sep2 @ join_comma (v # vs)"
    using Cons.prems(2) w(3) by (cases vs) (auto simp: decode_plain decode_encode)
  then show ?case
    using w Cons.prems(2) encode_free(1) [of v] by (intro exI [of _ "sep2 @ encode v @ w"]) auto
qed simp

lemma append_url_param_written:
  assumes "append_url_param cb p (written u sep ps) = Inr st"
  shows "\<exists>qs prs. st = written u sep (ps @ qs) \<and> param_pairs cb p = Inr prs \<and> list_all2 piece_of qs prs"
proof (cases p)
  case (ParamRef name omit_empty separate)
  with assms obtain vs where vs: "cb name = Inr vs" "append_param_ref name omit_empty separate vs (written u sep ps) = Inr st"
    by (auto simp: append_url_param_def result_simps)
  consider "separate" | "\<not> separate" "omit_empty \<and> vs = []" | "\<not> separate" "\<not> (omit_empty \<and> vs = [])" by blast
  then show ?thesis
  proof cases
    case 1
    then show ?thesis
      using vs append_separate_written [of name vs u sep ps] ParamRef
      by (auto simp: append_param_ref_def param_pairs_def split: prod.splits)
  next
    case 2
    then show ?thesis
      using vs ParamRef by (intro exI [of _ "[]"] exI [of _ "[]"]) (auto simp: append_param_ref_def param_pairs_def split: prod.splits)
  next
    case 3
    let ?w = "written u sep ps"
    from 3 vs(2) obtain out' where out': "append_list vs [] (fst ?w @ snd ?w @ encode name @ ''='') = Inr out'" "st = (out', ''&'')"
      by (auto simp: append_param_ref_def result_simps split: prod.splits if_splits)
    from append_list_decodes [OF out'(1)] obtain w where w: "out' = (fst ?w @ snd ?w @ encode name @ ''='') @ w"
      "CHR ''&'' \<notin> set w" "decode_form w = join_comma vs"
      by (auto split: if_splits)
    have "piece_of (encode name @ ''='' @ w) (name, join_comma vs)" using w by (auto simp: piece_of_def)
    moreover have "st = written u sep (ps @ [encode name @ ''='' @ w])"
      using out'(2) w(1) by (simp only: written_snoc) simp
    ultimately show ?thesis
      using 3 vs(1) ParamRef by (intro exI [of _ "[encode name @ ''='' @ w]"]) (auto simp: param_pairs_def)
  qed
next
  case (StringParam name val)
  let ?w = "written u sep ps"
  from assms StringParam obtain v where v: "eval_string_param cb True val = Inr v"
    "st = (fst ?w @ snd ?w @ encode name @ ''='' @ encode v, ''&'')"
    by (auto simp: append_url_param_def result_simps split: prod.splits)
  have "piece_of (encode name @ ''='' @ encode v) (name, v)"
    using decode_encode [of v "[]"] encode_free(1) by (auto simp: piece_of_def)
  moreover have "st = written u sep (ps @ [encode name @ ''='' @ encode v])"
    using v(2) by (simp only: written_snoc)
  ultimately show ?thesis
    using v(1) StringParam by (intro exI [of _ "[encode name @ ''='' @ encode v]"]) (auto simp: param_pairs_def)
qed


lemma append_url_params_written:
  assumes "fold_result (append_url_param cb) params (written u sep ps) = Inr st"
  shows "\<exists>qs prss. st = written u sep (ps @ qs) \<and> map_result (param_pairs cb) params = Inr prss \<and>
    list_all2 piece_of qs (concat prss)"
  using assms
proof (induction params arbitrary: ps)
  case Nil
  then show ?case by (intro exI [of _ "[]"]) auto
next
  case (Cons p params)
  then obtain st1 where st1: "append_url_param cb p (written u sep ps) = Inr st1"
    "fold_result (append_url_param cb) params st1 = Inr st"
    by (auto simp: result_simps)
  from append_url_param_written [OF st1(1)] obtain qs1 prs1 where one: "st1 = written u sep (ps @ qs1)"
    "param_pairs cb p = Inr prs1" "list_all2 piece_of qs1 prs1" by blast
  from Cons.IH [of "ps @ qs1"] st1(2) one(1) obtain qs prss where rest: "st = written u sep ((ps @ qs1) @ qs)"
    "map_result (param_pairs cb) params = Inr prss" "list_all2 piece_of qs (concat prss)" by blast
  with one show ?case
    by (intro exI [of _ "qs1 @ qs"] exI [of _ "prs1 # prss"]) (auto intro: list_all2_appendI)
qed

section \<open>Properties\<close>

text \<open>
  C27. The receiver of a generated URL reads back the parameters that the template promises: after
  the substituted URL and a separator chosen from the template comes a query whose decoding is
  exactly the list of the names and values, whatever characters they hold.  A separate reference
  gives a pair for every value, an optional one none if it has no values, any other one pair with
  the values joined by commas.
\<close>

theorem generated_url_round_trip:
  assumes "generate g cb = Inr out"
  shows "\<exists>u prss query. eval_string_param cb False (ug_url g) = Inr u \<and>
    map_result (param_pairs cb) (ug_params g) = Inr prss \<and> decode_query query = concat prss \<and>
    out = u @ (if concat prss = [] then [] else first_param_separator (ug_url g) @ query)"
proof -
  from assms obtain u where u: "eval_string_param cb False (ug_url g) = Inr u"
    by (auto simp: generate_def result_simps)
  show ?thesis
  proof (cases "ug_params g = []")
    case True
    then show ?thesis using assms u by (auto simp: generate_def decode_query_def)
  next
    case False
    let ?sep = "first_param_separator (ug_url g)"
    have w: "written u ?sep [] = (u, ?sep)" by (simp add: written_def)
    from assms u False obtain sep where "fold_result (append_url_param cb) (ug_params g) (written u ?sep []) = Inr (out, sep)"
      by (auto simp: generate_def result_simps w)
    from append_url_params_written [OF this] obtain qs prss where q: "(out, sep) = written u ?sep qs"
      "map_result (param_pairs cb) (ug_params g) = Inr prss" "list_all2 piece_of qs (concat prss)" by auto
    then have "qs = [] \<longleftrightarrow> concat prss = []" by (cases qs; cases "concat prss") auto
    with q u decode_query_join [OF q(3)] show ?thesis
      by (intro exI [of _ u] exI [of _ prss] exI [of _ "join_amp qs"]) (auto simp: written_def)
  qed
qed

definition demo_url :: url_template where
  "demo_url = \<lparr>ug_url = ''/x'', ug_params = [StringParam ''a'' ''b&c'', ParamRef ''p'' False False]\<rparr>"

lemma generated_url_round_trip_witness:
  "\<exists>query. generate demo_url (\<lambda>_. Inr [''1'', ''2'']) = Inr (''/x?'' @ query) \<and>
     decode_query query = [(''a'', ''b&c''), (''p'', ''1,2'')]"
proof -
  let ?cb = "\<lambda>_. Inr [''1'', ''2''] :: string list result"
  have gen: "generate demo_url ?cb = Inr ''/x?a=b%26c&p=1,2''"
    by code_simp
  have ev: "eval_string_param ?cb False (ug_url demo_url) = Inr ''/x''"
    "map_result (param_pairs ?cb) (ug_params demo_url) = Inr [[(''a'', ''b&c'')], [(''p'', ''1,2'')]]"
    "first_param_separator (ug_url demo_url) = ''?''"
    by code_simp+
  from generated_url_round_trip [OF gen] ev show ?thesis by (auto simp: gen)
qed

section \<open>Limits\<close>

text \<open>What follows the closing brace of a reference is dropped without an error.\<close>

lemma reference_tail_ignored: "parse_param_def ''${x}=1'' = Inr (ParamRef ''x'' False False)"
  by code_simp

text \<open>The separator is that of the template, even if the substituted URL has a query part of its own.\<close>

lemma separator_of_template:
  "generate \<lparr>ug_url = ''${u}'', ug_params = [StringParam ''a'' ''1'']\<rparr> (\<lambda>_. Inr [''/x?b=2'']) = Inr ''/x?b=2?a=1''"
  by code_simp

end
