(* ===== verification/TimeParams.thy ===== *)
theory TimeParams
  imports ParamRegistry
begin

text \<open>
  \<open>libwfs/SupportsTimeParameters.cpp\<close>: the times a request asks for.  The options are those of
  \<open>TS::TimeSeriesGeneratorOptions\<close>; the operations of its date-time type and the product of a time
  step and a number of steps, which is taken at the integer type of the options, are components of
  \<open>time_ops\<close>.
\<close>

section \<open>Options\<close>

datatype time_mode = DataTimes | TimeSteps | FixedTimes

record 'dt time_options =
  to_mode :: time_mode
  to_times :: "nat list"
  to_step :: "nat option"
  to_steps :: "nat option"
  to_start :: 'dt
  to_end :: 'dt
  to_start_utc :: bool
  to_end_utc :: bool

record 'dt time_ops =
  tm_new :: "'dt time_options"
  tm_add_minutes :: "'dt \<Rightarrow> int \<Rightarrow> 'dt"
  tm_mul :: "nat \<Rightarrow> nat \<Rightarrow> int"

section \<open>The parameters\<close>

definition bad_request :: "string \<Rightarrow> 'a result" where
  "bad_request msg = Inl (Thrown ParsingFailed msg)"

text \<open>
  The requested hours and times are read as 64 bit numbers but kept in vectors of \<open>unsigned\<close>.
\<close>

definition add_fixed_hours :: "32 word list \<Rightarrow> 'dt time_options \<Rightarrow> 'dt time_options result" where
  "add_fixed_hours hours op =
     fold_result (\<lambda>hour op.
         let h = unat hour
         in if h \<le> 23 then Inr (op\<lparr>to_times := sset_insert (h * 100) (to_times op)\<rparr>)
            else bad_request ''Invalid hour value!'') hours (op\<lparr>to_mode := FixedTimes\<rparr>)"

definition add_fixed_times :: "32 word list \<Rightarrow> 'dt time_options \<Rightarrow> 'dt time_options result" where
  "add_fixed_times tms op =
     fold_result (\<lambda>tm op.
         let t = unat tm; h = t div 100; m = t mod 100
         in if h \<le> 23 \<and> m \<le> 59 then Inr (op\<lparr>to_times := sset_insert t (to_times op)\<rparr>)
            else bad_request ''Invalid time value!'') tms (op\<lparr>to_mode := FixedTimes\<rparr>)"

definition set_time_step :: "uint64 \<Rightarrow> 'dt time_options \<Rightarrow> 'dt time_options result" where
  "set_time_step time_step op =
     (if to_mode op \<noteq> TimeSteps then bad_request ''Cannot use timestep option in this time mode!''
      else if time_step = 0 then Inr (op\<lparr>to_mode := DataTimes\<rparr>)
      else if 1440 mod time_step \<noteq> 0 then bad_request ''Invalid time step value!''
      else Inr (op\<lparr>to_step := Some (unat time_step)\<rparr>))"

definition INT_MAX :: nat where
  "INT_MAX = 2 ^ 31 - 1"

definition set_num_steps :: "uint64 \<Rightarrow> 'dt time_options \<Rightarrow> 'dt time_options result" where
  "set_num_steps num_steps op =
     (if 0 < unat num_steps \<and> unat num_steps \<le> INT_MAX then Inr (op\<lparr>to_steps := Some (unat num_steps)\<rparr>)
      else bad_request ''Invalid number of time steps!'')"

definition add_start_step :: "'dt time_ops \<Rightarrow> uint64 \<Rightarrow> 'dt time_options \<Rightarrow> 'dt time_options result" where
  "add_start_step M start_step op =
     (if 10000 < unat start_step then bad_request ''Invalid start step value!''
      else case to_step op of
          None \<Rightarrow> Inl (Undefined ''empty optional'')
        | Some st \<Rightarrow> Inr (op\<lparr>to_start := tm_add_minutes M (to_start op) (int (unat start_step * st))\<rparr>))"

definition if_given :: "'a option \<Rightarrow> ('a \<Rightarrow> 's \<Rightarrow> 's result) \<Rightarrow> 's \<Rightarrow> 's result" where
  "if_given x f s = (case x of None \<Rightarrow> Inr s | Some v \<Rightarrow> f v s)"

definition uint_values ::
    "(string \<Rightarrow> string) \<Rightarrow> 'dt value_conv \<Rightarrow> string \<Rightarrow> 'dt spine_value rpm \<Rightarrow> 32 word list result" where
  "uint_values lc C name param =
     rbind (rpm_get lc (vc_uint C) name 0 SIZE_MAX 0 param) (\<lambda>vs. Inr (map ucast vs))"

definition set_begin_time ::
    "(string \<Rightarrow> string) \<Rightarrow> 'dt value_conv \<Rightarrow> 'dt spine_value rpm \<Rightarrow> 'dt time_options \<Rightarrow> 'dt time_options result" where
  "set_begin_time lc C param op =
     (if rpm_count lc param ''beginTime'' \<noteq> 0
      then rbind (get_single lc (vc_time C) ''beginTime'' param) (\<lambda>t. Inr (op\<lparr>to_start := t\<rparr>))
      else Inr op)"

definition set_end_time ::
    "(string \<Rightarrow> string) \<Rightarrow> 'dt value_conv \<Rightarrow> 'dt time_ops \<Rightarrow> 'dt spine_value rpm \<Rightarrow> 'dt time_options \<Rightarrow>
     'dt time_options result" where
  "set_end_time lc C M param op =
     (if rpm_count lc param ''endTime'' \<noteq> 0
      then if to_steps op \<noteq> None
           then bad_request ''Cannot specify the time steps count and the end time simultaneusly!''
           else rbind (get_single lc (vc_time C) ''endTime'' param) (\<lambda>t. Inr (op\<lparr>to_end := t\<rparr>))
      else case to_steps op of
          Some n \<Rightarrow> (case to_step op of
              None \<Rightarrow> Inl (Undefined ''empty optional'')
            | Some st \<Rightarrow> Inr (op\<lparr>to_end := tm_add_minutes M (to_start op) (tm_mul M st n)\<rparr>))
        | None \<Rightarrow> Inr (op\<lparr>to_end := tm_add_minutes M (to_start op) (24 * 60)\<rparr>))"

definition default_step :: "'dt time_options \<Rightarrow> 'dt time_options" where
  "default_step op = (if to_step op = None then op\<lparr>to_step := Some 60\<rparr> else op)"

definition get_time_generator_options ::
    "(string \<Rightarrow> string) \<Rightarrow> 'dt value_conv \<Rightarrow> 'dt time_ops \<Rightarrow> 'dt spine_value rpm \<Rightarrow> 'dt time_options result" where
  "get_time_generator_options lc C M param =
     (let op = (tm_new M)\<lparr>to_end_utc := True, to_start_utc := True\<rparr> in
      rbind (uint_values lc C ''hours'' param) (\<lambda>hours.
      rbind (if hours \<noteq> [] then add_fixed_hours hours op else Inr op) (\<lambda>op.
      rbind (uint_values lc C ''times'' param) (\<lambda>tms.
      rbind (if tms \<noteq> [] then add_fixed_times tms op else Inr op) (\<lambda>op.
      rbind (get_optional lc (vc_uint C) ''timeStep'' param) (\<lambda>time_step.
      rbind (if_given time_step set_time_step op) (\<lambda>op.
      rbind (get_optional lc (vc_uint C) ''timeSteps'' param) (\<lambda>num_steps.
      rbind (if_given num_steps set_num_steps op) (\<lambda>op.
      rbind (set_begin_time lc C param (default_step op)) (\<lambda>op.
      rbind (get_optional lc (vc_uint C) ''startStep'' param) (\<lambda>start_step.
      rbind (if_given start_step (add_start_step M) op) (\<lambda>op.
      set_end_time lc C M param op))))))))))))"

section \<open>Well-formed options\<close>

definition valid_hhmm :: "nat \<Rightarrow> bool" where
  "valid_hhmm t \<longleftrightarrow> t div 100 \<le> 23 \<and> t mod 100 \<le> 59"

definition time_options_ok :: "'dt time_options \<Rightarrow> bool" where
  "time_options_ok op \<longleftrightarrow>
     to_start_utc op \<and> to_end_utc op \<and> list_all valid_hhmm (to_times op) \<and> (to_times op \<noteq> [] \<longrightarrow> to_mode op = FixedTimes) \<and>
     (\<forall>n. to_step op = Some n \<longrightarrow> 0 < n \<and> n dvd 1440) \<and>
     (\<forall>n. to_steps op = Some n \<longrightarrow> 0 < n \<and> n \<le> INT_MAX)"

lemma add_fixed_hours_ok:
  assumes "add_fixed_hours hours op = Inr op'" "time_options_ok op"
  shows "time_options_ok op' \<and> to_mode op' = FixedTimes"
  by (rule fold_result_invariant [OF assms(1) [unfolded add_fixed_hours_def]])
    (use assms(2) in \<open>auto simp: time_options_ok_def bad_request_def Let_def valid_hhmm_def list_all_iff split: if_splits\<close>)

lemma add_fixed_times_ok:
  assumes "add_fixed_times tms op = Inr op'" "time_options_ok op"
  shows "time_options_ok op' \<and> to_mode op' = FixedTimes"
  by (rule fold_result_invariant [OF assms(1) [unfolded add_fixed_times_def]])
    (use assms(2) in \<open>auto simp: time_options_ok_def bad_request_def Let_def valid_hhmm_def list_all_iff split: if_splits\<close>)

lemma set_time_step_ok:
  assumes "set_time_step n op = Inr op'" "time_options_ok op"
  shows "time_options_ok op'"
proof -
  have "0 < unat n \<and> unat n dvd 1440" if "n \<noteq> 0" "1440 mod n = 0"
  proof -
    have "unat (1440 mod n) = 1440 mod unat n" by (simp add: unat_mod)
    with that show ?thesis by (auto simp: unat_gt_0 dvd_eq_mod_eq_0)
  qed
  with assms show ?thesis
    by (auto simp: set_time_step_def bad_request_def time_options_ok_def split: if_splits)
qed

lemma time_options_ok_update [simp]:
  "time_options_ok (op\<lparr>to_start := t\<rparr>) = time_options_ok op"
  "time_options_ok (op\<lparr>to_end := t\<rparr>) = time_options_ok op"

  by (simp_all add: time_options_ok_def)

lemma set_num_steps_ok: "set_num_steps n op = Inr op' \<Longrightarrow> time_options_ok op \<Longrightarrow> time_options_ok op'"
  by (auto simp: set_num_steps_def bad_request_def time_options_ok_def split: if_splits)

lemma add_start_step_ok:
  "add_start_step M n op = Inr op' \<Longrightarrow> time_options_ok op \<Longrightarrow> time_options_ok op' \<and> to_step op' = to_step op"
  by (auto simp: add_start_step_def bad_request_def split: if_splits option.splits)

lemma set_begin_time_ok:
  "set_begin_time lc C param op = Inr op' \<Longrightarrow> time_options_ok op \<Longrightarrow> time_options_ok op' \<and> to_step op' = to_step op"
  by (auto simp: set_begin_time_def result_simps split: if_splits)

lemma default_step_ok: "time_options_ok op \<Longrightarrow> time_options_ok (default_step op) \<and> to_step (default_step op) \<noteq> None"
  by (auto simp: default_step_def time_options_ok_def)

lemma if_given_ok:
  "if_given x f s = Inr s' \<Longrightarrow> P s \<Longrightarrow> (\<And>v s'. f v s = Inr s' \<Longrightarrow> P s') \<Longrightarrow> P s'"
  by (cases x) (auto simp: if_given_def)

text \<open>The options before the end time is set.\<close>

lemma options_steps:
  assumes new: "time_options_ok ((tm_new M)\<lparr>to_end_utc := True, to_start_utc := True\<rparr>)"
    and "get_time_generator_options lc C M param = Inr op"
  obtains op0 where "time_options_ok op0" "to_step op0 \<noteq> None" "set_end_time lc C M param op0 = Inr op"
proof -
  let ?new = "(tm_new M)\<lparr>to_end_utc := True, to_start_utc := True\<rparr>"
  from assms(2) obtain hours op1 tms op2 ts op3 ns op4 op5 ss op6 where
    h: "(if hours \<noteq> [] then add_fixed_hours hours ?new else Inr ?new) = Inr op1"
    and t: "(if tms \<noteq> [] then add_fixed_times tms op1 else Inr op1) = Inr op2"
    and s: "if_given ts set_time_step op2 = Inr op3" and n: "if_given ns set_num_steps op3 = Inr op4"
    and b: "set_begin_time lc C param (default_step op4) = Inr op5"
    and st: "if_given ss (add_start_step M) op5 = Inr op6" and e: "set_end_time lc C M param op6 = Inr op"
    unfolding get_time_generator_options_def Let_def by (auto simp only: result_simps)
  have "time_options_ok op1"
    using h new add_fixed_hours_ok by (auto split: if_splits)
  then have ok2: "time_options_ok op2"
    using t add_fixed_times_ok by (auto split: if_splits)
  have ok3: "time_options_ok op3"
    by (rule if_given_ok [OF s, where P = time_options_ok, OF ok2]) (rule set_time_step_ok [OF _ ok2])
  have "time_options_ok op4"
    by (rule if_given_ok [OF n, where P = time_options_ok, OF ok3]) (rule set_num_steps_ok [OF _ ok3])
  then have ok5: "time_options_ok op5 \<and> to_step op5 \<noteq> None"
    using set_begin_time_ok [OF b] default_step_ok [of op4] by auto
  have "time_options_ok op6 \<and> to_step op6 \<noteq> None"
    by (rule if_given_ok [OF st, where P = "\<lambda>op. time_options_ok op \<and> to_step op \<noteq> None", OF ok5])
       (use ok5 add_start_step_ok in fastforce)
  with e show ?thesis using that by blast
qed

section \<open>Properties\<close>

text \<open>
  C29.  The options for an accepted request are sound: every requested time is an hour and minute
  of the day and there are none outside the mode of fixed times, the step divides a day, the
  number of steps fits an \<open>int\<close>, both ends are in UTC, and without an explicit end time the period
  is the requested number of steps or one day.
\<close>

theorem time_options_sound:
  assumes new: "time_options_ok ((tm_new M)\<lparr>to_end_utc := True, to_start_utc := True\<rparr>)"
    and ok: "get_time_generator_options lc C M param = Inr op"
  shows "list_all (\<lambda>t. t div 100 \<le> 23 \<and> t mod 100 \<le> 59) (to_times op) \<and>
    (to_times op \<noteq> [] \<longrightarrow> to_mode op = FixedTimes) \<and> to_start_utc op \<and> to_end_utc op \<and>
    (\<exists>step. to_step op = Some step \<and> 0 < step \<and> step dvd 1440 \<and>
      (rpm_count lc param ''endTime'' = 0 \<longrightarrow>
         to_end op = tm_add_minutes M (to_start op)
           (case to_steps op of Some n \<Rightarrow> tm_mul M step n | None \<Rightarrow> 24 * 60))) \<and>
    (\<forall>n. to_steps op = Some n \<longrightarrow> 0 < n \<and> n \<le> INT_MAX \<and> rpm_count lc param ''endTime'' = 0)"
proof (rule options_steps [OF new ok])
  fix op0 assume op0: "time_options_ok op0" "to_step op0 \<noteq> None" "set_end_time lc C M param op0 = Inr op"
  then obtain t where op: "op = op0\<lparr>to_end := t\<rparr>"
    by (auto simp: set_end_time_def bad_request_def result_simps split: if_splits option.splits)
  have fin: "(to_steps op0 \<noteq> None \<longrightarrow> rpm_count lc param ''endTime'' = 0) \<and>
      (rpm_count lc param ''endTime'' = 0 \<longrightarrow> (\<forall>step. to_step op0 = Some step \<longrightarrow>
         t = tm_add_minutes M (to_start op0) (case to_steps op0 of Some n \<Rightarrow> tm_mul M step n | None \<Rightarrow> 24 * 60)))"
    using op0 op by (auto simp: set_end_time_def bad_request_def result_simps split: if_splits option.splits)
       (metis time_options.select_convs(6) time_options.surjective time_options.update_convs(6))+
  with op0 op show ?thesis
    by (auto simp: time_options_ok_def valid_hhmm_def list_all_iff)
qed

definition demo_time_ops :: "unit time_ops" where
  "demo_time_ops = \<lparr>tm_new = \<lparr>to_mode = TimeSteps, to_times = [], to_step = None, to_steps = None,
       to_start = (), to_end = (), to_start_utc = False, to_end_utc = False\<rparr>,
     tm_add_minutes = (\<lambda>t _. t), tm_mul = (\<lambda>a b. int (a * b))\<rparr>"

definition uint_conv :: "unit value_conv" where
  "uint_conv = demo_conv\<lparr>vc_uint := \<lambda>v. case v of VUInt n \<Rightarrow> Inr n | _ \<Rightarrow> Inl (Thrown NoCode ''type'')\<rparr>"

definition hour_request :: "uint64 \<Rightarrow> unit spine_value rpm" where
  "hour_request n = \<lparr>rpm_params = [(''hours'', \<lparr>pi_real_name = ''hours'', pi_value = VUInt n\<rparr>)], rpm_case_sensitive = True\<rparr>"

lemma hour_options:
  assumes "unat (ucast n :: 32 word) \<le> 23"
  shows "\<exists>op. get_time_generator_options ascii_lower uint_conv demo_time_ops (hour_request n) = Inr op \<and>
    to_times op = [unat (ucast n :: 32 word) * 100]"
  using assms
  by (simp add: get_time_generator_options_def hour_request_def uint_values_def rpm_get_def get_values_def
      mm_values_def rpm_key_def uint_conv_def SIZE_MAX_def add_fixed_hours_def get_optional_def if_given_def
      set_begin_time_def rpm_count_def mm_count_def set_end_time_def default_step_def demo_time_ops_def
      sset_insert_def Let_def)

lemma time_options_sound_witness:
  "\<exists>op. get_time_generator_options ascii_lower uint_conv demo_time_ops (hour_request 5) = Inr op \<and>
     to_mode op = FixedTimes \<and> to_times op = [500]"
proof -
  obtain op where op: "get_time_generator_options ascii_lower uint_conv demo_time_ops (hour_request 5) = Inr op"
    and tms: "to_times op = [500]"
    using hour_options [of 5] by auto
  have "time_options_ok ((tm_new demo_time_ops)\<lparr>to_end_utc := True, to_start_utc := True\<rparr>)"
    by (simp add: time_options_ok_def demo_time_ops_def)
  from time_options_sound [OF this op] op tms show ?thesis by simp
qed

text \<open>
  A requested hour outside the day is not always refused: the 64 bit value is kept in 32 bits
  before it is checked, so that the hour \<open>2 ^ 32 + 5\<close> is taken as 5.
\<close>

theorem hour_truncated:
  "\<exists>op. get_time_generator_options ascii_lower uint_conv demo_time_ops (hour_request (2 ^ 32 + 5)) = Inr op \<and>
     to_times op = [500]"
proof -
  have "unat (ucast (2 ^ 32 + 5 :: uint64) :: 32 word) = 5" by simp
  with hour_options [of "2 ^ 32 + 5"] show ?thesis by simp
qed

end
