(* ===== verification/HandlerParams.thy ===== *)
theory HandlerParams
  imports TimeParams StoredQueries Convenience
begin

text \<open>
  The groups of parameters that handlers share: \<open>libwfs/SupportsBoundingBox.cpp\<close>,
  \<open>libwfs/SupportsMeteoParameterOptions.cpp\<close>, \<open>libwfs/SupportsQualityParameters.cpp\<close>,
  \<open>wfs/SupportsLocationParameters.cpp\<close> and \<open>wfs/SupportsTimeZone.cpp\<close>.  The geographical engine, the
  OGR library and the arithmetic of \<open>double\<close> are arguments.
\<close>

section \<open>Registration\<close>

text \<open>
  \<open>ss\<close> and \<open>sa\<close> look a scalar and an array setting up in the configuration.  The defaults of the
  declaration: at most 65535 values, in steps of one.
\<close>

record 'dt settings =
  st_scalar :: "string \<Rightarrow> 'dt spine_value option"
  st_array :: "string \<Rightarrow> 'dt setting option"

type_synonym 'dt reg_state = "'dt registry \<times> 'dt config"

definition reg_scalar ::
    "(string \<Rightarrow> string) \<Rightarrow> 'dt settings \<Rightarrow> type_ind \<Rightarrow> string \<Rightarrow> string \<Rightarrow> bool \<Rightarrow> 'dt reg_state \<Rightarrow> 'dt reg_state result" where
  "reg_scalar lc S t name description required st =
     register_scalar lc t name description required (st_scalar S name) st"

definition reg_array ::
    "(string \<Rightarrow> string) \<Rightarrow> 'dt settings \<Rightarrow> type_ind \<Rightarrow> string \<Rightarrow> string \<Rightarrow> nat \<Rightarrow> 'dt reg_state \<Rightarrow> 'dt reg_state result" where
  "reg_array lc S t name description min_size st =
     register_array lc t name description min_size 65535 1 (st_array S name) st"

definition register_bounding_box :: "(string \<Rightarrow> string) \<Rightarrow> 'dt settings \<Rightarrow> bool \<Rightarrow> 'dt reg_state \<Rightarrow> 'dt reg_state result" where
  "register_bounding_box lc S required =
     reg_scalar lc S P_BBOX ''boundingBox''
       ''The geographical location / area expressed by the bounding box coordinates'' required"

definition register_quality :: "(string \<Rightarrow> string) \<Rightarrow> 'dt settings \<Rightarrow> 'dt reg_state \<Rightarrow> 'dt reg_state result" where
  "register_quality lc S =
     reg_scalar lc S P_BOOL ''qualityInfo''
       (''quality code information of the measured values will be included in the response'' @
        '' if the parameter value is true.'') True"

definition register_time_zone :: "(string \<Rightarrow> string) \<Rightarrow> 'dt settings \<Rightarrow> 'dt reg_state \<Rightarrow> 'dt reg_state result" where
  "register_time_zone lc S = reg_scalar lc S P_STRING ''timeZone'' ''The time zone used in the response.'' True"

text \<open>The typographic quotes of the descriptions are in UTF-8.\<close>

definition quoted_utf8 :: "string \<Rightarrow> string" where
  "quoted_utf8 s = [CHR 0xE2, CHR 0x80, CHR 0x9C] @ s @ [CHR 0xE2, CHR 0x80, CHR 0x9D]"

definition register_time_params :: "(string \<Rightarrow> string) \<Rightarrow> 'dt settings \<Rightarrow> 'dt reg_state \<Rightarrow> 'dt reg_state result" where
  "register_time_params lc S st =
     rbind (reg_array lc S P_UINT ''hours''
       (''requested times expressed in the list of hours (for example '' @ quoted_utf8 ''12,13,18,19'' @ '')'') 0 st) (\<lambda>st.
     rbind (register_array lc P_UINT ''times''
       (''The requested times expressed in the list of hours and minutes HHMM (for example '' @
        quoted_utf8 ''1200,1230,1300,1330'' @ '').'') 0 999 1 (st_array S ''times'') st) (\<lambda>st.
     rbind (reg_scalar lc S P_TIME ''beginTime''
       ''The start time of the requested time period (YYYY-MM-DDTHHMIZ).'' False st) (\<lambda>st.
     rbind (reg_scalar lc S P_UINT ''startStep''
       ''The index number of the first selected time step since the start time.'' False st) (\<lambda>st.
     rbind (reg_scalar lc S P_TIME ''endTime''
       ''The end time of the requested time period (YYYY-MM-DDTHHMIZ).'' False st) (\<lambda>st.
     rbind (reg_scalar lc S P_UINT ''timeStep''
       ''The time interval between the requested records expressed in minutes.'' False st) (\<lambda>st.
     reg_scalar lc S P_UINT ''timeSteps''
       ''The number of the requested time steps (= number of data records).'' False st))))))"

text \<open>The options of the constructor are the bits of an \<open>unsigned\<close>.\<close>

record location_flags =
  lf_keywords :: bool
  lf_geoids :: bool
  lf_fmisids :: bool
  lf_wmos :: bool
  lf_lpnns :: bool

definition location_flags_of :: "32 word \<Rightarrow> location_flags" where
  "location_flags_of options =
     \<lparr>lf_keywords = bit options 1, lf_geoids = bit options 2, lf_fmisids = bit options 3,
      lf_wmos = bit options 4, lf_lpnns = bit options 5\<rparr>"

definition reg_if :: "bool \<Rightarrow> ('s \<Rightarrow> 's result) \<Rightarrow> 's \<Rightarrow> 's result" where
  "reg_if b f st = (if b then f st else Inr st)"

definition register_location_params ::
    "(string \<Rightarrow> string) \<Rightarrow> 'dt settings \<Rightarrow> location_flags \<Rightarrow> 'dt reg_state \<Rightarrow> 'dt reg_state result" where
  "register_location_params lc S fl st =
     rbind (reg_array lc S P_STRING ''places''
       ''The geographical location(s) expressed by an array of location names.'' 0 st) (\<lambda>st.
     rbind (register_array lc P_DOUBLE ''latlons''
       ''The geographical location(s) expressed by an array of latitude-longitude pairs.''
       0 999 2 (st_array S ''latlons'') st) (\<lambda>st.
     rbind (reg_if (lf_fmisids fl) (reg_array lc S P_INT ''fmisids''
       ''The geographical location(s) expressed by an array of fmisids'' 0) st) (\<lambda>st.
     rbind (reg_array lc S P_INT ''geoids''
       ''The geographical location(s) expressed by an array of geoids'' 0 st) (\<lambda>st.
     rbind (reg_if (lf_wmos fl) (reg_array lc S P_INT ''wmos''
       ''The geographical location(s) expressed by an array of WMOs'' 0) st) (\<lambda>st.
     rbind (reg_if (lf_lpnns fl) (reg_array lc S P_INT ''lpnns''
       ''The geographical location(s) expressed by an array of LPNNs'' 0) st) (\<lambda>st.
     rbind (reg_scalar lc S P_DOUBLE ''maxDistance''
       ''The maximum data search distance from the given geographical location(s).'' True st) (\<lambda>st.
     if lf_keywords fl
     then rbind (reg_scalar lc S P_STRING ''keyword''
            ''The geographical location(s) expressed by an array of keywords'' True st)
          (reg_scalar lc S P_BOOL ''keyword_overwritable''
            (''The default values listed in the \"keyword\" parameter can be overwritten by using'' @
             '' the location related input parameters only if the value of this parameter is'' @
             '' \"true\".'') True)
     else Inr st)))))))"

section \<open>Bounding boxes\<close>

record bbox =
  bb_xmin :: double
  bb_ymin :: double
  bb_xmax :: double
  bb_ymax :: double
  bb_crs :: string

definition bbox_of :: "double \<times> double \<times> double \<times> double \<times> string \<Rightarrow> bbox" where
  "bbox_of v = (case v of (x1, y1, x2, y2, crs) \<Rightarrow>
     \<lparr>bb_xmin = x1, bb_ymin = y1, bb_xmax = x2, bb_ymax = y2, bb_crs = crs\<rparr>)"

definition get_bounding_box ::
    "(string \<Rightarrow> string) \<Rightarrow> 'dt value_conv \<Rightarrow> string \<Rightarrow> 'dt spine_value rpm \<Rightarrow> bbox option result" where
  "get_bounding_box lc C default_crs params =
     (if rpm_count lc params ''boundingBox'' = 0 then Inr None
      else rbind (get_single lc (vc_bbox C) ''boundingBox'' params) (\<lambda>v.
        let bb = bbox_of v
        in Inr (Some (if trim_copy (bb_crs bb) = [] then bb\<lparr>bb_crs := default_crs\<rparr> else bb))))"

record double_ops =
  do_add :: "double \<Rightarrow> double \<Rightarrow> double"
  do_sub :: "double \<Rightarrow> double \<Rightarrow> double"
  do_mul :: "double \<Rightarrow> double \<Rightarrow> double"
  do_div :: "double \<Rightarrow> double \<Rightarrow> double"
  do_of_int :: "int \<Rightarrow> double"
  do_le :: "double \<Rightarrow> double \<Rightarrow> bool"

text \<open>
  \<open>closeRings\<close> repeats the first point when the last one differs from it; \<open>same\<close> compares the
  coordinates.
\<close>

definition close_ring :: "(double \<Rightarrow> double \<Rightarrow> bool) \<Rightarrow> (double \<times> double) list \<Rightarrow> (double \<times> double) list" where
  "close_ring same ps = (case ps of [] \<Rightarrow> []
     | (x, y) # _ \<Rightarrow> (case last ps of (u, v) \<Rightarrow> if same x u \<and> same y v then ps else ps @ [(x, y)]))"

definition bbox_ring :: "double_ops \<Rightarrow> bbox \<Rightarrow> int \<Rightarrow> (double \<times> double) list" where
  "bbox_ring D src npoints =
     (let at = (\<lambda>i step. do_mul D (do_of_int D i) step);
          x_step = do_div D (do_sub D (bb_xmax src) (bb_xmin src)) (do_of_int D (npoints - 1));
          y_step = do_div D (do_sub D (bb_ymax src) (bb_ymin src)) (do_of_int D (npoints - 1))
      in map (\<lambda>i. (bb_xmin src, do_add D (bb_ymin src) (at i y_step))) [0..npoints - 1] @
         map (\<lambda>i. (do_add D (bb_xmin src) (at i x_step), bb_ymax src)) [1..npoints - 1] @
         map (\<lambda>i. (bb_xmax src, do_sub D (bb_ymax src) (at i y_step))) [1..npoints - 1] @
         map (\<lambda>i. (do_sub D (bb_xmax src) (at i x_step), bb_ymin src)) [1..npoints - 1])"

definition bbox2polygon ::
    "double_ops \<Rightarrow> (double \<Rightarrow> double \<Rightarrow> bool) \<Rightarrow> bbox \<Rightarrow> int \<Rightarrow> (double \<times> double) list" where
  "bbox2polygon D same src npoints = close_ring same (bbox_ring D src npoints)"

text \<open>
  A transformation of the registry of coordinate systems: the name of its target and what it makes
  of a polygon; \<open>envelope\<close> is \<open>getEnvelope\<close>, least x and y before greatest x and y.
\<close>

record crs_ops =
  co_transformation :: "string \<Rightarrow> string \<Rightarrow> (string \<times> ((double \<times> double) list \<Rightarrow> (double \<times> double) list result)) result"
  co_envelope :: "(double \<times> double) list \<Rightarrow> double \<times> double \<times> double \<times> double"
  co_epsg :: "string \<Rightarrow> int option"
  co_lat_long :: "int \<Rightarrow> bool"

definition transform_bounding_box ::
    "double_ops \<Rightarrow> (double \<Rightarrow> double \<Rightarrow> bool) \<Rightarrow> crs_ops \<Rightarrow> bbox \<Rightarrow> string \<Rightarrow> int \<Rightarrow> bbox result" where
  "transform_bounding_box D same K src dest_crs npoints =
     rbind (co_transformation K (bb_crs src) dest_crs) (\<lambda>(dest_name, apply_to).
     rbind (apply_to (bbox2polygon D same src npoints)) (\<lambda>polygon.
       Inr (bbox_of (case co_envelope K polygon of (x1, y1, x2, y2) \<Rightarrow> (x1, y1, x2, y2, dest_name)))))"

text \<open>\<open>co_lat_long\<close>: whether OGR takes the EPSG code for latitude, longitude or northing, easting.\<close>

definition isInverseAxisOrderPossible :: "crs_ops \<Rightarrow> string \<Rightarrow> bool" where
  "isInverseAxisOrderPossible K crs = (case co_epsg K crs of None \<Rightarrow> False | Some epsg \<Rightarrow> co_lat_long K epsg)"

definition swapXYByBoundingBoxCrs :: "crs_ops \<Rightarrow> bbox \<Rightarrow> bbox" where
  "swapXYByBoundingBoxCrs K bb =
     (if isInverseAxisOrderPossible K (bb_crs bb)
      then bb\<lparr>bb_xmin := bb_ymin bb, bb_ymin := bb_xmin bb, bb_xmax := bb_ymax bb, bb_ymax := bb_xmax bb\<rparr>
      else bb)"

section \<open>Options of meteorological parameters\<close>

record meteo_option =
  mp_precision :: "64 word"
  mp_missing_value :: double
  mp_missing_text :: string
  mp_sensor_first :: "16 word"
  mp_sensor_last :: "16 word"
  mp_sensor_step :: "16 word"

text \<open>32700.0 as an IEEE 754 number.\<close>

definition default_meteo_option :: meteo_option where
  "default_meteo_option =
     \<lparr>mp_precision = 1, mp_missing_value = 0x40DFEF0000000000, mp_missing_text = ''NaN'',
      mp_sensor_first = 1, mp_sensor_last = 1, mp_sensor_step = 1\<rparr>"

record meteo_options =
  ms_map :: "(string \<times> meteo_option) list"
  ms_default :: meteo_option

text \<open>An entry of the configuration, with the values of its settings as they are typed there.\<close>

record raw_meteo_option =
  rm_name :: "string option"
  rm_precision :: "32 word option"
  rm_missing_value :: "double option"
  rm_missing_text :: "string option"
  rm_sensor_first :: "32 word option"
  rm_sensor_last :: "32 word option"
  rm_sensor_step :: "32 word option"

text \<open>The sensor numbers are cut to sixteen bits.\<close>

definition sensor_setting :: "16 word \<Rightarrow> 32 word option \<Rightarrow> 16 word" where
  "sensor_setting dflt v = ucast (or_default (ucast dflt) v)"

definition add_meteo_option ::
    "(string \<Rightarrow> string) \<Rightarrow> raw_meteo_option \<Rightarrow> meteo_options \<Rightarrow> meteo_options result" where
  "add_meteo_option lc raw ms =
     rbind (mandatory (rm_name raw)) (\<lambda>name.
       let d = ms_default ms; precision = or_default (ucast (mp_precision d)) (rm_precision raw)
       in if 15 < unat precision then Inl (Thrown ParsingFailed ''Invalid precision value!'')
          else let item = \<lparr>mp_precision = ucast precision,
                 mp_missing_value = or_default (mp_missing_value d) (rm_missing_value raw),
                 mp_missing_text = or_default (mp_missing_text d) (rm_missing_text raw),
                 mp_sensor_first = sensor_setting (mp_sensor_first d) (rm_sensor_first raw),
                 mp_sensor_last = sensor_setting (mp_sensor_last d) (rm_sensor_last raw),
                 mp_sensor_step = sensor_setting (mp_sensor_step d) (rm_sensor_step raw)\<rparr>
               in Inr (ms\<lparr>ms_map := or_default (ms_map ms) (sm_emplace (lc name) item (ms_map ms))\<rparr>))"

datatype meteo_setting = Meteo_list "raw_meteo_option list" | Meteo_other

definition read_meteo_options :: "(string \<Rightarrow> string) \<Rightarrow> meteo_setting option \<Rightarrow> meteo_options result" where
  "read_meteo_options lc setting =
     (let ms = \<lparr>ms_map = [], ms_default = default_meteo_option\<rparr> in
      case setting of
        None \<Rightarrow> Inr ms
      | Some Meteo_other \<Rightarrow> Inl (Thrown NoCode ''not a list'')
      | Some (Meteo_list raws) \<Rightarrow> fold_result (add_meteo_option lc) raws ms)"

definition get_meteo_parameter_options :: "(string \<Rightarrow> string) \<Rightarrow> meteo_options \<Rightarrow> string \<Rightarrow> meteo_option" where
  "get_meteo_parameter_options lc ms name = or_default (ms_default ms) (map_of (ms_map ms) (lc name))"

definition have_meteo_param_options :: "(string \<Rightarrow> string) \<Rightarrow> meteo_options \<Rightarrow> string \<Rightarrow> bool" where
  "have_meteo_param_options lc ms name \<longleftrightarrow> map_of (ms_map ms) (lc name) \<noteq> None"

definition set_default :: "(meteo_option \<Rightarrow> meteo_option) \<Rightarrow> meteo_options \<Rightarrow> meteo_options" where
  "set_default f ms = ms\<lparr>ms_default := f (ms_default ms)\<rparr>"

definition setDefaultPrecision :: "64 word \<Rightarrow> meteo_options \<Rightarrow> meteo_options result" where
  "setDefaultPrecision v ms =
     (if unat v \<le> 255 then Inr (set_default (mp_precision_update (\<lambda>_. v)) ms)
      else Inl (Thrown NoCode ''setDefaultPrecision: out of range''))"

definition setDefaultMissingText :: "string \<Rightarrow> meteo_options \<Rightarrow> meteo_options result" where
  "setDefaultMissingText txt ms =
     (if 1 < length txt \<and> length txt \<le> 64 then Inr (set_default (mp_missing_text_update (\<lambda>_. txt)) ms)
      else Inl (Thrown NoCode ''setDefaultMissingText: out of range''))"

text \<open>
  \<open>std::numeric_limits<float>::min()\<close> is the least positive normal number, 2 to the power of -126,
  and \<open>max()\<close> is below 2 to the power of 128, both exact as \<open>double\<close>.
\<close>

definition FLOAT_MIN :: double where
  "FLOAT_MIN = 0x3810000000000000"

definition FLOAT_MAX :: double where
  "FLOAT_MAX = 0x47EFFFFFE0000000"

definition setDefaultMissingValue :: "double_ops \<Rightarrow> double \<Rightarrow> meteo_options \<Rightarrow> meteo_options result" where
  "setDefaultMissingValue D v ms =
     (if do_le D FLOAT_MIN v \<and> do_le D v FLOAT_MAX then Inr (set_default (mp_missing_value_update (\<lambda>_. v)) ms)
      else Inl (Thrown NoCode ''setDefaultMissingValue: out of range''))"

definition setDefaultSensorFirst :: "16 word \<Rightarrow> meteo_options \<Rightarrow> meteo_options result" where
  "setDefaultSensorFirst v ms =
     (if unat v \<le> 255 then Inr (set_default (mp_sensor_first_update (\<lambda>_. v)) ms)
      else Inl (Thrown NoCode ''setDefaultSensorFirst: out of range''))"

definition setDefaultSensorLast :: "16 word \<Rightarrow> meteo_options \<Rightarrow> meteo_options result" where
  "setDefaultSensorLast v ms =
     (if unat v \<le> 255 then Inr (set_default (mp_sensor_last_update (\<lambda>_. v)) ms)
      else Inl (Thrown NoCode ''setDefaultSensorLast: out of range''))"

definition setDefaultSensorStep :: "16 word \<Rightarrow> meteo_options \<Rightarrow> meteo_options result" where
  "setDefaultSensorStep v ms =
     (if unat v \<le> 255 then Inr (set_default (mp_sensor_step_update (\<lambda>_. v)) ms)
      else Inl (Thrown NoCode ''setDefaultSensorStep: out of range''))"

section \<open>Quality codes and time zones\<close>

definition isQCParameter :: "(string \<Rightarrow> string) \<Rightarrow> string \<Rightarrow> bool" where
  "isQCParameter lc name \<longleftrightarrow> lc (take 3 name) = ''qc_''"

definition firstQCParameter :: "(string \<Rightarrow> string) \<Rightarrow> string list \<Rightarrow> string option" where
  "firstQCParameter lc parameters = List.find (isQCParameter lc) parameters"

definition supportQualityInfo :: "(string \<Rightarrow> string) \<Rightarrow> 'dt value_conv \<Rightarrow> 'dt spine_value rpm \<Rightarrow> bool result" where
  "supportQualityInfo lc C params = get_optional_default lc (vc_bool C) ''qualityInfo'' False params"

definition get_tz_name :: "(string \<Rightarrow> string) \<Rightarrow> 'dt value_conv \<Rightarrow> 'dt spine_value rpm \<Rightarrow> string result" where
  "get_tz_name lc C params =
     (if 0 < rpm_count lc params ''timeZone'' then get_single lc (vc_string C) ''timeZone'' params else Inr ''UTC'')"

text \<open>The time zones of the geographical engine: by place and by name of a region.\<close>

record 'tz tz_ops =
  tz_at :: "double \<Rightarrow> double \<Rightarrow> 'tz result"
  tz_region :: "string \<Rightarrow> 'tz result"

definition get_time_zone :: "(string \<Rightarrow> string) \<Rightarrow> 'tz tz_ops \<Rightarrow> string \<Rightarrow> 'tz result" where
  "get_time_zone lc Z tz_name =
     (let name = trim_copy tz_name
      in tz_region Z (if iequals lc name ''utc'' \<or> iequals lc name ''gmt'' then ''Etc/GMT'' else name))"

definition get_tz_for_site :: "(string \<Rightarrow> string) \<Rightarrow> 'tz tz_ops \<Rightarrow> double \<Rightarrow> double \<Rightarrow> string \<Rightarrow> 'tz result" where
  "get_tz_for_site lc Z longitude latitude tz_name =
     (if iequals lc tz_name ''local'' then tz_at Z longitude latitude else get_time_zone lc Z tz_name)"

section \<open>Locations\<close>

definition engOrFinToEnOrFi :: "(string \<Rightarrow> string) \<Rightarrow> string \<Rightarrow> string" where
  "engOrFinToEnOrFi lc language =
     (let lang = lc language
      in if lang = ''fin'' then ''fi'' else if lang = ''swe'' then ''sv''
         else if lang = ''eng'' then ''en'' else language)"

text \<open>The options of a search by name, as far as the code sets them.\<close>

record name_query =
  nq_language :: string
  nq_name_type :: "string option"
  nq_features :: "string option"

text \<open>A location pointer may be null.  \<open>ge_lonlat\<close> gets longitude and latitude.\<close>

record 'loc geo_engine =
  gn_lonlat :: "double \<Rightarrow> double \<Rightarrow> string \<Rightarrow> double \<Rightarrow> 'loc option result"
  gn_id :: "int64 \<Rightarrow> string \<Rightarrow> 'loc option result"
  gn_name :: "name_query \<Rightarrow> string \<Rightarrow> 'loc option list result"
  gn_keyword :: "string \<Rightarrow> string \<Rightarrow> 'loc option list result"
  gn_loc_name :: "'loc \<Rightarrow> string"

text \<open>
  What the code takes from elsewhere: the printed coordinates, the distance in kilometers, and the text
  of a name in UTF-8, from the encoding of the language if it is not valid.
\<close>

record 'loc location_env =
  le_geo :: "'loc geo_engine"
  le_coordinates :: "double \<Rightarrow> double \<Rightarrow> string"
  le_km :: "double \<Rightarrow> double"
  le_to_utf8 :: "string \<Rightarrow> string \<Rightarrow> string result"

type_synonym 'loc located = "string \<times> 'loc option"

definition in_long :: "int64 \<Rightarrow> bool" where
  "in_long v \<longleftrightarrow> - (2 ^ 63) \<le> sint v \<and> sint v \<le> 2 ^ 63 - 1"

definition latlon_pairs :: "'a list \<Rightarrow> ('a \<times> 'a) list" where
  "latlon_pairs values = map (\<lambda>i. (values ! (2 * i), values ! (2 * i + 1))) [0..<length values div 2]"

definition get_latlons ::
    "'loc location_env \<Rightarrow> string \<Rightarrow> double \<Rightarrow> double list \<Rightarrow> 'loc located list result" where
  "get_latlons E language max_distance values =
     (if odd (length values) then Inl (Thrown ParsingFailed ''Invalid location list in parameter latlon!'')
      else map_result (\<lambda>(lat, lon).
          rbind (gn_lonlat (le_geo E) lon lat language (le_km E max_distance)) (\<lambda>loc.
          Inr (le_coordinates E lon lat, loc))) (latlon_pairs values))"

definition get_geoids ::
    "(string \<Rightarrow> string) \<Rightarrow> 'dt value_conv \<Rightarrow> 'loc location_env \<Rightarrow> location_flags \<Rightarrow> string \<Rightarrow> 'dt spine_value rpm \<Rightarrow>
     'loc located list result" where
  "get_geoids lc C E fl language param =
     (if \<not> lf_geoids fl then Inr []
      else rbind (rpm_get lc (vc_int C) ''geoids'' 0 SIZE_MAX 0 param) (\<lambda>ids.
        map_result (\<lambda>id.
          if \<not> in_long id then Inl (Thrown ParsingFailed ''The geoid value is out of the range!'')
          else rbind (gn_id (le_geo E) id language) (\<lambda>loc. Inr (dec_int (sint id), loc))) ids))"

text \<open>The stations of the given numbers of one kind; without the option they are only looked up.\<close>

definition get_stations ::
    "(string \<Rightarrow> string) \<Rightarrow> 'dt value_conv \<Rightarrow> 'loc location_env \<Rightarrow> bool \<Rightarrow> string \<Rightarrow> string \<Rightarrow> string \<Rightarrow>
     'dt spine_value rpm \<Rightarrow> 'loc located list result" where
  "get_stations lc C E incl name name_type language param =
     (let opts = \<lparr>nq_language = language, nq_name_type = Some name_type,
                  nq_features = Some ''SYNOP,FINAVIA,STUK''\<rparr>
      in rbind (rpm_get lc (vc_int C) name 0 SIZE_MAX 0 param) (\<lambda>ids.
         rbind (map_result (\<lambda>id.
           if \<not> in_long id then Inl (Thrown ParsingFailed ''The value is out of the range!'')
           else rbind (gn_name (le_geo E) opts (dec_int (sint id))) (\<lambda>locs.
             if \<not> incl then Inr []
             else case locs of
               [] \<Rightarrow> Inl (Thrown ParsingFailed ''Unknown value!'')
             | loc # _ \<Rightarrow> Inr [(dec_int (sint id), loc)])) ids) (\<lambda>ls. Inr (concat ls))))"

definition get_fmisids ::
    "(string \<Rightarrow> string) \<Rightarrow> 'dt value_conv \<Rightarrow> 'loc location_env \<Rightarrow> location_flags \<Rightarrow> string \<Rightarrow> 'dt spine_value rpm \<Rightarrow>
     'loc located list result" where
  "get_fmisids lc C E fl = get_stations lc C E (lf_fmisids fl) ''fmisids'' ''fmisid''"

definition get_wmos ::
    "(string \<Rightarrow> string) \<Rightarrow> 'dt value_conv \<Rightarrow> 'loc location_env \<Rightarrow> location_flags \<Rightarrow> string \<Rightarrow> 'dt spine_value rpm \<Rightarrow>
     'loc located list result" where
  "get_wmos lc C E fl = get_stations lc C E (lf_wmos fl) ''wmos'' ''wmo''"

definition get_lpnns ::
    "(string \<Rightarrow> string) \<Rightarrow> 'dt value_conv \<Rightarrow> 'loc location_env \<Rightarrow> location_flags \<Rightarrow> string \<Rightarrow> 'dt spine_value rpm \<Rightarrow>
     'loc located list result" where
  "get_lpnns lc C E fl = get_stations lc C E (lf_lpnns fl) ''lpnns'' ''lpnn''"

definition get_places ::
    "(string \<Rightarrow> string) \<Rightarrow> 'dt value_conv \<Rightarrow> 'loc location_env \<Rightarrow> string \<Rightarrow> string \<Rightarrow> 'dt spine_value rpm \<Rightarrow>
     'loc located list result" where
  "get_places lc C E language_requested language param =
     rbind (rpm_get lc (vc_string C) ''places'' 0 SIZE_MAX 0 param) (\<lambda>names.
       map_result (\<lambda>name.
         rbind (le_to_utf8 E language_requested name) (\<lambda>utfname.
         rbind (gn_name (le_geo E) \<lparr>nq_language = language, nq_name_type = None, nq_features = None\<rparr> utfname) (\<lambda>ptrs.
           case ptrs of
             [] \<Rightarrow> Inl (Thrown ParsingFailed ''No locations found for the place with the requested language!'')
           | loc # _ \<Rightarrow> Inr (name, loc)))) names)"

definition get_keyword_locations ::
    "(string \<Rightarrow> string) \<Rightarrow> 'dt value_conv \<Rightarrow> 'loc location_env \<Rightarrow> string \<Rightarrow> 'dt spine_value rpm \<Rightarrow> 'loc located list result" where
  "get_keyword_locations lc C E language param =
     rbind (get_optional_default lc (vc_string C) ''keyword'' '''' param) (\<lambda>keyword.
       if trim_copy keyword = [] then Inr []
       else rbind (gn_keyword (le_geo E) language (trim_copy keyword)) (\<lambda>places.
         if places = [] then Inl (Thrown ParsingFailed ''No locations found for the keyword!'')
         else map_result (\<lambda>loc. case loc of
             None \<Rightarrow> Inl (Undefined ''null location'')
           | Some l \<Rightarrow> Inr (gn_loc_name (le_geo E) l, loc)) places))"

definition get_location_options ::
    "(string \<Rightarrow> string) \<Rightarrow> 'dt value_conv \<Rightarrow> 'loc location_env \<Rightarrow> location_flags \<Rightarrow> string \<Rightarrow> 'dt spine_value rpm \<Rightarrow>
     'loc located list result" where
  "get_location_options lc C E fl language_requested param =
     rbind (get_optional_default lc (vc_bool C) ''keyword_overwritable'' False param) (\<lambda>keyword_overwritable.
       let language = engOrFinToEnOrFi lc (lc language_requested) in
     rbind (get_single lc (vc_double C) ''maxDistance'' param) (\<lambda>max_distance.
     rbind (rpm_get lc (vc_double C) ''latlons'' 0 998 2 param) (\<lambda>values.
     rbind (get_latlons E language max_distance values) (\<lambda>latlons.
     rbind (get_geoids lc C E fl language param) (\<lambda>geoids.
     rbind (get_fmisids lc C E fl language param) (\<lambda>fmisids.
     rbind (get_wmos lc C E fl language param) (\<lambda>wmos.
     rbind (get_lpnns lc C E fl language param) (\<lambda>lpnns.
     rbind (get_places lc C E language_requested language param) (\<lambda>places.
       let locations = latlons @ geoids @ fmisids @ wmos @ lpnns @ places;
           locations_given = (locations \<noteq> [] \<or> 0 < rpm_count lc param ''fmisids'' \<or>
             0 < rpm_count lc param ''wmos'' \<or> 0 < rpm_count lc param ''boundingBox'')
       in if lf_keywords fl \<and> \<not> (keyword_overwritable \<and> locations_given)
          then rbind (get_keyword_locations lc C E language param) (\<lambda>ks. Inr (locations @ ks))
          else Inr locations)))))))))"

section \<open>What the locations are\<close>

lemma map_result_names:
  assumes "map_result f xs = Inr ys" "\<And>x y. f x = Inr y \<Longrightarrow> fst y = g x"
  shows "map fst ys = map g xs"
  using assms(1) by (induction xs arbitrary: ys) (auto simp: result_simps dest: assms(2))

definition id_names :: "bool \<Rightarrow> int64 list \<Rightarrow> string list" where
  "id_names incl ids = (if incl then map (\<lambda>id. dec_int (sint id)) ids else [])"

definition values_are :: "(string \<Rightarrow> string) \<Rightarrow> 'dt spine_value rpm \<Rightarrow> string \<Rightarrow> ('dt spine_value \<Rightarrow> 'b result) \<Rightarrow> 'b list \<Rightarrow> bool" where
  "values_are lc param name conv xs \<longleftrightarrow> map_result conv (get_values lc param name) = Inr xs"

lemma rpm_get_values: "rpm_get lc conv name mn mx step param = Inr xs \<Longrightarrow> values_are lc param name conv xs"
  by (auto simp: rpm_get_iff values_are_def Let_def)

lemma get_latlons_names:
  "get_latlons E language max_distance values = Inr locs \<Longrightarrow>
   map fst locs = map (\<lambda>(lat, lon). le_coordinates E lon lat) (latlon_pairs values)"
  by (auto simp: get_latlons_def result_simps split: if_splits intro!: map_result_names)

lemma get_geoids_names:
  assumes "get_geoids lc C E fl language param = Inr locs"
  obtains ids where "lf_geoids fl \<longrightarrow> values_are lc param ''geoids'' (vc_int C) ids" "map fst locs = id_names (lf_geoids fl) ids"
proof (cases "lf_geoids fl")
  case False
  with assms show ?thesis by (intro that [of "[]"]) (auto simp: get_geoids_def id_names_def)
next
  case True
  with assms obtain ids where ids: "rpm_get lc (vc_int C) ''geoids'' 0 SIZE_MAX 0 param = Inr ids"
    and locs: "map_result (\<lambda>id. if \<not> in_long id then Inl (Thrown ParsingFailed ''The geoid value is out of the range!'')
          else rbind (gn_id (le_geo E) id language) (\<lambda>loc. Inr (dec_int (sint id), loc))) ids = Inr locs"
    by (auto simp: get_geoids_def result_simps)
  have "map fst locs = map (\<lambda>id. dec_int (sint id)) ids"
    by (rule map_result_names [OF locs]) (auto simp: result_simps split: if_splits)
  with True rpm_get_values [OF ids] show ?thesis by (intro that [of ids]) (auto simp: id_names_def)
qed

lemma map_result_concat_names:
  assumes "map_result f xs = Inr ys" "\<And>x y. f x = Inr y \<Longrightarrow> map fst y = g x"
  shows "map fst (concat ys) = concat (map g xs)"
  using assms(1) by (induction xs arbitrary: ys) (auto simp: result_simps assms(2))

lemma get_stations_names:
  assumes "get_stations lc C E incl name name_type language param = Inr locs"
  obtains ids where "values_are lc param name (vc_int C) ids" "map fst locs = id_names incl ids"
proof -
  let ?opts = "\<lparr>nq_language = language, nq_name_type = Some name_type, nq_features = Some ''SYNOP,FINAVIA,STUK''\<rparr>"
  let ?f = "\<lambda>id. if \<not> in_long id then Inl (Thrown ParsingFailed ''The value is out of the range!'')
           else rbind (gn_name (le_geo E) ?opts (dec_int (sint id))) (\<lambda>locs.
             if \<not> incl then Inr []
             else case locs of
               [] \<Rightarrow> Inl (Thrown ParsingFailed ''Unknown value!'')
             | loc # _ \<Rightarrow> Inr [(dec_int (sint id), loc)])"
  from assms obtain ids ls where ids: "rpm_get lc (vc_int C) name 0 SIZE_MAX 0 param = Inr ids"
    and ls: "map_result ?f ids = Inr ls" "locs = concat ls"
    unfolding get_stations_def Let_def by (auto simp only: rbind_eq_Inr sum.inject)
  have "map fst locs = concat (map (\<lambda>id. id_names incl [id]) ids)"
    unfolding ls(2)
    by (rule map_result_concat_names [OF ls(1)])
      (auto simp: rbind_eq_Inr id_names_def split: if_splits list.splits)
  also have "\<dots> = id_names incl ids" by (induction ids) (auto simp: id_names_def)
  finally show ?thesis using that rpm_get_values [OF ids] by blast
qed

lemma get_places_names:
  assumes "get_places lc C E language_requested language param = Inr locs"
  shows "values_are lc param ''places'' (vc_string C) (map fst locs)"
proof -
  let ?f = "\<lambda>name. rbind (le_to_utf8 E language_requested name) (\<lambda>utfname.
    rbind (gn_name (le_geo E) \<lparr>nq_language = language, nq_name_type = None, nq_features = None\<rparr> utfname) (\<lambda>ptrs.
      case ptrs of
        [] \<Rightarrow> Inl (Thrown ParsingFailed ''No locations found for the place with the requested language!'')
      | loc # _ \<Rightarrow> Inr (name, loc)))"
  from assms obtain names where names: "rpm_get lc (vc_string C) ''places'' 0 SIZE_MAX 0 param = Inr names"
    and locs: "map_result ?f names = Inr locs"
    unfolding get_places_def by (auto simp only: rbind_eq_Inr)
  have "map fst locs = map (\<lambda>x. x) names"
  proof (rule map_result_names [OF locs])
    fix x y assume "?f x = Inr y"
    then obtain ptrs where "(case ptrs of
        [] \<Rightarrow> Inl (Thrown ParsingFailed ''No locations found for the place with the requested language!'')
      | loc # _ \<Rightarrow> Inr (x, loc)) = Inr y"
      unfolding rbind_eq_Inr by blast
    then show "fst y = x" by (cases ptrs) auto
  qed
  with rpm_get_values [OF names] show ?thesis by simp
qed

definition places_given :: "(string \<Rightarrow> string) \<Rightarrow> 'dt spine_value rpm \<Rightarrow> 'loc located list \<Rightarrow> bool" where
  "places_given lc param locs \<longleftrightarrow> locs \<noteq> [] \<or> 0 < rpm_count lc param ''fmisids'' \<or> 0 < rpm_count lc param ''wmos'' \<or>
     0 < rpm_count lc param ''boundingBox''"


text \<open>An engine that knows every place under the number 7, and a request with coordinates and a place.\<close>

definition demo_env :: "nat location_env" where
  "demo_env =
     \<lparr>le_geo = \<lparr>gn_lonlat = \<lambda>_ _ _ _. Inr (Some 7), gn_id = \<lambda>_ _. Inr (Some 7), gn_name = \<lambda>_ _. Inr [Some 7],
        gn_keyword = \<lambda>_ _. Inr [Some 7], gn_loc_name = \<lambda>_. ''seven''\<rparr>,
      le_coordinates = \<lambda>_ _. ''lonlat'', le_km = \<lambda>d. d, le_to_utf8 = \<lambda>_ s. Inr s\<rparr>"

definition demo_place_conv :: "'dt value_conv" where
  "demo_place_conv =
     \<lparr>vc_double = \<lambda>v. case v of VDouble d \<Rightarrow> Inr d | _ \<Rightarrow> Inl (Thrown NoCode ''type''),
      vc_int = \<lambda>v. case v of VInt i \<Rightarrow> Inr i | _ \<Rightarrow> Inl (Thrown NoCode ''type''),
      vc_uint = \<lambda>v. case v of VUInt u \<Rightarrow> Inr u | _ \<Rightarrow> Inl (Thrown NoCode ''type''),
      vc_time = \<lambda>v. case v of VTime t \<Rightarrow> Inr t | _ \<Rightarrow> Inl (Thrown NoCode ''type''),
      vc_bool = \<lambda>v. case v of VBool b \<Rightarrow> Inr b | _ \<Rightarrow> Inl (Thrown NoCode ''type''),
      vc_string = \<lambda>v. case v of VString s \<Rightarrow> Inr s | _ \<Rightarrow> Inl (Thrown NoCode ''type''),
      vc_point = \<lambda>v. Inl (Thrown NoCode ''type''), vc_bbox = \<lambda>v. Inl (Thrown NoCode ''type'')\<rparr>"

definition demo_entry :: "string \<Rightarrow> 'v \<Rightarrow> string \<times> 'v param_info" where
  "demo_entry name v = (name, \<lparr>pi_real_name = name, pi_value = v\<rparr>)"

definition demo_place_params :: "nat spine_value rpm" where
  "demo_place_params = \<lparr>rpm_params =
     [demo_entry ''keyword'' (VString ''synop''), demo_entry ''latlons'' (VDouble 1), demo_entry ''latlons'' (VDouble 2),
      demo_entry ''maxDistance'' (VDouble 3), demo_entry ''places'' (VString ''Kumpula'')], rpm_case_sensitive = True\<rparr>"

definition demo_flags :: location_flags where
  "demo_flags = \<lparr>lf_keywords = True, lf_geoids = True, lf_fmisids = True, lf_wmos = True, lf_lpnns = True\<rparr>"

lemma demo_place_values:
  "get_values ascii_lower demo_place_params ''keyword_overwritable'' = []"
  "get_values ascii_lower demo_place_params ''maxDistance'' = [VDouble 3]"
  "get_values ascii_lower demo_place_params ''latlons'' = [VDouble 1, VDouble 2]"
  "get_values ascii_lower demo_place_params ''geoids'' = []"
  "get_values ascii_lower demo_place_params ''fmisids'' = []"
  "get_values ascii_lower demo_place_params ''wmos'' = []"
  "get_values ascii_lower demo_place_params ''lpnns'' = []"
  "get_values ascii_lower demo_place_params ''places'' = [VString ''Kumpula'']"
  "get_values ascii_lower demo_place_params ''keyword'' = [VString ''synop'']"
  by (simp_all add: get_values_def demo_place_params_def demo_entry_def mm_values_def rpm_key_def)

lemma demo_located:
  "get_location_options ascii_lower demo_place_conv demo_env demo_flags ''fin'' demo_place_params =
     Inr [(''lonlat'', Some 7), (''Kumpula'', Some 7), (''seven'', Some 7)]"
proof -
  have "trim_copy ''synop'' = ''synop''" by code_simp
  then show ?thesis
    by (simp add: get_location_options_def get_optional_default_def get_single_def rpm_get_def demo_place_values
        demo_place_conv_def demo_env_def demo_flags_def get_latlons_def latlon_pairs_def get_geoids_def get_fmisids_def
        get_wmos_def get_lpnns_def get_stations_def get_places_def get_keyword_locations_def SIZE_MAX_def)
qed


section \<open>Options and boxes\<close>

text \<open>The precision of a configured parameter is at most 15.\<close>

lemma meteo_precision_bounded:
  assumes "read_meteo_options lc setting = Inr ms" "map_of (ms_map ms) k = Some item"
  shows "unat (mp_precision item) \<le> 15"
proof -
  have put: "map_of (or_default m (sm_emplace n it m)) k = Some v \<Longrightarrow> v = it \<or> map_of m k = Some v" for m n and it v :: meteo_option
    by (cases "map_of m n") (auto simp: sm_emplace_def or_default_def map_of_mm_insert split: if_splits)
  have step: "\<forall>v. map_of (ms_map t) k = Some v \<longrightarrow> unat (mp_precision v) \<le> 15"
    if "\<forall>v. map_of (ms_map s) k = Some v \<longrightarrow> unat (mp_precision v) \<le> 15" "add_meteo_option lc raw s = Inr t" for raw s t
    using that by (auto simp: add_meteo_option_def Let_def result_simps unsigned_ucast_eq take_bit_nat_eq_self dest!: put split: if_splits)
  have "\<forall>v. map_of (ms_map ms) k = Some v \<longrightarrow> unat (mp_precision v) \<le> 15"
  proof (cases setting)
    case None
    with assms(1) show ?thesis by (auto simp: read_meteo_options_def)
  next
    case (Some s)
    with assms(1) obtain raws where run: "fold_result (add_meteo_option lc) raws \<lparr>ms_map = [], ms_default = default_meteo_option\<rparr> = Inr ms"
      by (cases s) (auto simp: read_meteo_options_def Let_def)
    show ?thesis by (rule fold_result_invariant [OF run]) (auto dest: step)
  qed
  with assms(2) show ?thesis by blast
qed

text \<open>Every point of the polygon of a box has a coordinate of the box, whatever the arithmetic does.\<close>

lemma bbox_ring_on_border:
  "(x, y) \<in> set (bbox_ring D src n) \<Longrightarrow> x = bb_xmin src \<or> x = bb_xmax src \<or> y = bb_ymin src \<or> y = bb_ymax src"
  by (auto simp: bbox_ring_def Let_def)

lemma bbox_ring_length: "0 < n \<Longrightarrow> length (bbox_ring D src n) = nat (4 * (n - 1) + 1)"
  by (auto simp: bbox_ring_def Let_def)

text \<open>The test of the number of coordinates comes after the typed access has refused an odd number.\<close>

lemma latlons_even: "rpm_get lc conv ''latlons'' 0 998 2 param = Inr values \<Longrightarrow> even (length values)"
  by (auto simp: rpm_get_iff Let_def map_result_Inr_iff dest: list_all2_lengthD)

text \<open>A missing value that is not positive is refused, and so is a missing text of one character.\<close>

lemma missing_value_refused: "\<not> do_le D FLOAT_MIN v \<Longrightarrow> \<not> isOK (setDefaultMissingValue D v ms)"
  by (simp add: setDefaultMissingValue_def)

lemma missing_text_of_one: "\<not> isOK (setDefaultMissingText [c] ms)"
  by (simp add: setDefaultMissingText_def)

text \<open>A step beyond sixteen bits becomes zero.\<close>

lemma sensor_step_truncated: "sensor_setting dflt (Some 0x10000) = 0"
  by (simp add: sensor_setting_def or_default_def)

end
