(* ===== verification/FileHandlers.thy ===== *)
theory FileHandlers
  imports UrlTemplate HandlerParams
begin

text \<open>
  Stored queries whose answer is a list of links: \<open>libwfs/DataSetIndex.cpp\<close> (sets of files),
  \<open>libwfs/Hosts.cpp\<close>, \<open>wfs/stored_queries/StoredAtomQueryHandlerBase.cpp\<close>,
  \<open>StoredFileQueryHandler.cpp\<close> and \<open>GetFeatureByIdHandler.cpp\<close>.  Regular expressions, the file
  system, the parser of times and the intersection of boxes are arguments.
\<close>

section \<open>Queries for data sets\<close>

text \<open>
  What the code asks of \<open>Fmi::DateTime\<close>.  A comparison with a time that is not a time is the
  library's affair, the code tests for it before.
\<close>

record 'dt clock_ops =
  ck_invalid :: "'dt \<Rightarrow> bool"
  ck_le :: "'dt \<Rightarrow> 'dt \<Rightarrow> bool"
  ck_less :: "'dt \<Rightarrow> 'dt \<Rightarrow> bool"
  ck_neg_inf :: 'dt
  ck_pos_inf :: 'dt
  ck_extended :: "'dt \<Rightarrow> string"
  ck_iso :: "'dt \<Rightarrow> string"

record 'dt ds_query =
  dsq_names :: "string list"
  dsq_period :: "'dt \<times> 'dt"
  dsq_params :: "string list"
  dsq_levels :: "int list"

definition ds_query_new :: "'dt clock_ops \<Rightarrow> 'dt ds_query" where
  "ds_query_new K = \<lparr>dsq_names = [], dsq_period = (ck_neg_inf K, ck_pos_inf K), dsq_params = [], dsq_levels = []\<rparr>"

definition add_unique :: "string \<Rightarrow> 'a::linorder \<Rightarrow> 'a list \<Rightarrow> 'a list result" where
  "add_unique msg x xs = (if x \<in> set xs then Inl (Thrown NoCode msg) else Inr (sset_insert x xs))"

definition dsq_add_name :: "(string \<Rightarrow> string) \<Rightarrow> string \<Rightarrow> 'dt ds_query \<Rightarrow> 'dt ds_query result" where
  "dsq_add_name lc name q =
     rbind (add_unique ''Duplicate name'' (lc name) (dsq_names q)) (\<lambda>ns. Inr (q\<lparr>dsq_names := ns\<rparr>))"

definition dsq_add_level :: "int \<Rightarrow> 'dt ds_query \<Rightarrow> 'dt ds_query result" where
  "dsq_add_level level q =
     rbind (add_unique ''Duplicate level'' level (dsq_levels q)) (\<lambda>ls. Inr (q\<lparr>dsq_levels := ls\<rparr>))"

definition dsq_add_parameter :: "(string \<Rightarrow> string) \<Rightarrow> string \<Rightarrow> 'dt ds_query \<Rightarrow> 'dt ds_query result" where
  "dsq_add_parameter lc name q =
     rbind (add_unique ''Duplicate parameter'' (lc name) (dsq_params q)) (\<lambda>ps. Inr (q\<lparr>dsq_params := ps\<rparr>))"

definition dsq_set_interval :: "'dt clock_ops \<Rightarrow> 'dt \<Rightarrow> 'dt \<Rightarrow> 'dt ds_query \<Rightarrow> 'dt ds_query result" where
  "dsq_set_interval K b e q =
     (if ck_invalid K b \<or> ck_invalid K e \<or> ck_less K e b then Inl (Thrown NoCode ''Invalid time interval!'')
      else Inr (q\<lparr>dsq_period := (b, e)\<rparr>))"

section \<open>Sets of files\<close>

type_synonym corners = "double \<times> double \<times> double \<times> double"

record file_set =
  da_name :: string
  da_dir :: string
  da_server_dir :: string
  da_regex :: string
  da_params :: "string list"
  da_levels :: "int list"
  da_bbox :: corners
  da_extract :: string
  da_match :: string
  da_replace :: string

text \<open>
  \<open>fo_regex\<close> compiles a regular expression, \<open>fo_match\<close>, \<open>fo_search\<close> and \<open>fo_replace\<close> are
  \<open>regex_match\<close>, the text found by \<open>regex_search\<close> and \<open>regex_replace\<close>; \<open>fo_entries\<close> are the
  names in a directory.
\<close>

record 'dt file_ops =
  fo_regex :: "string \<Rightarrow> unit result"
  fo_match :: "string \<Rightarrow> string \<Rightarrow> bool"
  fo_search :: "string \<Rightarrow> string \<Rightarrow> string option"
  fo_replace :: "string \<Rightarrow> string \<Rightarrow> string \<Rightarrow> string"
  fo_time :: "string \<Rightarrow> 'dt result"
  fo_exists :: "string \<Rightarrow> bool"
  fo_is_dir :: "string \<Rightarrow> bool"
  fo_entries :: "string \<Rightarrow> string list result"
  fo_intersects :: "corners \<Rightarrow> corners \<Rightarrow> bool"

definition vect2set :: "'a::linorder list \<Rightarrow> 'a list result" where
  "vect2set src = fold_result (add_unique ''Duplicate item'') src []"

text \<open>
  The setting of a data set, each member what the configuration gives for it: \<open>None\<close> if it is not
  there.  The library has checked the sizes (two strings, at least one, four numbers).
\<close>

record raw_file_set =
  rf_name :: "string option"
  rf_dir :: "string option"
  rf_server_dir :: "string option"
  rf_regex :: "string option"
  rf_extract :: "string option"
  rf_translate :: "(string \<times> string) option"
  rf_params :: "string list option"
  rf_levels :: "int list option"
  rf_bbox :: "corners option"

definition setting_of :: "'a option \<Rightarrow> 'a result" where
  "setting_of v = (case v of None \<Rightarrow> Inl (Thrown NoCode ''mandatory setting not found'') | Some x \<Rightarrow> Inr x)"

definition digit_group :: "string \<Rightarrow> string" where
  "digit_group n = ''('' @ [CHR 0x5C] @ ''d{'' @ n @ ''})''"

definition default_time_extract :: string where
  "default_time_extract = ''^'' @ concat (map digit_group [''4'', ''2'', ''2'', ''2'', ''2'', ''2''])"

definition default_time_subst :: string where
  "default_time_subst = concat (map (Cons (CHR 0x5C)) [''1'', ''2'', ''3T'', ''4'', ''5'', ''6Z''])"

definition with_slash :: "string \<Rightarrow> string" where
  "with_slash s = (if s \<noteq> [] \<and> last s \<noteq> CHR ''/'' then s @ ''/'' else s)"

definition file_set_new :: "'dt file_ops \<Rightarrow> raw_file_set \<Rightarrow> file_set result" where
  "file_set_new F raw =
     rbind (setting_of (rf_name raw)) (\<lambda>name.
     rbind (setting_of (rf_dir raw)) (\<lambda>dir.
     let server_dir = or_default '''' (rf_server_dir raw) in
     rbind (setting_of (rf_regex raw)) (\<lambda>regex.
     rbind (fo_regex F regex) (\<lambda>_.
     rbind (setting_of (rf_extract raw)) (\<lambda>extract.
     rbind (fo_regex F extract) (\<lambda>_.
     let (time_extract, time_subst) = or_default (default_time_extract, default_time_subst) (rf_translate raw) in
     rbind (fo_regex F time_extract) (\<lambda>_.
     rbind (rbind (setting_of (rf_params raw)) vect2set) (\<lambda>params.
     rbind (rbind (setting_of (rf_levels raw)) vect2set) (\<lambda>levels.
     rbind (case rf_bbox raw of None \<Rightarrow> Inl (Thrown NoCode ''out of range'') | Some b \<Rightarrow> Inr b) (\<lambda>bbox.
     if \<not> fo_exists F dir then Inl (Thrown NoCode ''Directory not found!'')
     else if \<not> fo_is_dir F dir then Inl (Thrown NoCode ''Not a directory'')
     else Inr \<lparr>da_name = name, da_dir = dir, da_server_dir = with_slash server_dir, da_regex = regex,
            da_params = params, da_levels = levels, da_bbox = bbox, da_extract = extract,
            da_match = time_extract, da_replace = time_subst\<rparr>))))))))))"

text \<open>\<open>path::filename\<close> and the path of an entry of a directory.\<close>

definition file_name :: "string \<Rightarrow> string" where
  "file_name p = rev (takeWhile (\<lambda>c. c \<noteq> CHR ''/'') (rev p))"

definition entry_path :: "string \<Rightarrow> string \<Rightarrow> string" where
  "entry_path dir fn = with_slash dir @ fn"

definition ds_intersects :: "'dt file_ops \<Rightarrow> file_set \<Rightarrow> corners \<Rightarrow> bool" where
  "ds_intersects F d b = fo_intersects F b (da_bbox d)"

definition extract_origintime :: "'dt file_ops \<Rightarrow> file_set \<Rightarrow> string \<Rightarrow> 'dt result" where
  "extract_origintime F d p = (case fo_search F (da_extract d) (file_name p) of
       None \<Rightarrow> Inl (Thrown NoCode ''Failed to extract time string'')
     | Some s \<Rightarrow> fo_time F (fo_replace F s (da_match d) (da_replace d)))"

text \<open>A file whose name has no readable time is left out.\<close>

definition query_entry :: "'dt file_ops \<Rightarrow> 'dt clock_ops \<Rightarrow> file_set \<Rightarrow> 'dt \<Rightarrow> 'dt \<Rightarrow> string \<Rightarrow> string list \<Rightarrow> string list" where
  "query_entry F K d b e fn out =
     (if fo_match F (da_regex d) fn
      then (case extract_origintime F d fn of
          Inl _ \<Rightarrow> out
        | Inr t \<Rightarrow> if ck_le K b t \<and> ck_le K t e then out @ [entry_path (da_dir d) fn] else out)
      else out)"

definition query_files :: "'dt file_ops \<Rightarrow> 'dt clock_ops \<Rightarrow> file_set \<Rightarrow> 'dt \<Rightarrow> 'dt \<Rightarrow> string list result" where
  "query_files F K d b e =
     rbind (fo_entries F (da_dir d)) (\<lambda>fns. Inr (fold (query_entry F K d b e) fns []))"

definition query_files_default :: "'dt file_ops \<Rightarrow> 'dt clock_ops \<Rightarrow> file_set \<Rightarrow> string list result" where
  "query_files_default F K d = query_files F K d (ck_pos_inf K) (ck_neg_inf K)"

section \<open>Hosts\<close>

record host_info =
  ho_server :: string
  ho_wms_host :: string
  ho_keep_apikey :: bool

definition add_host :: "string \<Rightarrow> string \<Rightarrow> bool \<Rightarrow> host_info list \<Rightarrow> host_info list" where
  "add_host server wms_host keep hs = hs @ [\<lparr>ho_server = server, ho_wms_host = wms_host, ho_keep_apikey = keep\<rparr>]"

definition find_host :: "host_info list \<Rightarrow> string \<Rightarrow> host_info option" where
  "find_host hs server = find (\<lambda>h. ho_server h = server) hs"

definition getWMSHost :: "host_info list \<Rightarrow> string \<Rightarrow> string" where
  "getWMSHost hs server = (case find_host hs server of None \<Rightarrow> ''wms.fmi.fi'' | Some h \<Rightarrow> ho_wms_host h)"

definition getKeepApikeyFlag :: "host_info list \<Rightarrow> string \<Rightarrow> bool" where
  "getKeepApikeyFlag hs server = (case find_host hs server of None \<Rightarrow> True | Some h \<Rightarrow> ho_keep_apikey h)"

section \<open>Answers made of links\<close>

text \<open>What the constructor makes of \<open>url_template.url\<close> and \<open>url_template.params\<close>.\<close>

definition atom_url_template :: "string option \<Rightarrow> string list option \<Rightarrow> url_template result" where
  "atom_url_template url params =
     rbind (setting_of url) (\<lambda>u. rbind (setting_of params) (url_template_new u))"

record 'dt atom_env =
  ae_lc :: "string \<Rightarrow> string"
  ae_text :: "'dt spine_value \<Rightarrow> string"
  ae_params :: "'dt handler_params"
  ae_url :: url_template
  ae_hosts :: "host_info list"
  ae_debug_level :: int

record atom_item =
  ai_url :: string
  ai_params :: "(string \<times> string list) list"

record atom_answer =
  an_language :: string
  an_matched :: nat
  an_query_num :: int
  an_wms :: string
  an_apikey :: bool
  an_query_params :: "string \<Rightarrow> string list"
  an_named_params :: "(string \<times> string list) list"
  an_items :: "atom_item list"

text \<open>The values of a named parameter of the configuration, with the parameters of one member.\<close>

definition get_param_callback :: "'dt atom_env \<Rightarrow> 'dt spine_value rpm \<Rightarrow> param_getter" where
  "get_param_callback A m name =
     rbind (hp_get (ae_lc A) (ae_params A) name) (\<lambda>t.
     rbind (template_find (ae_lc A) (handle_redirection (ae_lc A) (Some (ae_params A))) m True t) (\<lambda>(found, v).
       Inr (if tri_bool found then (case v of Some r \<Rightarrow> dump_value (ae_text A) r | None \<Rightarrow> []) else [])))"

definition atom_item_of :: "'dt atom_env \<Rightarrow> 'dt spine_value rpm \<Rightarrow> atom_item result" where
  "atom_item_of A m =
     rbind (generate (ae_url A) (get_param_callback A m)) (\<lambda>url.
       Inr \<lparr>ai_url = url, ai_params = map (\<lambda>k. (k, map (ae_text A) (get_values (ae_lc A) m k))) (get_keys m)\<rparr>)"

text \<open>\<open>update\<close> is the virtual function \<open>update_parameters\<close> of the handler.\<close>

definition atom_query ::
    "'dt atom_env \<Rightarrow> ('dt spine_value rpm \<Rightarrow> 32 word \<Rightarrow> 'dt spine_value rpm list result) \<Rightarrow> string \<Rightarrow>
     string option \<Rightarrow> 'dt spine_value rpm \<Rightarrow> 32 word \<Rightarrow> atom_answer result" where
  "atom_query A update language hostname params seq =
     rbind (update params seq) (\<lambda>param_sets. case hostname of
         None \<Rightarrow> Inl (Thrown NoCode ''Hostname unknown'')
       | Some host \<Rightarrow>
           if 1 < ae_debug_level A \<and> param_sets = [] then Inl (Thrown ProcessingFailed ''No data available!'')
           else rbind (dump_named_params (ae_lc A) (ae_text A) (ae_params A) params) (\<lambda>named.
                rbind (map_result (atom_item_of A) param_sets) (\<lambda>items.
                Inr \<lparr>an_language = language, an_matched = length param_sets, an_query_num = sint seq,
                     an_wms = getWMSHost (ae_hosts A) host, an_apikey = getKeepApikeyFlag (ae_hosts A) host,
                     an_query_params = dump_params (ae_text A) params (\<lambda>_. []), an_named_params = named,
                     an_items = items\<rparr>)))"

definition atom_update ::
    "(string \<Rightarrow> string) \<Rightarrow> 'dt spine_value rpm \<Rightarrow> 32 word \<Rightarrow> 'dt spine_value rpm list result" where
  "atom_update lc params seq =
     Inr [rpm_add lc ''queryNum'' (VInt (scast seq)) False (rpm_of_map lc True (get_map True params))]"

section \<open>Downloads of files\<close>

definition register_file_handler :: "(string \<Rightarrow> string) \<Rightarrow> 'dt settings \<Rightarrow> 'dt reg_state \<Rightarrow> 'dt reg_state result" where
  "register_file_handler lc S st =
     rbind (reg_scalar lc S P_STRING ''name'' '''' False st) (\<lambda>st.
     rbind (reg_array lc S P_INT ''levels'' '''' 0 st) (\<lambda>st.
     rbind (reg_array lc S P_STRING ''params'' '''' 0 st) (\<lambda>st.
     rbind (register_array lc P_DOUBLE ''bbox'' '''' 0 4 4 (st_array S ''bbox'') st) (\<lambda>st.
     rbind (reg_array lc S P_TIME ''beginTime'' '''' 0 st) (\<lambda>st.
     reg_array lc S P_TIME ''endTime'' '''' 0 st)))))"

text \<open>A data set whose setting is not usable is reported and left out.\<close>

definition read_file_sets :: "'dt file_ops \<Rightarrow> raw_file_set list \<Rightarrow> file_set list" where
  "read_file_sets F raws =
     fold (\<lambda>raw ds. case file_set_new F raw of Inl _ \<Rightarrow> ds | Inr d \<Rightarrow> ds @ [d]) raws []"

text \<open>\<open>std::set_intersection\<close> walks through both sequences at once.\<close>

fun set_intersection :: "'a::linorder list \<Rightarrow> 'a list \<Rightarrow> 'a list" where
  "set_intersection [] bs = []"
| "set_intersection (a # as) [] = []"
| "set_intersection (a # as) (b # bs) =
     (if a < b then set_intersection as (b # bs)
      else if b < a then set_intersection (a # as) bs
      else a # set_intersection as bs)"

definition select_common_items :: "'a::linorder list \<Rightarrow> 'a list \<Rightarrow> 'a list option" where
  "select_common_items sel avail =
     (if sel = [] then Some avail
      else (let common = set_intersection sel avail in if common = [] then None else Some common))"

record 'dt file_env =
  fe_lc :: "string \<Rightarrow> string"
  fe_conv :: "'dt value_conv"
  fe_ids :: "'dt id_ops"
  fe_files :: "'dt file_ops"
  fe_clock :: "'dt clock_ops"
  fe_query_id :: string
  fe_sets :: "file_set list"

text \<open>What a request selects; the numbers of levels are cut to 32 bits.\<close>

record 'dt file_selection =
  fs_name :: string
  fs_levels :: "int list"
  fs_params :: "string list"
  fs_bbox :: "double list"
  fs_begin :: 'dt
  fs_end :: 'dt
  fs_file :: string

definition level_int :: "int64 \<Rightarrow> int" where
  "level_int v = sint (ucast v :: 32 word)"

definition file_selection_of :: "'dt file_env \<Rightarrow> 'dt spine_value rpm \<Rightarrow> 'dt file_selection result" where
  "file_selection_of E params =
     (let lc = fe_lc E; C = fe_conv E in
      rbind (get_optional_default lc (vc_string C) ''name'' '''' params) (\<lambda>name.
      rbind (rpm_get lc (vc_int C) ''levels'' 0 SIZE_MAX 0 params) (\<lambda>levels.
      rbind (rpm_get lc (vc_string C) ''params'' 0 SIZE_MAX 0 params) (\<lambda>ps.
      rbind (rpm_get lc (vc_double C) ''bbox'' 0 SIZE_MAX 0 params) (\<lambda>bbox.
      rbind (get_single lc (vc_time C) ''beginTime'' params) (\<lambda>b.
      rbind (get_single lc (vc_time C) ''endTime'' params) (\<lambda>e.
      rbind (get_optional_default lc (vc_string C) ''file'' '''' params) (\<lambda>file.
      Inr \<lparr>fs_name = name, fs_levels = fold (sset_insert \<circ> level_int) levels [],
           fs_params = fold sset_insert ps [], fs_bbox = bbox, fs_begin = b, fs_end = e, fs_file = file\<rparr>))))))))"

text \<open>The checks of a data set, in their order; the result has the common levels and parameters.\<close>

definition set_selected ::
    "'dt file_ops \<Rightarrow> 'dt file_selection \<Rightarrow> file_set \<Rightarrow> (int list \<times> string list) option result" where
  "set_selected F s d =
     (if fs_name s \<noteq> [] \<and> fs_name s \<noteq> da_name d then Inr None
      else case select_common_items (fs_levels s) (da_levels d) of
        None \<Rightarrow> Inr None
      | Some levels \<Rightarrow> (case select_common_items (fs_params s) (da_params d) of
          None \<Rightarrow> Inr None
        | Some ps \<Rightarrow> (case fs_bbox s of
            [] \<Rightarrow> Inr (Some (levels, ps))
          | [x1, y1, x2, y2] \<Rightarrow>
              Inr (if ds_intersects F d (x1, y1, x2, y2) then Some (levels, ps) else None)
          | _ \<Rightarrow> Inl (Thrown NoCode ''INTERNAL ERROR: wrong bbox specification''))))"

definition file_feature :: "string \<Rightarrow> 'dt feature_id \<Rightarrow> 'dt feature_id" where
  "file_feature path f = add_param ''file'' (VString path) (erase_param ''file'' f)"

definition file_member ::
    "'dt file_env \<Rightarrow> file_set \<Rightarrow> int list \<Rightarrow> string list \<Rightarrow> string \<Rightarrow> 'dt \<Rightarrow> string \<Rightarrow> 'dt spine_value rpm" where
  "file_member E d levels ps path t ident =
     (let lc = fe_lc E; add = (\<lambda>n v. rpm_add lc n v False) in
      add ''featureId'' (VString ident) (
      add ''serverDir'' (VString (da_server_dir d)) (
      add ''originTime'' (VString (ck_extended (fe_clock E) t)) (
      add ''file'' (VString path) (
      rpm_add_vect lc ''params'' (map VString ps) False (
      rpm_add_vect lc ''levels'' (map (\<lambda>l. VInt (word_of_int l)) levels) False (
      add ''basename'' (VString (file_name path)) (
      add ''name'' (VString (da_name d)) (rpm_new True)))))))))"

type_synonym 'dt file_state = "'dt spine_value rpm list \<times> 'dt feature_id"

definition add_file ::
    "'dt file_env \<Rightarrow> 'dt file_selection \<Rightarrow> file_set \<Rightarrow> int list \<times> string list \<Rightarrow> string \<Rightarrow> 'dt file_state \<Rightarrow>
     'dt file_state result" where
  "add_file E s d common path st = (case (common, st) of ((levels, ps), (out, f)) \<Rightarrow>
     if fs_file s = [] \<or> fs_file s = path
     then rbind (extract_origintime (fe_files E) d path) (\<lambda>t.
          let f = file_feature path f in
          rbind (make_id (fe_ids E) f) (\<lambda>id. Inr (out @ [file_member E d levels ps path t id], f)))
     else Inr (out, f))"

definition add_file_set ::
    "'dt file_env \<Rightarrow> 'dt file_selection \<Rightarrow> file_set \<Rightarrow> 'dt file_state \<Rightarrow> 'dt file_state result" where
  "add_file_set E s d st =
     rbind (set_selected (fe_files E) s d) (\<lambda>sel. case sel of
         None \<Rightarrow> Inr st
       | Some common \<Rightarrow>
           rbind (query_files (fe_files E) (fe_clock E) d (fs_begin s) (fs_end s)) (\<lambda>paths.
           fold_result (add_file E s d common) paths st))"

definition file_update ::
    "'dt file_env \<Rightarrow> 'dt spine_value rpm \<Rightarrow> 32 word \<Rightarrow> 'dt spine_value rpm list result" where
  "file_update E params seq =
     rbind (file_selection_of E params) (\<lambda>s.
     rbind (fold_result (add_file_set E s) (fe_sets E)
              ([], \<lparr>fid_query = fe_query_id E, fid_params = get_map True params, fid_seq = seq\<rparr>)) (\<lambda>(out, _).
     Inr out))"

section \<open>The query by feature identifier\<close>

text \<open>\<open>exec\<close> runs the query that is made: the \<open>query\<close> function of its handler.\<close>

definition get_feature_by_id ::
    "(string \<Rightarrow> string) \<Rightarrow> 'dt value_conv \<Rightarrow> bool \<Rightarrow> 'dt id_ops \<Rightarrow> (string \<Rightarrow> 'dt handler result) \<Rightarrow> string \<Rightarrow>
     ('dt stored_query \<Rightarrow> 'o result) \<Rightarrow> 'dt stored_query \<Rightarrow> 'o result" where
  "get_feature_by_id lc C cs K find_h source exec q =
     rbind (get_single lc (vc_string C) ''feature_id'' (sq_params q)) (\<lambda>id.
     rbind (create_from_feature_id lc cs K find_h source id q) exec)"

definition register_by_id :: "(string \<Rightarrow> string) \<Rightarrow> 'dt settings \<Rightarrow> 'dt reg_state \<Rightarrow> 'dt reg_state result" where
  "register_by_id lc S =
     reg_scalar lc S P_STRING ''feature_id'' ''The feature identifier of the requested feature.'' True"

section \<open>Sets of values\<close>

lemma sorted_sset_insert: "sorted xs \<Longrightarrow> sorted (sset_insert x xs)"
  by (simp add: sset_insert_def sorted_insort)

lemma set_intersection_set:
  "sorted as \<Longrightarrow> sorted bs \<Longrightarrow> set (set_intersection as bs) = set as \<inter> set bs"
  by (induction as bs rule: set_intersection.induct) (auto dest: leD)

lemma set_intersection_sorted: "sorted as \<Longrightarrow> sorted bs \<Longrightarrow> sorted (set_intersection as bs)"
proof (induction as bs rule: set_intersection.induct)
  case (3 a as b bs)
  then show ?case by (auto simp: set_intersection_set)
qed simp_all

lemma add_unique_fold:
  "fold_result (add_unique msg) src acc = Inr xs \<Longrightarrow> sorted acc \<Longrightarrow>
     set xs = set acc \<union> set src \<and> sorted xs \<and> distinct src \<and> set acc \<inter> set src = {}"
proof (induction src arbitrary: acc)
  case (Cons x src)
  from Cons.prems(1) have x: "x \<notin> set acc" "fold_result (add_unique msg) src (sset_insert x acc) = Inr xs"
    by (cases "x \<in> set acc"; simp add: add_unique_def [of msg x acc])+
  from Cons.IH [OF x(2) sorted_sset_insert [OF Cons.prems(2)]] x(1) show ?case by auto
qed simp

lemma vect2set_set: "vect2set src = Inr xs \<Longrightarrow> set xs = set src \<and> sorted xs \<and> distinct src"
  by (auto simp: vect2set_def dest: add_unique_fold)

text \<open>Without a selection everything is taken; a selection that leaves nothing rejects the data set.\<close>

lemma select_common_items_meaning:
  assumes "sorted sel" "sorted avail"
  shows "select_common_items sel avail = Some common \<Longrightarrow>
      set common = (if sel = [] then set avail else set sel \<inter> set avail)"
    and "select_common_items sel avail = None \<longleftrightarrow> sel \<noteq> [] \<and> set sel \<inter> set avail = {}"
proof -
  have "set (set_intersection sel avail) = set sel \<inter> set avail"
    by (rule set_intersection_set [OF assms])
  then show "select_common_items sel avail = Some common \<Longrightarrow>
      set common = (if sel = [] then set avail else set sel \<inter> set avail)"
    "select_common_items sel avail = None \<longleftrightarrow> sel \<noteq> [] \<and> set sel \<inter> set avail = {}"
    by (auto simp: select_common_items_def Let_def split: if_splits)
qed

section \<open>The files of a data set\<close>

definition entry_wanted :: "'dt file_ops \<Rightarrow> 'dt clock_ops \<Rightarrow> file_set \<Rightarrow> 'dt \<Rightarrow> 'dt \<Rightarrow> string \<Rightarrow> bool" where
  "entry_wanted F K d b e fn \<longleftrightarrow> fo_match F (da_regex d) fn \<and>
     (case extract_origintime F d fn of Inl _ \<Rightarrow> False | Inr t \<Rightarrow> ck_le K b t \<and> ck_le K t e)"

lemma query_entries:
  "fold (query_entry F K d b e) fns out = out @ map (entry_path (da_dir d)) (filter (entry_wanted F K d b e) fns)"
  by (induction fns arbitrary: out) (auto simp: query_entry_def entry_wanted_def split: sum.splits)

lemma query_files_eq:
  "query_files F K d b e =
     rbind (fo_entries F (da_dir d)) (\<lambda>fns. Inr (map (entry_path (da_dir d)) (filter (entry_wanted F K d b e) fns)))"
  by (simp add: query_files_def query_entries)

text \<open>The default interval of the declaration ends before it begins, so that no file is in it.\<close>

lemma default_interval_empty:
  assumes "\<And>t. ck_le K (ck_pos_inf K) t \<Longrightarrow> \<not> ck_le K t (ck_neg_inf K)"
    and "query_files_default F K d = Inr paths"
  shows "paths = []"
  using assms by (auto simp: query_files_default_def query_files_eq result_simps entry_wanted_def filter_empty_conv split: sum.splits)

lemma file_name_entry: "CHR ''/'' \<notin> set fn \<Longrightarrow> file_name (entry_path dir fn) = fn"
proof -
  assume fn: "CHR ''/'' \<notin> set fn"
  have part: "takeWhile (\<lambda>c. c \<noteq> CHR ''/'') (rev fn @ zs) = rev fn @ takeWhile (\<lambda>c. c \<noteq> CHR ''/'') zs" for zs
    by (rule takeWhile_append2) (use fn in auto)
  have "takeWhile (\<lambda>c. c \<noteq> CHR ''/'') (rev fn @ rev (with_slash dir)) = rev fn"
  proof (cases "with_slash dir = []")
    case True
    then show ?thesis using part [of "[]"] by (simp only: rev.simps takeWhile.simps append_Nil2)
  next
    case False
    then have "last (with_slash dir) = CHR ''/''" by (auto simp: with_slash_def)
    with False obtain cs where "rev (with_slash dir) = CHR ''/'' # cs"
      by (cases "with_slash dir" rule: rev_cases) auto
    then show ?thesis by (simp only: part) simp
  qed
  then show ?thesis by (simp add: file_name_def entry_path_def)
qed

section \<open>What a download answers\<close>

definition path_feature :: "'dt file_env \<Rightarrow> 'dt value_map \<Rightarrow> 32 word \<Rightarrow> string \<Rightarrow> 'dt feature_id" where
  "path_feature E X seq path =
     \<lparr>fid_query = fe_query_id E, fid_params = mm_insert ''file'' (VString path) (mm_erase ''file'' X), fid_seq = seq\<rparr>"

type_synonym file_choice = "file_set \<times> (int list \<times> string list) \<times> string"

definition chosen_files :: "'dt file_env \<Rightarrow> 'dt file_selection \<Rightarrow> file_set \<Rightarrow> file_choice list result" where
  "chosen_files E s d =
     rbind (set_selected (fe_files E) s d) (\<lambda>sel. case sel of
         None \<Rightarrow> Inr []
       | Some common \<Rightarrow>
           rbind (query_files (fe_files E) (fe_clock E) d (fs_begin s) (fs_end s)) (\<lambda>paths.
           Inr (map (\<lambda>path. (d, common, path)) paths)))"

definition choice_member ::
    "'dt file_env \<Rightarrow> 'dt value_map \<Rightarrow> 32 word \<Rightarrow> file_choice \<Rightarrow> 'dt spine_value rpm result" where
  "choice_member E X seq c = (case c of (d, (levels, ps), path) \<Rightarrow>
     rbind (extract_origintime (fe_files E) d path) (\<lambda>t.
     rbind (make_id (fe_ids E) (path_feature E X seq path)) (\<lambda>id.
     Inr (file_member E d levels ps path t id))))"

definition choice_kept :: "'dt file_selection \<Rightarrow> file_choice \<Rightarrow> bool" where
  "choice_kept s c \<longleftrightarrow> fs_file s = [] \<or> fs_file s = snd (snd c)"

definition same_feature :: "'dt file_env \<Rightarrow> 'dt value_map \<Rightarrow> 32 word \<Rightarrow> 'dt feature_id \<Rightarrow> bool" where
  "same_feature E X seq f \<longleftrightarrow>
     fid_query f = fe_query_id E \<and> fid_seq f = seq \<and> mm_erase ''file'' (fid_params f) = mm_erase ''file'' X"

lemma mm_erase_insert: "mm_erase k (mm_insert k v m) = mm_erase k m"
  by (induction m) (auto simp: mm_erase_def)

lemma mm_erase_twice: "mm_erase k (mm_erase k m) = mm_erase k m"
  by (simp add: mm_erase_def)

lemma same_feature_path:
  assumes "same_feature E X seq f"
  shows "file_feature path f = path_feature E X seq path" and "same_feature E X seq (file_feature path f)"
  using assms
  by (simp_all add: same_feature_def file_feature_def path_feature_def add_param_def erase_param_def
      mm_erase_insert mm_erase_twice)

lemma same_path_feature [simp]: "same_feature E X seq (path_feature E X seq path)"
  by (simp add: same_feature_def path_feature_def mm_erase_insert mm_erase_twice)

lemma add_files:
  assumes "same_feature E X seq f"
  shows "(\<exists>f'. fold_result (add_file E s d common) paths (out, f) = Inr (out', f') \<and> same_feature E X seq f') \<longleftrightarrow>
    (\<exists>ms. map_result (choice_member E X seq) (filter (choice_kept s) (map (\<lambda>path. (d, common, path)) paths)) = Inr ms \<and>
       out' = out @ ms)"
  using assms
proof (induction paths arbitrary: out f)
  case Nil
  then show ?case by auto
next
  case (Cons path paths)
  obtain levels ps where common: "common = (levels, ps)" by (cases common)
  show ?case
  proof (cases "fs_file s = [] \<or> fs_file s = path")
    case True
    show ?thesis
      using True Cons.IH [OF same_feature_path(2) [OF Cons.prems, of path]] same_feature_path(1) [OF Cons.prems, of path]
      by (auto simp: add_file_def common choice_kept_def choice_member_def rbind_def Let_def split: sum.splits)
  next
    case False
    with Cons show ?thesis by (simp add: add_file_def common choice_kept_def)
  qed
qed

lemma add_file_same:
  "same_feature E X seq (snd st) \<Longrightarrow> add_file E s d common path st = Inr st' \<Longrightarrow> same_feature E X seq (snd st')"
  by (cases common; cases st) (auto simp: add_file_def result_simps Let_def same_feature_path split: if_splits)

lemma add_file_set_run:
  assumes "same_feature E X seq f"
  shows "add_file_set E s d (out, f) = Inr (out', f') \<Longrightarrow> same_feature E X seq f'"
    and "(\<exists>f'. add_file_set E s d (out, f) = Inr (out', f')) \<longleftrightarrow>
      (\<exists>cs ms. chosen_files E s d = Inr cs \<and> map_result (choice_member E X seq) (filter (choice_kept s) cs) = Inr ms \<and>
        out' = out @ ms)"
proof -
  have same: "same_feature E X seq f'" if "fold_result (add_file E s d common) paths (out, f) = Inr (out', f')"
    for common paths out' f'
    using fold_result_invariant [OF that, of "\<lambda>st. same_feature E X seq (snd st)"] assms add_file_same by fastforce
  show "add_file_set E s d (out, f) = Inr (out', f') \<Longrightarrow> same_feature E X seq f'"
    using assms by (auto simp: add_file_set_def result_simps dest: same split: option.splits)
  have files: "(\<exists>f'. fold_result (add_file E s d common) paths (out, f) = Inr (out', f')) \<longleftrightarrow>
    (\<exists>ms. map_result (choice_member E X seq) (filter (choice_kept s) (map (\<lambda>path. (d, common, path)) paths)) = Inr ms \<and>
       out' = out @ ms)" for common paths
    using add_files [OF assms, of s d common paths out out'] same by blast
  show "(\<exists>f'. add_file_set E s d (out, f) = Inr (out', f')) \<longleftrightarrow>
      (\<exists>cs ms. chosen_files E s d = Inr cs \<and> map_result (choice_member E X seq) (filter (choice_kept s) cs) = Inr ms \<and>
        out' = out @ ms)"
  proof (cases "set_selected (fe_files E) s d")
    case (Inl e)
    then show ?thesis by (simp add: add_file_set_def chosen_files_def)
  next
    case (Inr sel)
    show ?thesis
    proof (cases sel)
      case None
      with Inr show ?thesis by (auto simp: add_file_set_def chosen_files_def)
    next
      case (Some common)
      show ?thesis
      proof (cases "query_files (fe_files E) (fe_clock E) d (fs_begin s) (fs_end s)")
        case (Inl e)
        with Inr Some show ?thesis by (simp add: add_file_set_def chosen_files_def)
      next
        case paths: (Inr paths)
        with Inr Some show ?thesis by (simp add: add_file_set_def chosen_files_def files)
      qed
    qed
  qed
qed

lemma map_result_append:
  "map_result f (xs @ ys) = rbind (map_result f xs) (\<lambda>us. rbind (map_result f ys) (\<lambda>vs. Inr (us @ vs)))"
  by (induction xs) (simp_all add: rbind_def split: sum.splits)

lemma add_file_sets:
  assumes "same_feature E X seq f"
  shows "(\<exists>f'. fold_result (add_file_set E s) ds (out, f) = Inr (out', f')) \<longleftrightarrow>
    (\<exists>cs ms. map_result (chosen_files E s) ds = Inr cs \<and>
       map_result (choice_member E X seq) (filter (choice_kept s) (concat cs)) = Inr ms \<and> out' = out @ ms)"
  using assms
proof (induction ds arbitrary: out f)
  case Nil
  then show ?case by auto
next
  case (Cons d ds)
  let ?member = "map_result (choice_member E X seq)"
  have "(\<exists>f'. fold_result (add_file_set E s) (d # ds) (out, f) = Inr (out', f')) \<longleftrightarrow>
      (\<exists>out1 f1. add_file_set E s d (out, f) = Inr (out1, f1) \<and>
        (\<exists>f'. fold_result (add_file_set E s) ds (out1, f1) = Inr (out', f')))"
    by (auto simp: result_simps)
  also have "\<dots> \<longleftrightarrow> (\<exists>out1. (\<exists>f1. add_file_set E s d (out, f) = Inr (out1, f1)) \<and>
      (\<exists>cs ms. map_result (chosen_files E s) ds = Inr cs \<and> ?member (filter (choice_kept s) (concat cs)) = Inr ms \<and>
         out' = out1 @ ms))"
    using Cons.IH add_file_set_run(1) [OF Cons.prems] by blast
  also have "\<dots> \<longleftrightarrow> (\<exists>cs ms. map_result (chosen_files E s) (d # ds) = Inr cs \<and>
      ?member (filter (choice_kept s) (concat cs)) = Inr ms \<and> out' = out @ ms)"
    unfolding add_file_set_run(2) [OF Cons.prems]
    by (auto simp: result_simps map_result_append)
  finally show ?case .
qed

text \<open>The members of an answer, without the state of the loop.\<close>

lemma file_update_iff:
  "file_update E params seq = Inr out \<longleftrightarrow>
     (\<exists>s cs. file_selection_of E params = Inr s \<and> map_result (chosen_files E s) (fe_sets E) = Inr cs \<and>
        map_result (choice_member E (get_map True params) seq) (filter (choice_kept s) (concat cs)) = Inr out)"
proof -
  let ?f = "\<lparr>fid_query = fe_query_id E, fid_params = get_map True params, fid_seq = seq\<rparr>"
  have "same_feature E (get_map True params) seq ?f" by (simp add: same_feature_def)
  from add_file_sets [OF this] show ?thesis
    by (simp add: file_update_def result_simps)
qed

section \<open>The identifier of a member\<close>

lemma case_sensitive_insert [simp]: "rpm_case_sensitive (insert_value lc n v m) = rpm_case_sensitive m"
  by (simp add: insert_value_def)

lemma case_sensitive_add_vect [simp]: "rpm_case_sensitive (rpm_add_vect lc n vs False m) = rpm_case_sensitive m"
proof -
  have "rpm_case_sensitive (fold (insert_value lc n) vs m) = rpm_case_sensitive m" by (induction vs arbitrary: m) simp_all
  then show ?thesis by (simp add: rpm_add_vect_def)
qed

lemma case_sensitive_of_map [simp]: "rpm_case_sensitive (rpm_of_map lc cs ps) = cs"
proof -
  have "rpm_case_sensitive (fold (\<lambda>p. insert_value lc (fst p) (snd p)) ps m) = rpm_case_sensitive m" for m :: "'a rpm"
    by (induction ps arbitrary: m) simp_all
  then show ?thesis by (simp add: rpm_of_map_def rpm_new_def split_def)
qed

lemma key_case_sensitive: "rpm_case_sensitive m \<Longrightarrow> rpm_key lc m n = n"
  by (simp add: rpm_key_def)

lemma file_member_file: "get_values (fe_lc E) (file_member E d levels ps path t ident) ''file'' = [VString path]"
proof -
  have cs: "rpm_case_sensitive (rpm_new True)" by (simp add: rpm_new_def)
  have none: "get_values lc (rpm_new True) n = []" for lc n by (simp add: rpm_new_def get_values_def)
  show ?thesis
    by (simp add: file_member_def Let_def rpm_add_def rpm_store.lookup_ins rpm_store.inv_ins rpm_add_vect_values
        rpm_add_vect_wf key_case_sensitive cs none)
qed

text \<open>
  The names of a request are spelled as the handler asks for them: the name of a value that is found
  under one of the names of the handler is this name.
\<close>

definition file_param_names :: "string list" where
  "file_param_names = [''name'', ''levels'', ''params'', ''bbox'', ''beginTime'', ''endTime'', ''file'']"

definition spelled :: "(string \<Rightarrow> string) \<Rightarrow> bool \<Rightarrow> string set \<Rightarrow> string list \<Rightarrow> bool" where
  "spelled lc cs used names \<longleftrightarrow>
     (\<forall>n \<in> set names. \<forall>k \<in> used. (if cs then k = n else lc k = lc n) \<longrightarrow> k = n)"

lemma spelled_mono: "spelled lc cs used names \<Longrightarrow> used' \<subseteq> used \<Longrightarrow> spelled lc cs used' names"
  by (auto simp: spelled_def)

lemma fold_insert_keys:
  "set (map fst (fold (\<lambda>(key, pi). mm_insert (g key pi) (h pi)) ps r)) =
     (\<lambda>(key, pi). g key pi) ` set ps \<union> set (map fst r)"
  by (induction ps arbitrary: r) (auto simp: keys_mm_insert simp del: set_map)

lemma get_values_spelled:
  assumes "rpm_wf lc m" "spelled lc (rpm_case_sensitive m) (fst ` set (get_map True m)) names" "n \<in> set names"
  shows "get_values lc m n = mm_values (get_map True m) n"
proof -
  have used: "pi_real_name (snd e) \<in> fst ` set (get_map True m)" if "e \<in> set (rpm_params m)" for e
  proof -
    have "set (map fst (get_map True m)) = (\<lambda>(key, pi). pi_real_name pi) ` set (rpm_params m)"
      using fold_insert_keys [of "\<lambda>key pi. pi_real_name pi" pi_value "rpm_params m" "[]"] by (simp add: get_map_def)
    moreover have "pi_real_name (snd e) \<in> (\<lambda>(key, pi). pi_real_name pi) ` set (rpm_params m)"
      by (rule image_eqI [OF _ that]) (simp add: split_def)
    ultimately show ?thesis by simp
  qed
  have "filter (\<lambda>e. fst e = rpm_key lc m n) (rpm_params m) = filter (\<lambda>(key, pi). pi_real_name pi = n) (rpm_params m)"
  proof (rule filter_cong [OF refl])
    fix e assume e: "e \<in> set (rpm_params m)"
    then have "fst e = rpm_key lc m (pi_real_name (snd e))"
      using assms(1) by (auto simp: rpm_wf_def list_all_iff)
    moreover have "rpm_key lc m (pi_real_name (snd e)) = rpm_key lc m n \<longleftrightarrow> pi_real_name (snd e) = n"
    proof
      assume "rpm_key lc m (pi_real_name (snd e)) = rpm_key lc m n"
      then show "pi_real_name (snd e) = n"
        using assms(2) [unfolded spelled_def, rule_format, OF assms(3) used [OF e]]
        by (cases "rpm_case_sensitive m") (simp_all add: rpm_key_def)
    qed simp
    ultimately show "fst e = rpm_key lc m n \<longleftrightarrow> (case e of (key, pi) \<Rightarrow> pi_real_name pi = n)"
      by (simp add: split_def)
  qed
  then show ?thesis
    by (simp add: get_map_values named_values_def get_values_def mm_values_def [of "rpm_params m"] split_def)
qed

lemma rpm_get_cong_values:
  "get_values lc p' n = get_values lc p n \<Longrightarrow> rpm_get lc conv n mn mx step p' = rpm_get lc conv n mn mx step p"
  by (simp add: rpm_get_def)

lemma file_selection_narrowed:
  assumes "file_selection_of E params = Inr s"
    and vals: "\<And>n. n \<in> set file_param_names \<Longrightarrow> get_values (fe_lc E) params' n =
      (if n = ''file'' then [VString path] else get_values (fe_lc E) params n)"
    and "vc_string (fe_conv E) (VString path) = Inr path"
  shows "file_selection_of E params' = Inr (s\<lparr>fs_file := path\<rparr>)"
proof -
  note same = rpm_get_cong_values [of "fe_lc E" params' _ params]
  have names: "get_values (fe_lc E) params' ''name'' = get_values (fe_lc E) params ''name''"
    "get_values (fe_lc E) params' ''levels'' = get_values (fe_lc E) params ''levels''"
    "get_values (fe_lc E) params' ''params'' = get_values (fe_lc E) params ''params''"
    "get_values (fe_lc E) params' ''bbox'' = get_values (fe_lc E) params ''bbox''"
    "get_values (fe_lc E) params' ''beginTime'' = get_values (fe_lc E) params ''beginTime''"
    "get_values (fe_lc E) params' ''endTime'' = get_values (fe_lc E) params ''endTime''"
    by (simp_all add: vals file_param_names_def)
  have "get_optional_default (fe_lc E) (vc_string (fe_conv E)) ''file'' '''' params' = Inr path"
    using vals [of "''file''"] assms(3) by (simp add: get_optional_default_def rpm_get_def file_param_names_def)
  then show ?thesis
    using assms(1)
    by (auto simp: file_selection_of_def Let_def result_simps get_optional_default_def get_single_def names [THEN same])
qed

lemma map_result_filter_members:
  assumes "map_result f xs = Inr ys" "\<And>x y. x \<in> set xs \<Longrightarrow> f x = Inr y \<Longrightarrow> Q y \<longleftrightarrow> P x"
  shows "map_result f (filter P xs) = Inr (filter Q ys)"
  using assms
proof (induction xs arbitrary: ys)
  case (Cons x xs)
  then obtain y zs where y: "f x = Inr y" "map_result f xs = Inr zs" "ys = y # zs" by (auto simp: result_simps)
  have "Q y \<longleftrightarrow> P x" by (rule Cons.prems(2) [OF _ y(1)]) simp
  moreover have "map_result f (filter P xs) = Inr (filter Q zs)" by (rule Cons.IH [OF y(2)]) (simp add: Cons.prems(2))
  ultimately show ?case by (simp add: y)
qed simp

lemma map_result_source: "map_result f xs = Inr ys \<Longrightarrow> y \<in> set ys \<Longrightarrow> \<exists>x \<in> set xs. f x = Inr y"
  by (induction xs arbitrary: ys) (auto simp: result_simps)

lemma choice_member_file:
  "choice_member E X seq c = Inr m \<Longrightarrow> get_values (fe_lc E) m ''file'' = [VString (snd (snd c))]"
  by (cases c; cases "fst (snd c)") (auto simp: choice_member_def result_simps file_member_file)

lemma choice_member_same:
  "mm_erase ''file'' X' = mm_erase ''file'' X \<Longrightarrow> choice_member E X' seq = choice_member E X seq"
  by (simp add: fun_eq_iff choice_member_def path_feature_def)

lemma chosen_files_same: "chosen_files E (s\<lparr>fs_file := path\<rparr>) = chosen_files E s"
proof -
  have "set_selected F (s\<lparr>fs_file := path\<rparr>) d = set_selected F s d" for F d
    by (cases s) (simp add: set_selected_def cong del: option.case_cong_weak list.case_cong_weak if_weak_cong)
  then show ?thesis by (simp add: fun_eq_iff chosen_files_def cong del: option.case_cong_weak)
qed


text \<open>A directory with two files that are always in the interval.\<close>

definition demo_file_ops :: "demo_dt file_ops" where
  "demo_file_ops =
     \<lparr>fo_regex = \<lambda>_. Inr (), fo_match = \<lambda>_ _. True, fo_search = \<lambda>_ fn. Some fn, fo_replace = \<lambda>s _ _. s,
      fo_time = \<lambda>_. Inr (2024, 2, 29, 60), fo_exists = \<lambda>_. True, fo_is_dir = \<lambda>_. True,
      fo_entries = \<lambda>_. Inr [''a'', ''b''], fo_intersects = \<lambda>_ _. True\<rparr>"

definition demo_clock :: "demo_dt clock_ops" where
  "demo_clock =
     \<lparr>ck_invalid = \<lambda>_. False, ck_le = \<lambda>_ _. True, ck_less = \<lambda>_ _. False, ck_neg_inf = (0, 0, 0, 0),
      ck_pos_inf = (0, 0, 0, 0), ck_extended = \<lambda>_. ''2024-02-29T00:01:00'', ck_iso = \<lambda>_. ''20240229T000100''\<rparr>"

definition demo_file_set :: file_set where
  "demo_file_set =
     \<lparr>da_name = ''set'', da_dir = ''d'', da_server_dir = '''', da_regex = '''', da_params = [''Temperature''],
      da_levels = [0], da_bbox = (0, 0, 0, 0), da_extract = '''', da_match = '''', da_replace = ''''\<rparr>"

definition demo_file_env :: "demo_dt file_env" where
  "demo_file_env =
     \<lparr>fe_lc = ascii_lower, fe_conv = demo_place_conv, fe_ids = demo_ops, fe_files = demo_file_ops,
      fe_clock = demo_clock, fe_query_id = ''download'', fe_sets = [demo_file_set]\<rparr>"

definition demo_file_values :: "demo_dt value_map" where
  "demo_file_values = [(''beginTime'', VTime (2024, 2, 28, 0)), (''endTime'', VTime (2024, 3, 1, 0))]"

definition demo_file_params :: "demo_dt spine_value rpm" where
  "demo_file_params = rpm_of_map ascii_lower True demo_file_values"

lemma demo_file_map: "get_map True demo_file_params = demo_file_values"
  unfolding demo_file_params_def by (rule get_map_of_map) (simp add: demo_file_values_def mm_sorted_def)

lemma demo_file_spelled:
  "spelled ascii_lower (rpm_case_sensitive demo_file_params) used file_param_names"
  by (simp add: spelled_def demo_file_params_def)

lemma demo_file_selection:
  "file_selection_of demo_file_env demo_file_params =
     Inr \<lparr>fs_name = '''', fs_levels = [], fs_params = [], fs_bbox = [], fs_begin = (2024, 2, 28, 0),
          fs_end = (2024, 3, 1, 0), fs_file = ''''\<rparr>"
proof -
  have "get_values ascii_lower demo_file_params n = mm_values demo_file_values n" if "n \<in> set file_param_names" for n
    using get_values_spelled [OF _ demo_file_spelled that] by (simp add: demo_file_map) (simp add: demo_file_params_def rpm_of_map_wf)
  then have "get_values ascii_lower demo_file_params n = mm_values demo_file_values n" if "n \<in> set file_param_names" for n
    using that .
  then have "get_values ascii_lower demo_file_params ''name'' = []" "get_values ascii_lower demo_file_params ''levels'' = []"
    "get_values ascii_lower demo_file_params ''params'' = []" "get_values ascii_lower demo_file_params ''bbox'' = []"
    "get_values ascii_lower demo_file_params ''beginTime'' = [VTime (2024, 2, 28, 0)]"
    "get_values ascii_lower demo_file_params ''endTime'' = [VTime (2024, 3, 1, 0)]"
    "get_values ascii_lower demo_file_params ''file'' = []"
    by (simp_all add: file_param_names_def demo_file_values_def mm_values_def)
  then show ?thesis
    by (simp add: file_selection_of_def demo_file_env_def Let_def get_optional_default_def get_single_def rpm_get_def
        demo_place_conv_def SIZE_MAX_def)
qed

lemma demo_file_identifiers:
  assumes "length path < 2 ^ 32"
  obtains ident where "make_id demo_ops (path_feature demo_file_env demo_file_values 3 path) = Inr ident"
proof -
  have "fid_ok demo_dt (path_feature demo_file_env demo_file_values 3 path)"
    using assms by (simp add: fid_ok_def path_feature_def value_map_ok_def mm_simps mm_sorted_def demo_file_values_def
        demo_file_env_def mm_erase_def list_all_iff set_mm_insert value_ok_def dt_ok_def demo_dt_def ucast_ucast_back)
  from create_from_get_id [OF demo_digest_law demo_base64_law this]
  obtain str where "get_id demo_dt demo_sha demo_encode (path_feature demo_file_env demo_file_values 3 path) = Inr str"
    by (auto simp only: rbind_eq_Inr)
  with that show ?thesis by (simp add: make_id_def demo_ops_def)
qed

lemma demo_file_update:
  "\<exists>ident ident'. file_update demo_file_env demo_file_params 3 =
     Inr [file_member demo_file_env demo_file_set [0] [''Temperature''] ''d/a'' (2024, 2, 29, 60) ident,
          file_member demo_file_env demo_file_set [0] [''Temperature''] ''d/b'' (2024, 2, 29, 60) ident']"
proof -
  obtain i where i: "make_id demo_ops (path_feature demo_file_env demo_file_values 3 ''d/a'') = Inr i"
    by (rule demo_file_identifiers [of "''d/a''"]) simp
  obtain j where j: "make_id demo_ops (path_feature demo_file_env demo_file_values 3 ''d/b'') = Inr j"
    by (rule demo_file_identifiers [of "''d/b''"]) simp
  let ?choice = "\<lambda>path. (demo_file_set, ([0], [''Temperature'']), path)"
  have env: "fe_ids demo_file_env = demo_ops" "fe_sets demo_file_env = [demo_file_set]" by (simp_all add: demo_file_env_def)
  have time: "extract_origintime (fe_files demo_file_env) demo_file_set path = Inr (2024, 2, 29, 60)" for path
    by (simp add: extract_origintime_def demo_file_env_def demo_file_ops_def)
  have chosen: "chosen_files demo_file_env
      \<lparr>fs_name = '''', fs_levels = [], fs_params = [], fs_bbox = [], fs_begin = (2024, 2, 28, 0), fs_end = (2024, 3, 1, 0),
        fs_file = ''''\<rparr> demo_file_set = Inr [?choice ''d/a'', ?choice ''d/b'']"
    by (simp add: chosen_files_def set_selected_def select_common_items_def query_files_eq entry_wanted_def
        extract_origintime_def entry_path_def with_slash_def demo_file_env_def demo_file_set_def demo_file_ops_def
        demo_clock_def)
  show ?thesis
    unfolding file_update_iff demo_file_selection demo_file_map env
    by (rule exI [of _ i], rule exI [of _ j]) (simp add: chosen choice_kept_def choice_member_def env time i j)
qed


text \<open>The links of the base class: one member, so that the exception for no data is never thrown.\<close>

lemma base_answer_not_empty: "atom_update lc params seq \<noteq> Inr []"
  by (simp add: atom_update_def)

text \<open>The first entry of a server decides.\<close>

lemma added_host_is_last:
  "find_host (add_host server wms keep hs) s =
     (case find_host hs s of Some h \<Rightarrow> Some h
      | None \<Rightarrow> if s = server then Some \<lparr>ho_server = server, ho_wms_host = wms, ho_keep_apikey = keep\<rparr> else None)"
  by (induction hs) (auto simp: find_host_def add_host_def)

text \<open>A data set without a bounding box is refused, though the box is documented as optional.\<close>

lemma data_set_needs_bbox: "rf_bbox raw = None \<Longrightarrow> \<not> isOK (file_set_new F raw)"
  by (auto simp: file_set_new_def isOK_iff result_simps split: prod.splits)

text \<open>The query by identifier runs the query of the identifier, with the parameters the identifier has.\<close>

lemma by_id_runs_the_query:
  assumes "get_feature_by_id lc C cs K find_h source exec q = Inr res"
  obtains ident f q' where "get_single lc (vc_string C) ''feature_id'' (sq_params q) = Inr ident"
    "read_id K ident = Inr f" "sq_id q' = fid_query f" "find_h (fid_query f) = Inr (sq_handler q')"
    "sq_params q' = rpm_of_map lc cs (fid_params f)" "exec q' = Inr res"
proof -
  from assms obtain ident f h q' where "get_single lc (vc_string C) ''feature_id'' (sq_params q) = Inr ident"
    "read_id K ident = Inr f" "find_h (fid_query f) = Inr h" "exec q' = Inr res"
    and q': "finish_query K source (fid_query f) (sq_language q) (sq_debug q) h (rpm_of_map lc cs (fid_params f))
      (rpm_of_map lc cs (fid_params f)) [] = Inr q'"
    by (auto simp: get_feature_by_id_def create_from_feature_id_def result_simps Let_def simp del: finish_query_Inr)
  moreover from q' have "sq_id q' = fid_query f" "sq_handler q' = h" "sq_params q' = rpm_of_map lc cs (fid_params f)"
    by (auto simp: finish_query_Inr)
  ultimately show ?thesis using that by blast
qed

end
