(* ===== verification/QEDownload.thy ===== *)
theory QEDownload
  imports FileHandlers
begin

text \<open>
  \<open>wfs/stored_queries/StoredQEDownloadQyeryHandler.cpp\<close>: links to the data of forecast models.  The
  QueryData engine, the geometries and the coordinate systems are arguments.
\<close>

section \<open>Models and queries for them\<close>

text \<open>
  The description of a model by the engine; \<open>qm_info\<close> gives the members that are only copied, by
  their names.
\<close>

record model_level =
  ml_type :: string
  ml_value :: double

record 'dt model =
  qm_producer :: string
  qm_origin :: 'dt
  qm_first :: 'dt
  qm_last :: 'dt
  qm_info :: "string \<Rightarrow> 'dt spine_value"
  qm_levels :: "model_level list"
  qm_parameters :: "string list"

record 'dt meta_options =
  mo_producer :: "string option"
  mo_origin_time :: "'dt option"
  mo_first_time :: "'dt option"
  mo_last_time :: "'dt option"
  mo_parameters :: "string list"
  mo_level_types :: "string list"
  mo_level_values :: "double list"

definition no_options :: "'dt meta_options" where
  "no_options = \<lparr>mo_producer = None, mo_origin_time = None, mo_first_time = None, mo_last_time = None,
     mo_parameters = [], mo_level_types = [], mo_level_values = []\<rparr>"

text \<open>
  The engine and the geometry library.  \<open>qo_area\<close> is the area of a model, \<open>None\<close> if it has none;
  \<open>qo_boundary\<close> is \<open>get_latlon_boundary\<close>, \<open>qo_intersection\<close> the intersection of the area with a
  polygon in its own coordinates; \<open>qo_gdal_error\<close> the last error of the library.  \<open>qo_float\<close> rounds
  to single precision, \<open>qo_same\<close> compares two such numbers.
\<close>

record ('dt, 'area, 'g) qe_ops =
  qo_metadata :: "'dt meta_options \<Rightarrow> 'dt model list result"
  qo_area :: "string \<Rightarrow> 'dt \<Rightarrow> 'area option result"
  qo_boundary :: "'area \<Rightarrow> nat \<Rightarrow> 'g result"
  qo_transform :: "string \<Rightarrow> string \<Rightarrow> 'g \<Rightarrow> 'g result"
  qo_polygon :: "(double \<times> double) list \<Rightarrow> 'g"
  qo_to_xy :: "'area \<Rightarrow> 'g \<Rightarrow> 'g"
  qo_to_latlon :: "'area \<Rightarrow> 'g \<Rightarrow> 'g"
  qo_intersection :: "'area \<Rightarrow> 'g \<Rightarrow> 'g option"
  qo_gdal_error :: "int"
  qo_empty :: "'g \<Rightarrow> bool"
  qo_envelope :: "'g \<Rightarrow> double \<times> double \<times> double \<times> double"
  qo_exterior :: "'g \<Rightarrow> (double \<times> double) list option"
  qo_point_text :: "double \<times> double \<Rightarrow> string"
  qo_epsg :: "string \<Rightarrow> int option"
  qo_swap_coord :: "string \<Rightarrow> bool option"
  qo_float :: "double \<Rightarrow> double"
  qo_same :: "double \<Rightarrow> double \<Rightarrow> bool"
  qo_double :: double_ops
  qo_same_double :: "double \<Rightarrow> double \<Rightarrow> bool"

section \<open>The handler\<close>

record ('dt, 'area, 'g) qe_env =
  qv_lc :: "string \<Rightarrow> string"
  qv_conv :: "'dt value_conv"
  qv_ids :: "'dt id_ops"
  qv_clock :: "'dt clock_ops"
  qv_ops :: "('dt, 'area, 'g) qe_ops"
  qv_query_id :: string
  qv_producers :: "string list"
  qv_formats :: "string list"

definition default_format :: string where
  "default_format = ''grib2''"

text \<open>
  The sets of producers and formats of the configuration.  The loop that is to bring the formats to
  lower case changes copies of them.
\<close>

definition read_producers :: "string list option \<Rightarrow> string list" where
  "read_producers setting = fold sset_insert (or_default [] setting) []"

definition read_formats :: "string list option \<Rightarrow> string list" where
  "read_formats setting =
     fold sset_insert (or_default [''grib2'', ''grib1'', ''netcdf''] setting) [default_format]"

definition register_qe_download :: "(string \<Rightarrow> string) \<Rightarrow> 'dt settings \<Rightarrow> 'dt reg_state \<Rightarrow> 'dt reg_state result" where
  "register_qe_download lc S st =
     rbind (register_bounding_box lc S False st) (\<lambda>st.
     rbind (register_array lc P_STRING ''producer''
       (''An array of supported formats. The default value is \"grib2,grib1,netcdf\").'' @
        '' The \"grib2\" format is supported even if it is not defined at the array.'') 0 1 1 (st_array S ''producer'') st) (\<lambda>st.
     rbind (register_array lc P_TIME ''originTime'' '''' 0 1 1 (st_array S ''originTime'') st) (\<lambda>st.
     rbind (register_array lc P_TIME ''beginTime''
       ''The start time of the requested time period (YYYY-MM-DDTHHMIZ).'' 0 1 1 (st_array S ''beginTime'') st) (\<lambda>st.
     rbind (register_array lc P_TIME ''endTime''
       ''The end time of the requested time period (YYYY-MM-DDTHHMIZ).'' 0 1 1 (st_array S ''endTime'') st) (\<lambda>st.
     rbind (reg_scalar lc S P_INT ''fullInterval''
       (''If non zero then the full specified time interval must be present in'' @
        '' the model data for the model to be used. Otherwise the overlapping'' @ '' is sufficient.'') False st) (\<lambda>st.
     rbind (reg_array lc S P_STRING ''meteoParam''
       ''An array of fields whose values should be returned in the response.'' 0 st) (\<lambda>st.
     rbind (reg_array lc S P_STRING ''levelType'' ''An array of level types used in the query.'' 0 st) (\<lambda>st.
     rbind (reg_array lc S P_DOUBLE ''levelValue''
       (''An array of the model levels that can be used in the query. An empty array'' @
        '' means that all the levels can be used.'') 0 st) (\<lambda>st.
     rbind (register_array lc P_STRING ''format''
       ''The format used in the response. The default value is \"grib2\".'' 0 1 1 (st_array S ''format'') st) (\<lambda>st.
     register_array lc P_STRING ''projection'' ''The coordinate projection used in the response.'' 0 1 1
       (st_array S ''projection'') st))))))))))"

definition handle_opt_param ::
    "(string \<Rightarrow> string) \<Rightarrow> ('dt spine_value \<Rightarrow> 'b result) \<Rightarrow> 'dt spine_value rpm \<Rightarrow> string \<Rightarrow> ('b \<Rightarrow> 's \<Rightarrow> 's) \<Rightarrow> 's \<Rightarrow> 's result" where
  "handle_opt_param lc conv params name setter dest =
     (if rpm_count lc params name = 0 then Inr dest
      else rbind (get_single lc conv name params) (\<lambda>v. Inr (setter v dest)))"

text \<open>
  The options of the query of the engine.  The filters for parameters and levels are added to a copy
  that is bound in the function object of the loop, so that these options have none.
\<close>

definition meta_options_of :: "('dt, 'area, 'g) qe_env \<Rightarrow> 'dt spine_value rpm \<Rightarrow> 'dt meta_options result" where
  "meta_options_of E params =
     rbind (handle_opt_param (qv_lc E) (vc_string (qv_conv E)) params ''producer''
              (\<lambda>v opt. opt\<lparr>mo_producer := Some v\<rparr>) no_options) (\<lambda>opt.
     handle_opt_param (qv_lc E) (vc_time (qv_conv E)) params ''originTime''
       (\<lambda>v opt. opt\<lparr>mo_origin_time := Some v\<rparr>) opt)"

definition producer_selected :: "('dt, 'area, 'g) qe_env \<Rightarrow> 'dt model \<Rightarrow> bool" where
  "producer_selected E M \<longleftrightarrow> qv_producers E = [] \<or> qm_producer M \<in> set (qv_producers E)"

definition origin_key :: "('dt, 'area, 'g) qe_env \<Rightarrow> 'dt model \<Rightarrow> string" where
  "origin_key E M = qm_producer M @ '':'' @ ck_iso (qv_clock E) (qm_origin M)"

definition get_cache_key_qualifier :: "('dt, 'area, 'g) qe_env \<Rightarrow> 'dt spine_value rpm \<Rightarrow> string result" where
  "get_cache_key_qualifier E params =
     rbind (meta_options_of E params) (\<lambda>opt.
     rbind (qo_metadata (qv_ops E) opt) (\<lambda>models.
     Inr (join_comma (fold (\<lambda>M ts. if producer_selected E M then sset_insert (origin_key E M) ts else ts) models []))))"

section \<open>What a member tells\<close>

type_synonym 'dt pm_fun = "'dt spine_value rpm \<Rightarrow> 'dt spine_value rpm"

text \<open>The parameters of a member are in a map that heeds the case of names.\<close>

definition add_value :: "string \<Rightarrow> 'dt spine_value \<Rightarrow> 'dt pm_fun" where
  "add_value name v = insert_value (\<lambda>s. s) name v"

definition add_values :: "string \<Rightarrow> 'dt spine_value list \<Rightarrow> 'dt pm_fun" where
  "add_values name vs = fold (add_value name) vs"

definition model_info_names :: "string list" where
  "model_info_names =
     [''timeStep'', ''nTimeSteps'', ''WKT'', ''ullon'', ''ullat'', ''urlon'', ''urlat'', ''bllon'', ''bllat'',
      ''brlon'', ''brlat'', ''xNumber'', ''yNumber'', ''xResolution'', ''yResolution'', ''areaWidth'',
      ''areaHeight'', ''aspectRatio'']"

definition add_model_info :: "'dt model \<Rightarrow> 'dt pm_fun" where
  "add_model_info M pm =
     add_values ''_parameters'' (map VString (qm_parameters M)) (
     add_values ''_level'' (map (VDouble \<circ> ml_value) (qm_levels M)) (
     fold (\<lambda>n. add_value (''_'' @ n) (qm_info M n)) model_info_names (
     add_value ''_lastTime'' (VTime (qm_last M)) (add_value ''_firstTime'' (VTime (qm_first M)) pm))))"

text \<open>\<open>std::max\<close> and \<open>std::min\<close> take the first argument unless the second one is beyond it.\<close>

definition later :: "'dt clock_ops \<Rightarrow> 'dt \<Rightarrow> 'dt \<Rightarrow> 'dt" where
  "later K a b = (if ck_less K a b then b else a)"

definition earlier :: "'dt clock_ops \<Rightarrow> 'dt \<Rightarrow> 'dt \<Rightarrow> 'dt" where
  "earlier K a b = (if ck_less K b a then b else a)"

definition data_period :: "'dt clock_ops \<Rightarrow> 'dt meta_options \<Rightarrow> 'dt model \<Rightarrow> 'dt \<times> 'dt" where
  "data_period K opt M =
     (case mo_first_time opt of Some t \<Rightarrow> later K t (qm_first M) | None \<Rightarrow> qm_first M,
      case mo_last_time opt of Some t \<Rightarrow> earlier K t (qm_last M) | None \<Rightarrow> qm_last M)"

definition phenomenon_period ::
    "'dt clock_ops \<Rightarrow> 'dt option \<Rightarrow> 'dt option \<Rightarrow> 'dt \<times> 'dt \<Rightarrow> 'dt \<times> 'dt" where
  "phenomenon_period K start stop p =
     (case start of Some t \<Rightarrow> later K t (fst p) | None \<Rightarrow> fst p,
      case stop of Some t \<Rightarrow> earlier K t (snd p) | None \<Rightarrow> snd p)"

definition utc_text :: "'dt clock_ops \<Rightarrow> 'dt \<Rightarrow> 'dt spine_value" where
  "utc_text K t = VString (ck_extended K t @ ''Z'')"

definition add_time_info ::
    "'dt clock_ops \<Rightarrow> 'dt meta_options \<Rightarrow> 'dt model \<Rightarrow> 'dt option \<Rightarrow> 'dt option \<Rightarrow> 'dt pm_fun" where
  "add_time_info K opt M start stop pm =
     (let p = data_period K opt M; q = phenomenon_period K start stop p in
      add_value ''phenomenonEndTime'' (utc_text K (snd q)) (
      add_value ''phenomenonBeginTime'' (utc_text K (fst q)) (
      add_value ''lastTime'' (utc_text K (snd p)) (add_value ''firstTime'' (utc_text K (fst p)) pm))))"

definition wanted_parameter :: "(string \<Rightarrow> string) \<Rightarrow> string list \<Rightarrow> string \<Rightarrow> bool" where
  "wanted_parameter lc req name \<longleftrightarrow> trim_copy name \<noteq> [] \<and> (req = [] \<or> (\<exists>p \<in> set req. iequals lc p name))"

definition wanted_level ::
    "(string \<Rightarrow> string) \<Rightarrow> (double \<Rightarrow> double \<Rightarrow> bool) \<Rightarrow> string list \<Rightarrow> double list \<Rightarrow> model_level \<Rightarrow> bool" where
  "wanted_level lc same types vals l \<longleftrightarrow>
     (types = [] \<or> (\<exists>t \<in> set types. iequals lc t (ml_type l))) \<and> (vals = [] \<or> (\<exists>v \<in> set vals. same v (ml_value l)))"

definition add_params_and_levels ::
    "(string \<Rightarrow> string) \<Rightarrow> (double \<Rightarrow> double \<Rightarrow> bool) \<Rightarrow> 'dt model \<Rightarrow> string list \<Rightarrow> string list \<Rightarrow> double list \<Rightarrow> 'dt pm_fun" where
  "add_params_and_levels lc same M req_params types vals pm =
     add_values ''level'' (map (VDouble \<circ> ml_value) (filter (wanted_level lc same types vals) (qm_levels M))) (
     add_values ''param'' (map VString (filter (wanted_parameter lc req_params) (qm_parameters M))) pm)"

section \<open>The choice of models\<close>

definition is_given :: "'dt clock_ops \<Rightarrow> 'dt option \<Rightarrow> bool" where
  "is_given K t = (case t of None \<Rightarrow> False | Some t \<Rightarrow> \<not> ck_invalid K t)"

definition beyond :: "('dt \<Rightarrow> bool) \<Rightarrow> 'dt option \<Rightarrow> bool" where
  "beyond P t = (case t of None \<Rightarrow> False | Some t \<Rightarrow> P t)"

definition model_time_selected ::
    "'dt clock_ops \<Rightarrow> 'dt model \<Rightarrow> bool \<Rightarrow> 'dt option \<Rightarrow> 'dt option \<Rightarrow> bool result" where
  "model_time_selected K M strict start stop =
     (if strict
      then if is_given K start \<and> is_given K stop \<and>
             (beyond (\<lambda>t. ck_less K t (qm_first M)) start \<or> beyond (\<lambda>t. ck_less K (qm_last M) t) stop)
           then Inr False
           else if \<not> is_given K start \<and> is_given K stop then Inr True
           else Inl (Thrown ProcessingFailed
             ''Both or none of the parameters 'starttime' and 'endtime' must be specified!'')
      else Inr (\<not> (is_given K stop \<and> beyond (\<lambda>t. ck_less K t (qm_first M)) stop \<or>
                  is_given K start \<and> beyond (\<lambda>t. ck_less K (qm_last M) t) start)))"

section \<open>Areas\<close>

definition DATA_CRS :: string where
  "DATA_CRS = ''urn:ogc:def:crs:EPSG::4326''"

definition get_model_boundary ::
    "('dt, 'area, 'g) qe_ops \<Rightarrow> 'dt model \<Rightarrow> string \<Rightarrow> nat \<Rightarrow> 'g option result" where
  "get_model_boundary Q M crs_name side_points =
     rbind (qo_area Q (qm_producer M) (qm_origin M)) (\<lambda>a. case a of
         None \<Rightarrow> Inr None
       | Some area \<Rightarrow>
           rbind (qo_boundary Q area side_points) (\<lambda>g.
           rbind (qo_transform Q DATA_CRS crs_name g) (\<lambda>g. Inr (Some g))))"

definition bbox_intersection :: "('dt, 'area, 'g) qe_ops \<Rightarrow> bbox \<Rightarrow> 'dt model \<Rightarrow> 'g option result" where
  "bbox_intersection Q b M =
     rbind (qo_area Q (qm_producer M) (qm_origin M)) (\<lambda>a. case a of
         None \<Rightarrow> Inr None
       | Some area \<Rightarrow>
           rbind (qo_transform Q (bb_crs b) DATA_CRS
                    (qo_polygon Q (bbox2polygon (qo_double Q) (qo_same_double Q) b 10))) (\<lambda>g.
           case qo_intersection Q area (qo_to_xy Q area g) of
             Some i \<Rightarrow> Inr (if qo_empty Q i then None else Some (qo_to_latlon Q area i))
           | None \<Rightarrow> if qo_gdal_error Q \<noteq> 0 then Inl (Thrown NoCode ''GDAL error'') else Inr None))"

definition add_bbox_info :: "('dt, 'area, 'g) qe_ops \<Rightarrow> string \<Rightarrow> 'g \<Rightarrow> 'dt pm_fun" where
  "add_bbox_info Q name g =
     (case qo_envelope Q g of (min_x, min_y, max_x, max_y) \<Rightarrow>
        add_values name [VDouble min_x, VDouble min_y, VDouble max_x, VDouble max_y])"

definition add_boundary :: "('dt, 'area, 'g) qe_ops \<Rightarrow> string \<Rightarrow> 'g \<Rightarrow> 'dt pm_fun" where
  "add_boundary Q name g = (case qo_exterior Q g of
       Some ps \<Rightarrow> add_values name (map (VString \<circ> qo_point_text Q) ps)
     | None \<Rightarrow> add_bbox_info Q name g)"

text \<open>\<open>None\<close> leaves the model out.\<close>

definition add_area_info ::
    "('dt, 'area, 'g) qe_ops \<Rightarrow> 'dt model \<Rightarrow> bbox option \<Rightarrow> 'dt spine_value rpm \<Rightarrow> 'dt spine_value rpm option result" where
  "add_area_info Q M requested pm =
     rbind (get_model_boundary Q M DATA_CRS 20) (\<lambda>boundary.
     let pm = (case boundary of None \<Rightarrow> pm | Some g \<Rightarrow> add_bbox_info Q ''modelBBox'' g pm) in
     case requested of
       Some b \<Rightarrow>
         rbind (bbox_intersection Q b M) (\<lambda>found. case found of
             None \<Rightarrow> Inr None
           | Some g \<Rightarrow>
               let swap = or_default False (qo_swap_coord Q (bb_crs b)) in
               Inr (Some (add_boundary Q ''intersection'' g (add_bbox_info Q ''calcBBox'' g (
                 add_values ''requestedBBox''
                   [VDouble (if swap then bb_ymin b else bb_xmin b), VDouble (if swap then bb_xmin b else bb_ymin b),
                    VDouble (if swap then bb_ymax b else bb_xmax b), VDouble (if swap then bb_xmax b else bb_ymax b)] pm)))))
     | None \<Rightarrow> (case boundary of
           Some g \<Rightarrow> Inr (Some (add_boundary Q ''intersection'' g (add_bbox_info Q ''calcBBox'' g pm)))
         | None \<Rightarrow> Inr None))"

section \<open>Format and projection\<close>

text \<open>\<open>%04d\<close>\<close>

definition four_digits :: "int \<Rightarrow> string" where
  "four_digits n =
     (let s = dec_nat (nat (abs n)); sign = (if n < 0 then ''-'' else '''')
      in sign @ replicate (4 - length sign - length s) (CHR ''0'') @ s)"

definition requested_format :: "('dt, 'area, 'g) qe_env \<Rightarrow> 'dt spine_value rpm \<Rightarrow> string result" where
  "requested_format E params =
     rbind (get_optional_default (qv_lc E) (vc_string (qv_conv E)) ''format'' default_format params) (\<lambda>f.
       let f = qv_lc E (if f = [] then default_format else f) in
       if f \<notin> set (qv_formats E) then Inl (Thrown InvalidParameterValue ''The requeted format is not supported!'')
       else Inr f)"

definition add_format_and_crs ::
    "('dt, 'area, 'g) qe_env \<Rightarrow> 'dt spine_value rpm \<Rightarrow> 'dt spine_value rpm \<Rightarrow> 'dt spine_value rpm result" where
  "add_format_and_crs E params pm =
     rbind (requested_format E params) (\<lambda>f.
     rbind (get_single (qv_lc E) (vc_string (qv_conv E)) ''projection'' params) (\<lambda>crs.
     case qo_epsg (qv_ops E) crs of
       None \<Rightarrow> Inl (Thrown ParsingFailed ''Failed to get EPSG code for CRS'')
     | Some epsg \<Rightarrow>
         Inr (add_value ''crs'' (VString (''EPSG:'' @ four_digits epsg)) (
              add_value ''units'' (VString (if f = ''grib1'' \<or> f = ''grib2'' then ''grib'' else f)) (
              add_value ''format'' (VString f) pm)))))"

section \<open>The members\<close>

record 'dt qe_selection =
  qs_options :: "'dt meta_options"
  qs_strict :: bool
  qs_begin :: "'dt option"
  qs_end :: "'dt option"
  qs_params :: "string list"
  qs_level_types :: "string list"
  qs_level_values :: "double list"
  qs_bbox :: "bbox option"

definition optional_single ::
    "(string \<Rightarrow> string) \<Rightarrow> ('dt spine_value \<Rightarrow> 'b result) \<Rightarrow> string \<Rightarrow> 'dt spine_value rpm \<Rightarrow> 'b option result" where
  "optional_single lc conv name params =
     (if rpm_count lc params name = 0 then Inr None
      else rbind (get_single lc conv name params) (\<lambda>v. Inr (Some v)))"

definition qe_selection_of :: "('dt, 'area, 'g) qe_env \<Rightarrow> 'dt spine_value rpm \<Rightarrow> 'dt qe_selection result" where
  "qe_selection_of E params =
     (let lc = qv_lc E; C = qv_conv E in
      rbind (meta_options_of E params) (\<lambda>opt.
      rbind (optional_single lc (vc_int C) ''fullInterval'' params) (\<lambda>full.
      rbind (optional_single lc (vc_time C) ''beginTime'' params) (\<lambda>b.
      rbind (optional_single lc (vc_time C) ''endTime'' params) (\<lambda>e.
      rbind (rpm_get lc (vc_string C) ''meteoParam'' 0 SIZE_MAX 0 params) (\<lambda>req_params.
      rbind (rpm_get lc (vc_string C) ''levelType'' 0 SIZE_MAX 0 params) (\<lambda>types.
      rbind (rpm_get lc (vc_double C) ''levelValue'' 0 SIZE_MAX 0 params) (\<lambda>vals.
      rbind (get_bounding_box lc C DATA_CRS params) (\<lambda>bbox.
      Inr \<lparr>qs_options = opt, qs_strict = (case full of Some v \<Rightarrow> v \<noteq> 0 | None \<Rightarrow> False), qs_begin = b, qs_end = e,
           qs_params = req_params, qs_level_types = types, qs_level_values = map (qo_float (qv_ops E)) vals,
           qs_bbox = bbox\<rparr>)))))))))"

definition model_feature :: "'dt model \<Rightarrow> 'dt feature_id \<Rightarrow> 'dt feature_id" where
  "model_feature M f =
     add_param ''originTime'' (VTime (qm_origin M)) (add_param ''producer'' (VString (qm_producer M)) (
     erase_param ''originTime'' (erase_param ''producer'' f)))"

definition model_member ::
    "('dt, 'area, 'g) qe_env \<Rightarrow> 'dt spine_value rpm \<Rightarrow> 'dt qe_selection \<Rightarrow> 'dt model \<Rightarrow> 'dt spine_value rpm \<Rightarrow>
     'dt feature_id \<Rightarrow> 'dt spine_value rpm result" where
  "model_member E params s M pm f =
     (let pm = add_value ''originTime'' (utc_text (qv_clock E) (qm_origin M)) (
               add_value ''producer'' (VString (qm_producer M)) (add_model_info M pm)) in
      rbind (make_id (qv_ids E) f) (\<lambda>ident.
      add_format_and_crs E params (
        add_params_and_levels (qv_lc E) (qo_same (qv_ops E)) M (qs_params s) (qs_level_types s) (qs_level_values s) (
        add_time_info (qv_clock E) (qs_options s) M (qs_begin s) (qs_end s) (
        add_value ''featureId'' (VString ident) pm)))))"

definition add_model ::
    "('dt, 'area, 'g) qe_env \<Rightarrow> 'dt spine_value rpm \<Rightarrow> 'dt qe_selection \<Rightarrow> 'dt model \<Rightarrow>
     'dt spine_value rpm list \<times> 'dt feature_id \<Rightarrow> ('dt spine_value rpm list \<times> 'dt feature_id) result" where
  "add_model E params s M st = (case st of (out, f) \<Rightarrow>
     if \<not> producer_selected E M then Inr st
     else rbind (model_time_selected (qv_clock E) M (qs_strict s) (qs_begin s) (qs_end s)) (\<lambda>in_time.
       if \<not> in_time then Inr st
       else rbind (add_area_info (qv_ops E) M (qs_bbox s) (rpm_new True)) (\<lambda>area. case area of
           None \<Rightarrow> Inr st
         | Some pm \<Rightarrow> let f = model_feature M f in
             rbind (model_member E params s M pm f) (\<lambda>m. Inr (out @ [m], f)))))"

definition qe_update ::
    "('dt, 'area, 'g) qe_env \<Rightarrow> 'dt spine_value rpm \<Rightarrow> 32 word \<Rightarrow> 'dt spine_value rpm list result" where
  "qe_update E params seq =
     rbind (qe_selection_of E params) (\<lambda>s.
     rbind (qo_metadata (qv_ops E) (qs_options s)) (\<lambda>models.
     rbind (fold_result (add_model E params s) models
              ([], \<lparr>fid_query = qv_query_id E, fid_params = get_map True params, fid_seq = seq\<rparr>)) (\<lambda>(out, _).
     Inr out)))"

section \<open>The time of the models\<close>

definition clock_law :: "'dt clock_ops \<Rightarrow> bool" where
  "clock_law K \<longleftrightarrow> (\<forall>a b. ck_less K a b \<longleftrightarrow> \<not> ck_le K b a) \<and> (\<forall>a b. ck_le K a b \<or> ck_le K b a) \<and>
     (\<forall>a b c. ck_le K a b \<longrightarrow> ck_le K b c \<longrightarrow> ck_le K a c)"

lemma clock_less: "clock_law K \<Longrightarrow> ck_less K a b \<longleftrightarrow> \<not> ck_le K b a"
  by (simp add: clock_law_def)

lemma clock_refl: "clock_law K \<Longrightarrow> ck_le K a a"
  unfolding clock_law_def by blast

lemma later_le: "clock_law K \<Longrightarrow> ck_le K (later K a b) c \<longleftrightarrow> ck_le K a c \<and> ck_le K b c"
  unfolding clock_law_def later_def by (simp split: if_split) blast

lemma earlier_le: "clock_law K \<Longrightarrow> ck_le K c (earlier K a b) \<longleftrightarrow> ck_le K c a \<and> ck_le K c b"
  unfolding clock_law_def earlier_def by (simp split: if_split) blast

lemma later_ge: "clock_law K \<Longrightarrow> ck_le K a (later K a b) \<and> ck_le K b (later K a b)"
  using later_le [of K a b "later K a b"] clock_refl [of K "later K a b"] by simp

lemma earlier_ge: "clock_law K \<Longrightarrow> ck_le K (earlier K a b) a \<and> ck_le K (earlier K a b) b"
  using earlier_le [of K "earlier K a b" a b] clock_refl [of K "earlier K a b"] by simp

definition starts_before :: "'dt clock_ops \<Rightarrow> 'dt option \<Rightarrow> 'dt \<Rightarrow> bool" where
  "starts_before K start t \<longleftrightarrow> (case start of None \<Rightarrow> True | Some b \<Rightarrow> ck_le K b t)"

definition ends_after :: "'dt clock_ops \<Rightarrow> 'dt option \<Rightarrow> 'dt \<Rightarrow> bool" where
  "ends_after K stop t \<longleftrightarrow> (case stop of None \<Rightarrow> True | Some e \<Rightarrow> ck_le K t e)"

definition proper :: "'dt clock_ops \<Rightarrow> 'dt option \<Rightarrow> bool" where
  "proper K t \<longleftrightarrow> (case t of None \<Rightarrow> True | Some t \<Rightarrow> \<not> ck_invalid K t)"

text \<open>
  When overlapping is enough, the period of a member is not empty and lies within the times of
  the model and within the interval of the request, provided that the model and the request begin
  before they end.
\<close>

theorem phenomenon_period_inside:
  assumes "clock_law K" and "model_time_selected K M False start stop = Inr True"
    and "ck_le K (qm_first M) (qm_last M)"
    and "case stop of None \<Rightarrow> True | Some e \<Rightarrow> starts_before K start e"
    and "proper K start" and "proper K stop"
    and "phenomenon_period K start stop (data_period K no_options M) = (b, e)"
  shows "ck_le K b e \<and> ck_le K (qm_first M) b \<and> ck_le K e (qm_last M) \<and> starts_before K start b \<and> ends_after K stop e"
  using assms(1-6) assms(7) [symmetric]
  by (cases start; cases stop)
    (simp_all add: model_time_selected_def is_given_def beyond_def proper_def phenomenon_period_def data_period_def
      no_options_def later_le earlier_le clock_less starts_before_def ends_after_def later_ge earlier_ge clock_refl)

definition demo_hours :: "nat clock_ops" where
  "demo_hours =
     \<lparr>ck_invalid = \<lambda>_. False, ck_le = (\<le>), ck_less = (<), ck_neg_inf = 0, ck_pos_inf = 1000,
      ck_extended = \<lambda>_. '''', ck_iso = \<lambda>_. ''''\<rparr>"

definition demo_model :: "nat model" where
  "demo_model =
     \<lparr>qm_producer = ''hirlam'', qm_origin = 6, qm_first = 6, qm_last = 60, qm_info = \<lambda>_. VBool True,
      qm_levels = [], qm_parameters = [''Pressure'']\<rparr>"

lemma phenomenon_period_inside_witness:
  "ck_le demo_hours 12 60 \<and> ck_le demo_hours (qm_first demo_model) 12 \<and> ck_le demo_hours 60 (qm_last demo_model) \<and>
     starts_before demo_hours (Some 12) 12 \<and> ends_after demo_hours (Some 90) 60"
  by (rule phenomenon_period_inside [of demo_hours demo_model "Some 12" "Some 90"])
    (auto simp: clock_law_def demo_hours_def demo_model_def model_time_selected_def is_given_def beyond_def proper_def
      phenomenon_period_def data_period_def no_options_def later_def earlier_def starts_before_def)

text \<open>The full interval passes for a model only if an end but no begin is asked for.\<close>

lemma strict_time_selected:
  "model_time_selected K M True start stop = Inr True \<longleftrightarrow> \<not> is_given K start \<and> is_given K stop"
  by (simp add: model_time_selected_def)

text \<open>The options have no filter.\<close>

lemma meta_options_filters:
  assumes "meta_options_of E params = Inr opt"
  shows "mo_parameters opt = [] \<and> mo_level_types opt = [] \<and> mo_level_values opt = [] \<and>
    mo_first_time opt = None \<and> mo_last_time opt = None"
  using assms
  by (auto simp: meta_options_of_def handle_opt_param_def no_options_def result_simps split: if_splits)

section \<open>Where the members come from\<close>

definition model_taken :: "('dt, 'area, 'g) qe_env \<Rightarrow> 'dt spine_value rpm \<Rightarrow> 'dt qe_selection \<Rightarrow> 'dt model \<Rightarrow> 'dt spine_value rpm \<Rightarrow> bool" where
  "model_taken E params s M m \<longleftrightarrow> producer_selected E M \<and>
     model_time_selected (qv_clock E) M (qs_strict s) (qs_begin s) (qs_end s) = Inr True \<and>
     (\<exists>pm f. add_area_info (qv_ops E) M (qs_bbox s) (rpm_new True) = Inr (Some pm) \<and> model_member E params s M pm f = Inr m)"

lemma add_model_taken:
  assumes "add_model E params s M st = Inr st'"
  shows "fst st' = fst st \<or> (\<exists>m. fst st' = fst st @ [m] \<and> model_taken E params s M m)"
  using assms
  by (cases st) (auto simp: add_model_def result_simps Let_def model_taken_def split: if_splits option.splits)

lemma members_taken:
  assumes "fold_result (add_model E params s) models (out, f) = Inr (out', f')" "m \<in> set out'"
  shows "m \<in> set out \<or> (\<exists>M \<in> set models. model_taken E params s M m)"
proof -
  let ?P = "\<lambda>st. \<forall>m \<in> set (fst st). m \<in> set out \<or> (\<exists>M \<in> set models. model_taken E params s M m)"
  have "?P (out', f')"
  proof (rule fold_result_invariant [OF assms(1)])
    show "?P (out, f)" by simp
    show "?P t" if "M \<in> set models" "?P u" "add_model E params s M u = Inr t" for M u t
      using add_model_taken [OF that(3)] that(1,2) by fastforce
  qed
  with assms(2) show ?thesis by simp
qed

lemma qe_update_members:
  assumes "qe_update E params seq = Inr ms"
  obtains s models where "qe_selection_of E params = Inr s" "qo_metadata (qv_ops E) (qs_options s) = Inr models"
    "\<And>m. m \<in> set ms \<Longrightarrow> \<exists>M \<in> set models. model_taken E params s M m"
proof -
  from assms obtain s models f where "qe_selection_of E params = Inr s" "qo_metadata (qv_ops E) (qs_options s) = Inr models"
    "fold_result (add_model E params s) models
       ([], \<lparr>fid_query = qv_query_id E, fid_params = get_map True params, fid_seq = seq\<rparr>) = Inr (ms, f)"
    by (auto simp: qe_update_def result_simps)
  with that members_taken show ?thesis by fastforce
qed

text \<open>
  A request that wants its whole interval to be covered and gives the begin of it gets no member
  at all, whatever the models are: a model that does not cover the interval is left out, and any
  other one of a producer of the handler raises the exception for an end that is missing.
\<close>

theorem full_interval_gives_nothing:
  assumes "qe_update E params seq = Inr ms" and "qe_selection_of E params = Inr s" and "qs_strict s"
    and "is_given (qv_clock E) (qs_begin s)"
  shows "ms = []"
proof (rule ccontr)
  assume "ms \<noteq> []"
  then obtain m where "m \<in> set ms" by (cases ms) auto
  with qe_update_members [OF assms(1)] assms(2) obtain M where "model_taken E params s M m"
    by (metis Inr_inject)
  with assms(3,4) show False by (simp add: model_taken_def strict_time_selected)
qed

section \<open>Values of a member\<close>

definition pm_ok :: "'dt spine_value rpm \<Rightarrow> bool" where
  "pm_ok = rpm_wf (\<lambda>s. s)"

definition pm_values :: "'dt spine_value rpm \<Rightarrow> string \<Rightarrow> 'dt spine_value list" where
  "pm_values = get_values (\<lambda>s. s)"

lemma pm_new [simp]: "pm_ok (rpm_new True)" "pm_values (rpm_new True) n = []"
  by (simp_all add: pm_ok_def pm_values_def) (simp add: get_values_def rpm_new_def)

lemma pm_add_value [simp]:
  "pm_ok m \<Longrightarrow> pm_ok (add_value n v m)"
  "pm_ok m \<Longrightarrow> pm_values (add_value n v m) k = pm_values m k @ (if n = k then [v] else [])"
  by (simp_all add: pm_ok_def pm_values_def add_value_def rpm_store.inv_ins rpm_store.lookup_ins) (simp_all add: rpm_key_def)

lemma pm_add_values [simp]:
  assumes "pm_ok m"
  shows "pm_ok (add_values n vs m)" "pm_values (add_values n vs m) k = pm_values m k @ (if n = k then vs else [])"
  using assms by (induction vs arbitrary: m) (simp_all add: add_values_def)

lemma pm_info_values:
  assumes "pm_ok m"
  shows "pm_ok (fold (\<lambda>n. add_value (CHR ''_'' # n) (g n)) ns m)"
    and "k = [] \<or> hd k \<noteq> CHR ''_'' \<Longrightarrow> pm_values (fold (\<lambda>n. add_value (CHR ''_'' # n) (g n)) ns m) k = pm_values m k"
  using assms by (induction ns arbitrary: m) auto

lemma pm_bbox_info [simp]:
  assumes "pm_ok m"
  shows "pm_ok (add_bbox_info Q n g m)" "n \<noteq> k \<Longrightarrow> pm_values (add_bbox_info Q n g m) k = pm_values m k"
  using assms by (simp_all add: add_bbox_info_def split: prod.splits)

lemma pm_boundary [simp]:
  assumes "pm_ok m"
  shows "pm_ok (add_boundary Q n g m)" "n \<noteq> k \<Longrightarrow> pm_values (add_boundary Q n g m) k = pm_values m k"
  using assms by (simp_all add: add_boundary_def split: option.splits)

definition area_names :: "string set" where
  "area_names = {''modelBBox'', ''requestedBBox'', ''calcBBox'', ''intersection''}"

lemma pm_area_info:
  assumes "add_area_info Q M b pm = Inr (Some pm')" "pm_ok pm"
  shows "pm_ok pm'" and "k \<notin> area_names \<Longrightarrow> pm_values pm' k = pm_values pm k"
  using assms
  by (auto simp: add_area_info_def result_simps Let_def area_names_def split: option.splits)

lemma pm_member_values:
  assumes "model_member E params s M pm f = Inr m" "pm_ok pm" "pm_values pm ''producer'' = []" "pm_values pm ''originTime'' = []"
  shows "pm_values m ''producer'' = [VString (qm_producer M)]"
    and "pm_values m ''originTime'' = [utc_text (qv_clock E) (qm_origin M)]"
proof -
  note info = pm_info_values
  from assms(1) obtain ident fmt epsg where m: "m = add_value ''crs'' (VString epsg) (
      add_value ''units'' (VString (if fmt = ''grib1'' \<or> fmt = ''grib2'' then ''grib'' else fmt)) (
      add_value ''format'' (VString fmt) (
        add_params_and_levels (qv_lc E) (qo_same (qv_ops E)) M (qs_params s) (qs_level_types s) (qs_level_values s) (
        add_time_info (qv_clock E) (qs_options s) M (qs_begin s) (qs_end s) (
        add_value ''featureId'' (VString ident) (
        add_value ''originTime'' (utc_text (qv_clock E) (qm_origin M)) (
               add_value ''producer'' (VString (qm_producer M)) (add_model_info M pm))))))))"
    by (auto simp: model_member_def add_format_and_crs_def result_simps Let_def split: option.splits)
  show "pm_values m ''producer'' = [VString (qm_producer M)]"
    using assms(2,3) by (simp add: m add_params_and_levels_def add_time_info_def Let_def add_model_info_def info)
  show "pm_values m ''originTime'' = [utc_text (qv_clock E) (qm_origin M)]"
    using assms(2,4) by (simp add: m add_params_and_levels_def add_time_info_def Let_def add_model_info_def info)
qed

lemma origin_keys:
  "set (fold (\<lambda>M ts. if producer_selected E M then sset_insert (origin_key E M) ts else ts) models acc) =
     set acc \<union> origin_key E ` {M \<in> set models. producer_selected E M}"
  by (induction models arbitrary: acc) auto

text \<open>
  C31.  The key under which an answer is cached covers the model runs the answer was made of: the
  producer and the origin time of every member are one of the comma separated entries of the
  qualifier, which is made from the same query of the engine as the answer; a new run of a model
  makes a new key.
\<close>

theorem cache_key_covers_members:
  assumes "qe_update E params seq = Inr ms" and "get_cache_key_qualifier E params = Inr key"
  shows "\<exists>entries. key = join_comma entries \<and>
    (\<forall>m \<in> set ms. \<exists>producer origin. pm_values m ''producer'' = [VString producer] \<and>
       pm_values m ''originTime'' = [utc_text (qv_clock E) origin] \<and>
       producer @ '':'' @ ck_iso (qv_clock E) origin \<in> set entries)"
proof -
  from qe_update_members [OF assms(1)] obtain s models where s: "qe_selection_of E params = Inr s"
    and models: "qo_metadata (qv_ops E) (qs_options s) = Inr models"
    and ms: "\<And>m. m \<in> set ms \<Longrightarrow> \<exists>M \<in> set models. model_taken E params s M m"
    by blast
  let ?keys = "fold (\<lambda>M ts. if producer_selected E M then sset_insert (origin_key E M) ts else ts) models []"
  from s have "meta_options_of E params = Inr (qs_options s)"
    by (auto simp: qe_selection_of_def Let_def result_simps)
  with assms(2) models have key: "key = join_comma ?keys" by (simp add: get_cache_key_qualifier_def)
  have "\<exists>producer origin. pm_values m ''producer'' = [VString producer] \<and>
       pm_values m ''originTime'' = [utc_text (qv_clock E) origin] \<and>
       producer @ '':'' @ ck_iso (qv_clock E) origin \<in> set ?keys" if "m \<in> set ms" for m
  proof -
    from ms [OF that] obtain M pm f where M: "M \<in> set models" "producer_selected E M"
      and area: "add_area_info (qv_ops E) M (qs_bbox s) (rpm_new True) = Inr (Some pm)"
      and member: "model_member E params s M pm f = Inr m"
      by (auto simp: model_taken_def)
    have "pm_ok pm" "pm_values pm ''producer'' = []" "pm_values pm ''originTime'' = []"
      using pm_area_info [OF area] by (simp_all add: area_names_def)
    from pm_member_values [OF member this] M show ?thesis
      by (intro exI conjI) (auto simp: origin_keys origin_key_def intro!: image_eqI [of _ _ M])
  qed
  with key show ?thesis by blast
qed

text \<open>A format that is configured with a capital letter cannot be asked for.\<close>

lemma upper_case_format_refused:
  assumes "requested_format E params = Inr f" "\<And>s. qv_lc E (qv_lc E s) = qv_lc E s"
  shows "qv_lc E f = f"
  using assms by (auto simp: requested_format_def result_simps Let_def split: if_splits)

lemma default_formats: "read_formats None = [''grib1'', ''grib2'', ''netcdf'']"
  by code_simp

lemma default_format_kept: "default_format \<in> set (read_formats setting)"
proof -
  have "set (fold sset_insert xs acc) = set xs \<union> set acc" for xs and acc :: "string list"
    by (induction xs arbitrary: acc) auto
  then show ?thesis by (simp add: read_formats_def)
qed

section \<open>Examples\<close>

text \<open>A clock of years, a model with one parameter, and an engine that knows only this model.\<close>

definition demo_years :: "demo_dt clock_ops" where
  "demo_years =
     \<lparr>ck_invalid = \<lambda>_. False, ck_le = \<lambda>a b. fst a \<le> fst b, ck_less = \<lambda>a b. fst a < fst b,
      ck_neg_inf = (0, 0, 0, 0), ck_pos_inf = (9999, 0, 0, 0), ck_extended = \<lambda>_. ''2025-01-01T00:00:00'',
      ck_iso = \<lambda>_. ''20250101T000000''\<rparr>"

definition demo_run :: "demo_dt model" where
  "demo_run =
     \<lparr>qm_producer = ''hirlam'', qm_origin = (2025, 1, 1, 0), qm_first = (2025, 1, 1, 0), qm_last = (2026, 1, 1, 0),
      qm_info = \<lambda>_. VBool True, qm_levels = [], qm_parameters = [''Pressure'']\<rparr>"

definition demo_doubles :: double_ops where
  "demo_doubles =
     \<lparr>do_add = \<lambda>a _. a, do_sub = \<lambda>a _. a, do_mul = \<lambda>a _. a, do_div = \<lambda>a _. a, do_of_int = \<lambda>_. 0, do_le = \<lambda>_ _. True\<rparr>"

definition demo_qe_ops :: "(demo_dt, unit, unit) qe_ops" where
  "demo_qe_ops =
     \<lparr>qo_metadata = \<lambda>_. Inr [demo_run], qo_area = \<lambda>_ _. Inr (Some ()), qo_boundary = \<lambda>_ _. Inr (),
      qo_transform = \<lambda>_ _ g. Inr g, qo_polygon = \<lambda>_. (), qo_to_xy = \<lambda>_ g. g, qo_to_latlon = \<lambda>_ g. g,
      qo_intersection = \<lambda>_ g. Some g, qo_gdal_error = 0, qo_empty = \<lambda>_. False, qo_envelope = \<lambda>_. (0, 0, 0, 0),
      qo_exterior = \<lambda>_. None, qo_point_text = \<lambda>_. '''', qo_epsg = \<lambda>_. Some 4326, qo_swap_coord = \<lambda>_. None,
      qo_float = \<lambda>d. d, qo_same = (=), qo_double = demo_doubles, qo_same_double = (=)\<rparr>"

definition demo_qe_env :: "(demo_dt, unit, unit) qe_env" where
  "demo_qe_env =
     \<lparr>qv_lc = ascii_lower, qv_conv = demo_place_conv, qv_ids = demo_ops, qv_clock = demo_years, qv_ops = demo_qe_ops,
      qv_query_id = ''model'', qv_producers = [], qv_formats = [''grib1'', ''grib2'', ''netcdf'']\<rparr>"

definition demo_full_params :: "demo_dt spine_value rpm" where
  "demo_full_params = \<lparr>rpm_params =
     [demo_entry ''beginTime'' (VTime (2024, 1, 1, 0)), demo_entry ''endTime'' (VTime (2030, 1, 1, 0)),
      demo_entry ''fullInterval'' (VInt 1)], rpm_case_sensitive = True\<rparr>"

definition demo_run_params :: "demo_dt spine_value rpm" where
  "demo_run_params = \<lparr>rpm_params = [demo_entry ''projection'' (VString ''epsg'')], rpm_case_sensitive = True\<rparr>"

lemma demo_qe_values:
  "get_values ascii_lower demo_full_params n =
     (if n = ''beginTime'' then [VTime (2024, 1, 1, 0)] else if n = ''endTime'' then [VTime (2030, 1, 1, 0)]
      else if n = ''fullInterval'' then [VInt 1] else [])"
  "get_values ascii_lower demo_run_params n = (if n = ''projection'' then [VString ''epsg''] else [])"
  by (simp_all add: get_values_def demo_full_params_def demo_run_params_def demo_entry_def mm_values_def rpm_key_def)

lemma rpm_count_length: "rpm_count lc m n = length (get_values lc m n)"
  by (simp add: rpm_count_def get_values_def mm_simps)

lemma demo_qe_selection:
  "qe_selection_of demo_qe_env demo_full_params = Inr \<lparr>qs_options = no_options, qs_strict = True,
     qs_begin = Some (2024, 1, 1, 0), qs_end = Some (2030, 1, 1, 0), qs_params = [], qs_level_types = [],
     qs_level_values = [], qs_bbox = None\<rparr>"
  "qe_selection_of demo_qe_env demo_run_params = Inr \<lparr>qs_options = no_options, qs_strict = False,
     qs_begin = None, qs_end = None, qs_params = [], qs_level_types = [], qs_level_values = [], qs_bbox = None\<rparr>"
  by (simp_all add: qe_selection_of_def meta_options_of_def handle_opt_param_def optional_single_def get_bounding_box_def
      get_single_def rpm_get_def rpm_count_length demo_qe_values demo_qe_env_def demo_place_conv_def demo_qe_ops_def
      SIZE_MAX_def)

lemma full_interval_gives_nothing_witness:
  "qe_update demo_qe_env demo_full_params 3 = Inr [] \<and> ([] :: demo_dt spine_value rpm list) = []"
proof -
  have env: "qv_ops demo_qe_env = demo_qe_ops" "qv_clock demo_qe_env = demo_years" "qv_producers demo_qe_env = []"
    "qo_metadata demo_qe_ops opt = Inr [demo_run]" for opt
    by (simp_all add: demo_qe_env_def demo_qe_ops_def)
  have out: "model_time_selected demo_years demo_run True (Some (2024, 1, 1, 0)) (Some (2030, 1, 1, 0)) = Inr False"
    by (simp add: model_time_selected_def is_given_def beyond_def demo_run_def demo_years_def word_less_nat_alt)
  have u: "qe_update demo_qe_env demo_full_params 3 = Inr []"
    by (simp add: qe_update_def demo_qe_selection add_model_def producer_selected_def env out)
  from full_interval_gives_nothing [OF u demo_qe_selection(1)] u show ?thesis
    by (simp add: is_given_def demo_qe_env_def demo_years_def)
qed

definition demo_run_feature :: "demo_dt feature_id" where
  "demo_run_feature = model_feature demo_run
     \<lparr>fid_query = ''model'', fid_params = [(''projection'', VString ''epsg'')], fid_seq = 3\<rparr>"

lemma demo_run_identifier: "\<exists>ident. make_id demo_ops demo_run_feature = Inr ident"
proof -
  have "fid_ok demo_dt demo_run_feature"
    by (simp add: fid_ok_def demo_run_feature_def model_feature_def add_param_def erase_param_def value_map_ok_def mm_simps
        mm_sorted_def demo_run_def mm_erase_def list_all_iff set_mm_insert value_ok_def dt_ok_def demo_dt_def ucast_ucast_back)
  from create_from_get_id [OF demo_digest_law demo_base64_law this]
  have "\<exists>str. get_id demo_dt demo_sha demo_encode demo_run_feature = Inr str" by (auto simp only: rbind_eq_Inr)
  then show ?thesis by (simp add: make_id_def demo_ops_def)
qed

lemma demo_run_update: "\<exists>m. qe_update demo_qe_env demo_run_params 3 = Inr [m]"
proof -
  obtain ident where ident: "make_id demo_ops demo_run_feature = Inr ident" using demo_run_identifier by blast
  have map: "get_map True demo_run_params = [(''projection'', VString ''epsg'')]"
    by (simp add: get_map_def demo_run_params_def demo_entry_def)
  have lower: "ascii_lower ''grib2'' = ''grib2''" by code_simp
  let ?s = "\<lparr>qs_options = no_options, qs_strict = False, qs_begin = None, qs_end = None, qs_params = [], qs_level_types = [],
     qs_level_values = [], qs_bbox = None\<rparr> :: demo_dt qe_selection"
  have member: "\<exists>m. model_member demo_qe_env demo_run_params ?s demo_run pm demo_run_feature = Inr m" for pm
    by (simp add: model_member_def Let_def demo_qe_env_def ident add_format_and_crs_def requested_format_def
        get_optional_default_def get_single_def rpm_get_def demo_qe_values demo_place_conv_def demo_qe_ops_def
        default_format_def lower)
  obtain pm where area: "add_area_info demo_qe_ops demo_run None (rpm_new True) = Inr (Some pm)"
    by (auto simp: add_area_info_def get_model_boundary_def demo_qe_ops_def Let_def)
  have chosen: "producer_selected demo_qe_env demo_run" "qv_ops demo_qe_env = demo_qe_ops"
    "qv_query_id demo_qe_env = ''model''" "qo_metadata demo_qe_ops opt = Inr [demo_run]"
    "model_time_selected (qv_clock demo_qe_env) demo_run False None None = Inr True" for opt
    by (simp_all add: producer_selected_def demo_qe_env_def demo_qe_ops_def model_time_selected_def is_given_def)
  from member obtain m where m: "model_member demo_qe_env demo_run_params ?s demo_run pm demo_run_feature = Inr m" by blast
  show ?thesis
    by (simp add: qe_update_def demo_qe_selection add_model_def chosen map area demo_run_feature_def [symmetric] Let_def m)
qed

lemma cache_key_covers_members_witness:
  "\<exists>m entries. qe_update demo_qe_env demo_run_params 3 = Inr [m] \<and> ''hirlam:20250101T000000'' = join_comma entries \<and>
     (\<exists>producer origin. pm_values m ''producer'' = [VString producer] \<and>
       producer @ '':'' @ ck_iso (qv_clock demo_qe_env) origin \<in> set entries)"
proof -
  obtain m where m: "qe_update demo_qe_env demo_run_params 3 = Inr [m]" using demo_run_update by blast
  have key: "get_cache_key_qualifier demo_qe_env demo_run_params = Inr ''hirlam:20250101T000000''"
    by (simp add: get_cache_key_qualifier_def meta_options_of_def handle_opt_param_def rpm_count_length demo_qe_values
        demo_qe_env_def demo_qe_ops_def producer_selected_def origin_key_def demo_run_def demo_years_def sset_insert_def)
  from cache_key_covers_members [OF m key] m show ?thesis by fastforce
qed

end
