(* ===== verification/ObsParams.thy ===== *)
theory ObsParams
  imports HandlerParams
begin

text \<open>
  \<open>wfs/stored_queries/StoredObsQueryHandler.cpp\<close>, first part: the parameters an observation query
  asks the observation engine for, and the index that says which column of the answer holds which
  of them.
\<close>

section \<open>The index\<close>

text \<open>
  The parameters of the engine are abstract: \<open>op_param\<close> is the constructor with name, type and
  number, \<open>op_make\<close> is \<open>makeParameter\<close>, \<open>op_sensor\<close> sets the sensor number.  The predicates are
  those of the time series library, \<open>op_known\<close> is \<open>isParameter\<close> of the engine for a station type.
\<close>

datatype parameter_type = DataIndependent | DataDerived

record 'p param_ops =
  op_param :: "string \<Rightarrow> parameter_type \<Rightarrow> string \<Rightarrow> 'p"
  op_name :: "'p \<Rightarrow> string"
  op_make :: "string \<Rightarrow> 'p result"
  op_sensor :: "16 word \<Rightarrow> 'p \<Rightarrow> 'p"
  op_special :: "'p \<Rightarrow> bool"
  op_known :: "string \<Rightarrow> string \<Rightarrow> bool"
  op_is_special :: "string \<Rightarrow> bool"
  op_is_location :: "string \<Rightarrow> bool"
  op_is_time :: "string \<Rightarrow> bool"

definition initial_bs_param :: "'p param_ops \<Rightarrow> 'p list" where
  "initial_bs_param P =
     [op_param P ''fmisid'' DataIndependent ''kFmiFMISID'',
      op_param P ''geoid'' DataIndependent ''kFmiGEOID'',
      op_param P ''stationlon'' DataDerived ''kFmiStationLongitude'',
      op_param P ''stationlat'' DataDerived ''kFmiStationLatitude'',
      op_param P ''elevation'' DataIndependent ''kFmiStationElevation'',
      op_param P ''stationname'' DataIndependent ''kFmiStationName'',
      op_param P ''distance'' DataIndependent ''kFmiDistance'',
      op_param P ''direction'' DataIndependent ''kFmiDirection'',
      op_param P ''wmo'' DataIndependent ''kFmiWmoStationNumber'']"

definition fmisid_ind :: nat where "fmisid_ind = 0"
definition geoid_ind :: nat where "geoid_ind = 1"
definition lon_ind :: nat where "lon_ind = 2"
definition lat_ind :: nat where "lat_ind = 3"
definition height_ind :: nat where "height_ind = 4"
definition name_ind :: nat where "name_ind = 5"
definition dist_ind :: nat where "dist_ind = 6"
definition direction_ind :: nat where "direction_ind = 7"
definition wmo_ind :: nat where "wmo_ind = 8"

text \<open>The index is -1, here \<open>None\<close>, for a parameter that is computed from the location or the time.\<close>

record param_index_entry =
  px_ind :: "nat option"
  px_name :: string
  px_sensor :: "string option"

record ext_index_entry =
  xe_p :: param_index_entry
  xe_qc :: "param_index_entry option"

definition index_entry :: "nat option \<Rightarrow> string \<Rightarrow> ext_index_entry" where
  "index_entry ind name = \<lparr>xe_p = \<lparr>px_ind = ind, px_name = name, px_sensor = None\<rparr>, xe_qc = None\<rparr>"

text \<open>The parameters of the query and the index as they grow.\<close>

record 'p param_state =
  ps_params :: "'p list"
  ps_index :: "ext_index_entry list"

definition lookup_initial_parameter :: "'p param_ops \<Rightarrow> string \<Rightarrow> nat option" where
  "lookup_initial_parameter P name =
     List.find (\<lambda>i. op_name P (initial_bs_param P ! i) = name) [0..<length (initial_bs_param P)]"

definition add_qc_parameter ::
    "'p param_ops \<Rightarrow> string \<Rightarrow> 'p list \<Rightarrow> ext_index_entry \<Rightarrow> ('p list \<times> ext_index_entry) result" where
  "add_qc_parameter P name params entry =
     (let qc_name = ''qc_'' @ name;
          entry = entry\<lparr>xe_qc := Some \<lparr>px_ind = Some (length params), px_name = qc_name, px_sensor = None\<rparr>\<rparr>
      in rbind (op_make P qc_name) (\<lambda>param. Inr (params @ [param], entry)))"

text \<open>The parameter, its quality code if it is asked for, and the entry of both.\<close>

definition push_parameter ::
    "'p param_ops \<Rightarrow> bool \<Rightarrow> string \<Rightarrow> 'p \<Rightarrow> ext_index_entry \<Rightarrow> 'p param_state \<Rightarrow>
     (ext_index_entry \<times> 'p param_state) result" where
  "push_parameter P add_qc name param entry st =
     (let params = ps_params st @ [param]
      in rbind (if add_qc then add_qc_parameter P name params entry else Inr (params, entry)) (\<lambda>(params, entry).
         Inr (entry, \<lparr>ps_params = params, ps_index = ps_index st @ [entry]\<rparr>)))"

definition sensor_name :: "string \<Rightarrow> 16 word \<Rightarrow> string" where
  "sensor_name name index = name @ ''(:'' @ dec_nat (unat index) @ '')''"

definition add_sensor ::
    "'p param_ops \<Rightarrow> bool \<Rightarrow> string \<Rightarrow> 16 word \<Rightarrow> ext_index_entry \<Rightarrow> 'p param_state \<Rightarrow>
     (ext_index_entry \<times> 'p param_state) result" where
  "add_sensor P add_qc name index entry st =
     rbind (op_make P name) (\<lambda>param.
       push_parameter P add_qc name (op_sensor P index param)
         (entry\<lparr>xe_p := (xe_p entry)\<lparr>px_ind := Some (length (ps_params st)),
            px_sensor := Some (sensor_name (px_name (xe_p entry)) index)\<rparr>\<rparr>) st)"

text \<open>
  The loop over the sensors: the number is an \<open>unsigned short\<close>, the bound \<open>sensor_last + 1\<close> an
  \<open>int\<close>.  The value is \<open>None\<close> if the loop does not end; the flag tells whether a sensor was added.
\<close>

partial_function (option) sensor_loop ::
    "'p param_ops \<Rightarrow> bool \<Rightarrow> string \<Rightarrow> 16 word \<Rightarrow> 16 word \<Rightarrow> 16 word \<Rightarrow> bool \<Rightarrow> ext_index_entry \<Rightarrow> 'p param_state \<Rightarrow>
     (bool \<times> 'p param_state) result option" where
  "sensor_loop P add_qc name index lst step added entry st =
     (if unat index < unat lst + 1
      then case add_sensor P add_qc name index entry st of
          Inl e \<Rightarrow> Some (Inl e)
        | Inr r \<Rightarrow> sensor_loop P add_qc name (index + step) lst step True (fst r) (snd r)
      else Some (Inr (added, st)))"

definition add_meteo_parameter ::
    "'p param_ops \<Rightarrow> meteo_option \<Rightarrow> string \<Rightarrow> bool \<Rightarrow> 'p param_state \<Rightarrow> (bool \<times> 'p param_state) result option" where
  "add_meteo_parameter P opt name add_qc st =
     (let entry = index_entry (Some (length (ps_params st))) name in
      case op_make P name of
        Inl e \<Rightarrow> Some (Inl e)
      | Inr param \<Rightarrow>
          let have_meteo_param = (\<not> op_special P param);
              sensors = (if have_meteo_param \<and> (mp_sensor_first opt \<noteq> 1 \<or> mp_sensor_last opt \<noteq> 1)
                then sensor_loop P add_qc name (mp_sensor_first opt) (mp_sensor_last opt) (mp_sensor_step opt) False entry st
                else Some (Inr (False, st)))
          in map_option (\<lambda>r. rbind r (\<lambda>(sensor_parameter_exists, st).
               if sensor_parameter_exists then Inr (have_meteo_param, st)
               else rbind (push_parameter P add_qc name param entry st) (\<lambda>(_, st). Inr (have_meteo_param, st)))) sensors)"

definition add_special_parameter ::
    "'p param_ops \<Rightarrow> string \<Rightarrow> string \<Rightarrow> 'p param_state \<Rightarrow> 'p param_state result" where
  "add_special_parameter P name l_name st = (case lookup_initial_parameter P l_name of
       Some ind \<Rightarrow> Inr (st\<lparr>ps_index := ps_index st @ [index_entry (Some ind) name]\<rparr>)
     | None \<Rightarrow>
         if op_is_location P name \<or> op_is_time P name
         then Inr (st\<lparr>ps_index := ps_index st @ [index_entry None name]\<rparr>)
         else rbind (op_make P name) (\<lambda>param.
           Inr \<lparr>ps_params = ps_params st @ [param],
                ps_index = ps_index st @ [index_entry (Some (length (ps_params st))) name]\<rparr>))"

definition invalid_parameter :: "string \<Rightarrow> 'a result" where
  "invalid_parameter msg = Inl (Thrown InvalidParameterValue msg)"

text \<open>One name of the list; the state has the lower case names so far and the flag of the result.\<close>

definition add_parameter ::
    "(string \<Rightarrow> string) \<Rightarrow> 'p param_ops \<Rightarrow> meteo_options \<Rightarrow> string \<Rightarrow> bool \<Rightarrow> string \<Rightarrow>
     string list \<times> bool \<times> 'p param_state \<Rightarrow> (string list \<times> bool \<times> 'p param_state) result option" where
  "add_parameter lc P ms stationtype add_qc name s = (case s of (seen, have_meteo_param, st) \<Rightarrow>
     let l_name = lc name in
     if l_name \<in> set seen then Some (invalid_parameter ''Duplicate parameter name'')
     else if op_known P name stationtype
     then map_option (\<lambda>r. rbind r (\<lambda>(m, st). Inr (l_name # seen, have_meteo_param \<or> m, st)))
            (add_meteo_parameter P (get_meteo_parameter_options lc ms name) name add_qc st)
     else Some (if op_is_special P name
       then rbind (add_special_parameter P name l_name st) (\<lambda>st. Inr (l_name # seen, have_meteo_param, st))
       else Inl (Thrown NoCode ''Unrecognized parameter'')))"

fun fold_run :: "('a \<Rightarrow> 's \<Rightarrow> 's result option) \<Rightarrow> 'a list \<Rightarrow> 's \<Rightarrow> 's result option" where
  "fold_run f [] s = Some (Inr s)"
| "fold_run f (x # xs) s = (case f x s of
     None \<Rightarrow> None | Some (Inl e) \<Rightarrow> Some (Inl e) | Some (Inr s') \<Rightarrow> fold_run f xs s')"

definition add_parameters ::
    "(string \<Rightarrow> string) \<Rightarrow> 'p param_ops \<Rightarrow> meteo_options \<Rightarrow> bool \<Rightarrow> string \<Rightarrow> bool \<Rightarrow> string list \<Rightarrow> 'p param_state \<Rightarrow>
     (bool \<times> 'p param_state) result option" where
  "add_parameters lc P ms support_qc stationtype support_quality_info param_names st =
     (let explicit_qc = (firstQCParameter lc param_names \<noteq> None) in
      if (\<not> support_qc \<or> \<not> support_quality_info) \<and> explicit_qc
      then Some (invalid_parameter ''Quality code parameter is not allowed in this query'')
      else map_option (\<lambda>r. rbind r (\<lambda>(_, have_meteo_param, st). Inr (have_meteo_param, st)))
        (fold_run (add_parameter lc P ms stationtype (\<not> explicit_qc \<and> support_quality_info)) param_names ([], False, st)))"

text \<open>\<open>check_parameter_names\<close>, which no function calls.\<close>

definition check_parameter_names ::
    "(string \<Rightarrow> string) \<Rightarrow> bool \<Rightarrow> bool \<Rightarrow> string list \<Rightarrow> unit result" where
  "check_parameter_names lc support_qc support_quality_info param_names =
     rbind (fold_result (\<lambda>name seen.
        if lc name \<in> set seen then invalid_parameter ''Duplicate parameter name''
        else if (\<not> support_qc \<or> \<not> support_quality_info) \<and> isQCParameter lc name
        then invalid_parameter ''Quality code parameter is not allowed in this query''
        else Inr (lc name # seen)) param_names []) (\<lambda>_. Inr ())"

section \<open>The index is sound\<close>

abbreviation entry_name :: "ext_index_entry \<Rightarrow> string" where
  "entry_name e \<equiv> px_name (xe_p e)"

definition makes :: "'p param_ops \<Rightarrow> string \<Rightarrow> 'p \<Rightarrow> bool" where
  "makes P name p \<longleftrightarrow> (\<exists>q. op_make P name = Inr q \<and> (p = q \<or> (\<exists>k. p = op_sensor P k q)))"

definition main_ok :: "(string \<Rightarrow> string) \<Rightarrow> 'p param_ops \<Rightarrow> 'p list \<Rightarrow> param_index_entry \<Rightarrow> bool" where
  "main_ok lc P params x = (case px_ind x of
     None \<Rightarrow> op_is_location P (px_name x) \<or> op_is_time P (px_name x)
   | Some i \<Rightarrow> i < length params \<and>
       (i < length (initial_bs_param P) \<and> op_name P (params ! i) = lc (px_name x) \<or> makes P (px_name x) (params ! i)))"

definition qc_ok :: "'p param_ops \<Rightarrow> 'p list \<Rightarrow> string \<Rightarrow> param_index_entry \<Rightarrow> bool" where
  "qc_ok P params name q \<longleftrightarrow> px_name q = ''qc_'' @ name \<and>
     (case px_ind q of None \<Rightarrow> False
      | Some i \<Rightarrow> i < length params \<and> op_make P (px_name q) = Inr (params ! i))"

definition entry_ok :: "(string \<Rightarrow> string) \<Rightarrow> 'p param_ops \<Rightarrow> 'p list \<Rightarrow> ext_index_entry \<Rightarrow> bool" where
  "entry_ok lc P params e \<longleftrightarrow> main_ok lc P params (xe_p e) \<and> (\<forall>q. xe_qc e = Some q \<longrightarrow> qc_ok P params (entry_name e) q)"

text \<open>The columns behind the initial ones that belong to an entry.\<close>

definition own_columns :: "'p param_ops \<Rightarrow> ext_index_entry \<Rightarrow> nat list" where
  "own_columns P e =
     filter (\<lambda>i. length (initial_bs_param P) \<le> i)
       (List.map_filter px_ind (xe_p e # (case xe_qc e of None \<Rightarrow> [] | Some q \<Rightarrow> [q])))"

definition index_ok :: "(string \<Rightarrow> string) \<Rightarrow> 'p param_ops \<Rightarrow> 'p param_state \<Rightarrow> bool" where
  "index_ok lc P st \<longleftrightarrow>
     take (length (initial_bs_param P)) (ps_params st) = initial_bs_param P \<and>
     list_all (entry_ok lc P (ps_params st)) (ps_index st) \<and>
     concat (map (own_columns P) (ps_index st)) = [length (initial_bs_param P)..<length (ps_params st)]"

lemma index_ok_length: "index_ok lc P st \<Longrightarrow> length (initial_bs_param P) \<le> length (ps_params st)"
proof -
  assume "index_ok lc P st"
  then have "length (take (length (initial_bs_param P)) (ps_params st)) = length (initial_bs_param P)"
    by (simp only: index_ok_def)
  then show ?thesis by (simp only: length_take min_def split: if_splits)
qed

lemma main_ok_append: "main_ok lc P params x \<Longrightarrow> main_ok lc P (params @ qs) x"
  by (cases "px_ind x") (simp_all add: main_ok_def nth_append)

lemma qc_ok_append: "qc_ok P params name q \<Longrightarrow> qc_ok P (params @ qs) name q"
  by (cases "px_ind q") (auto simp: qc_ok_def nth_append)

lemma entry_ok_append: "entry_ok lc P params e \<Longrightarrow> entry_ok lc P (params @ qs) e"
  unfolding entry_ok_def by (blast intro: main_ok_append qc_ok_append)

lemma index_ok_add:
  assumes ok: "index_ok lc P st" and e: "entry_ok lc P (ps_params st @ qs) e"
    and cols: "own_columns P e = [length (ps_params st)..<length (ps_params st) + length qs]"
  shows "index_ok lc P \<lparr>ps_params = ps_params st @ qs, ps_index = ps_index st @ [e]\<rparr>"
proof -
  note len = index_ok_length [OF ok]
  have "list_all (entry_ok lc P (ps_params st @ qs)) (ps_index st)"
    using ok by (auto simp: index_ok_def list_all_iff intro: entry_ok_append)
  moreover have "[length (initial_bs_param P)..<length (ps_params st)] @
      [length (ps_params st)..<length (ps_params st) + length qs] =
    [length (initial_bs_param P)..<length (ps_params st) + length qs]"
    using len upt_add_eq_append by metis
  ultimately show ?thesis using ok e cols len by (simp add: index_ok_def)
qed

text \<open>What a step adds: entries of one name.\<close>

definition extends :: "'p param_state \<Rightarrow> string \<Rightarrow> bool \<Rightarrow> 'p param_state \<Rightarrow> bool" where
  "extends st name added st' \<longleftrightarrow>
     (\<exists>es. ps_index st' = ps_index st @ es \<and> (\<forall>e\<in>set es. entry_name e = name) \<and> (added \<longleftrightarrow> es \<noteq> []))"

lemma extends_refl: "extends st name False st"
  by (simp add: extends_def)

lemma extends_one: "ps_index st' = ps_index st @ [e] \<Longrightarrow> entry_name e = name \<Longrightarrow> extends st name True st'"
  by (simp add: extends_def)

lemma extends_trans: "extends st name a st1 \<Longrightarrow> extends st1 name b st2 \<Longrightarrow> extends st name (a \<or> b) st2"
  unfolding extends_def by (elim exE conjE) (rule exI, auto)

definition open_entry :: "bool \<Rightarrow> string \<Rightarrow> ext_index_entry \<Rightarrow> bool" where
  "open_entry add_qc name e \<longleftrightarrow> entry_name e = name \<and> (add_qc \<or> xe_qc e = None)"

lemma push_parameter_ok:
  assumes push: "push_parameter P add_qc name param entry st = Inr (entry', st')"
    and ok: "index_ok lc P st" and entry: "open_entry add_qc name entry"
    and ind: "px_ind (xe_p entry) = Some (length (ps_params st))" and m: "makes P name param"
  shows "index_ok lc P st' \<and> open_entry add_qc name entry' \<and> extends st name True st'"
proof -
  let ?n = "length (ps_params st)"
  note len = index_ok_length [OF ok]
  show ?thesis
  proof (cases add_qc)
    case False
    then have st': "st' = \<lparr>ps_params = ps_params st @ [param], ps_index = ps_index st @ [entry]\<rparr>" "entry' = entry"
      using push by (auto simp: push_parameter_def)
    have "entry_ok lc P (ps_params st @ [param]) entry"
      using False entry ind m by (simp add: entry_ok_def main_ok_def open_entry_def nth_append)
    moreover have "own_columns P entry = [?n..<?n + length [param]]"
      using False entry ind len by (simp add: own_columns_def open_entry_def map_filter_simps)
    ultimately have "index_ok lc P st'" unfolding st' by (rule index_ok_add [OF ok])
    then show ?thesis using entry st' by (auto simp: open_entry_def intro: extends_one)
  next
    case True
    let ?q = "\<lparr>px_ind = Some (Suc ?n), px_name = ''qc_'' @ name, px_sensor = None\<rparr>"
    let ?e = "entry\<lparr>xe_qc := Some ?q\<rparr>"
    obtain qp where qp: "op_make P (''qc_'' @ name) = Inr qp"
      and st': "st' = \<lparr>ps_params = ps_params st @ [param, qp], ps_index = ps_index st @ [?e]\<rparr>" "entry' = ?e"
      using push True by (auto simp: push_parameter_def add_qc_parameter_def Let_def result_simps)
    have "entry_ok lc P (ps_params st @ [param, qp]) ?e"
      using entry ind m qp by (simp add: entry_ok_def main_ok_def qc_ok_def open_entry_def nth_append)
    moreover have "own_columns P ?e = [?n..<?n + length [param, qp]]"
      using ind len by (simp add: own_columns_def map_filter_simps)
    ultimately have "index_ok lc P st'" unfolding st' by (rule index_ok_add [OF ok])
    then show ?thesis using entry True st' by (auto simp: open_entry_def intro: extends_one)
  qed
qed

lemma add_sensor_ok:
  assumes "add_sensor P add_qc name index entry st = Inr (entry', st')" "index_ok lc P st" "open_entry add_qc name entry"
  shows "index_ok lc P st' \<and> open_entry add_qc name entry' \<and> extends st name True st'"
proof -
  let ?e = "entry\<lparr>xe_p := (xe_p entry)\<lparr>px_ind := Some (length (ps_params st)),
    px_sensor := Some (sensor_name (entry_name entry) index)\<rparr>\<rparr>"
  obtain param where p: "op_make P name = Inr param"
    and push: "push_parameter P add_qc name (op_sensor P index param) ?e st = Inr (entry', st')"
    using assms(1) by (auto simp: add_sensor_def result_simps)
  have "open_entry add_qc name ?e" using assms(3) by (simp add: open_entry_def)
  moreover have "makes P name (op_sensor P index param)" using p by (auto simp: makes_def)
  ultimately show ?thesis using push_parameter_ok [OF push assms(2)] by simp
qed

definition loop_ok :: "(string \<Rightarrow> string) \<Rightarrow>
    (((((((('p param_ops \<times> bool) \<times> string) \<times> 16 word) \<times> 16 word) \<times> 16 word) \<times> bool) \<times> ext_index_entry) \<times> 'p param_state) \<Rightarrow>
    (bool \<times> 'p param_state) result \<Rightarrow> bool" where
  "loop_ok lc x r = (case x of ((((((((P, add_qc), name), _), _), _), added), entry), st) \<Rightarrow>
     index_ok lc P st \<longrightarrow> open_entry add_qc name entry \<longrightarrow> (\<forall>added' st'. r = Inr (added', st') \<longrightarrow>
       index_ok lc P st' \<and> (\<exists>b. added' = (added \<or> b) \<and> extends st name b st')))"

lemma sensor_loop_ok:
  assumes "sensor_loop P add_qc name index lst step added entry st = Some (Inr (added', st'))"
    and "index_ok lc P st" "open_entry add_qc name entry"
  shows "index_ok lc P st' \<and> (\<exists>b. added' = (added \<or> b) \<and> extends st name b st')"
proof -
  have "loop_ok lc ((((((((P, add_qc), name), index), lst), step), added), entry), st) (Inr (added', st'))"
  proof (rule sensor_loop.raw_induct [where Pa = "loop_ok lc", OF _ assms(1)], goal_cases)
    case (1 loop P add_qc name index lst step added entry st r)
    show ?case
      unfolding loop_ok_def prod.case
    proof (intro impI allI)
      fix added' st'
      assume ok: "index_ok lc P st" "open_entry add_qc name entry" and r: "r = Inr (added', st')"
      show "index_ok lc P st' \<and> (\<exists>b. added' = (added \<or> b) \<and> extends st name b st')"
      proof (cases "unat index < unat lst + 1")
        case False
        with 1(2) r show ?thesis using ok extends_refl by auto
      next
        case True
        with 1(2) r obtain entry1 st1 where s: "add_sensor P add_qc name index entry st = Inr (entry1, st1)"
          and rest: "loop P add_qc name (index + step) lst step True entry1 st1 = Some r"
          by (cases "add_sensor P add_qc name index entry st") auto
        note one = add_sensor_ok [OF s ok]
        with 1(1) [OF rest] r obtain b where "index_ok lc P st'" "added'" and b: "extends st1 name b st'"
          by (auto simp: loop_ok_def)
        have "extends st name (True \<or> b) st'" by (rule extends_trans [OF _ b]) (use one in auto)
        with \<open>index_ok lc P st'\<close> \<open>added'\<close> show ?thesis by auto
      qed
    qed
  qed
  with assms(2,3) show ?thesis by (simp add: loop_ok_def)
qed

lemma add_meteo_parameter_ok:
  assumes "add_meteo_parameter P opt name add_qc st = Some (Inr (m, st'))" and ok: "index_ok lc P st"
  shows "index_ok lc P st' \<and> extends st name True st'"
proof -
  let ?e = "index_entry (Some (length (ps_params st))) name"
  have e: "open_entry add_qc name ?e" "px_ind (xe_p ?e) = Some (length (ps_params st))"
    by (simp_all add: open_entry_def index_entry_def)
  obtain param where p: "op_make P name = Inr param"
    using assms(1) by (cases "op_make P name") (auto simp: add_meteo_parameter_def Let_def)
  then have makes: "makes P name param" by (auto simp: makes_def)
  obtain added st1 where sensors: "(if \<not> op_special P param \<and> (mp_sensor_first opt \<noteq> 1 \<or> mp_sensor_last opt \<noteq> 1)
       then sensor_loop P add_qc name (mp_sensor_first opt) (mp_sensor_last opt) (mp_sensor_step opt) False ?e st
       else Some (Inr (False, st))) = Some (Inr (added, st1))"
    and rest: "(if added then Inr (\<not> op_special P param, st1)
       else rbind (push_parameter P add_qc name param ?e st1) (\<lambda>(_, st). Inr (\<not> op_special P param, st))) = Inr (m, st')"
    using assms(1) p by (auto simp: add_meteo_parameter_def Let_def rbind_eq_Inr)
  have one: "index_ok lc P st1 \<and> extends st name added st1"
  proof (cases "\<not> op_special P param \<and> (mp_sensor_first opt \<noteq> 1 \<or> mp_sensor_last opt \<noteq> 1)")
    case True
    with sensors have "sensor_loop P add_qc name (mp_sensor_first opt) (mp_sensor_last opt) (mp_sensor_step opt) False ?e st =
      Some (Inr (added, st1))" by simp
    from sensor_loop_ok [OF this ok e(1)] show ?thesis by simp
  next
    case False
    with sensors show ?thesis using ok extends_refl by auto
  qed
  show ?thesis
  proof (cases added)
    case True
    with one rest show ?thesis by auto
  next
    case False
    with one have same: "ps_index st1 = ps_index st" by (auto simp: extends_def)
    from False rest obtain entry' where push: "push_parameter P add_qc name param ?e st1 = Inr (entry', st')"
      by (auto simp: rbind_eq_Inr)
    have "length (ps_params st1) = length (ps_params st)"
    proof -
      have "[length (initial_bs_param P)..<length (ps_params st1)] = [length (initial_bs_param P)..<length (ps_params st)]"
        using one ok same by (simp add: index_ok_def)
      then have "length (ps_params st1) - length (initial_bs_param P) = length (ps_params st) - length (initial_bs_param P)"
        by (metis length_upt)
      then show ?thesis using index_ok_length one ok by (metis le_add_diff_inverse)
    qed
    with push_parameter_ok [OF push _ e(1) _ makes] e(2) one same show ?thesis by (auto simp: extends_def)
  qed
qed

lemma lookup_initial_parameter_Some:
  assumes "lookup_initial_parameter P name = Some i"
  shows "i < length (initial_bs_param P) \<and> op_name P (initial_bs_param P ! i) = name"
  using assms unfolding lookup_initial_parameter_def by (auto simp: find_Some_iff)

lemma add_special_parameter_ok:
  assumes "add_special_parameter P name (lc name) st = Inr st'" and ok: "index_ok lc P st"
  shows "index_ok lc P st' \<and> extends st name True st'"
proof -
  let ?n = "length (ps_params st)"
  note len = index_ok_length [OF ok]
  have keep: "index_ok lc P (st\<lparr>ps_index := ps_index st @ [e]\<rparr>)"
    if "entry_ok lc P (ps_params st) e" "own_columns P e = []" for e
  proof -
    have eq: "st\<lparr>ps_index := ps_index st @ [e]\<rparr> = \<lparr>ps_params = ps_params st @ [], ps_index = ps_index st @ [e]\<rparr>" by simp
    show ?thesis unfolding eq by (rule index_ok_add [OF ok]) (use that in simp_all)
  qed
  show ?thesis
  proof (cases "lookup_initial_parameter P (lc name)")
    case (Some i)
    let ?e = "index_entry (Some i) name"
    note i = lookup_initial_parameter_Some [OF Some]
    then have i': "i < ?n" using len by linarith
    moreover have "ps_params st ! i = initial_bs_param P ! i"
    proof -
      have "take (length (initial_bs_param P)) (ps_params st) = initial_bs_param P" using ok by (simp add: index_ok_def)
      then show ?thesis using i nth_take by metis
    qed
    ultimately have "entry_ok lc P (ps_params st) ?e"
      using i by (simp add: entry_ok_def main_ok_def index_entry_def)
    moreover have "own_columns P ?e = []" using i by (simp add: own_columns_def index_entry_def map_filter_simps)
    ultimately have "index_ok lc P (st\<lparr>ps_index := ps_index st @ [?e]\<rparr>)" by (rule keep)
    moreover have "st' = st\<lparr>ps_index := ps_index st @ [?e]\<rparr>"
      using assms(1) Some by (simp add: add_special_parameter_def)
    ultimately show ?thesis by (auto simp: index_entry_def intro: extends_one)
  next
    case None
    show ?thesis
    proof (cases "op_is_location P name \<or> op_is_time P name")
      case True
      let ?e = "index_entry None name"
      have "index_ok lc P (st\<lparr>ps_index := ps_index st @ [?e]\<rparr>)"
        by (rule keep) (use True in \<open>auto simp: entry_ok_def main_ok_def index_entry_def own_columns_def map_filter_simps\<close>)
      moreover have "st' = st\<lparr>ps_index := ps_index st @ [?e]\<rparr>"
        using assms(1) None True by (auto simp: add_special_parameter_def)
      ultimately show ?thesis by (auto simp: index_entry_def intro: extends_one)
    next
      case False
      let ?e = "index_entry (Some ?n) name"
      obtain param where p: "op_make P name = Inr param"
        and st': "st' = \<lparr>ps_params = ps_params st @ [param], ps_index = ps_index st @ [?e]\<rparr>"
        using assms(1) None False by (auto simp: add_special_parameter_def result_simps)
      have "index_ok lc P st'"
        unfolding st'
      proof (rule index_ok_add [OF ok])
        show "entry_ok lc P (ps_params st @ [param]) ?e"
          using p by (simp add: entry_ok_def main_ok_def index_entry_def nth_append makes_def)
        show "own_columns P ?e = [?n..<?n + length [param]]"
          using len by (simp add: own_columns_def index_entry_def map_filter_simps)
      qed
      then show ?thesis using st' by (auto simp: index_entry_def intro: extends_one)
    qed
  qed
qed

text \<open>The names treated so far, in their order, are those of the entries.\<close>

definition names_done :: "(string \<Rightarrow> string) \<Rightarrow> string list \<Rightarrow> string list \<Rightarrow> 'p param_state \<Rightarrow> bool" where
  "names_done lc names seen st \<longleftrightarrow>
     set seen = set (map lc names) \<and> distinct (map lc names) \<and> remdups_adj (map entry_name (ps_index st)) = names"

lemma remdups_adj_snoc_replicate:
  "x \<notin> set xs \<Longrightarrow> 0 < k \<Longrightarrow> remdups_adj (xs @ replicate k x) = remdups_adj xs @ [x]"
proof (induction xs rule: remdups_adj.induct)
  case 1
  then show ?case by (simp add: remdups_adj_replicate)
next
  case (2 y)
  then obtain m where "k = Suc m" by (cases k) auto
  moreover have "remdups_adj (x # replicate m x) = [x]" using remdups_adj_replicate [of "Suc m" x] by simp
  ultimately show ?case using 2 by simp
next
  case (3 y z xs)
  then show ?case by auto
qed

lemma names_done_extends:
  assumes "names_done lc names seen st" "lc name \<notin> set seen" "extends st name True st'"
  shows "names_done lc (names @ [name]) (lc name # seen) st'"
proof -
  from assms(3) obtain es where es: "ps_index st' = ps_index st @ es" "\<forall>e\<in>set es. entry_name e = name" "es \<noteq> []"
    by (auto simp: extends_def)
  then have rep: "map entry_name es = replicate (length es) name" "0 < length es"
    by (auto simp: map_replicate_const [symmetric] intro!: map_cong)
  have "set (map entry_name (ps_index st)) = set names"
    using assms(1) unfolding names_done_def by (metis remdups_adj_set)
  then have "name \<notin> set (map entry_name (ps_index st))" using assms(1,2) by (auto simp: names_done_def)
  then have "remdups_adj (map entry_name (ps_index st')) = remdups_adj (map entry_name (ps_index st)) @ [name]"
    unfolding es(1) map_append rep(1) by (rule remdups_adj_snoc_replicate [OF _ rep(2)])
  then show ?thesis using assms(1,2) by (simp add: names_done_def)
qed

lemma names_done_Nil: "names_done lc [] [] (st\<lparr>ps_index := []\<rparr>)"
  by (simp add: names_done_def)

lemma add_parameter_ok:
  assumes step: "add_parameter lc P ms stationtype add_qc name (seen, m, st) = Some (Inr (seen', m', st'))"
    and ok: "index_ok lc P st" and done_before: "names_done lc names seen st"
  shows "index_ok lc P st' \<and> names_done lc (names @ [name]) seen' st'"
proof -
  from step have new: "lc name \<notin> set seen" by (auto simp: add_parameter_def invalid_parameter_def Let_def split: if_splits)
  have "index_ok lc P st' \<and> extends st name True st' \<and> seen' = lc name # seen"
  proof (cases "op_known P name stationtype")
    case True
    then obtain b where "add_meteo_parameter P (get_meteo_parameter_options lc ms name) name add_qc st = Some (Inr (b, st'))"
      and "seen' = lc name # seen"
      using step new by (auto simp: add_parameter_def Let_def rbind_eq_Inr)
    with add_meteo_parameter_ok ok show ?thesis by blast
  next
    case False
    then have "add_special_parameter P name (lc name) st = Inr st'" "seen' = lc name # seen"
      using step new by (auto simp: add_parameter_def Let_def rbind_eq_Inr split: if_splits)
    with add_special_parameter_ok ok show ?thesis by blast
  qed
  with names_done_extends [OF done_before new] show ?thesis by blast
qed

lemma fold_parameters_ok:
  assumes "fold_run (add_parameter lc P ms stationtype add_qc) names (seen, m, st) = Some (Inr (seen', m', st'))"
    and "index_ok lc P st" "names_done lc before seen st"
  shows "index_ok lc P st' \<and> names_done lc (before @ names) seen' st'"
  using assms
proof (induction names arbitrary: before seen m st)
  case Nil
  then show ?case by simp
next
  case (Cons name names)
  from Cons(2) obtain s1 where one: "add_parameter lc P ms stationtype add_qc name (seen, m, st) = Some (Inr s1)"
    and rest: "fold_run (add_parameter lc P ms stationtype add_qc) names s1 = Some (Inr (seen', m', st'))"
    by (auto split: option.splits sum.splits)
  obtain seen1 m1 st1 where s1: "s1 = (seen1, m1, st1)" by (metis surj_pair)
  from add_parameter_ok [OF one [unfolded s1] Cons(3,4)] Cons(1) [OF rest [unfolded s1], of "before @ [name]"]
  show ?case by simp
qed

text \<open>
  C23.  When the parameters of an observation query are accepted, the index is right about the columns
  of the query: the entries are for the requested names, in their order and without duplicates up to
  case; an entry with a column names a column that holds its parameter (one of those always queried,
  or the one made of its name, maybe for a sensor), an entry without a column is for a parameter of
  the location or the time; a quality code is in the column of the quality parameter of the same name;
  and behind the columns always queried every column belongs to exactly one entry.
\<close>

theorem obs_index_sound:
  assumes "add_parameters lc P ms support_qc stationtype quality_info names \<lparr>ps_params = initial_bs_param P, ps_index = []\<rparr> =
    Some (Inr (have_meteo, st))"
  shows "distinct (map lc names) \<and> remdups_adj (map entry_name (ps_index st)) = names \<and>
    take (length (initial_bs_param P)) (ps_params st) = initial_bs_param P \<and>
    list_all (entry_ok lc P (ps_params st)) (ps_index st) \<and>
    concat (map (own_columns P) (ps_index st)) = [length (initial_bs_param P)..<length (ps_params st)]"
proof -
  let ?start = "\<lparr>ps_params = initial_bs_param P, ps_index = []\<rparr>"
  from assms obtain add_qc seen where
    "fold_run (add_parameter lc P ms stationtype add_qc) names ([], False, ?start) = Some (Inr (seen, have_meteo, st))"
    by (auto simp: add_parameters_def invalid_parameter_def Let_def rbind_eq_Inr split: if_splits)
  moreover have "index_ok lc P ?start" by (simp add: index_ok_def)
  moreover have "names_done lc [] [] ?start" by (simp add: names_done_def)
  ultimately have "index_ok lc P st \<and> names_done lc ([] @ names) seen st" by (rule fold_parameters_ok)
  then show ?thesis by (simp add: index_ok_def names_done_def)
qed

section \<open>The loop over the sensors ends\<close>

definition sensors_ok :: "meteo_option \<Rightarrow> bool" where
  "sensors_ok opt \<longleftrightarrow> 0 < mp_sensor_step opt \<and> unat (mp_sensor_last opt) + unat (mp_sensor_step opt) < 2 ^ 16"

lemma sensor_loop_ends:
  assumes "0 < step" "unat lst + unat step < 2 ^ 16"
  shows "sensor_loop P add_qc name index lst step added entry st \<noteq> None"
proof (induction "unat lst + 1 - unat index" arbitrary: index added entry st rule: less_induct)
  case less
  show ?case
  proof (cases "unat index < unat lst + 1")
    case False
    then show ?thesis by (subst sensor_loop.simps) simp
  next
    case True
    then have "unat (index + step) = unat index + unat step"
      using assms(2) by (intro unat_add_lem [THEN iffD1]) simp
    moreover have "0 < unat step" using assms(1) by (simp add: word_less_nat_alt)
    ultimately have "sensor_loop P add_qc name (index + step) lst step True e s \<noteq> None" for e s
      using True by (intro less) linarith
    with True show ?thesis by (subst sensor_loop.simps) (auto split: sum.splits)
  qed
qed

definition total_params :: "'p param_ops \<Rightarrow> bool" where
  "total_params P \<longleftrightarrow> (\<forall>name. \<exists>p. op_make P name = Inr p)"

lemma add_sensor_total: "total_params P \<Longrightarrow> \<exists>r. add_sensor P add_qc name index entry st = Inr r"
proof -
  assume total: "total_params P"
  then obtain p q where "op_make P name = Inr p" "op_make P (''qc_'' @ name) = Inr q"
    unfolding total_params_def by blast
  then show ?thesis by (cases add_qc) (simp_all add: add_sensor_def push_parameter_def add_qc_parameter_def Let_def)
qed

definition endless :: "(((((((('p param_ops \<times> bool) \<times> string) \<times> 16 word) \<times> 16 word) \<times> 16 word) \<times> bool) \<times>
    ext_index_entry) \<times> 'p param_state) \<Rightarrow> 'r \<Rightarrow> bool" where
  "endless x r = (case x of ((((((((P, add_qc), name), index), lst), step), added), entry), st) \<Rightarrow>
     \<not> (total_params P \<and> (lst = 0xFFFF \<or> step = 0 \<and> index \<le> lst)))"

text \<open>The step may be zero and the last number may be the greatest one: then the loop does not end.\<close>

lemma sensor_loop_endless:
  assumes "total_params P" "lst = 0xFFFF \<or> step = 0 \<and> index \<le> lst"
  shows "sensor_loop P add_qc name index lst step added entry st = None"
proof (rule ccontr)
  assume "sensor_loop P add_qc name index lst step added entry st \<noteq> None"
  then obtain r where r: "sensor_loop P add_qc name index lst step added entry st = Some r" by blast
  have "endless ((((((((P, add_qc), name), index), lst), step), added), entry), st) r"
  proof (rule sensor_loop.raw_induct [where Pa = endless, OF _ r], goal_cases)
    case (1 loop P add_qc name index lst step added entry st r)
    show ?case
      unfolding endless_def prod.case
    proof
      assume a: "total_params P \<and> (lst = 0xFFFF \<or> step = 0 \<and> index \<le> lst)"
      have "unat index < unat lst + 1"
      proof (cases "lst = 0xFFFF")
        case True
        then show ?thesis using unsigned_less [of index] by simp
      next
        case False
        with a show ?thesis by (simp add: word_le_nat_alt)
      qed
      moreover obtain e' st' where "add_sensor P add_qc name index entry st = Inr (e', st')"
        using add_sensor_total a by (metis surj_pair)
      ultimately have "loop P add_qc name (index + step) lst step True e' st' = Some r" using 1(2) by simp
      from 1(1) [OF this] a show False by (auto simp: endless_def)
    qed
  qed
  with assms show False by (simp add: endless_def)
qed

lemma fold_run_ends: "(\<And>x s. x \<in> set xs \<Longrightarrow> f x s \<noteq> None) \<Longrightarrow> fold_run f xs s \<noteq> None"
  by (induction xs arbitrary: s) (auto split: option.splits sum.splits)

text \<open>
  The collection of the parameters ends whenever the options of every requested parameter have a
  positive sensor step and a last sensor number that the step does not carry over sixteen bits.
\<close>

theorem obs_parameters_end:
  assumes "\<forall>name\<in>set names. sensors_ok (get_meteo_parameter_options lc ms name)"
  shows "\<exists>r. add_parameters lc P ms support_qc stationtype quality_info names st = Some r"
proof -
  have "add_meteo_parameter P opt name add_qc s \<noteq> None" if "sensors_ok opt" for opt name add_qc s
    using that sensor_loop_ends by (auto simp: add_meteo_parameter_def sensors_ok_def Let_def split: sum.splits)
  then have "add_parameter lc P ms stationtype add_qc name s \<noteq> None" if "name \<in> set names" for add_qc name s
    using that assms by (cases s) (auto simp: add_parameter_def Let_def)
  then have "fold_run (add_parameter lc P ms stationtype add_qc) names s \<noteq> None" for add_qc s
    by (rule fold_run_ends)
  then show ?thesis by (auto simp: add_parameters_def Let_def)
qed

section \<open>An example\<close>

text \<open>
  A parameter is a name and a sensor number; the engine knows the temperature.  The options ask for the sensors 1, 3 and 5 of the temperature.
\<close>

definition demo_params :: "(string \<times> 16 word) param_ops" where
  "demo_params =
     \<lparr>op_param = \<lambda>name _ _. (name, 0), op_name = fst, op_make = \<lambda>name. Inr (name, 0),
      op_sensor = \<lambda>k (name, _). (name, k), op_special = \<lambda>_. False,
      op_known = \<lambda>name _. name = ''T2m'',
      op_is_special = \<lambda>_. True, op_is_location = \<lambda>_. False, op_is_time = \<lambda>name. name = ''localtime''\<rparr>"

definition demo_meteo :: "16 word \<Rightarrow> meteo_options" where
  "demo_meteo step =
     \<lparr>ms_map = [(''t2m'', default_meteo_option\<lparr>mp_sensor_last := 5, mp_sensor_step := step\<rparr>)],
      ms_default = default_meteo_option\<rparr>"

declare sensor_loop.simps [code]

lemma demo_obs_run:
  "(case add_parameters ascii_lower demo_params (demo_meteo 2) True ''fmi'' True [''T2m'', ''FMISID'', ''localtime'']
      \<lparr>ps_params = initial_bs_param demo_params, ps_index = []\<rparr> of
     Some (Inr (have_meteo, st)) \<Rightarrow> have_meteo \<and> map (px_ind \<circ> xe_p) (ps_index st) = [Some 9, Some 11, Some 13, Some 0, None] \<and>
       map snd (drop 9 (ps_params st)) = [1, 0, 3, 0, 5, 0]
   | _ \<Rightarrow> False)"
  by code_simp
lemma obs_index_sound_witness:
  "\<exists>st :: (string \<times> 16 word) param_state. ps_index st \<noteq> [] \<and> remdups_adj (map entry_name (ps_index st)) = [''T2m'', ''FMISID'', ''localtime''] \<and>
    concat (map (own_columns demo_params) (ps_index st)) = [9..<length (ps_params st)]"
proof -
  let ?names = "[''T2m'', ''FMISID'', ''localtime'']"
  let ?run = "add_parameters ascii_lower demo_params (demo_meteo 2) True ''fmi'' True ?names
    \<lparr>ps_params = initial_bs_param demo_params, ps_index = []\<rparr>"
  obtain m st where run: "?run = Some (Inr (m, st))"
    and ind: "map (px_ind \<circ> xe_p) (ps_index st) = [Some 9, Some 11, Some 13, Some 0, None]"
    using demo_obs_run by (auto split: option.splits sum.splits prod.splits)
  have len: "length (initial_bs_param demo_params) = 9" by (simp add: initial_bs_param_def)
  have "ps_index st \<noteq> []" using ind by auto
  then show ?thesis using obs_index_sound [OF run] unfolding len by blast
qed

text \<open>With a sensor step of zero the collection does not end.\<close>

lemma demo_obs_endless:
  "add_parameters ascii_lower demo_params (demo_meteo 0) True ''fmi'' True [''T2m'']
     \<lparr>ps_params = initial_bs_param demo_params, ps_index = []\<rparr> = None"
proof -
  have "total_params demo_params" by (simp add: total_params_def demo_params_def)
  then have "sensor_loop demo_params add_qc name 1 5 0 added entry st = None" for add_qc name added entry st
    by (rule sensor_loop_endless) simp
  moreover have "firstQCParameter ascii_lower [''T2m''] = None" by code_simp
  moreover have "get_meteo_parameter_options ascii_lower (demo_meteo 0) ''T2m'' =
    default_meteo_option\<lparr>mp_sensor_last := 5, mp_sensor_step := 0\<rparr>" by code_simp
  moreover have "op_make demo_params ''T2m'' = Inr (''T2m'', 0)" "op_known demo_params ''T2m'' ''fmi''"
    "\<not> op_special demo_params (''T2m'', 0)"
    by (simp_all add: demo_params_def)
  ultimately show ?thesis
    by (simp add: add_parameters_def add_parameter_def add_meteo_parameter_def default_meteo_option_def Let_def)
qed

lemma obs_parameters_end_witness:
  "\<exists>r. add_parameters ascii_lower demo_params (demo_meteo 2) True ''fmi'' True [''T2m'']
     \<lparr>ps_params = initial_bs_param demo_params, ps_index = []\<rparr> = Some r"
proof (rule obs_parameters_end)
  have "get_meteo_parameter_options ascii_lower (demo_meteo 2) ''T2m'' =
    default_meteo_option\<lparr>mp_sensor_last := 5, mp_sensor_step := 2\<rparr>" by code_simp
  then show "\<forall>name\<in>set [''T2m'']. sensors_ok (get_meteo_parameter_options ascii_lower (demo_meteo 2) name)"
    by (simp add: sensors_ok_def default_meteo_option_def)
qed

end
