(* ===== verification/ObsHandler.thy ===== *)
theory ObsHandler
  imports ObsParams "HOL-Library.Multiset"
begin

text \<open>
  \<open>wfs/stored_queries/StoredObsQueryHandler.cpp\<close>, second part: the settings of an observation query,
  the grouping of the rows the observation engine returns and the answer made of them.  The engine,
  the formatter of its values and the transformation of coordinates are arguments.
\<close>

section \<open>Settings\<close>

text \<open>Times are whole seconds, \<open>oq_tagged\<close> are the station numbers the engine found.\<close>

record 'p obs_settings =
  oq_start :: int
  oq_end :: int
  oq_wanted :: "int option"
  oq_station_type :: string
  oq_parameters :: "'p list"
  oq_timestep :: uint64
  oq_max_distance :: double
  oq_stations :: uint64
  oq_missing_text :: string
  oq_locale :: string
  oq_language :: string
  oq_hours :: "int64 list"
  oq_week_days :: "int64 list"
  oq_bbox :: "bbox option"

record nearest_station =
  ns_longitude :: double
  ns_latitude :: double
  ns_max_distance :: double
  ns_stations :: uint64
  ns_tag :: string
  ns_fmisid :: "int64 option"

record geoid_settings =
  gd_geoids :: "int64 list"
  gd_limits :: "(double \<times> uint64 \<times> string) option"

record station_settings =
  ss_wmos :: "int64 list"
  ss_lpnns :: "int64 list"
  ss_fmisids :: "int64 list"
  ss_nearest :: "nearest_station list"
  ss_geoids :: geoid_settings
  ss_bbox :: "bbox option"

record 'loc loc_ops =
  lo_longitude :: "'loc \<Rightarrow> double"
  lo_latitude :: "'loc \<Rightarrow> double"
  lo_fmisid :: "'loc \<Rightarrow> int64 option"
  lo_area :: "'loc \<Rightarrow> string"

text \<open>
  A value \<open>data_source\<close> among the parameters adds a parameter for the source of each of the others.
  The key of the map is compared with the name as it is written here.
\<close>

definition add_data_source_params ::
    "(string \<Rightarrow> string) \<Rightarrow> ('dt spine_value \<Rightarrow> string) \<Rightarrow> 'dt spine_value rpm \<Rightarrow> 'dt spine_value rpm" where
  "add_data_source_params lc ts params =
     (if ''meteoParameters'' \<notin> set (get_keys params) then params
      else let vals = map ts (get_values lc params ''meteoParameters'');
               mparams = filter (\<lambda>v. v \<noteq> ''data_source'') vals
        in if ''data_source'' \<in> set vals \<and> mparams \<noteq> []
           then fold (\<lambda>p m. rpm_add lc ''meteoParameters'' (VString (p @ ''_data_source'')) False
                             (rpm_add lc ''meteoParameters'' (VString p) False m))
                  mparams (remove_key lc ''meteoParameters'' params)
           else params)"

text \<open>The locations of the request become search points; a null location cannot be read.
  \<open>producers\<close> are the constants \<open>ICEBUOY_PRODUCER\<close> and \<open>COPERNICUS_PRODUCER\<close> of the engine.\<close>

definition nearest_of :: "'loc loc_ops \<Rightarrow> 'p obs_settings \<Rightarrow> 'loc located \<Rightarrow> nearest_station result" where
  "nearest_of L q item = (case item of (name, loc) \<Rightarrow> (case loc of
       None \<Rightarrow> Inl (Undefined ''null location'')
     | Some l \<Rightarrow> Inr \<lparr>ns_longitude = lo_longitude L l, ns_latitude = lo_latitude L l,
         ns_max_distance = oq_max_distance q, ns_stations = oq_stations q, ns_tag = name, ns_fmisid = lo_fmisid L l\<rparr>))"

definition all_location_flags :: location_flags where
  "all_location_flags =
     \<lparr>lf_keywords = True, lf_geoids = True, lf_fmisids = True, lf_wmos = True, lf_lpnns = True\<rparr>"

definition set_location_settings ::
    "(string \<Rightarrow> string) \<Rightarrow> 'dt value_conv \<Rightarrow> 'loc location_env \<Rightarrow> 'loc loc_ops \<Rightarrow> string list \<Rightarrow>
     'dt spine_value rpm \<Rightarrow> 'p obs_settings \<Rightarrow> string \<Rightarrow> station_settings \<Rightarrow> station_settings result" where
  "set_location_settings lc C E L producers params q curr_lang ss =
     rbind (if oq_station_type q \<notin> set producers
            then rbind (get_location_options lc C E all_location_flags curr_lang params) (map_result (nearest_of L q))
            else Inr []) (\<lambda>nearest.
     rbind (rpm_get lc (vc_int C) ''geoids'' 0 SIZE_MAX 0 params) (\<lambda>ids.
       let gd = (ss_geoids ss)\<lparr>gd_geoids := gd_geoids (ss_geoids ss) @ ids\<rparr>
       in Inr (ss\<lparr>ss_nearest := ss_nearest ss @ nearest,
                  ss_geoids := if gd_geoids gd \<noteq> []
                    then gd\<lparr>gd_limits := Some (oq_max_distance q, oq_stations q, curr_lang)\<rparr> else gd\<rparr>)))"

definition DATA_CRS_NAME :: string where
  "DATA_CRS_NAME = ''urn:ogc:def:crs:EPSG::4326''"

text \<open>\<open>transform\<close> is \<open>transform_bounding_box\<close> with the default number of points.\<close>

definition set_bounding_box ::
    "(string \<Rightarrow> string) \<Rightarrow> 'dt value_conv \<Rightarrow> (bbox \<Rightarrow> string \<Rightarrow> bbox result) \<Rightarrow> 'dt spine_value rpm \<Rightarrow> string \<Rightarrow>
     'p obs_settings \<times> station_settings \<Rightarrow> (bool \<times> 'p obs_settings \<times> station_settings) result" where
  "set_bounding_box lc C transform params crs s = (case s of (q, ss) \<Rightarrow>
     rbind (get_bounding_box lc C crs params) (\<lambda>requested. case requested of
         None \<Rightarrow> Inr (False, q, ss)
       | Some bb \<Rightarrow> rbind (transform bb DATA_CRS_NAME) (\<lambda>query_bbox.
           Inr (True, q\<lparr>oq_bbox := Some query_bbox\<rparr>, ss\<lparr>ss_bbox := Some query_bbox\<rparr>))))"

record obs_limits =
  ol_whole_hours :: int
  ol_rest_seconds :: int
  ol_max_stations :: nat
  ol_separate_groups :: bool
  ol_restrictions :: bool
  ol_support_qc :: bool

text \<open>
  The product of the number of epochs and of the step is one of 32 bit numbers; it is then a number
  of minutes.  \<open>stations_in\<close> is the number of the stations the engine has in the box.
\<close>

definition check_query_limits ::
    "(string \<Rightarrow> string) \<Rightarrow> 'dt value_conv \<Rightarrow> ('p obs_settings \<Rightarrow> nat result) \<Rightarrow> obs_limits \<Rightarrow> 'dt spine_value rpm \<Rightarrow>
     'p obs_settings \<Rightarrow> uint64 \<Rightarrow> bool \<Rightarrow> unit result" where
  "check_query_limits lc C stations_in lim params q timestep have_bbox =
     (if oq_end q < oq_start q then Inl (Thrown ParsingFailed ''Invalid time interval!'')
      else rbind (get_single lc (vc_uint C) ''maxEpochs'' params) (\<lambda>max_epochs.
        let ts1 = (if timestep \<noteq> 0 then ucast timestep else 60) :: 32 word;
            minutes = (ucast max_epochs :: 32 word) * ts1
        in if ol_restrictions lim \<and> oq_start q + 60 * int (unat minutes) < oq_end q
           then Inl (Thrown ProcessingFailed ''Too many time epochs in the time interval!'')
           else if ol_restrictions lim \<and> 0 < ol_max_stations lim \<and> have_bbox
           then rbind (stations_in q) (\<lambda>n.
             if ol_max_stations lim < n then Inl (Thrown ProcessingFailed ''Too many stations in the bounding box!'')
             else Inr ())
           else Inr ()))"

section \<open>Sites and groups\<close>

text \<open>
  The result of the engine: columns of values with their times.  \<open>vs_text k v\<close> is the text of a value
  with \<open>k\<close> digits.  An index operator beyond the end is undefined, \<open>at\<close> throws.
\<close>

type_synonym 'v obs_column = "(int \<times> 'v) list"

definition column_at :: "'v obs_column list \<Rightarrow> nat \<Rightarrow> 'v obs_column result" where
  "column_at result i = (if i < length result then Inr (result ! i) else Inl (Thrown NoCode ''out of range''))"

definition cell_text :: "(nat \<Rightarrow> 'v \<Rightarrow> string) \<Rightarrow> nat \<Rightarrow> 'v obs_column \<Rightarrow> nat \<Rightarrow> string result" where
  "cell_text vs k col row =
     (if row < length col then Inr (vs k (snd (col ! row))) else Inl (Undefined ''row out of range''))"

record site_rec =
  si_group :: nat
  si_ind :: nat
  si_rows :: "nat list"

definition push_row :: "string \<Rightarrow> nat \<Rightarrow> (string \<times> site_rec) list \<Rightarrow> (string \<times> site_rec) list" where
  "push_row fmisid i sites = (case map_of sites fmisid of
       None \<Rightarrow> mm_insert fmisid \<lparr>si_group = 0, si_ind = 0, si_rows = [i]\<rparr> sites
     | Some _ \<Rightarrow> sm_update fmisid (\<lambda>r. r\<lparr>si_rows := si_rows r @ [i]\<rparr>) sites)"

definition index_sites ::
    "(nat \<Rightarrow> 'v \<Rightarrow> string) \<Rightarrow> 'v obs_column list \<Rightarrow> (string \<times> site_rec) list result" where
  "index_sites vs result =
     rbind (column_at result fmisid_ind) (\<lambda>ts_fmisid.
       Inr (fold (\<lambda>i. push_row (vs 0 (snd (ts_fmisid ! i))) i) [0..<length ts_fmisid] []))"

record group_rec =
  gr_feature_id :: string
  gr_param_ids :: "(string \<times> string) list"

text \<open>
  The identifiers of a group: the whole query and, for every parameter, the query with this parameter
  only.  The feature identifier is changed on the way and returned.
\<close>

definition param_feature :: "string \<Rightarrow> 'dt feature_id \<Rightarrow> 'dt feature_id" where
  "param_feature param_name f = add_param ''meteoParameters'' (VString param_name) (erase_param ''meteoParameters'' f)"

definition group_ids ::
    "'dt id_ops \<Rightarrow> string list \<Rightarrow> 'dt feature_id \<Rightarrow> (group_rec \<times> 'dt feature_id) result" where
  "group_ids K param_names f =
     rbind (make_id K f) (\<lambda>id.
     rbind (fold_result (\<lambda>param_name (ids, f).
              let f = param_feature param_name f in
              rbind (make_id K f) (\<lambda>pid. Inr (sm_put param_name pid ids, f))) param_names ([], f)) (\<lambda>(ids, f).
     Inr (\<lparr>gr_feature_id = id, gr_param_ids = ids\<rparr>, f)))"

definition place_params :: "string list" where
  "place_params =
     [''wmos'', ''lpnns'', ''fmisids'', ''places'', ''latlons'', ''geoids'', ''keyword'', ''boundingBox'']"

definition site_feature :: "string \<Rightarrow> 'dt feature_id \<Rightarrow> 'dt feature_id" where
  "site_feature fmisid f = add_param ''fmisids'' (VString fmisid) (fold erase_param place_params f)"

type_synonym sites = "(string \<times> site_rec) list"

fun assign_separate ::
    "'dt id_ops \<Rightarrow> string list \<Rightarrow> nat \<Rightarrow> sites \<Rightarrow> 'dt feature_id \<Rightarrow> (sites \<times> (nat \<times> group_rec) list) result" where
  "assign_separate K param_names n [] f = Inr ([], [])"
| "assign_separate K param_names n ((fmisid, r) # sites) f =
     rbind (group_ids K param_names (site_feature fmisid f)) (\<lambda>(g, f).
     rbind (assign_separate K param_names (n + 1) sites f) (\<lambda>(sites, groups).
     Inr ((fmisid, r\<lparr>si_group := n, si_ind := 0\<rparr>) # sites, (n, g) # groups)))"

fun number_sites :: "nat \<Rightarrow> sites \<Rightarrow> sites" where
  "number_sites n [] = []"
| "number_sites n ((fmisid, r) # sites) = (fmisid, r\<lparr>si_group := 0, si_ind := n\<rparr>) # number_sites (n + 1) sites"

definition assign_groups ::
    "'dt id_ops \<Rightarrow> bool \<Rightarrow> string list \<Rightarrow> 'dt feature_id \<Rightarrow> sites \<Rightarrow> (sites \<times> (nat \<times> group_rec) list) result" where
  "assign_groups K separate_groups param_names f sites =
     (if separate_groups then assign_separate K param_names 0 sites f
      else rbind (group_ids K param_names f) (\<lambda>(g, _). Inr (number_sites 0 sites, [(0, g)])))"

section \<open>The answer\<close>

text \<open>What the handler asks of the formatter of values, the time library and the time series library.\<close>

record ('v, 'loc, 'tz) obs_ops =
  ob_text :: "nat \<Rightarrow> 'v \<Rightarrow> string"
  ob_stod :: "string \<Rightarrow> double result"
  ob_stol :: "string \<Rightarrow> int64 result"
  ob_point :: "double \<Rightarrow> double \<Rightarrow> (double \<times> double) result"
  ob_small :: "double \<times> double \<Rightarrow> bool"
  ob_magnitude :: "double \<times> double \<Rightarrow> int"
  ob_fixed :: "nat \<Rightarrow> double \<Rightarrow> string"
  ob_tz :: "'tz tz_ops"
  ob_local_time :: "int \<Rightarrow> 'tz \<Rightarrow> string"
  ob_location_value :: "'loc \<Rightarrow> string \<Rightarrow> string \<Rightarrow> nat \<Rightarrow> string result"
  ob_time_value :: "string \<Rightarrow> int \<Rightarrow> 'loc \<Rightarrow> string \<Rightarrow> string \<Rightarrow> string result"

text \<open>
  \<open>get_2D_coord\<close> of the base class: \<open>ob_small\<close> tells whether both coordinates are below 1000 and
  \<open>ob_magnitude\<close> is \<open>floor(log10(w))\<close> of the greater one.
\<close>

definition get_2D_coord :: "('v, 'loc, 'tz) obs_ops \<Rightarrow> double \<Rightarrow> double \<Rightarrow> (string \<times> string) result" where
  "get_2D_coord B X Y =
     rbind (ob_point B X Y) (\<lambda>p.
       let prec = (if ob_small B p then 5 else nat (7 - ob_magnitude B p))
       in Inr (ob_fixed B prec (fst p), ob_fixed B prec (snd p)))"

definition set_2D_coord :: "('v, 'loc, 'tz) obs_ops \<Rightarrow> string \<Rightarrow> string \<Rightarrow> (string \<times> string) result" where
  "set_2D_coord B sx sy = rbind (ob_stod B sx) (\<lambda>x. rbind (ob_stod B sy) (\<lambda>y. get_2D_coord B x y))"

record ('v, 'p) result_context =
  cx_result :: "'v obs_column list"
  cx_settings :: "'p obs_settings"
  cx_show_height :: bool
  cx_tz_name :: string
  cx_lang :: string
  cx_index :: "ext_index_entry list"

record station_hash =
  sh_fmisid :: string
  sh_xy :: "string \<times> string"
  sh_height :: "string option"
  sh_distance :: string
  sh_bearing :: string
  sh_name :: string
  sh_region :: "string option"
  sh_wmo :: "string option"
  sh_geoid :: string

record obs_hash =
  oh_xy :: "string \<times> string"
  oh_height :: "string option"
  oh_epoch :: int
  oh_epoch_text :: string
  oh_data :: "(string \<times> string option) list"

record param_hash =
  ph_name :: string
  ph_feature_id :: string
  ph_qc :: bool

record group_hash =
  gh_stations :: "station_hash option list"
  gh_feature_id :: string
  gh_params :: "param_hash list"
  gh_group_id :: string
  gh_observations :: "obs_hash list"

definition new_group :: group_hash where
  "new_group = \<lparr>gh_stations = [], gh_feature_id = '''', gh_params = [], gh_group_id = '''', gh_observations = []\<rparr>"

text \<open>An index operator of the template data extends the array up to the index.\<close>

definition cdt_at :: "'a \<Rightarrow> nat \<Rightarrow> ('a \<Rightarrow> 'a) \<Rightarrow> 'a list \<Rightarrow> 'a list" where
  "cdt_at d i f xs = (let ys = xs @ replicate (Suc i - length xs) d in ys[i := f (ys ! i)])"

text \<open>All exceptions are ignored; the region is that of the location found.\<close>

definition find_geoid_location ::
    "(string \<Rightarrow> string) \<Rightarrow> 'loc geo_engine \<Rightarrow> ('v, 'loc, 'tz) obs_ops \<Rightarrow> string \<Rightarrow> string \<Rightarrow> 'loc option" where
  "find_geoid_location lc G B geoid curr_lang =
     (case rbind (ob_stol B geoid) (\<lambda>n. gn_id G n (engOrFinToEnOrFi lc curr_lang)) of
        Inl _ \<Rightarrow> None | Inr loc \<Rightarrow> loc)"

definition or_missing :: "string \<Rightarrow> string \<Rightarrow> string" where
  "or_missing missing s = (if s = [] then missing else s)"

text \<open>One station, with the location of its geoid if it has one.\<close>

definition station_of ::
    "(string \<Rightarrow> string) \<Rightarrow> 'loc geo_engine \<Rightarrow> 'loc loc_ops \<Rightarrow> ('v, 'loc, 'tz) obs_ops \<Rightarrow> ('v, 'p) result_context \<Rightarrow>
     string \<Rightarrow> site_rec \<Rightarrow> (station_hash \<times> (string \<times> 'loc option) option) result" where
  "station_of lc G L B X fmisid r =
     (let missing = oq_missing_text (cx_settings X);
          cell = (\<lambda>k i row. rbind (column_at (cx_result X) i) (\<lambda>col. cell_text (ob_text B) k col row)) in
      case si_rows r of
        [] \<Rightarrow> Inl (Thrown NoCode ''out of range'')
      | row # _ \<Rightarrow>
          rbind (cell 5 lat_ind row) (\<lambda>lat.
          rbind (cell 5 lon_ind row) (\<lambda>lon.
          rbind (cell 1 height_ind row) (\<lambda>height.
          rbind (cell 1 name_ind row) (\<lambda>name.
          rbind (cell 1 dist_ind row) (\<lambda>distance.
          rbind (cell 1 direction_ind row) (\<lambda>bearing.
          rbind (cell 1 geoid_ind row) (\<lambda>geoid.
          rbind (cell 1 wmo_ind row) (\<lambda>wmo.
          rbind (if lat \<noteq> [] \<and> lon \<noteq> [] then set_2D_coord B lat lon
                 else Inl (Thrown NoCode ''wfs: Internal LatLon query error.'')) (\<lambda>xy.
          let loc = (if geoid \<noteq> [] then find_geoid_location lc G B geoid (cx_lang X) else None);
              region = (case loc of None \<Rightarrow> [] | Some l \<Rightarrow> lo_area L l)
          in Inr (\<lparr>sh_fmisid = fmisid, sh_xy = xy,
                   sh_height = if cx_show_height X then Some (or_missing missing height) else None,
                   sh_distance = or_missing missing distance,
                   sh_bearing = if distance = [] \<or> bearing = [] \<or> distance = missing then missing else bearing,
                   sh_name = name, sh_region = if region = [] then None else Some region,
                   sh_wmo = if wmo = [] \<or> wmo = ''0'' \<or> wmo = ''NaN'' then None else Some wmo,
                   sh_geoid = if geoid = [] \<or> geoid = ''-1'' then missing else geoid\<rparr>,
                  if geoid \<noteq> [] then Some (geoid, loc) else None)))))))))))"

definition set_station_list ::
    "(string \<Rightarrow> string) \<Rightarrow> 'loc geo_engine \<Rightarrow> 'loc loc_ops \<Rightarrow> ('v, 'loc, 'tz) obs_ops \<Rightarrow> ('v, 'p) result_context \<Rightarrow>
     sites \<Rightarrow> (group_hash list \<times> (string \<times> 'loc option) list) result" where
  "set_station_list lc G L B X sites =
     rbind (map_result (column_at (cx_result X))
        [lat_ind, lon_ind, height_ind, name_ind, dist_ind, direction_ind, geoid_ind, wmo_ind]) (\<lambda>_.
     fold_result (\<lambda>(fmisid, r) (groups, locs).
         rbind (station_of lc G L B X fmisid r) (\<lambda>(st, loc).
         Inr (cdt_at new_group (si_group r)
                (\<lambda>g. g\<lparr>gh_stations := cdt_at None (si_ind r) (\<lambda>_. Some st) (gh_stations g)\<rparr>) groups,
              case loc of None \<Rightarrow> locs | Some (geoid, l) \<Rightarrow> sm_put geoid l locs))) sites ([], []))"

text \<open>The identifiers of the parameters are looked up under the name of the entry.\<close>

definition set_group_info ::
    "(string \<Rightarrow> string) \<Rightarrow> ('v, 'p) result_context \<Rightarrow> group_rec \<Rightarrow> group_hash \<Rightarrow> group_hash result" where
  "set_group_info lc X gr g =
     rbind (map_result (\<lambda>e. case map_of (gr_param_ids gr) (entry_name e) of
          None \<Rightarrow> Inl (Thrown NoCode ''out of range'')
        | Some fid \<Rightarrow> Inr \<lparr>ph_name = or_default (entry_name e) (px_sensor (xe_p e)), ph_feature_id = fid,
                          ph_qc = isQCParameter lc (entry_name e)\<rparr>) (cx_index X)) (\<lambda>ps.
     Inr (g\<lparr>gh_feature_id := gr_feature_id gr, gh_params := ps\<rparr>))"

definition set_observation_value ::
    "(string \<Rightarrow> string) \<Rightarrow> 'p param_ops \<Rightarrow> meteo_options \<Rightarrow> ('v, 'loc, 'tz) obs_ops \<Rightarrow> ('v, 'p) result_context \<Rightarrow>
     (string \<times> 'loc option) list \<Rightarrow> nat \<Rightarrow> string \<Rightarrow> int \<Rightarrow> ext_index_entry \<Rightarrow> (string \<times> string option) result" where
  "set_observation_value lc P ms B X locs row geoid t e =
     (let name = entry_name e; precision = unat (mp_precision (get_meteo_parameter_options lc ms name)) in
      case px_ind (xe_p e) of
        Some ind \<Rightarrow>
          rbind (column_at (cx_result X) ind) (\<lambda>col.
          rbind (cell_text (ob_text B) precision col row) (\<lambda>v.
          case xe_qc e of
            None \<Rightarrow> Inr (v, None)
          | Some q \<Rightarrow> (case px_ind q of
              None \<Rightarrow> Inl (Thrown NoCode ''out of range'')
            | Some qc_ind \<Rightarrow>
                rbind (column_at (cx_result X) qc_ind) (\<lambda>col.
                rbind (cell_text (ob_text B) 0 col row) (\<lambda>qv. Inr (v, Some qv))))))
      | None \<Rightarrow> (case map_of locs geoid of
            None \<Rightarrow> Inl (Thrown NoCode ''out of range'')
          | Some None \<Rightarrow> Inr (oq_missing_text (cx_settings X), None)
          | Some (Some loc) \<Rightarrow>
              if op_is_location P name
              then rbind (ob_location_value B loc name (cx_tz_name X) precision) (\<lambda>v. Inr (v, None))
              else if op_is_time P name
              then rbind (ob_time_value B name t loc (cx_tz_name X) (oq_locale (cx_settings X))) (\<lambda>v. Inr (v, None))
              else Inl (Undefined ''not supposed to be here'')))"

text \<open>
  One row of a site: the coordinates and the geoid are those of the first row of the site, and so is
  the time zone, which is looked up again for every row.
\<close>

definition observation_row ::
    "(string \<Rightarrow> string) \<Rightarrow> 'p param_ops \<Rightarrow> meteo_options \<Rightarrow> ('v, 'loc, 'tz) obs_ops \<Rightarrow> ('v, 'p) result_context \<Rightarrow>
     (string \<times> 'loc option) list \<Rightarrow> nat \<Rightarrow> nat \<Rightarrow> obs_hash result" where
  "observation_row lc P ms B X locs row_1 row =
     (let cell = (\<lambda>k i row. rbind (column_at (cx_result X) i) (\<lambda>col. cell_text (ob_text B) k col row)) in
      rbind (cell 5 lat_ind row_1) (\<lambda>latitude.
      rbind (cell 5 lon_ind row_1) (\<lambda>longitude.
      rbind (cell 5 geoid_ind row_1) (\<lambda>geoid.
      rbind (ob_stod B longitude) (\<lambda>lon.
      rbind (ob_stod B latitude) (\<lambda>lat.
      rbind (get_tz_for_site lc (ob_tz B) lon lat (cx_tz_name X)) (\<lambda>tzp.
      rbind (set_2D_coord B latitude longitude) (\<lambda>xy.
      rbind (if cx_show_height X
             then rbind (cell 1 height_ind row) (\<lambda>h. Inr (Some (or_missing (oq_missing_text (cx_settings X)) h)))
             else Inr None) (\<lambda>height.
      rbind (column_at (cx_result X) (length (initial_bs_param P))) (\<lambda>ts_epoch.
      if length ts_epoch \<le> row then Inl (Thrown NoCode ''out of range'')
      else let t = fst (ts_epoch ! row) in
        rbind (map_result (set_observation_value lc P ms B X locs row geoid t) (cx_index X)) (\<lambda>data.
        Inr \<lparr>oh_xy = xy, oh_height = height, oh_epoch = t, oh_epoch_text = ob_local_time B t tzp, oh_data = data\<rparr>)))))))))))"

definition set_site_observations ::
    "(string \<Rightarrow> string) \<Rightarrow> 'p param_ops \<Rightarrow> meteo_options \<Rightarrow> ('v, 'loc, 'tz) obs_ops \<Rightarrow> ('v, 'p) result_context \<Rightarrow>
     (string \<times> 'loc option) list \<Rightarrow> site_rec \<Rightarrow> group_hash \<Rightarrow> group_hash result" where
  "set_site_observations lc P ms B X locs site g = (case si_rows site of
       [] \<Rightarrow> Inl (Thrown NoCode ''out of range'')
     | row_1 # _ \<Rightarrow>
         rbind (map_result (observation_row lc P ms B X locs row_1) (si_rows site)) (\<lambda>os.
         Inr (g\<lparr>gh_observations := gh_observations g @ os\<rparr>)))"

definition fill_group ::
    "(string \<Rightarrow> string) \<Rightarrow> 'p param_ops \<Rightarrow> meteo_options \<Rightarrow> ('v, 'loc, 'tz) obs_ops \<Rightarrow> ('v, 'p) result_context \<Rightarrow>
     (string \<times> 'loc option) list \<Rightarrow> sites \<Rightarrow> (nat \<times> group_rec) list \<Rightarrow> int \<Rightarrow> nat \<Rightarrow> group_hash list \<Rightarrow>
     group_hash list result" where
  "fill_group lc P ms B X locs sites group_map seq group_id groups = (case map_of group_map group_id of
       None \<Rightarrow> Inl (Thrown NoCode ''out of range'')
     | Some gr \<Rightarrow>
         rbind (set_group_info lc X gr (if group_id < length groups then groups ! group_id else new_group)) (\<lambda>g.
         rbind (fold_result (\<lambda>(_, r). if si_group r = group_id then set_site_observations lc P ms B X locs r else Inr)
                  sites (g\<lparr>gh_group_id := dec_int seq @ ''-'' @ dec_nat (group_id + 1)\<rparr>)) (\<lambda>g.
         Inr (cdt_at new_group group_id (\<lambda>_. g) groups))))"

definition fill_groups ::
    "(string \<Rightarrow> string) \<Rightarrow> 'p param_ops \<Rightarrow> meteo_options \<Rightarrow> ('v, 'loc, 'tz) obs_ops \<Rightarrow> ('v, 'p) result_context \<Rightarrow>
     (string \<times> 'loc option) list \<Rightarrow> sites \<Rightarrow> (nat \<times> group_rec) list \<Rightarrow> int \<Rightarrow> nat \<Rightarrow> group_hash list \<Rightarrow>
     group_hash list result" where
  "fill_groups lc P ms B X locs sites group_map seq num_groups =
     fold_result (fill_group lc P ms B X locs sites group_map seq) [0..<num_groups]"

section \<open>The handler\<close>

definition register_obs_handler :: "(string \<Rightarrow> string) \<Rightarrow> 'dt settings \<Rightarrow> 'dt reg_state \<Rightarrow> 'dt reg_state result" where
  "register_obs_handler lc S st =
     rbind (register_location_params lc S all_location_flags st) (\<lambda>st.
     rbind (register_bounding_box lc S False st) (\<lambda>st.
     rbind (register_time_zone lc S st) (\<lambda>st.
     rbind (register_quality lc S st) (\<lambda>st.
     rbind (register_time_params lc S st) (\<lambda>st.
     rbind (reg_scalar lc S P_BOOL ''latest'' '''' True st) (\<lambda>st.
     rbind (reg_array lc S P_STRING ''meteoParameters''
       ''array of fields whose values should be returned in the response.'' 1 st) (\<lambda>st.
     rbind (reg_scalar lc S P_STRING ''stationType''
       ''The type of the observation station (defined in the ObsEngine configuration)'' True st) (\<lambda>st.
     rbind (reg_scalar lc S P_UINT ''numOfStations''
       (''The maximum number of the observation stations returned around the given'' @
        '' geographical location (inside the radius of \"maxDistance\")'') True st) (\<lambda>st.
     rbind (reg_array lc S P_INT ''weekDays'' ''requested times expressed in the list of weekdays'' 0 st) (\<lambda>st.
     rbind (reg_scalar lc S P_STRING ''locale'' ''value of the 'Locale' (for example fi_FI.utf8).'' True st) (\<lambda>st.
     rbind (reg_scalar lc S P_STRING ''missingText''
       ''value that is returned when the value of the requested field is missing.'' True st) (\<lambda>st.
     rbind (reg_scalar lc S P_UINT ''maxEpochs''
       (''maximum number of time epochs that can be returned. If the estimated number before'' @
        '' query is larger than the specified one then the query is aborted. This parameter'' @
        '' is not alid if the \"storedQueryRestrictions\" parameter is set to \"false\" in'' @
        '' the WFS Plugin configuration file.'') True st) (\<lambda>st.
     rbind (reg_scalar lc S P_STRING ''crs'' ''coordinate projection used in the response.'' True st) (\<lambda>st.
     reg_scalar lc S P_STRING ''language'' ''The language to use'' False st))))))))))))))"

text \<open>
  The engine, the registry of coordinate systems (a transformation gives the operations of the
  context) and the members of the handler.  \<open>oe_seconds\<close> reads a time.
\<close>

record crs_info =
  ci_show_height :: "bool option"
  ci_proj_uri :: "string option"
  ci_proj_epoch_uri :: "string option"

record ('dt, 'p, 'v, 'loc, 'tz, 'tag) obs_env =
  oe_lc :: "string \<Rightarrow> string"
  oe_conv :: "'dt value_conv"
  oe_value_text :: "'dt spine_value \<Rightarrow> string"
  oe_seconds :: "'dt \<Rightarrow> int"
  oe_ids :: "'dt id_ops"
  oe_params :: "'p param_ops"
  oe_locations :: "'loc location_env"
  oe_loc :: "'loc loc_ops"
  oe_producers :: "string list"
  oe_crs :: "string \<Rightarrow> crs_info"
  oe_transformed :: "string \<Rightarrow> string \<Rightarrow> ('v, 'loc, 'tz) obs_ops result"
  oe_transform_box :: "bbox \<Rightarrow> string \<Rightarrow> bbox result"
  oe_stations_in :: "'p obs_settings \<Rightarrow> nat result"
  oe_translate :: "'p obs_settings \<Rightarrow> station_settings \<Rightarrow> 'tag result"
  oe_values :: "'p obs_settings \<Rightarrow> 'tag \<Rightarrow> 'v obs_column list option result"
  oe_limits :: obs_limits
  oe_meteo :: meteo_options
  oe_query_id :: string

record obs_answer =
  oa_groups :: "group_hash list"
  oa_num_groups :: nat
  oa_num_params :: nat
  oa_language :: string
  oa_srs :: "nat \<times> string"
  oa_epoch_srs :: "nat \<times> string"

definition processing_code :: "'a result \<Rightarrow> 'a result" where
  "processing_code r = (case r of Inl (Thrown NoCode m) \<Rightarrow> Inl (Thrown ProcessingFailed m) | _ \<Rightarrow> r)"

text \<open>The part before the parameters: times, names, station type and the quality flag.\<close>

definition obs_begin ::
    "('dt, 'p, 'v, 'loc, 'tz, 'tag) obs_env \<Rightarrow> 'dt spine_value rpm \<Rightarrow>
     (int \<times> int \<times> int option \<times> string list \<times> string \<times> bool) result" where
  "obs_begin E params =
     (let lc = oe_lc E; C = oe_conv E; lim = oe_limits E in
      rbind (get_single lc (vc_time C) ''beginTime'' params) (\<lambda>b.
      rbind (get_single lc (vc_time C) ''endTime'' params) (\<lambda>e.
      let start = oe_seconds E b; stop = oe_seconds E e in
      rbind (get_optional_default lc (vc_bool C) ''latest'' False params) (\<lambda>latest.
      rbind (if ol_restrictions lim
             then check_time_interval fst snd start stop (ol_whole_hours lim, ol_rest_seconds lim) else Inr ()) (\<lambda>_.
      rbind (rpm_get lc (vc_string C) ''meteoParameters'' 1 SIZE_MAX 0 params) (\<lambda>param_names.
      rbind (get_single lc (vc_string C) ''stationType'' params) (\<lambda>station_type.
      rbind (supportQualityInfo lc C params) (\<lambda>quality_info.
      Inr (start, stop, if latest then Some stop else None, param_names, lc station_type, quality_info)))))))))"

text \<open>The settings and the query of the engine, given the parameters.\<close>

definition obs_settings_of ::
    "('dt, 'p, 'v, 'loc, 'tz, 'tag) obs_env \<Rightarrow> string \<Rightarrow> 'dt spine_value rpm \<Rightarrow> int \<times> int \<times> int option \<times> string \<Rightarrow>
     'p list \<Rightarrow> ('p obs_settings \<times> station_settings) result" where
  "obs_settings_of E lang params period ps = (case period of (start, stop, wanted, station_type) \<Rightarrow>
     let lc = oe_lc E; C = oe_conv E in
     rbind (get_single lc (vc_uint C) ''timeStep'' params) (\<lambda>timestep.
     rbind (get_single lc (vc_double C) ''maxDistance'' params) (\<lambda>max_distance.
     rbind (get_single lc (vc_uint C) ''numOfStations'' params) (\<lambda>stations.
     rbind (get_single lc (vc_string C) ''missingText'' params) (\<lambda>missing.
     rbind (get_single lc (vc_string C) ''locale'' params) (\<lambda>locale_name.
     rbind (rpm_get lc (vc_int C) ''hours'' 0 SIZE_MAX 0 params) (\<lambda>hours.
     rbind (rpm_get lc (vc_int C) ''weekDays'' 0 SIZE_MAX 0 params) (\<lambda>week_days.
     Inr (\<lparr>oq_start = start, oq_end = stop, oq_wanted = wanted, oq_station_type = station_type, oq_parameters = ps,
           oq_timestep = timestep, oq_max_distance = max_distance, oq_stations = stations,
           oq_missing_text = missing, oq_locale = locale_name, oq_language = lang, oq_hours = hours,
           oq_week_days = week_days, oq_bbox = None\<rparr>,
          \<lparr>ss_wmos = [], ss_lpnns = [], ss_fmisids = [], ss_nearest = [],
           ss_geoids = \<lparr>gd_geoids = [], gd_limits = None\<rparr>, ss_bbox = None\<rparr>)))))))))"

definition obs_stations_of ::
    "('dt, 'p, 'v, 'loc, 'tz, 'tag) obs_env \<Rightarrow> string \<Rightarrow> string \<Rightarrow> 'dt spine_value rpm \<Rightarrow>
     'p obs_settings \<times> station_settings \<Rightarrow> ('p obs_settings \<times> station_settings) result" where
  "obs_stations_of E crs lang params s = (case s of (q, ss) \<Rightarrow>
     let lc = oe_lc E; C = oe_conv E in
     rbind (rpm_get lc (vc_int C) ''wmos'' 0 SIZE_MAX 0 params) (\<lambda>wmos.
     rbind (rpm_get lc (vc_int C) ''lpnns'' 0 SIZE_MAX 0 params) (\<lambda>lpnns.
     rbind (rpm_get lc (vc_int C) ''fmisids'' 0 SIZE_MAX 0 params) (\<lambda>fmisids.
     rbind (set_location_settings lc C (oe_locations E) (oe_loc E) (oe_producers E) params q lang
              (ss\<lparr>ss_wmos := wmos, ss_lpnns := lpnns, ss_fmisids := fmisids\<rparr>)) (\<lambda>ss.
     rbind (set_bounding_box lc C (oe_transform_box E) params crs (q, ss)) (\<lambda>(have_bbox, q, ss).
     rbind (check_query_limits lc C (oe_stations_in E) (oe_limits E) params q (oq_timestep q) have_bbox) (\<lambda>_.
     Inr (q, ss))))))))"

text \<open>
  What is made of the result of the engine.  The identifiers are assigned before it is looked at; an
  absent result and one without columns have no sites.
\<close>

definition obs_groups ::
    "('dt, 'p, 'v, 'loc, 'tz, 'tag) obs_env \<Rightarrow> ('v, 'loc, 'tz) obs_ops \<Rightarrow> ('v, 'p) result_context \<Rightarrow> int \<Rightarrow>
     string list \<Rightarrow> 'dt feature_id \<Rightarrow> (nat \<times> group_hash list) result" where
  "obs_groups E B X seq param_names f =
     rbind (if cx_result X = [] then Inr [] else index_sites (ob_text B) (cx_result X)) (\<lambda>sites.
     let num_groups = (if ol_separate_groups (oe_limits E) then length sites else if sites = [] then 0 else 1) in
     rbind (assign_groups (oe_ids E) (ol_separate_groups (oe_limits E)) param_names f sites) (\<lambda>(sites, group_map).
     if cx_result X = [] then Inr (num_groups, [])
     else rbind (set_station_list (oe_lc E) (le_geo (oe_locations E)) (oe_loc E) B X sites) (\<lambda>(groups, locs).
       rbind (fill_groups (oe_lc E) (oe_params E) (oe_meteo E) B X locs sites group_map seq num_groups groups) (\<lambda>groups.
       Inr (num_groups, groups)))))"

definition obs_answer_of ::
    "('dt, 'p, 'v, 'loc, 'tz, 'tag) obs_env \<Rightarrow> string \<Rightarrow> 32 word \<Rightarrow> 'dt spine_value rpm \<Rightarrow>
     int \<times> int \<times> int option \<times> string \<Rightarrow> string list \<Rightarrow> bool \<times> 'p param_state \<Rightarrow> obs_answer result" where
  "obs_answer_of E language seq params period param_names found = (case found of (have_meteo_param, st) \<Rightarrow>
     let lc = oe_lc E; C = oe_conv E in
     if \<not> have_meteo_param then Inl (Thrown ProcessingFailed ''At least one meteo parameter must be specified'')
     else rbind (get_single lc (vc_string C) ''crs'' params) (\<lambda>crs.
       rbind (oe_transformed E DATA_CRS_NAME crs) (\<lambda>B.
       let info = oe_crs E crs; show_height = or_default False (ci_show_height info) in
       rbind (get_optional_default lc (vc_string C) ''language'' language params) (\<lambda>lang.
       rbind (obs_settings_of E lang params period (ps_params st)) (\<lambda>s.
       rbind (get_tz_name lc C params) (\<lambda>tz_name.
       rbind (obs_stations_of E crs lang params s) (\<lambda>(q, ss).
       rbind (oe_translate E q ss) (\<lambda>tag.
       rbind (oe_values E q tag) (\<lambda>result.
       rbind (obs_groups E B \<lparr>cx_result = or_default [] result, cx_settings = q, cx_show_height = show_height,
                cx_tz_name = tz_name, cx_lang = lang, cx_index = ps_index st\<rparr> (sint seq) param_names
              \<lparr>fid_query = oe_query_id E, fid_params = get_map True params, fid_seq = seq\<rparr>) (\<lambda>(n, groups).
       Inr \<lparr>oa_groups = groups, oa_num_groups = n, oa_num_params = length param_names, oa_language = lang,
            oa_srs = (if show_height then 3 else 2, or_default ''UNKNOWN'' (ci_proj_uri info)),
            oa_epoch_srs = (if show_height then 4 else 3, or_default ''UNKNOWN'' (ci_proj_epoch_uri info))\<rparr>))))))))))"

text \<open>\<open>query\<close>, up to the formatting of the answer; \<open>None\<close> if the loop over sensors does not end.\<close>

definition obs_query ::
    "('dt, 'p, 'v, 'loc, 'tz, 'tag) obs_env \<Rightarrow> string \<Rightarrow> 32 word \<Rightarrow> 'dt spine_value rpm \<Rightarrow> obs_answer result option" where
  "obs_query E language seq query_params =
     (let params = add_data_source_params (oe_lc E) (oe_value_text E) query_params in
      map_option processing_code (case obs_begin E params of
        Inl e \<Rightarrow> Some (Inl e)
      | Inr (start, stop, wanted, param_names, station_type, quality_info) \<Rightarrow>
          map_option (\<lambda>r. rbind r (obs_answer_of E language seq params (start, stop, wanted, station_type) param_names))
            (add_parameters (oe_lc E) (oe_params E) (oe_meteo E) (ol_support_qc (oe_limits E)) station_type quality_info
               param_names \<lparr>ps_params = initial_bs_param (oe_params E), ps_index = []\<rparr>)))"

section \<open>Every row is returned once\<close>

definition all_rows :: "sites \<Rightarrow> nat list" where
  "all_rows sites = concat (map (\<lambda>s. si_rows (snd s)) sites)"

definition sites_ok :: "(nat \<Rightarrow> string) \<Rightarrow> sites \<Rightarrow> bool" where
  "sites_ok key sites \<longleftrightarrow> sm_ok sites \<and> (\<forall>(k, r)\<in>set sites. si_rows r \<noteq> [] \<and> (\<forall>i\<in>set (si_rows r). key i = k))"

lemma all_rows_insert: "mset (all_rows (mm_insert k r sites)) = mset (si_rows r) + mset (all_rows sites)"
  by (induction sites) (auto simp: all_rows_def)

lemma all_rows_update:
  "distinct (map fst sites) \<Longrightarrow> map_of sites k \<noteq> None \<Longrightarrow>
   mset (all_rows (sm_update k (\<lambda>r. r\<lparr>si_rows := si_rows r @ [i]\<rparr>) sites)) = add_mset i (mset (all_rows sites))"
proof (induction sites)
  case Nil
  then show ?case by simp
next
  case (Cons p sites)
  show ?case
  proof (cases "fst p = k")
    case True
    with Cons(2) have "map_of sites k = None" by (auto simp: map_of_eq_None_iff)
    then have "sm_update k (\<lambda>r. r\<lparr>si_rows := si_rows r @ [i]\<rparr>) sites = sites"
      unfolding sm_update_def map_of_eq_None_iff by (intro map_idI) (force split: prod.splits)
    with True show ?thesis by (cases p) (simp add: all_rows_def sm_update_def)
  next
    case False
    with Cons show ?thesis by (cases p) (simp add: all_rows_def sm_update_def)
  qed
qed

lemma push_row_ok:
  assumes "sites_ok key sites"
  shows "sites_ok key (push_row (key i) i sites) \<and>
    mset (all_rows (push_row (key i) i sites)) = add_mset i (mset (all_rows sites))"
proof (cases "map_of sites (key i)")
  case None
  with assms show ?thesis
    by (auto simp: push_row_def sites_ok_def sm_simps all_rows_insert set_mm_insert)
next
  case (Some r)
  have ok: "sm_ok sites" using assms by (simp add: sites_ok_def)
  then have "distinct (map fst sites)" by (simp add: sm_ok_def)
  with Some have "mset (all_rows (push_row (key i) i sites)) = add_mset i (mset (all_rows sites))"
    by (simp add: push_row_def all_rows_update)
  moreover have "sm_ok (push_row (key i) i sites)" using ok Some by (simp add: push_row_def sm_simps)
  moreover have "si_rows r' \<noteq> [] \<and> (\<forall>j\<in>set (si_rows r'). key j = k')"
    if "(k', r') \<in> set (push_row (key i) i sites)" for k' r'
  proof -
    from that Some obtain r0 where "(k', r0) \<in> set sites"
      and "r' = (if k' = key i then r0\<lparr>si_rows := si_rows r0 @ [i]\<rparr> else r0)"
      by (auto simp: push_row_def sm_update_def)
    moreover have "si_rows r0 \<noteq> [] \<and> (\<forall>j\<in>set (si_rows r0). key j = k')"
      using assms \<open>(k', r0) \<in> set sites\<close> unfolding sites_ok_def by blast
    ultimately show ?thesis by auto
  qed
  ultimately have "sites_ok key (push_row (key i) i sites)" by (auto simp: sites_ok_def)
  moreover note \<open>mset (all_rows (push_row (key i) i sites)) = _\<close>
  ultimately show ?thesis by blast
qed

lemma push_rows_ok:
  "sites_ok key sites \<Longrightarrow> sites_ok key (fold (\<lambda>i. push_row (key i) i) xs sites) \<and>
   mset (all_rows (fold (\<lambda>i. push_row (key i) i) xs sites)) = mset xs + mset (all_rows sites)"
proof (induction xs arbitrary: sites)
  case Nil
  then show ?case by simp
next
  case (Cons x xs)
  note step = push_row_ok [OF Cons(2), of x]
  with Cons(1) [of "push_row (key x) x sites"] show ?case by simp
qed

text \<open>The number of the station in a row, as the sites are indexed.\<close>

definition station_key :: "(nat \<Rightarrow> 'v \<Rightarrow> string) \<Rightarrow> 'v obs_column list \<Rightarrow> nat \<Rightarrow> string" where
  "station_key vs result i = vs 0 (snd (result ! fmisid_ind ! i))"

lemma index_sites_ok:
  assumes "index_sites vs result = Inr sites"
  shows "sites_ok (station_key vs result) sites \<and> mset (all_rows sites) = mset [0..<length (result ! fmisid_ind)]"
proof -
  let ?key = "station_key vs result"
  have "sites = fold (\<lambda>i. push_row (?key i) i) [0..<length (result ! fmisid_ind)] []"
    using assms by (auto simp: index_sites_def column_at_def station_key_def split: if_splits)
  moreover have "sites_ok ?key []" by (simp add: sites_ok_def)
  ultimately show ?thesis using push_rows_ok [of ?key "[]"] by (simp add: all_rows_def)
qed

lemma assign_separate_sites:
  "assign_separate K names n sites f = Inr (sites', groups) \<Longrightarrow>
   map fst sites' = map fst sites \<and> map (si_rows \<circ> snd) sites' = map (si_rows \<circ> snd) sites \<and>
   map (si_group \<circ> snd) sites' = [n..<n + length sites] \<and> map fst groups = [n..<n + length sites]"
proof (induction sites arbitrary: n f sites' groups)
  case Nil
  then show ?case by simp
next
  case (Cons s sites)
  obtain fmisid r where s: "s = (fmisid, r)" by (cases s)
  from Cons(2) obtain g f1 sites1 groups1 where "assign_separate K names (n + 1) sites f1 = Inr (sites1, groups1)"
    and "sites' = (fmisid, r\<lparr>si_group := n, si_ind := 0\<rparr>) # sites1" "groups = (n, g) # groups1"
    by (auto simp: s rbind_eq_Inr)
  moreover have "[n..<n + length (s # sites)] = n # [n + 1..<n + 1 + length sites]"
    by (simp add: upt_conv_Cons del: upt_Suc)
  ultimately show ?case using Cons(1) [of "n + 1" f1 sites1 groups1] s by (simp del: upt_Suc)
qed

lemma number_sites_sites:
  "map fst (number_sites n sites) = map fst sites \<and>
   map (si_rows \<circ> snd) (number_sites n sites) = map (si_rows \<circ> snd) sites \<and>
   (\<forall>s\<in>set (number_sites n sites). si_group (snd s) = 0)"
  by (induction n sites rule: number_sites.induct) auto

definition num_groups_of :: "bool \<Rightarrow> sites \<Rightarrow> nat" where
  "num_groups_of separate sites = (if separate then length sites else if sites = [] then 0 else 1)"

lemma assign_groups_sites:
  assumes "assign_groups K separate names f sites = Inr (sites', groups)"
  shows "map fst sites' = map fst sites \<and> map (si_rows \<circ> snd) sites' = map (si_rows \<circ> snd) sites \<and>
    (\<forall>s\<in>set sites'. si_group (snd s) < num_groups_of separate sites)"
proof (cases separate)
  case True
  with assms have "assign_separate K names 0 sites f = Inr (sites', groups)" by (simp add: assign_groups_def)
  note sep = assign_separate_sites [OF this]
  then have "set (map (si_group \<circ> snd) sites') = set [0..<length sites]" by simp
  then have "\<forall>s\<in>set sites'. si_group (snd s) < length sites" by force
  with True sep show ?thesis by (simp add: num_groups_of_def)
next
  case False
  with assms have "sites' = number_sites 0 sites" by (auto simp: assign_groups_def rbind_eq_Inr)
  with False number_sites_sites [of 0 sites] show ?thesis by (cases sites) (auto simp: num_groups_of_def)
qed

lemma length_cdt_at [simp]: "length (cdt_at d i f xs) = max (length xs) (Suc i)"
  by (simp add: cdt_at_def Let_def)

lemma nth_cdt_at:
  "j < max (length xs) (Suc i) \<Longrightarrow>
   cdt_at d i f xs ! j =
     (if j = i then f (if i < length xs then xs ! i else d) else if j < length xs then xs ! j else d)"
  by (auto simp: cdt_at_def Let_def nth_append nth_list_update)

definition obs_of :: "group_hash list \<Rightarrow> nat \<Rightarrow> obs_hash list" where
  "obs_of groups j = (if j < length groups then gh_observations (groups ! j) else [])"

lemma obs_of_cdt_at:
  "obs_of (cdt_at new_group i f groups) j =
     (if j = i then gh_observations (f (if i < length groups then groups ! i else new_group)) else obs_of groups j)"
  by (auto simp: obs_of_def nth_cdt_at new_group_def)

lemma concat_obs_of: "concat (map gh_observations groups) = concat (map (obs_of groups) [0..<length groups])"
proof -
  have "map gh_observations groups = map (obs_of groups) [0..<length groups]"
    by (rule nth_equalityI) (simp_all add: obs_of_def)
  then show ?thesis by simp
qed

text \<open>The list of the stations leaves the observations empty.\<close>

lemma set_station_list_groups:
  assumes "set_station_list lc G L B X sites = Inr (groups, locs)" "\<forall>s\<in>set sites. si_group (snd s) < n"
  shows "length groups \<le> n \<and> (\<forall>j. obs_of groups j = [])"
proof -
  let ?f = "\<lambda>(fmisid, r) (groups, locs).
         rbind (station_of lc G L B X fmisid r) (\<lambda>(st, loc).
         Inr (cdt_at new_group (si_group r)
                (\<lambda>g. g\<lparr>gh_stations := cdt_at None (si_ind r) (\<lambda>_. Some st) (gh_stations g)\<rparr>) groups,
              case loc of None \<Rightarrow> locs | Some (geoid, l) \<Rightarrow> sm_put geoid l locs))"
  let ?P = "\<lambda>s. case s of (groups, locs) \<Rightarrow> length groups \<le> n \<and> (\<forall>j. obs_of groups j = [])"
  from assms(1) have run: "fold_result ?f sites ([], []) = Inr (groups, locs)"
    by (auto simp: set_station_list_def rbind_eq_Inr)
  have "?P (groups, locs)"
  proof (rule fold_result_invariant [OF run])
    show "?P ([], [])" by (simp add: obs_of_def)
  next
    fix x s t assume x: "x \<in> set sites" and s: "?P s" and f: "?f x s = Inr t"
    obtain fmisid r where xr: "x = (fmisid, r)" by (cases x)
    obtain gs ls where sg: "s = (gs, ls)" by (cases s)
    from f obtain st loc where "t = (cdt_at new_group (si_group r)
                (\<lambda>g. g\<lparr>gh_stations := cdt_at None (si_ind r) (\<lambda>_. Some st) (gh_stations g)\<rparr>) gs,
              case loc of None \<Rightarrow> ls | Some (geoid, l) \<Rightarrow> sm_put geoid l ls)"
      by (auto simp: xr sg rbind_eq_Inr)
    moreover have "si_group r < n" using assms(2) x xr by auto
    moreover have "gh_observations (gs ! i) = []" if "i < length gs" for i
      using s that by (auto simp: sg obs_of_def split: if_splits dest: spec [of _ i])
    moreover have "gh_observations new_group = []" by (simp add: new_group_def)
    ultimately show "?P t" using s by (simp add: sg obs_of_cdt_at)
  qed
  then show ?thesis by simp
qed

text \<open>The rows of a site, with the first row of the site, and their observations.\<close>

definition site_rows :: "string \<times> site_rec \<Rightarrow> (nat \<times> nat) list" where
  "site_rows s = map (Pair (hd (si_rows (snd s)))) (si_rows (snd s))"

definition rows_observed ::
    "(nat \<Rightarrow> nat \<Rightarrow> obs_hash result) \<Rightarrow> (nat \<times> nat) list \<Rightarrow> obs_hash list \<Rightarrow> bool" where
  "rows_observed f rows os \<longleftrightarrow> list_all2 (\<lambda>(row_1, row) ob. f row_1 row = Inr ob) rows os"

lemma rows_observed_one: "map_result (f row_1) rows = Inr os \<Longrightarrow> rows_observed f (map (Pair row_1) rows) os"
  by (simp add: rows_observed_def list_all2_map1 map_result_Inr_iff)

lemma rows_observed_append:
  "rows_observed f rows os \<Longrightarrow> rows_observed f rows' os' \<Longrightarrow> rows_observed f (rows @ rows') (os @ os')"
  unfolding rows_observed_def by (rule list_all2_appendI)

lemma set_site_observations_rows:
  assumes "set_site_observations lc P ms B X locs r g = Inr g'"
  shows "\<exists>os. gh_observations g' = gh_observations g @ os \<and>
    rows_observed (observation_row lc P ms B X locs) (site_rows (k, r)) os"
proof (cases "si_rows r")
  case Nil
  with assms show ?thesis by (simp add: set_site_observations_def)
next
  case (Cons row rows)
  with assms obtain os where os: "map_result (observation_row lc P ms B X locs row) (si_rows r) = Inr os"
    and "g' = g\<lparr>gh_observations := gh_observations g @ os\<rparr>"
    by (auto simp: set_site_observations_def rbind_eq_Inr simp del: map_result.simps)
  moreover have "rows_observed (observation_row lc P ms B X locs) (site_rows (k, r)) os"
    using rows_observed_one [of "observation_row lc P ms B X locs", OF os] Cons by (simp add: site_rows_def)
  ultimately show ?thesis by auto
qed

lemma fill_sites_rows:
  assumes "fold_result (\<lambda>(_, r). if si_group r = n then set_site_observations lc P ms B X locs r else Inr) sites g = Inr g'"
  shows "\<exists>os. gh_observations g' = gh_observations g @ os \<and>
    rows_observed (observation_row lc P ms B X locs) (concat (map site_rows (filter (\<lambda>s. si_group (snd s) = n) sites))) os"
  using assms
proof (induction sites arbitrary: g)
  case Nil
  then show ?case by (simp add: rows_observed_def)
next
  case (Cons s sites)
  obtain k r where s: "s = (k, r)" by (cases s)
  show ?case
  proof (cases "si_group r = n")
    case False
    with Cons s show ?thesis by simp
  next
    case True
    with Cons(2) s obtain g1 where one: "set_site_observations lc P ms B X locs r g = Inr g1"
      and rest: "fold_result (\<lambda>(_, r). if si_group r = n then set_site_observations lc P ms B X locs r else Inr) sites g1 = Inr g'"
      by (auto simp: rbind_eq_Inr)
    from set_site_observations_rows [OF one, of k] Cons(1) [OF rest] True s show ?thesis
      by (auto simp: rows_observed_def intro: list_all2_appendI)
  qed
qed

lemma fill_group_rows:
  assumes "fill_group lc P ms B X locs sites group_map seq n groups = Inr groups'"
  shows "length groups' = max (length groups) (Suc n) \<and> (\<forall>j. j \<noteq> n \<longrightarrow> obs_of groups' j = obs_of groups j) \<and>
    (\<exists>os. obs_of groups' n = obs_of groups n @ os \<and>
      rows_observed (observation_row lc P ms B X locs) (concat (map site_rows (filter (\<lambda>s. si_group (snd s) = n) sites))) os)"
proof -
  let ?g0 = "if n < length groups then groups ! n else new_group"
  from assms obtain gr g1 g2 where info: "set_group_info lc X gr ?g0 = Inr g1"
    and fill: "fold_result (\<lambda>(_, r). if si_group r = n then set_site_observations lc P ms B X locs r else Inr)
                  sites (g1\<lparr>gh_group_id := dec_int seq @ ''-'' @ dec_nat (n + 1)\<rparr>) = Inr g2"
    and groups': "groups' = cdt_at new_group n (\<lambda>_. g2) groups"
    by (auto simp: fill_group_def rbind_eq_Inr simp del: fold_result.simps split: option.splits)
  have "gh_observations g1 = obs_of groups n"
    using info by (auto simp: set_group_info_def rbind_eq_Inr obs_of_def new_group_def)
  with fill_sites_rows [OF fill] show ?thesis by (auto simp: groups' obs_of_cdt_at)
qed

lemma fill_groups_rows:
  assumes "fold_result (fill_group lc P ms B X locs sites group_map seq) [0..<n] groups = Inr groups'"
    and "length groups \<le> m" "n \<le> m" "\<forall>j. obs_of groups j = []"
  shows "length groups' \<le> m \<and> (\<forall>j\<ge>n. obs_of groups' j = []) \<and>
    (\<exists>os. concat (map (obs_of groups') [0..<n]) = os \<and> rows_observed (observation_row lc P ms B X locs)
       (concat (map (\<lambda>i. concat (map site_rows (filter (\<lambda>s. si_group (snd s) = i) sites))) [0..<n])) os)"
  using assms
proof (induction n arbitrary: groups')
  case 0
  then show ?case by (simp add: rows_observed_def)
next
  case (Suc n)
  from Suc(2) obtain groups1 where before: "fold_result (fill_group lc P ms B X locs sites group_map seq) [0..<n] groups = Inr groups1"
    and last: "fill_group lc P ms B X locs sites group_map seq n groups1 = Inr groups'"
    by (auto simp: fold_result_append rbind_eq_Inr)
  note IH = Suc(1) [OF before Suc(3) _ Suc(5)]
  note step = fill_group_rows [OF last]
  have same: "map (obs_of groups') [0..<n] = map (obs_of groups1) [0..<n]" using step by (intro map_cong) auto
  have "length groups' \<le> m" "\<forall>j\<ge>Suc n. obs_of groups' j = []" using IH step Suc(4) by auto
  moreover have "concat (map (obs_of groups') [0..<Suc n]) = concat (map (obs_of groups1) [0..<n]) @ obs_of groups' n"
    by (simp only: upt_Suc map_append concat_append same if_True le0) simp
  moreover have "rows_observed (observation_row lc P ms B X locs)
       (concat (map (\<lambda>i. concat (map site_rows (filter (\<lambda>s. si_group (snd s) = i) sites))) [0..<n]) @
        concat (map site_rows (filter (\<lambda>s. si_group (snd s) = n) sites)))
       (concat (map (obs_of groups1) [0..<n]) @ obs_of groups' n)"
    by (rule rows_observed_append) (use IH step Suc(4) in auto)
  ultimately have "length groups' \<le> m \<and> (\<forall>j\<ge>Suc n. obs_of groups' j = []) \<and> rows_observed (observation_row lc P ms B X locs)
       (concat (map (\<lambda>i. concat (map site_rows (filter (\<lambda>s. si_group (snd s) = i) sites))) [0..<Suc n]))
       (concat (map (obs_of groups') [0..<Suc n]))" by simp
  then show ?case by blast
qed

lemma mset_by_group:
  "mset (concat (map (\<lambda>i. filter (\<lambda>s. g s = i) xs) [0..<n])) = mset (filter (\<lambda>s. g s < n) xs)"
proof (induction n)
  case 0
  then show ?case by simp
next
  case (Suc n)
  have "mset (filter (\<lambda>s. g s < Suc n) xs) = mset (filter (\<lambda>s. g s < n) xs) + mset (filter (\<lambda>s. g s = n) xs)"
    by (induction xs) auto
  with Suc show ?case by simp
qed

lemma mset_concat_cong: "mset xs = mset ys \<Longrightarrow> mset (concat (map h xs)) = mset (concat (map h ys))"
  unfolding mset_concat sum_mset_sum_list [symmetric] map_map mset_map by simp

lemma map_snd_site_rows: "map snd (site_rows s) = si_rows (snd s)"
  by (simp add: site_rows_def comp_def)

lemma rows_by_group:
  assumes "\<forall>s\<in>set sites. si_group (snd s) < n"
  shows "mset (map snd (concat (map (\<lambda>i. concat (map site_rows (filter (\<lambda>s. si_group (snd s) = i) sites))) [0..<n]))) =
    mset (all_rows sites)"
proof -
  let ?F = "\<lambda>i. filter (\<lambda>s. si_group (snd s) = i) sites"
  have flat: "map snd (concat (map (\<lambda>i. concat (map site_rows (?F i))) is)) =
    concat (map (\<lambda>s. si_rows (snd s)) (concat (map ?F is)))" for "is"
    by (induction "is") (simp_all add: map_concat comp_def map_snd_site_rows)
  have "filter (\<lambda>s. si_group (snd s) < n) sites = sites" using assms by (simp add: filter_id_conv)
  then have "mset (concat (map ?F [0..<n])) = mset sites" by (simp only: mset_by_group)
  then show ?thesis unfolding flat all_rows_def by (rule mset_concat_cong)
qed

lemma site_rows_station:
  assumes "sites_ok key sites0" "map (si_rows \<circ> snd) sites = map (si_rows \<circ> snd) sites0"
    and "(row_1, row) \<in> set (concat (map (\<lambda>i. concat (map site_rows (filter (\<lambda>s. si_group (snd s) = i) sites))) is))"
  shows "key row_1 = key row"
proof -
  from assms(3) obtain s where "s \<in> set sites" "(row_1, row) \<in> set (site_rows s)" by auto
  then have rows: "row_1 = hd (si_rows (snd s))" "row \<in> set (si_rows (snd s))" by (auto simp: site_rows_def)
  have "si_rows (snd s) \<in> set (map (si_rows \<circ> snd) sites)" using \<open>s \<in> set sites\<close> by auto
  then obtain t where "t \<in> set sites0" "si_rows (snd t) = si_rows (snd s)" unfolding assms(2) by auto
  with rows assms(1) show ?thesis
    unfolding sites_ok_def by (metis (mono_tags, lifting) case_prod_unfold list.set_sel(1))
qed

text \<open>
  C21.  The observations of an answer are those of the result of the engine: over all groups, every row
  is returned exactly once, each as the observation of its row for the station of its first row, and
  the first row used for the coordinates, the geoid and the time zone is one of the same station.
  With separate groups there are as many groups as stations, otherwise one.
\<close>

theorem obs_rows_once:
  assumes "obs_groups E B X seq names f = Inr (n, groups)" "cx_result X \<noteq> []"
  shows "\<exists>locs rows. mset (map snd rows) = mset [0..<length (cx_result X ! fmisid_ind)] \<and>
    list_all2 (\<lambda>(row_1, row) ob. station_key (ob_text B) (cx_result X) row_1 = station_key (ob_text B) (cx_result X) row \<and>
        observation_row (oe_lc E) (oe_params E) (oe_meteo E) B X locs row_1 row = Inr ob)
      rows (concat (map gh_observations groups))"
proof -
  let ?sep = "ol_separate_groups (oe_limits E)" and ?key = "station_key (ob_text B) (cx_result X)"
  from assms obtain sites0 sites group_map groups0 locs where
    index: "index_sites (ob_text B) (cx_result X) = Inr sites0"
    and groups: "assign_groups (oe_ids E) ?sep names f sites0 = Inr (sites, group_map)"
    and stations: "set_station_list (oe_lc E) (le_geo (oe_locations E)) (oe_loc E) B X sites = Inr (groups0, locs)"
    and fill: "fill_groups (oe_lc E) (oe_params E) (oe_meteo E) B X locs sites group_map seq n groups0 = Inr groups"
    and n: "n = num_groups_of ?sep sites0"
    by (auto simp: obs_groups_def rbind_eq_Inr num_groups_of_def Let_def)
  note idx = index_sites_ok [OF index] and asg = assign_groups_sites [OF groups, folded n]
  note start = set_station_list_groups [OF stations, of n]
  let ?rows = "concat (map (\<lambda>i. concat (map site_rows (filter (\<lambda>s. si_group (snd s) = i) sites))) [0..<n])"
  have all: "length groups \<le> n" "\<forall>j\<ge>n. obs_of groups j = []"
    and seen: "rows_observed (observation_row (oe_lc E) (oe_params E) (oe_meteo E) B X locs) ?rows (concat (map (obs_of groups) [0..<n]))"
    using fill_groups_rows [OF fill [unfolded fill_groups_def], of n] start asg by auto
  have "[0..<n] = [0..<length groups] @ [length groups..<n]" using all(1) upt_add_eq_append [of 0 "length groups" "n - length groups"] by simp
  moreover have "concat (map (obs_of groups) [length groups..<n]) = []" by (auto simp: obs_of_def)
  ultimately have obs: "concat (map (obs_of groups) [0..<n]) = concat (map gh_observations groups)"
    by (simp add: concat_obs_of)
  have same: "?key a = ?key b" if "(a, b) \<in> set ?rows" for a b
    using site_rows_station [of ?key sites0 sites a b "[0..<n]"] idx asg that by blast
  have "mset (map snd ?rows) = mset (all_rows sites)" using rows_by_group asg by blast
  also have "\<dots> = mset (all_rows sites0)" using asg by (simp add: all_rows_def comp_def)
  also have "\<dots> = mset [0..<length (cx_result X ! fmisid_ind)]" using idx by blast
  finally have once: "mset (map snd ?rows) = mset [0..<length (cx_result X ! fmisid_ind)]" .
  have "list_all2 (\<lambda>(row_1, row) ob. ?key row_1 = ?key row \<and>
        observation_row (oe_lc E) (oe_params E) (oe_meteo E) B X locs row_1 row = Inr ob)
      ?rows (concat (map gh_observations groups))"
  proof (rule list.rel_mono_strong [OF seen [unfolded rows_observed_def obs]])
    fix r ob assume r: "r \<in> set ?rows" and ob: "(\<lambda>(row_1, row) ob.
      observation_row (oe_lc E) (oe_params E) (oe_meteo E) B X locs row_1 row = Inr ob) r ob"
    obtain a b where ab: "r = (a, b)" by (cases r)
    show "(\<lambda>(row_1, row) ob. ?key row_1 = ?key row \<and>
      observation_row (oe_lc E) (oe_params E) (oe_meteo E) B X locs row_1 row = Inr ob) r ob"
      using same [OF r [unfolded ab]] ob by (simp only: ab prod.case simp_thms)
  qed
  with once show ?thesis by blast
qed

text \<open>Two stations with three rows of one parameter.\<close>

definition demo_obs_ops :: "(string, nat, unit) obs_ops" where
  "demo_obs_ops =
     \<lparr>ob_text = \<lambda>_ v. v, ob_stod = \<lambda>_. Inr 0, ob_stol = \<lambda>_. Inr 1, ob_point = \<lambda>x y. Inr (x, y), ob_small = \<lambda>_. True,
      ob_magnitude = \<lambda>_. 0, ob_fixed = \<lambda>_ _. ''0'', ob_tz = \<lparr>tz_at = \<lambda>_ _. Inr (), tz_region = \<lambda>_. Inr ()\<rparr>,
      ob_local_time = \<lambda>_ _. ''now'', ob_location_value = \<lambda>_ _ _ _. Inr ''here'',
      ob_time_value = \<lambda>_ _ _ _ _. Inr ''then''\<rparr>"

definition demo_settings :: "(string \<times> 16 word) obs_settings" where
  "demo_settings =
     \<lparr>oq_start = 0, oq_end = 60, oq_wanted = None, oq_station_type = ''fmi'', oq_parameters = [], oq_timestep = 0,
      oq_max_distance = 0, oq_stations = 1, oq_missing_text = ''NaN'', oq_locale = ''C'', oq_language = ''eng'',
      oq_hours = [], oq_week_days = [], oq_bbox = None\<rparr>"

definition demo_column :: "string list \<Rightarrow> string obs_column" where
  "demo_column vs = zip [0, 0, 60] vs"

definition demo_context :: "(string, string \<times> 16 word) result_context" where
  "demo_context =
     \<lparr>cx_result = demo_column [''101'', ''100'', ''101''] # replicate 8 (demo_column [''1'', ''1'', ''1'']) @
        [demo_column [''7.5'', ''8.0'', ''7.0'']],
      cx_settings = demo_settings, cx_show_height = False, cx_tz_name = ''UTC'', cx_lang = ''eng'',
      cx_index = [index_entry (Some 9) ''t2m'']\<rparr>"

definition demo_obs_env :: "bool \<Rightarrow> (demo_dt, string \<times> 16 word, string, nat, unit, unit) obs_env" where
  "demo_obs_env separate =
     \<lparr>oe_lc = ascii_lower, oe_conv = demo_place_conv, oe_value_text = \<lambda>_. '''', oe_seconds = \<lambda>_. 0, oe_ids = demo_ops,
      oe_params = demo_params, oe_locations = demo_env,
      oe_loc = \<lparr>lo_longitude = \<lambda>_. 0, lo_latitude = \<lambda>_. 0, lo_fmisid = \<lambda>_. None, lo_area = \<lambda>_. ''Uusimaa''\<rparr>,
      oe_producers = [], oe_crs = \<lambda>_. \<lparr>ci_show_height = None, ci_proj_uri = None, ci_proj_epoch_uri = None\<rparr>,
      oe_transformed = \<lambda>_ _. Inr demo_obs_ops, oe_transform_box = \<lambda>bb _. Inr bb,
      oe_stations_in = \<lambda>_. Inr 1, oe_translate = \<lambda>_ _. Inr (), oe_values = \<lambda>_ _. Inr (Some (cx_result demo_context)),
      
      oe_limits = \<lparr>ol_whole_hours = 168, ol_rest_seconds = 0, ol_max_stations = 0, ol_separate_groups = separate,
        ol_restrictions = True, ol_support_qc = False\<rparr>,
      oe_meteo = demo_meteo 1, oe_query_id = ''q''\<rparr>"

definition demo_feature :: "demo_dt feature_id" where
  "demo_feature = \<lparr>fid_query = ''q'', fid_params = [], fid_seq = 1\<rparr>"

lemma demo_feature_ids:
  "\<exists>str. make_id demo_ops demo_feature = Inr str" "\<exists>str. make_id demo_ops (param_feature ''t2m'' demo_feature) = Inr str"
proof -
  have total: "\<exists>str. make_id demo_ops f = Inr str" if "fid_ok demo_dt f" for f
    using create_from_get_id [OF demo_digest_law demo_base64_law that] by (auto simp: make_id_def demo_ops_def result_simps)
  show "\<exists>str. make_id demo_ops demo_feature = Inr str"
    by (rule total) (simp add: fid_ok_def demo_feature_def value_map_ok_def)
  show "\<exists>str. make_id demo_ops (param_feature ''t2m'' demo_feature) = Inr str"
    by (rule total) (simp add: fid_ok_def demo_feature_def value_map_ok_def param_feature_def add_param_def erase_param_def
        mm_erase_def mm_sorted_def value_ok_def)
qed

abbreviation demo_sites :: sites where
  "demo_sites \<equiv> [(''100'', \<lparr>si_group = 0, si_ind = 0, si_rows = [1]\<rparr>), (''101'', \<lparr>si_group = 0, si_ind = 1, si_rows = [0, 2]\<rparr>)]"

lemma demo_obs_filled:
  "index_sites (ob_text demo_obs_ops) (cx_result demo_context) = Inr [(''100'', \<lparr>si_group = 0, si_ind = 0, si_rows = [1]\<rparr>),
     (''101'', \<lparr>si_group = 0, si_ind = 0, si_rows = [0, 2]\<rparr>)]"
  "(case rbind (set_station_list ascii_lower (le_geo demo_env) (oe_loc (demo_obs_env False)) demo_obs_ops demo_context demo_sites)
       (\<lambda>(groups, locs). rbind (fill_groups ascii_lower demo_params (demo_meteo 1) demo_obs_ops demo_context locs demo_sites
          [(0, \<lparr>gr_feature_id = str, gr_param_ids = [(''t2m'', pid)]\<rparr>)] 1 1 groups) (\<lambda>groups. Inr (1 :: nat, groups))) of
      Inr (n, groups) \<Rightarrow> n = 1 \<and> map (map (fst \<circ> hd \<circ> oh_data) \<circ> gh_observations) groups = [[''8.0'', ''7.5'', ''7.0'']]
    | _ \<Rightarrow> False)"
  by code_simp+

lemma run_value: "(case r of Inr (n, g) \<Rightarrow> n = m \<and> P g | Inl _ \<Rightarrow> False) \<Longrightarrow> \<exists>g. r = Inr (m, g) \<and> P g"
  by (auto split: sum.splits prod.splits)

lemma demo_obs_answer:
  "\<exists>groups. obs_groups (demo_obs_env False) demo_obs_ops demo_context 1 [''t2m''] demo_feature = Inr (1, groups) \<and>
     map (map (fst \<circ> hd \<circ> oh_data) \<circ> gh_observations) groups = [[''8.0'', ''7.5'', ''7.0'']]"
proof -
  obtain str pid where "make_id demo_ops demo_feature = Inr str" "make_id demo_ops (param_feature ''t2m'' demo_feature) = Inr pid"
    using demo_feature_ids by blast
  then have "assign_groups demo_ops False [''t2m''] demo_feature
      [(''100'', \<lparr>si_group = 0, si_ind = 0, si_rows = [1]\<rparr>), (''101'', \<lparr>si_group = 0, si_ind = 0, si_rows = [0, 2]\<rparr>)] =
    Inr (demo_sites, [(0, \<lparr>gr_feature_id = str, gr_param_ids = [(''t2m'', pid)]\<rparr>)])"
    by (simp add: assign_groups_def group_ids_def sm_put_def)
  moreover have "cx_result demo_context \<noteq> []" by (simp add: demo_context_def)
  moreover have "oe_ids (demo_obs_env False) = demo_ops" "ol_separate_groups (oe_limits (demo_obs_env False)) = False"
    "oe_lc (demo_obs_env False) = ascii_lower" "oe_params (demo_obs_env False) = demo_params"
    "oe_meteo (demo_obs_env False) = demo_meteo 1" "oe_locations (demo_obs_env False) = demo_env"
    by (simp_all add: demo_obs_env_def)
  ultimately have "obs_groups (demo_obs_env False) demo_obs_ops demo_context 1 [''t2m''] demo_feature =
    rbind (set_station_list ascii_lower (le_geo demo_env) (oe_loc (demo_obs_env False)) demo_obs_ops demo_context demo_sites)
       (\<lambda>(groups, locs). rbind (fill_groups ascii_lower demo_params (demo_meteo 1) demo_obs_ops demo_context locs demo_sites
          [(0, \<lparr>gr_feature_id = str, gr_param_ids = [(''t2m'', pid)]\<rparr>)] 1 1 groups) (\<lambda>groups. Inr (1, groups)))"
    unfolding obs_groups_def Let_def by (simp only: demo_obs_filled(1) rbind_Inr prod.case if_False list.simps)
  with run_value [OF demo_obs_filled(2) [of str pid]] show ?thesis by (simp only:)
qed

lemma obs_rows_once_witness:
  "\<exists>(groups :: group_hash list) locs rows. mset (map snd rows) = mset [0..<3] \<and>
     list_all2 (\<lambda>(row_1, row) ob. station_key (ob_text demo_obs_ops) (cx_result demo_context) row_1 =
          station_key (ob_text demo_obs_ops) (cx_result demo_context) row \<and>
        observation_row ascii_lower demo_params (demo_meteo 1) demo_obs_ops demo_context locs row_1 row = Inr ob)
      rows (concat (map gh_observations groups))"
proof -
  obtain groups where run: "obs_groups (demo_obs_env False) demo_obs_ops demo_context 1 [''t2m''] demo_feature = Inr (1, groups)"
    using demo_obs_answer by blast
  have "length (cx_result demo_context ! fmisid_ind) = 3" "cx_result demo_context \<noteq> []"
    by (simp_all add: demo_context_def fmisid_ind_def demo_column_def)
  moreover have "oe_lc (demo_obs_env False) = ascii_lower" "oe_params (demo_obs_env False) = demo_params"
    "oe_meteo (demo_obs_env False) = demo_meteo 1"
    by (simp_all add: demo_obs_env_def)
  ultimately show ?thesis using obs_rows_once [OF run] by (auto simp only:)
qed

section \<open>Limits of the code\<close>

lemma assign_separate_two:
  assumes "assign_separate K names n [(a, r), (b, s)] f = Inr (sites, [(i, g), (j, h)])"
  shows "\<exists>f'. group_ids K names (site_feature a f) = Inr (g, f') \<and> make_id K (site_feature b f') = Inr (gr_feature_id h)"
  using assms by (auto simp: rbind_eq_Inr group_ids_def split: prod.splits)

lemma group_ids_last:
  assumes "group_ids K (names @ [name]) f = Inr (g, f')"
  shows "mm_values (fid_params f') ''meteoParameters'' = [VString name]"
proof -
  let ?f = "\<lambda>param_name (ids, f). let f = param_feature param_name f in
     rbind (make_id K f) (\<lambda>pid. Inr (sm_put param_name pid ids, f))"
  from assms obtain ids where "fold_result ?f (names @ [name]) ([], f) = Inr (ids, f')"
    by (auto simp: group_ids_def rbind_eq_Inr)
  then obtain f0 where "f' = param_feature name f0"
    by (auto simp: fold_result_append rbind_eq_Inr Let_def)
  moreover have "mm_values (mm_insert k v (mm_erase k m)) k = [v]" for k v and m :: "(string, 'a spine_value) mmap"
    by (induction m) (auto simp: mm_values_def mm_erase_def)
  ultimately show ?thesis by (simp add: param_feature_def add_param_def erase_param_def)
qed

lemma mm_values_erase_other: "k \<noteq> k' \<Longrightarrow> mm_values (mm_erase k m) k' = mm_values m k'"
  by (induction m) (auto simp: mm_values_def mm_erase_def)

lemma mm_values_insert_other: "k \<noteq> k' \<Longrightarrow> mm_values (mm_insert k v m) k' = mm_values m k'"
  by (induction m) (auto simp: mm_values_def)

text \<open>
  With separate groups the identifier of the second group is made of a feature that asks for the last
  parameter only, while that of the first group asks for all.
\<close>

lemma later_group_narrowed:
  assumes "assign_separate K (names @ [name]) n [(a, r), (b, s)] f = Inr (sites, [(i, g), (j, h)])"
  shows "\<exists>f'. make_id K f' = Inr (gr_feature_id h) \<and> mm_values (fid_params f') ''meteoParameters'' = [VString name]"
proof -
  from assign_separate_two [OF assms] obtain f' where one: "group_ids K (names @ [name]) (site_feature a f) = Inr (g, f')"
    and two: "make_id K (site_feature b f') = Inr (gr_feature_id h)" by blast
  have "mm_values (fid_params (site_feature b f')) ''meteoParameters'' = mm_values (fid_params f') ''meteoParameters''"
    by (simp add: site_feature_def add_param_def erase_param_def place_params_def mm_values_insert_other mm_values_erase_other)
  with group_ids_last [OF one] two show ?thesis by metis
qed

text \<open>71582789 epochs of an hour make 44 minutes: the product wraps around.\<close>

lemma epochs_wrap: "(71582789 :: 32 word) * 60 = 44"
  by simp

text \<open>A map without case holds no key of mixed case, so that the data sources are never added.\<close>

lemma data_source_ignored:
  assumes "rpm_wf lc m" "\<not> rpm_case_sensitive m" "\<And>s. lc s \<noteq> ''meteoParameters''"
  shows "add_data_source_params lc ts m = m"
proof -
  have "''meteoParameters'' \<notin> set (get_keys m)"
  proof
    assume "''meteoParameters'' \<in> set (get_keys m)"
    then obtain i where i: "(''meteoParameters'', i) \<in> set (rpm_params m)" by (auto simp: get_keys_def mm_keys_def)
    have "\<forall>(key, i)\<in>set (rpm_params m). key = rpm_key lc m (pi_real_name i)"
      using assms(1) unfolding rpm_wf_def list_all_iff by (rule conjunct2)
    with i have "''meteoParameters'' = rpm_key lc m (pi_real_name i)" by blast
    with assms(2) assms(3) [of "pi_real_name i"] show False by (simp only: rpm_key_def if_False)
  qed
  then show ?thesis by (simp add: add_data_source_params_def)
qed

lemma of_char_P: "(of_char CHR ''P'' :: nat) = 80"
  by simp

lemma data_source_ignored_lower: "rpm_wf ascii_lower m \<Longrightarrow> \<not> rpm_case_sensitive m \<Longrightarrow> add_data_source_params ascii_lower ts m = m"
proof (rule data_source_ignored)
  fix s
  have "(of_char (ascii_lower_char c) :: nat) \<noteq> 80" for c
    by (auto simp: ascii_lower_char_def Let_def)
  then have "ascii_lower_char c \<noteq> CHR ''P''" for c by (metis of_char_P)
  then show "ascii_lower s \<noteq> ''meteoParameters''" unfolding ascii_lower_def by (auto simp: map_eq_Cons_conv)
qed

text \<open>A location that the engine does not find ends in reading a null pointer.\<close>

lemma null_location_read: "nearest_of L q (name, None) = Inl (Undefined ''null location'')"
  by (simp add: nearest_of_def)

end
