(* ===== verification/FlashHandler.thy ===== *)
theory FlashHandler
  imports ObsHandler
begin

text \<open>
  \<open>wfs/stored_queries/StoredFlashQueryHandler.cpp\<close>: lightning observations.  The period of the query
  is rounded to blocks of time, and the rows of the answer are written as text.  The engine, the
  transformations and the formatting of numbers are arguments.
\<close>

section \<open>The period\<close>

text \<open>Times are seconds since the beginning of 1970, so that the time of day is the rest of a division.\<close>

definition SECONDS_PER_DAY :: int where
  "SECONDS_PER_DAY = 86400"

definition round_time :: "int \<Rightarrow> int \<Rightarrow> int \<Rightarrow> int" where
  "round_time t0 step offset =
     (let t = t0 + offset; sec = t mod SECONDS_PER_DAY in t - sec + step * (sec div step))"

definition flash_period :: "int \<Rightarrow> int \<Rightarrow> int \<Rightarrow> int \<Rightarrow> int \<times> int" where
  "flash_period b e now block =
     (let last = now - block; start = round_time b block 0
      in (start, max (round_time (min e last) block (block - 1)) start))"

definition time_block_size :: "bool \<Rightarrow> 32 word option \<Rightarrow> 32 word result" where
  "time_block_size restrictions setting =
     (let block = (if restrictions then or_default 300 setting else 1) in
      if block < 1 \<or> 86400 mod block \<noteq> 0 then Inl (Thrown ProcessingFailed ''Invalid time block size'') else Inr block)"

definition ends_with :: "string \<Rightarrow> string \<Rightarrow> bool" where
  "ends_with s suffix \<longleftrightarrow> length suffix \<le> length s \<and> drop (length s - length suffix) s = suffix"

definition is_simple_template :: "string option \<Rightarrow> bool result" where
  "is_simple_template file = (case file of
       None \<Rightarrow> Inl (Thrown NoCode ''No template name given to stored flash query'')
     | Some f \<Rightarrow>
         if ends_with f ''lightning_simple.c2t'' then Inr True
         else if ends_with f ''lightning_multipointcoverage.c2t'' then Inr False
         else Inl (Thrown NoCode ''Unknown template for stored flash query''))"

section \<open>Parameters\<close>

definition flash_bs_param :: "'p param_ops \<Rightarrow> 'p list" where
  "flash_bs_param P =
     [op_param P ''utctime'' DataIndependent ''kFmiBadParameter'',
      op_param P ''longitude'' DataDerived ''kFmiBadParameter'',
      op_param P ''latitude'' DataDerived ''kFmiBadParameter'']"

definition flash_lon_ind :: nat where "flash_lon_ind = 1"
definition flash_lat_ind :: nat where "flash_lat_ind = 2"

record 'p flash_columns =
  fl_parameters :: "'p list"
  fl_first :: nat
  fl_last :: nat
  fl_meteo :: bool

definition add_flash_parameter :: "'p param_ops \<Rightarrow> string \<Rightarrow> 'p flash_columns \<Rightarrow> 'p flash_columns result" where
  "add_flash_parameter P name c =
     rbind (op_make P name) (\<lambda>param.
     let ps = fl_parameters c @ [param]; ind = length ps - 1 in
     Inr \<lparr>fl_parameters = ps, fl_first = if fl_first c = 0 then ind else fl_first c, fl_last = ind,
          fl_meteo = fl_meteo c \<or> \<not> op_special P param\<rparr>)"

definition add_flash_parameters :: "'p param_ops \<Rightarrow> string list \<Rightarrow> 'p flash_columns result" where
  "add_flash_parameters P names =
     fold_result (add_flash_parameter P) names
       \<lparr>fl_parameters = flash_bs_param P, fl_first = 0, fl_last = 0, fl_meteo = False\<rparr>"

section \<open>Rows\<close>

datatype flash_value = FInt int | FDouble double | FOther

type_synonym flash_result = "flash_value obs_column list"

text \<open>
  The operations on numbers: \<open>fv_whole\<close> tells whether a number is equal to its conversion to \<open>int\<close>,
  \<open>fv_text\<close> is \<open>Fmi::to_string\<close> and \<open>fv_one_digit\<close> the formatter with one digit.
\<close>

record flash_ops =
  fv_whole :: "double \<Rightarrow> bool"
  fv_text :: "double \<Rightarrow> string"
  fv_one_digit :: "double \<Rightarrow> string"
  fv_less :: "double \<Rightarrow> double \<Rightarrow> bool"

text \<open>A box to check against: the box, the transformation to its coordinates and their order.\<close>

record box_check =
  bc_box :: bbox
  bc_point :: "double \<Rightarrow> double \<Rightarrow> (double \<times> double) result"
  bc_swap :: bool

record ('loc, 'tz) flash_context =
  fc_result :: flash_result
  fc_box :: "box_check option"
  fc_coord :: "(flash_value, 'loc, 'tz) obs_ops"
  fc_tz :: 'tz
  fc_simple :: bool
  fc_first :: nat
  fc_last :: nat
  fc_proj_uri :: string
  fc_names :: "string list"
  fc_missing :: string

record flash_rows =
  fr_used :: nat
  fr_skipped :: nat
  fr_positions :: string
  fr_data :: string
  fr_simple :: string

text \<open>An exception of the transformation counts as inside.\<close>

definition outside_bbox :: "flash_ops \<Rightarrow> box_check \<Rightarrow> double \<Rightarrow> double \<Rightarrow> bool" where
  "outside_bbox F c lon lat = (case bc_point c lon lat of
       Inl _ \<Rightarrow> False
     | Inr p \<Rightarrow>
         (let x = (if bc_swap c then snd p else fst p); y = (if bc_swap c then fst p else snd p); b = bc_box c in
          fv_less F x (bb_xmin b) \<or> fv_less F (bb_xmax b) x \<or> fv_less F y (bb_ymin b) \<or> fv_less F (bb_ymax b) y))"

definition format_flash_value :: "flash_ops \<Rightarrow> string \<Rightarrow> flash_value obs_column \<Rightarrow> nat \<Rightarrow> string" where
  "format_flash_value F missing col i =
     (if length col \<le> i then missing
      else case snd (col ! i) of
        FInt n \<Rightarrow> dec_int n
      | FDouble d \<Rightarrow> if \<not> fv_whole F d then fv_one_digit F d else fv_text F d
      | FOther \<Rightarrow> missing)"

definition flash_coordinate :: "flash_result \<Rightarrow> nat \<Rightarrow> nat \<Rightarrow> double result" where
  "flash_coordinate result ind i =
     (if ind < length result \<and> i < length (result ! ind)
      then (case snd (result ! ind ! i) of FDouble d \<Rightarrow> Inr d | _ \<Rightarrow> Inl (Thrown NoCode ''bad variant access''))
      else Inl (Undefined ''index out of range''))"

definition newline :: char where
  "newline = CHR 0x0A"

definition member_id :: "nat \<Rightarrow> nat \<Rightarrow> string" where
  "member_id row k = dec_nat row @ ''.'' @ dec_nat k"

definition quoted :: "string \<Rightarrow> string" where
  "quoted s = [CHR 0x22] @ s @ [CHR 0x22]"

definition simple_member :: "nat \<Rightarrow> nat \<Rightarrow> string \<Rightarrow> string \<times> string \<Rightarrow> string \<Rightarrow> string \<Rightarrow> string \<Rightarrow> string" where
  "simple_member row k proj_uri xy time name v =
     concat (map (Cons newline)
      [''<wfs:member>'',
       '' <BsWfs:BsWfsElement gml:id='' @ quoted (''BsWfsElement.'' @ member_id row k) @ ''>'',
       ''  <BsWfs:Location>'',
       ''   <gml:Point gml:id='' @ quoted (''BsWfsElementP.'' @ member_id row k) @ '' srsDimension='' @ quoted ''2'' @
         '' srsName='' @ quoted proj_uri @ ''>'',
       ''    <gml:pos>'' @ fst xy @ '' '' @ snd xy @ ''</gml:pos>'',
       ''   </gml:Point>'',
       ''  </BsWfs:Location>'',
       ''  <BsWfs:Time>'' @ time @ ''</BsWfs:Time>'',
       ''  <BsWfs:ParameterName>'' @ name @ ''</BsWfs:ParameterName>'',
       ''  <BsWfs:ParameterValue>'' @ v @ ''</BsWfs:ParameterValue>'',
       '' </BsWfs:BsWfsElement>'',
       ''</wfs:member>''])"

text \<open>One value: a word of the data row, or a member.\<close>

definition add_flash_value ::
    "flash_ops \<Rightarrow> ('loc, 'tz) flash_context \<Rightarrow> nat \<Rightarrow> string \<times> string \<Rightarrow> string \<Rightarrow> nat \<Rightarrow> flash_rows \<Rightarrow> flash_rows result" where
  "add_flash_value F X i xy time k rows =
     (let v = format_flash_value F (fc_missing X) (fc_result X ! k) i in
      if length (fc_result X) \<le> k then Inl (Undefined ''index out of range'')
      else if \<not> fc_simple X
      then rbind (remove_trailing_0 v) (\<lambda>w.
        Inr (rows\<lparr>fr_data := fr_data rows @ w @ [if k < fc_last X then CHR '' '' else newline]\<rparr>))
      else if length (fc_names X) \<le> k - fc_first X then Inl (Thrown NoCode ''out of range'')
      else Inr (rows\<lparr>fr_simple := fr_simple rows @
        simple_member (fr_used rows) (k - fc_first X + 1) (fc_proj_uri X) xy time (fc_names X ! (k - fc_first X)) v\<rparr>))"

text \<open>
  One row.  What the source calls \<open>lon\<close> is read from the column of the latitude and the other way
  round.
\<close>

definition add_flash_row ::
    "flash_ops \<Rightarrow> ('loc, 'tz) flash_context \<Rightarrow> nat \<Rightarrow> flash_rows \<Rightarrow> flash_rows result" where
  "add_flash_row F X i rows =
     rbind (flash_coordinate (fc_result X) flash_lat_ind i) (\<lambda>lon.
     rbind (flash_coordinate (fc_result X) flash_lon_ind i) (\<lambda>lat.
     if (case fc_box X of None \<Rightarrow> False | Some c \<Rightarrow> outside_bbox F c lon lat)
     then Inr (rows\<lparr>fr_skipped := fr_skipped rows + 1\<rparr>)
     else rbind (get_2D_coord (fc_coord X) lon lat) (\<lambda>xy.
       let epoch = fst (fc_result X ! flash_lon_ind ! i);
           time = ob_local_time (fc_coord X) epoch (fc_tz X);
           rows = rows\<lparr>fr_used := fr_used rows + 1\<rparr>;
           rows = (if fc_simple X then rows
                   else rows\<lparr>fr_positions := fr_positions rows @ fst xy @ '' '' @ snd xy @ '' '' @ dec_int epoch @ [newline]\<rparr>)
       in fold_result (add_flash_value F X i xy time) [fc_first X..<fc_last X + 1] rows)))"

definition no_rows :: flash_rows where
  "no_rows = \<lparr>fr_used = 0, fr_skipped = 0, fr_positions = '''', fr_data = '''', fr_simple = ''''\<rparr>"

definition generate_rows :: "flash_ops \<Rightarrow> ('loc, 'tz) flash_context \<Rightarrow> flash_rows result" where
  "generate_rows F X =
     (if length (fc_result X) \<le> 1 then Inl (Undefined ''index out of range'')
      else fold_result (add_flash_row F X) [0..<length (fc_result X ! 1)] no_rows)"

section \<open>The query\<close>

definition register_flash_handler :: "(string \<Rightarrow> string) \<Rightarrow> 'dt settings \<Rightarrow> 'dt reg_state \<Rightarrow> 'dt reg_state result" where
  "register_flash_handler lc S st =
     rbind (register_bounding_box lc S True st) (\<lambda>st.
     rbind (register_time_zone lc S st) (\<lambda>st.
     rbind (reg_scalar lc S P_TIME ''beginTime'' ''The start time of the requested time period.'' True st) (\<lambda>st.
     rbind (reg_scalar lc S P_TIME ''endTime'' ''The end time of the requested time period.'' True st) (\<lambda>st.
     rbind (register_array lc P_STRING ''meteoParameters''
       ''An array of fields whose values should be returned in the response.'' 1 999 1 (st_array S ''meteoParameters'') st) (\<lambda>st.
     reg_scalar lc S P_STRING ''crs''
       (''Specifies the coordinate projection. For example crs = \"${crs:EPSG::4326}\" maps'' @
        '' to request parameter crs with the default value EPSG::4326.'') True st)))))"

text \<open>The settings that vary; the others are constants.\<close>

record 'p flash_settings =
  ft_start :: int
  ft_end :: int
  ft_parameters :: "'p list"
  ft_station_type :: string
  ft_missing :: string
  ft_bbox :: "bbox option"

record ('dt, 'p, 'loc, 'tz) flash_env =
  fx_lc :: "string \<Rightarrow> string"
  fx_conv :: "'dt value_conv"
  fx_ids :: "'dt id_ops"
  fx_params :: "'p param_ops"
  fx_seconds :: "'dt \<Rightarrow> int"
  fx_now :: int
  fx_block :: "32 word"
  fx_restrictions :: bool
  fx_max_hours :: "int \<times> int"
  fx_station_type :: string
  fx_missing :: string
  fx_template :: "string option"
  fx_query_id :: string
  fx_tz :: "'tz tz_ops"
  fx_crs :: "string \<Rightarrow> crs_info"
  fx_swap :: "string \<Rightarrow> bool option"
  fx_coord :: "string \<Rightarrow> string \<Rightarrow> (flash_value, 'loc, 'tz) obs_ops result"
  fx_point :: "string \<Rightarrow> string \<Rightarrow> (double \<Rightarrow> double \<Rightarrow> (double \<times> double) result) result"
  fx_transform_box :: "bbox \<Rightarrow> string \<Rightarrow> bbox result"
  fx_values :: "'p flash_settings \<Rightarrow> flash_result option result"
  fx_numbers :: flash_ops

record bbox_metadata =
  bm_lower_left :: "double \<times> double"
  bm_lower_right :: "double \<times> double"
  bm_upper_left :: "double \<times> double"
  bm_upper_right :: "double \<times> double"
  bm_proj_uri :: string

definition bbox_metadata_of :: "bbox \<Rightarrow> bool \<Rightarrow> string \<Rightarrow> bbox_metadata" where
  "bbox_metadata_of b swap uri =
     (let x_ll = (if swap then bb_ymin b else bb_xmin b); y_ll = (if swap then bb_xmin b else bb_ymin b);
          x_ur = (if swap then bb_ymax b else bb_xmax b); y_ur = (if swap then bb_xmax b else bb_ymax b)
      in \<lparr>bm_lower_left = (x_ll, y_ll), bm_lower_right = (x_ur, y_ll), bm_upper_left = (x_ll, y_ur),
          bm_upper_right = (x_ur, y_ur), bm_proj_uri = uri\<rparr>)"

record flash_answer =
  fa_feature_id :: string
  fa_srs :: "string \<times> string"
  fa_params :: "(string \<times> string) list"
  fa_bbox :: "bbox_metadata option"
  fa_rows :: flash_rows
  fa_simple :: bool
  fa_matched :: nat
  fa_number_matched :: nat
  fa_period :: "int \<times> int"

text \<open>The box of the request, with what is needed to check rows against it.\<close>

definition flash_box ::
    "('dt, 'p, 'loc, 'tz) flash_env \<Rightarrow> 'dt spine_value rpm \<Rightarrow> string \<Rightarrow> (bbox \<times> box_check \<times> bbox_metadata) option result" where
  "flash_box E params crs =
     rbind (get_bounding_box (fx_lc E) (fx_conv E) crs params) (\<lambda>requested. case requested of
         None \<Rightarrow> Inr None
       | Some b \<Rightarrow>
           rbind (fx_transform_box E b DATA_CRS_NAME) (\<lambda>query_bbox.
           rbind (fx_point E DATA_CRS_NAME (bb_crs b)) (\<lambda>point.
           let swap = or_default False (fx_swap E (bb_crs b));
               uri = or_default '''' (ci_proj_uri (fx_crs E (bb_crs b)))
           in Inr (Some (query_bbox, \<lparr>bc_box = b, bc_point = point, bc_swap = swap\<rparr>, bbox_metadata_of b swap uri)))))"

text \<open>The identifiers of the parameters, each made of the feature identifier as the one before left it.\<close>

definition flash_param_ids :: "'dt id_ops \<Rightarrow> string list \<Rightarrow> 'dt feature_id \<Rightarrow> (string \<times> string) list result" where
  "flash_param_ids K names f =
     rbind (fold_result (\<lambda>name (ids, f). let f = param_feature name f in
              rbind (make_id K f) (\<lambda>pid. Inr (ids @ [(name, pid)], f))) names ([], f)) (\<lambda>(ids, _). Inr ids)"

definition flash_settings_of ::
    "('dt, 'p, 'loc, 'tz) flash_env \<Rightarrow> 'dt spine_value rpm \<Rightarrow> ('p flash_settings \<times> string list \<times> 'p flash_columns) result" where
  "flash_settings_of E params =
     (let lc = fx_lc E; C = fx_conv E in
      rbind (get_single lc (vc_time C) ''beginTime'' params) (\<lambda>b.
      rbind (get_single lc (vc_time C) ''endTime'' params) (\<lambda>e.
      let (start, stop) = flash_period (fx_seconds E b) (fx_seconds E e) (fx_now E) (int (unat (fx_block E))) in
      rbind (if fx_restrictions E then check_time_interval fst snd start stop (fx_max_hours E) else Inr ()) (\<lambda>_.
      rbind (rpm_get lc (vc_string C) ''meteoParameters'' 0 SIZE_MAX 0 params) (\<lambda>names.
      rbind (add_flash_parameters (fx_params E) names) (\<lambda>cols.
      Inr (\<lparr>ft_start = start, ft_end = stop, ft_parameters = fl_parameters cols, ft_station_type = fx_station_type E,
            ft_missing = fx_missing E, ft_bbox = None\<rparr>, names, cols)))))))"

definition flash_query ::
    "('dt, 'p, 'loc, 'tz) flash_env \<Rightarrow> 32 word \<Rightarrow> 'dt spine_value rpm \<Rightarrow> flash_answer result" where
  "flash_query E seq params =
     (let lc = fx_lc E; C = fx_conv E in
      rbind (is_simple_template (fx_template E)) (\<lambda>simple.
      rbind (get_single lc (vc_string C) ''crs'' params) (\<lambda>crs.
      rbind (fx_coord E DATA_CRS_NAME crs) (\<lambda>coord.
      let info = fx_crs E crs; proj_uri = or_default ''UNKNOWN'' (ci_proj_uri info) in
      if or_default False (ci_show_height info)
      then Inl (Thrown ProcessingFailed ''Projection not supported for lightning data!'')
      else rbind (flash_settings_of E params) (\<lambda>(q, names, cols).
      rbind (get_tz_name lc C params) (\<lambda>tz_name.
      rbind (get_time_zone lc (fx_tz E) tz_name) (\<lambda>tz.
      rbind (flash_box E params crs) (\<lambda>box.
      let q = q\<lparr>ft_bbox := map_option fst box\<rparr> in
      if \<not> fl_meteo cols then Inl (Thrown ProcessingFailed ''No meteo parameter found!'')
      else rbind (fx_values E q) (\<lambda>result.
      let f = \<lparr>fid_query = fx_query_id E, fid_params = get_map True params, fid_seq = seq\<rparr> in
      rbind (make_id (fx_ids E) f) (\<lambda>fid.
      rbind (flash_param_ids (fx_ids E) names f) (\<lambda>ids.
      rbind (case or_default [] result of
               [] \<Rightarrow> Inr no_rows
             | cs \<Rightarrow> generate_rows (fx_numbers E)
                 \<lparr>fc_result = cs, fc_box = map_option (fst \<circ> snd) box, fc_coord = coord, fc_tz = tz, fc_simple = simple,
                  fc_first = fl_first cols, fc_last = fl_last cols, fc_proj_uri = proj_uri, fc_names = names,
                  fc_missing = ft_missing q\<rparr>) (\<lambda>rows.
      Inr \<lparr>fa_feature_id = fid, fa_srs = (proj_uri, or_default ''UNKNOWN'' (ci_proj_epoch_uri info)), fa_params = ids,
           fa_bbox = map_option (snd \<circ> snd) box, fa_rows = rows, fa_simple = simple,
           fa_matched = (if fr_used rows = 0 then 0 else 1),
           fa_number_matched = fr_used rows * (fl_last cols - fl_first cols + 1),
           fa_period = (ft_start q, ft_end q)\<rparr>))))))))))))"

section \<open>The period is made of blocks\<close>

lemma round_time_floor:
  assumes "0 < step" "step dvd SECONDS_PER_DAY"
  shows "round_time t step offset = step * ((t + offset) div step)"
proof -
  let ?u = "t + offset"
  obtain n where n: "SECONDS_PER_DAY = step * n" using assms(2) by blast
  have "?u = SECONDS_PER_DAY * (?u div SECONDS_PER_DAY) + ?u mod SECONDS_PER_DAY" by simp
  then have "?u div step = n * (?u div SECONDS_PER_DAY) + (?u mod SECONDS_PER_DAY) div step"
    using assms(1) by (metis n div_mult_self4 mult.assoc less_irrefl add.commute)
  moreover have "?u - ?u mod SECONDS_PER_DAY = step * (n * (?u div SECONDS_PER_DAY))"
    by (simp add: n minus_mod_eq_mult_div mult.assoc)
  ultimately show ?thesis by (simp add: round_time_def Let_def distrib_left)
qed

text \<open>
  C32.  The period of a query for lightning consists of whole blocks of time: it begins with the block
  of the begin asked for, and ends with the end asked for or the last finished block rounded up to a
  block; so it covers what was asked for as far as it is in the past, never reaches the present unless
  the begin asked for does, and is the same for all requests between two blocks.
\<close>

theorem flash_period_blocks:
  assumes "0 < block" and "block dvd SECONDS_PER_DAY"
    and "flash_period b e now block = (start, stop)"
  shows "block dvd start \<and> block dvd stop \<and> start \<le> b \<and> b < start + block \<and> start \<le> stop \<and>
    min e (now - block) \<le> stop \<and> (stop = start \<or> stop < min e (now - block) + block) \<and> (stop = start \<or> stop < now)"
proof -
  note floor = round_time_floor [OF assms(1,2)]
  have start: "start = block * (b div block)"
    using assms(3) by (simp add: flash_period_def Let_def floor)
  let ?m = "min e (now - block)" and ?up = "block * ((min e (now - block) + (block - 1)) div block)"
  have stop: "stop = max ?up start"
    using assms(3) start by (simp add: flash_period_def Let_def floor)
  have b: "start \<le> b" "b < start + block"
    using assms(1) pos_mod_bound [OF assms(1), of b] by (simp_all add: start flip: minus_mod_eq_mult_div)
  have up: "?m \<le> ?up" "?up < ?m + block"
    using assms(1) pos_mod_bound [OF assms(1), of "?m + (block - 1)"] pos_mod_sign [OF assms(1), of "?m + (block - 1)"]
    by (simp_all flip: minus_mod_eq_mult_div del: pos_mod_sign pos_mod_bound)
  have "block dvd start" "block dvd ?up" by (simp_all add: start)
  with b up stop show ?thesis by (auto simp: max_def)
qed

lemma flash_period_blocks_witness:
  "300 dvd (600 :: int) \<and> 300 dvd (1200 :: int) \<and> (600 :: int) \<le> 700"
  using flash_period_blocks [of 300 700 5000 1400 600 1200]
  by (simp add: SECONDS_PER_DAY_def flash_period_def round_time_def)

section \<open>The rows\<close>

text \<open>A line of the data: its words, separated by spaces.\<close>

fun data_line :: "string list \<Rightarrow> string" where
  "data_line [] = []"
| "data_line [w] = w @ [newline]"
| "data_line (w # ws) = w @ CHR '' '' # data_line ws"

lemma data_line_Cons: "ws \<noteq> [] \<Longrightarrow> data_line (w # ws) = w @ CHR '' '' # data_line ws"
  by (cases ws) simp_all

lemma add_data_words:
  assumes "fold_result (add_flash_value F X i xy time) [k..<Suc (fc_last X)] rows = Inr rows'"
    and "\<not> fc_simple X" and "k \<le> fc_last X"
  shows "\<exists>ws. length ws = Suc (fc_last X) - k \<and> rows' = rows\<lparr>fr_data := fr_data rows @ data_line ws\<rparr>"
  using assms(1,3)
proof (induction "fc_last X - k" arbitrary: k rows)
  case 0
  then have k: "k = fc_last X" by simp
  have "[k..<Suc (fc_last X)] = [k]" by (simp add: k)
  with 0(2) obtain w where "rows' = rows\<lparr>fr_data := fr_data rows @ w @ [newline]\<rparr>"
    using assms(2) k by (auto simp: add_flash_value_def Let_def result_simps split: if_splits)
  then show ?case by (intro exI [of _ "[w]"]) (simp add: k)
next
  case (Suc n)
  then have "[k..<Suc (fc_last X)] = k # [Suc k..<Suc (fc_last X)]" by (simp add: upt_conv_Cons del: upt_Suc)
  with Suc(3) obtain r1 where r1: "add_flash_value F X i xy time k rows = Inr r1"
    and rest: "fold_result (add_flash_value F X i xy time) [Suc k..<Suc (fc_last X)] r1 = Inr rows'"
    by (auto simp: result_simps simp del: upt_Suc)
  from r1 assms(2) Suc(2) obtain w where w: "r1 = rows\<lparr>fr_data := fr_data rows @ w @ [CHR '' '']\<rparr>"
    by (auto simp: add_flash_value_def Let_def result_simps split: if_splits)
  have n: "n = fc_last X - Suc k" "Suc k \<le> fc_last X" using Suc(2) by auto
  from Suc(1) [OF n(1) rest n(2)] obtain ws where ws: "length ws = Suc (fc_last X) - Suc k"
    "rows' = r1\<lparr>fr_data := fr_data r1 @ data_line ws\<rparr>" by blast
  then have "ws \<noteq> []" using Suc(2) by auto
  with ws w Suc(2) show ?case by (intro exI [of _ "w # ws"]) (auto simp: data_line_Cons)
qed

definition row_member ::
    "flash_ops \<Rightarrow> ('loc, 'tz) flash_context \<Rightarrow> nat \<times> (string \<times> string) \<times> string \<Rightarrow> nat \<Rightarrow> nat \<Rightarrow> string" where
  "row_member F X r row k = (case r of (i, xy, time) \<Rightarrow>
     simple_member row (k + 1) (fc_proj_uri X) xy time (fc_names X ! k)
       (format_flash_value F (fc_missing X) (fc_result X ! (fc_first X + k)) i))"

lemma add_members:
  assumes "fold_result (add_flash_value F X i xy time) (map ((+) (fc_first X)) ks) rows = Inr rows'" "fc_simple X"
  shows "rows' = rows\<lparr>fr_simple := fr_simple rows @ concat (map (row_member F X (i, xy, time) (fr_used rows)) ks)\<rparr>"
  using assms(1)
proof (induction ks arbitrary: rows)
  case (Cons k ks)
  from Cons.prems obtain r1 where r1: "add_flash_value F X i xy time (fc_first X + k) rows = Inr r1"
    and rest: "fold_result (add_flash_value F X i xy time) (map ((+) (fc_first X)) ks) r1 = Inr rows'"
    by (auto simp: result_simps)
  from r1 assms(2) have "r1 = rows\<lparr>fr_simple := fr_simple rows @ row_member F X (i, xy, time) (fr_used rows) k\<rparr>"
    by (auto simp: add_flash_value_def Let_def row_member_def split: if_splits)
  with Cons.IH [OF rest] show ?case by simp
qed simp

text \<open>What the rows are after some of the result is read: \<open>used\<close> describes the rows that are used.\<close>

definition rows_written ::
    "flash_ops \<Rightarrow> ('loc, 'tz) flash_context \<Rightarrow> nat \<Rightarrow> (nat \<times> (string \<times> string) \<times> string) list \<Rightarrow> string list list \<Rightarrow> flash_rows \<Rightarrow> bool" where
  "rows_written F X n used ws rows \<longleftrightarrow>
     fr_used rows = length used \<and> fr_used rows + fr_skipped rows = n \<and> sorted_wrt (<) (map fst used) \<and>
     (if fc_simple X
      then ws = [] \<and> fr_positions rows = '''' \<and> fr_data rows = '''' \<and>
        fr_simple rows = concat (map (\<lambda>(row, r). concat (map (row_member F X r (row + 1)) [0..<fc_last X + 1 - fc_first X]))
          (enumerate 0 used))
      else length ws = length used \<and> (\<forall>w \<in> set ws. length w = fc_last X + 1 - fc_first X) \<and>
        fr_positions rows = concat (map (\<lambda>(i, xy, _). fst xy @ '' '' @ snd xy @ '' '' @
          dec_int (fst (fc_result X ! flash_lon_ind ! i)) @ [newline]) used) \<and>
        fr_data rows = concat (map data_line ws) \<and> fr_simple rows = '''')"

lemma add_row_written:
  assumes "rows_written F X n used ws rows" and "\<forall>i \<in> fst ` set used. i < n" and "fc_first X \<le> fc_last X"
    and "add_flash_row F X n rows = Inr rows'"
  shows "\<exists>used' ws'. rows_written F X (Suc n) used' ws' rows' \<and> (\<forall>i \<in> fst ` set used'. i < Suc n)"
proof -
  have sorted: "sorted_wrt (<) (map fst used @ [n])" using assms(1,2) by (auto simp: rows_written_def sorted_wrt_append)
  from assms(4) obtain lon lat where "flash_coordinate (fc_result X) flash_lat_ind n = Inr lon"
    "flash_coordinate (fc_result X) flash_lon_ind n = Inr lat"
    by (auto simp: add_flash_row_def result_simps)
  note coords = this
  show ?thesis
  proof (cases "case fc_box X of None \<Rightarrow> False | Some c \<Rightarrow> outside_bbox F c lon lat")
    case True
    with assms(4) coords have "rows' = rows\<lparr>fr_skipped := fr_skipped rows + 1\<rparr>" by (simp add: add_flash_row_def)
    with assms(1,2) show ?thesis
      by (intro exI [of _ used] exI [of _ ws]) (auto simp: rows_written_def)
  next
    case inside: False
    let ?t = "ob_local_time (fc_coord X) (fst (fc_result X ! flash_lon_ind ! n)) (fc_tz X)"
    let ?line = "\<lambda>xy. fst xy @ '' '' @ snd xy @ '' '' @ dec_int (fst (fc_result X ! flash_lon_ind ! n)) @ [newline]"
    let ?start = "\<lambda>xy. if fc_simple X then rows\<lparr>fr_used := fr_used rows + 1\<rparr>
      else (rows\<lparr>fr_used := fr_used rows + 1\<rparr>)\<lparr>fr_positions := fr_positions rows @ ?line xy\<rparr>"
    have "\<exists>xy. fold_result (add_flash_value F X n xy ?t) [fc_first X..<Suc (fc_last X)] (?start xy) = Inr rows'"
      using assms(4) coords inside
      by (cases "fc_simple X") (auto simp: add_flash_row_def Let_def rbind_eq_Inr simp del: upt_Suc)
    then obtain xy where
      run: "fold_result (add_flash_value F X n xy ?t) [fc_first X..<Suc (fc_last X)] (?start xy) = Inr rows'" by blast
    show ?thesis
    proof (cases "fc_simple X")
      case True
      have "[fc_first X..<Suc (fc_last X)] = map ((+) (fc_first X)) [0..<fc_last X + 1 - fc_first X]"
        by (rule nth_equalityI) (use assms(3) in \<open>auto simp del: upt_Suc\<close>)
      with add_members [of F X n xy ?t _ "?start xy" rows'] run True
      have "rows' = (rows\<lparr>fr_used := fr_used rows + 1\<rparr>)\<lparr>fr_simple := fr_simple rows @
        concat (map (row_member F X (n, xy, ?t) (fr_used rows + 1)) [0..<fc_last X + 1 - fc_first X])\<rparr>"
        by (simp del: upt_Suc)
      with assms(1,2) sorted True show ?thesis
        by (intro exI [of _ "used @ [(n, xy, ?t)]"] exI [of _ "[]"])
          (auto simp: rows_written_def enumerate_append_eq simp del: upt_Suc)
    next
      case False
      from add_data_words [of F X n xy ?t "fc_first X" "?start xy" rows'] run False assms(3)
      obtain w where "length w = Suc (fc_last X) - fc_first X"
        "rows' = (?start xy)\<lparr>fr_data := fr_data rows @ data_line w\<rparr>" by auto
      with assms(1,2) sorted False show ?thesis
        by (intro exI [of _ "used @ [(n, xy, ?t)]"] exI [of _ "ws @ [w]"]) (auto simp: rows_written_def)
    qed
  qed
qed

lemma rows_are_written:
  assumes "generate_rows F X = Inr rows" "fc_first X \<le> fc_last X"
  shows "\<exists>used ws. rows_written F X (length (fc_result X ! 1)) used ws rows"
proof -
  have "\<exists>used ws. rows_written F X n used ws rows \<and> (\<forall>i \<in> fst ` set used. i < n)"
    if "fold_result (add_flash_row F X) [0..<n] no_rows = Inr rows" for n rows
    using that
  proof (induction n arbitrary: rows)
    case 0
    then show ?case by (intro exI [of _ "[]"]) (auto simp: rows_written_def no_rows_def)
  next
    case (Suc n)
    then obtain r1 where "fold_result (add_flash_row F X) [0..<n] no_rows = Inr r1" "add_flash_row F X n r1 = Inr rows"
      by (auto simp: fold_result_append result_simps)
    with Suc.IH add_row_written [OF _ _ assms(2)] show ?case by blast
  qed
  moreover from assms(1) have "fold_result (add_flash_row F X) [0..<length (fc_result X ! 1)] no_rows = Inr rows"
    by (auto simp: generate_rows_def split: if_splits)
  ultimately show ?thesis by blast
qed


lemma dec_nat_no_dot: "CHR ''.'' \<notin> set (dec_nat n)"
proof
  assume "CHR ''.'' \<in> set (dec_nat n)"
  then have "isdigit (CHR ''.'')" using dec_nat_digits [of n] by (auto simp: list_all_iff)
  then show False by (simp add: isdigit_def)
qed

lemma member_id_inj: "member_id r k = member_id r' k' \<longleftrightarrow> r = r' \<and> k = k'"
proof
  assume eq: "member_id r k = member_id r' k'"
  have head: "takeWhile (\<lambda>c. c \<noteq> CHR ''.'') (member_id a b) = dec_nat a" for a b
  proof -
    have "\<And>c. c \<in> set (dec_nat a) \<Longrightarrow> c \<noteq> CHR ''.''" using dec_nat_no_dot [of a] by blast
    then show ?thesis unfolding member_id_def by (subst takeWhile_append2) simp_all
  qed
  from head [of r k] head [of r' k'] eq have "r = r'" by (simp add: dec_nat_inj)
  with eq show "r = r' \<and> k = k'" by (simp add: member_id_def dec_nat_inj)
qed simp

definition row_members :: "nat \<Rightarrow> (nat \<times> 'r) list \<Rightarrow> (nat \<times> nat \<times> 'r) list" where
  "row_members n rs = concat (map (\<lambda>(row, r). map (\<lambda>k. (row + 1, k, r)) [0..<n]) rs)"

lemma row_members_distinct:
  "distinct (map (\<lambda>(row, k, r). (row, k)) (row_members n (enumerate j used))) \<and>
   (\<forall>m \<in> set (row_members n (enumerate j used)). j < fst m)"
proof (induction used arbitrary: j)
  case (Cons r used)
  have new: "(\<lambda>(row, k, r). (row, k)) ` set (map (\<lambda>k. (j + 1, k, r)) [0..<n]) \<inter>
      (\<lambda>(row, k, r). (row, k)) ` set (row_members n (enumerate (Suc j) used)) = {}"
    using Cons [of "Suc j"] by fastforce
  have "distinct (map (\<lambda>(row, k, r). (row, k)) (map (\<lambda>k. (j + 1, k, r)) [0..<n]))"
    by (simp add: comp_def distinct_map inj_on_def)
  with new Cons [of "Suc j"] show ?case
    by (fastforce simp: row_members_def)
qed (simp add: row_members_def)

lemma row_members_length: "length (row_members n rs) = n * length rs"
  by (induction rs) (auto simp: row_members_def)

text \<open>
  The answer as simple features consists of exactly \<open>numberReturned\<close> members, one for every row in
  use and every parameter, and their XML identifiers are all different.
\<close>

theorem simple_members_distinct:
  assumes "generate_rows F X = Inr rows" and "fc_first X \<le> fc_last X" and "fc_simple X"
  shows "\<exists>ms. fr_simple rows = concat (map (\<lambda>(row, k, r). row_member F X r row k) ms) \<and>
    length ms = fr_used rows * (fc_last X - fc_first X + 1) \<and>
    distinct (map (\<lambda>(row, k, r). member_id row (k + 1)) ms)"
proof -
  from rows_are_written [OF assms(1,2)] obtain used ws
    where written: "rows_written F X (length (fc_result X ! 1)) used ws rows" by blast
  let ?n = "fc_last X + 1 - fc_first X" and ?ms = "row_members (fc_last X + 1 - fc_first X) (enumerate 0 used)"
  have "concat (map (\<lambda>(row, k, r). row_member F X r row k) (row_members n rs)) =
      concat (map (\<lambda>(row, r). concat (map (row_member F X r (row + 1)) [0..<n])) rs)" for n rs
    by (induction rs) (auto simp: row_members_def comp_def)
  then have "fr_simple rows = concat (map (\<lambda>(row, k, r). row_member F X r row k) ?ms)"
    using written assms(3) by (simp add: rows_written_def del: upt_Suc)
  moreover have "length ?ms = fr_used rows * (fc_last X - fc_first X + 1)"
    using written assms(2) by (simp add: row_members_length rows_written_def Suc_diff_le mult.commute)
  moreover have "distinct (map (\<lambda>(row, k, r). member_id row (k + 1)) ?ms)"
  proof -
    have "map (\<lambda>(row, k, r). member_id row (k + 1)) ?ms =
        map (\<lambda>(row, k). member_id row (k + 1)) (map (\<lambda>(row, k, r). (row, k)) ?ms)"
      by (simp add: split_def)
    moreover have "inj (\<lambda>(row, k). member_id row (k + 1))"
      by (auto simp: inj_def member_id_inj)
    ultimately show ?thesis
      using row_members_distinct [of ?n 0 used] by (simp only: distinct_map inj_on_subset [OF _ subset_UNIV])
  qed
  ultimately show ?thesis by blast
qed

section \<open>Examples\<close>

text \<open>Two strokes, of which the second one has no value for the parameter.\<close>

definition demo_flash_ops :: flash_ops where
  "demo_flash_ops =
     \<lparr>fv_whole = \<lambda>_. True, fv_text = \<lambda>_. ''1.50'', fv_one_digit = \<lambda>_. ''1.5'', fv_less = \<lambda>_ _. False\<rparr>"

definition demo_flash_coord :: "(flash_value, unit, unit) obs_ops" where
  "demo_flash_coord =
     \<lparr>ob_text = \<lambda>_ _. '''', ob_stod = \<lambda>_. Inr 0, ob_stol = \<lambda>_. Inr 0, ob_point = \<lambda>x y. Inr (x, y), ob_small = \<lambda>_. True,
      ob_magnitude = \<lambda>_. 0, ob_fixed = \<lambda>_ _. ''60.00000'', ob_tz = \<lparr>tz_at = \<lambda>_ _. Inr (), tz_region = \<lambda>_. Inr ()\<rparr>,
      ob_local_time = \<lambda>_ _. ''2024-07-01T00:00:00Z'', ob_location_value = \<lambda>_ _ _ _. Inr '''',
      ob_time_value = \<lambda>_ _ _ _ _. Inr ''''\<rparr>"

definition demo_flash :: "bool \<Rightarrow> (unit, unit) flash_context" where
  "demo_flash simple =
     \<lparr>fc_result = [[(60, FOther), (90, FOther)], [(60, FDouble 1), (90, FDouble 2)], [(60, FDouble 3), (90, FDouble 4)],
        [(60, FInt 1), (90, FDouble 5)]],
      fc_box = None, fc_coord = demo_flash_coord, fc_tz = (), fc_simple = simple, fc_first = 3, fc_last = 3,
      fc_proj_uri = ''urn'', fc_names = [''multiplicity''], fc_missing = ''NaN''\<rparr>"

lemma demo_flash_data: "rbind (generate_rows demo_flash_ops (demo_flash False)) (\<lambda>rows. Inr (fr_used rows, fr_data rows)) =
    Inr (2, ''1'' @ [newline] @ ''1.5'' @ [newline])"
  by code_simp

lemma demo_flash_simple: "isOK (generate_rows demo_flash_ops (demo_flash True))"
  by code_simp


lemma simple_members_distinct_witness:
  "\<exists>rows ms. generate_rows demo_flash_ops (demo_flash True) = Inr rows \<and> length ms = fr_used rows * 1 \<and>
     distinct (map (\<lambda>(row, k, r :: nat \<times> (string \<times> string) \<times> string). member_id row (k + 1)) ms)"
proof -
  obtain rows where rows: "generate_rows demo_flash_ops (demo_flash True) = Inr rows"
    using demo_flash_simple by (auto simp: isOK_iff)
  have "fc_first (demo_flash True) \<le> fc_last (demo_flash True)" "fc_simple (demo_flash True)"
    "fc_last (demo_flash True) - fc_first (demo_flash True) + 1 = 1"
    by (simp_all add: demo_flash_def)
  with simple_members_distinct [OF rows] rows show ?thesis by fastforce
qed

text \<open>The block sizes that are accepted divide the day.\<close>

lemma block_size_divides:
  assumes "time_block_size restrictions setting = Inr block"
  shows "0 < int (unat block) \<and> int (unat block) dvd SECONDS_PER_DAY"
proof -
  from assms have pos: "\<not> block < 1" and rest: "86400 mod block = 0"
    by (auto simp: time_block_size_def Let_def split: if_splits)
  from pos have "0 < unat block" by (simp add: word_less_nat_alt)
  moreover have "unat (86400 mod block) = 86400 mod unat block" by (simp add: unat_mod)
  with rest have "86400 mod unat block = 0" by simp
  then have "unat block dvd 86400" by blast
  then have "int (unat block) dvd int 86400" by (simp only: of_nat_dvd_iff)
  moreover from pos have "0 < uint block" by (simp add: word_less_def)
  ultimately show ?thesis by (simp add: SECONDS_PER_DAY_def)
qed

text \<open>With blocks of one second the period is the one asked for, up to the last second.\<close>

lemma flash_period_one: "b \<le> min e (now - 1) \<Longrightarrow> flash_period b e now 1 = (b, min e (now - 1))"
  by (simp add: flash_period_def round_time_floor SECONDS_PER_DAY_def)

text \<open>A period that lies in the future becomes one moment, the begin of its block.\<close>

lemma flash_period_future:
  assumes "0 < block" "block dvd SECONDS_PER_DAY" "now \<le> b"
  shows "fst (flash_period b e now block) = snd (flash_period b e now block)"
proof -
  obtain start stop where p: "flash_period b e now block = (start, stop)" by (cases "flash_period b e now block")
  note blocks = round_time_floor [OF assms(1,2)]
  have "min e (now - block) + (block - 1) \<le> b" using assms(1,3) by simp
  then have "(min e (now - block) + (block - 1)) div block \<le> b div block"
    using assms(1) by (rule zdiv_mono1)
  then have "block * ((min e (now - block) + (block - 1)) div block) \<le> block * (b div block)"
    using assms(1) by simp
  then show ?thesis by (simp add: flash_period_def Let_def blocks max_def)
qed

end
