(* ===== verification/ForecastHandler.thy ===== *)
theory ForecastHandler
  imports ObsHandler FileHandlers
begin

text \<open>
  \<open>wfs/stored_queries/StoredForecastQueryHandler.cpp\<close>: forecasts at places.  For every place a model is
  chosen, the table gets one row for each height or level and each time, and the rows are grouped by the
  geoid of their place.  The engines, the generator of times and the formatting of values are arguments;
  the debug output and the code under \<open>ENABLE_MODEL_PATH\<close>, which no build file defines, are left out.
\<close>

section \<open>The query\<close>

text \<open>
  A data set of the engine and what the handler reads of it.  \<open>md_levels\<close> are the levels in the order
  of the iteration, their values cut to \<open>int\<close>; \<open>md_area\<close> has the corners of the area, top left, top
  right, bottom left and bottom right.
\<close>

type_synonym point = "double \<times> double"

record 'dt model_data =
  md_modified :: 'dt
  md_origin :: 'dt
  md_area :: "(point \<times> point \<times> point \<times> point) option"
  md_hybrid :: bool
  md_levels :: "int list"

text \<open>The type \<open>'h\<close> is that of the numbers in single precision, with their order.\<close>

record ('dt, 'p, 'loc, 'h) forecast_query =
  fq_models :: "string list"
  fq_levels :: "int list"
  fq_heights :: "'h list"
  fq_level_type :: string
  fq_locations :: "'loc located list"
  fq_params :: "'p list"
  fq_max_distance :: double
  fq_np_distance :: double
  fq_missing_text :: string
  fq_language :: string
  fq_locale :: string
  fq_nearest :: bool
  fq_tz_name :: string
  fq_origin :: "'dt option"
  fq_modified :: "'dt option"
  fq_times :: "'dt time_options"
  fq_area :: "point \<times> point \<times> point \<times> point"
  fq_have_area :: bool
  fq_producer :: string
  fq_lastpoint :: point
  fq_first :: nat
  fq_last :: nat

definition common_params :: "'p param_ops \<Rightarrow> 'p list" where
  "common_params P =
     [op_param P ''geoid'' DataIndependent ''kFmiGEOID'',
      op_param P ''time'' DataIndependent ''kFmiTime'',
      op_param P ''name'' DataIndependent ''kFmiName'',
      op_param P ''latitude'' DataIndependent ''kFmiLatitude'',
      op_param P ''longitude'' DataIndependent ''kFmiLongitude'',
      op_param P ''elevation'' DataIndependent ''kFmiElevation'',
      op_param P ''level'' DataIndependent ''kFmiLevel'',
      op_param P ''region'' DataIndependent ''kFmiRegion'',
      op_param P ''country'' DataIndependent ''kFmiCountry'',
      op_param P ''iso2'' DataIndependent ''kFmiISO2'',
      op_param P ''localtz'' DataIndependent ''kFmiLocalTZ'']"

definition ind_geoid :: nat where "ind_geoid = 0"
definition ind_epoch :: nat where "ind_epoch = 1"
definition ind_place :: nat where "ind_place = 2"
definition ind_lat :: nat where "ind_lat = 3"
definition ind_lon :: nat where "ind_lon = 4"
definition ind_elev :: nat where "ind_elev = 5"
definition ind_level :: nat where "ind_level = 6"
definition ind_region :: nat where "ind_region = 7"
definition ind_country :: nat where "ind_country = 8"
definition ind_country_iso :: nat where "ind_country_iso = 9"
definition ind_localtz :: nat where "ind_localtz = 10"

definition register_forecast_handler :: "(string \<Rightarrow> string) \<Rightarrow> 'dt settings \<Rightarrow> 'dt reg_state \<Rightarrow> 'dt reg_state result" where
  "register_forecast_handler lc S st =
     rbind (register_location_params lc S all_location_flags st) (\<lambda>st.
     rbind (register_time_params lc S st) (\<lambda>st.
     rbind (register_time_zone lc S st) (\<lambda>st.
     rbind (reg_array lc S P_STRING ''model''
       (''An array of weather models (see QEngine configuration) that can be used in the query.'' @
        '' An empty array means that all the available weather models can be used.'') 0 st) (\<lambda>st.
     rbind (reg_scalar lc S P_TIME ''originTime''
       (''The origin time of the weather models that should be used. This might'' @
        '' be omitted in the query.'') False st) (\<lambda>st.
     rbind (register_array lc P_DOUBLE ''levelHeights'' '''' 0 99 1 (st_array S ''levelHeights'') st) (\<lambda>st.
     rbind (register_array lc P_INT ''level''
       (''An array of geometric heights (GeomHeight) above the topography of model. An empty array'' @
        '' means that all the levels can be used. The parameter is usable only with hybrid data and'' @
        '' interpolated data values will be returned if exact match is not found. The use of parameter'' @
        '' also require that the dataset contains e.g. GeomHeight data and it is not allowed to use'' @
        '' with the level parameter at the same time.'') 0 99 1 (st_array S ''level'') st) (\<lambda>st.
     rbind (reg_scalar lc S P_STRING ''levelType'' ''The level type that can be used in the query.'' True st) (\<lambda>st.
     rbind (register_array lc P_STRING ''param''
       ''An array of fields which values should be returned in the response.'' 1 99 1 (st_array S ''param'') st) (\<lambda>st.
     rbind (reg_scalar lc S P_INT ''findNearestValid''
       ''A non zero value of this parameters causes look-up of the nearest point from the model.'' True st) (\<lambda>st.
     rbind (reg_scalar lc S P_STRING ''locale'' ''Locale to use in response'' True st) (\<lambda>st.
     rbind (reg_scalar lc S P_STRING ''missingText''
       ''The value that is returned when the value of the requested field is missing.'' True st) (\<lambda>st.
     reg_scalar lc S P_STRING ''crs'' ''The coordinate projection used in the response.'' True st))))))))))))"

text \<open>A set that refuses an element it has.\<close>

definition insert_new :: "string \<Rightarrow> 'a::linorder \<Rightarrow> 'a list \<Rightarrow> 'a list result" where
  "insert_new msg x xs = (if x \<in> set xs then Inl (Thrown ParsingFailed msg) else Inr (sset_insert x xs))"

definition parse_level_heights ::
    "(string \<Rightarrow> string) \<Rightarrow> 'dt value_conv \<Rightarrow> (double \<Rightarrow> 'h::linorder) \<Rightarrow> 'dt spine_value rpm \<Rightarrow> 'h list result" where
  "parse_level_heights lc C to_float params =
     rbind (rpm_get lc (vc_double C) ''levelHeights'' 0 SIZE_MAX 0 params) (\<lambda>heights.
     fold_result (\<lambda>item. insert_new ''Duplicate geometric height'' (to_float item)) heights [])"

definition parse_levels ::
    "(string \<Rightarrow> string) \<Rightarrow> 'dt value_conv \<Rightarrow> 'dt spine_value rpm \<Rightarrow> (string \<times> int list) result" where
  "parse_levels lc C params =
     rbind (get_single lc (vc_string C) ''levelType'' params) (\<lambda>level_type.
     rbind (rpm_get lc (vc_int C) ''level'' 0 SIZE_MAX 0 params) (\<lambda>levels.
     rbind (fold_result (\<lambda>level s. rbind (cast_to_int level) (\<lambda>tmp. insert_new ''Duplicate level'' (sint tmp) s)) levels [])
       (\<lambda>s. Inr (level_type, s))))"

text \<open>The columns: the common parameters, then those of the request; first and last of these.\<close>

definition push_forecast_param :: "'p param_ops \<Rightarrow> string \<Rightarrow> 'p list \<times> nat \<times> nat \<Rightarrow> ('p list \<times> nat \<times> nat) result" where
  "push_forecast_param P name s = (case s of (ps, fi, la) \<Rightarrow>
     rbind (op_make P name) (\<lambda>p. Inr (ps @ [p], if fi = 0 then length ps else fi, length ps)))"

definition parse_params ::
    "(string \<Rightarrow> string) \<Rightarrow> 'dt value_conv \<Rightarrow> 'p param_ops \<Rightarrow> 'dt spine_value rpm \<Rightarrow> ('p list \<times> nat \<times> nat) result" where
  "parse_params lc C P params =
     rbind (rpm_get lc (vc_string C) ''param'' 0 SIZE_MAX 0 params) (\<lambda>names.
     fold_result (push_forecast_param P) names (common_params P, 0, 0))"

definition parse_times ::
    "(string \<Rightarrow> string) \<Rightarrow> 'dt value_conv \<Rightarrow> 'dt time_ops \<Rightarrow> 'dt spine_value rpm \<Rightarrow>
     ('dt time_options \<times> 'dt option) result" where
  "parse_times lc C M params =
     rbind (get_time_generator_options lc C M params) (\<lambda>op.
     if 0 < rpm_count lc params ''originTime''
     then rbind (get_single lc (vc_time C) ''originTime'' params) (\<lambda>t. Inr (op, Some t))
     else Inr (op, None))"

section \<open>Models and rows\<close>

text \<open>What is asked of the engine for one value; the time string the code passes is empty.\<close>

record ('p, 'loc) value_request =
  vr_param :: 'p
  vr_producer :: string
  vr_loc :: 'loc
  vr_country :: string
  vr_place :: string
  vr_time_string :: string
  vr_language :: string
  vr_locale :: string
  vr_zone :: string
  vr_nearest :: bool
  vr_km :: double

text \<open>A row is for a height or for the level at a position of the data set.\<close>

datatype 'h row_slot = At_height 'h | At_level nat

record model_search =
  mq_models :: "string list option"
  mq_longitude :: double
  mq_latitude :: double
  mq_km :: double
  mq_level_type :: string

text \<open>
  What the code takes from elsewhere.  \<open>fw_positive\<close> compares with zero, \<open>fw_km\<close> divides by 1000;
  \<open>fw_value\<close> gets the last point and returns it, because the engine has it by reference; the precision of
  a parameter in the metadata is an \<open>int\<close>.  \<open>fw_outermost\<close> tells whether an exception in layers shows
  the code of its outermost layer.
\<close>

record ('dt, 'p, 'loc, 'tz, 'lt, 'h, 'v, 'q) forecast_env =
  fw_lc :: "string \<Rightarrow> string"
  fw_conv :: "'dt value_conv"
  fw_ids :: "'dt id_ops"
  fw_clock :: "'dt clock_ops"
  fw_params :: "'p param_ops"
  fw_tm :: "'dt time_ops"
  fw_locations :: "'loc location_env"
  fw_loc :: "'loc loc_ops"
  fw_iso2 :: "'loc \<Rightarrow> string"
  fw_country :: "string \<Rightarrow> string \<Rightarrow> string result"
  fw_float :: "double \<Rightarrow> 'h"
  fw_positive :: "double \<Rightarrow> bool"
  fw_km :: "double \<Rightarrow> double"
  fw_has_locale :: "string \<Rightarrow> bool"
  fw_find :: "model_search \<Rightarrow> string result"
  fw_get :: "string \<Rightarrow> 'dt option \<Rightarrow> 'q result"
  fw_data :: "'q \<Rightarrow> 'dt model_data"
  fw_multifile :: "string \<Rightarrow> bool"
  fw_metadata :: "string \<Rightarrow> 'dt \<Rightarrow> (string \<times> int) list list result"
  fw_tz :: "'tz tz_ops"
  fw_generate :: "'dt time_options \<Rightarrow> 'q \<Rightarrow> 'tz \<Rightarrow> 'lt list result"
  fw_value :: "'q \<Rightarrow> ('p, 'loc) value_request \<Rightarrow> 'h row_slot \<Rightarrow> 'lt \<Rightarrow> point \<Rightarrow> ('v \<times> point) result"
  fw_print :: "string \<Rightarrow> int \<Rightarrow> 'v \<Rightarrow> string"
  fw_meteo :: meteo_options
  fw_crs :: "string \<Rightarrow> crs_info"
  fw_transformed :: "string \<Rightarrow> string \<Rightarrow> (string, 'loc, 'tz) obs_ops result"
  fw_stod :: "string \<Rightarrow> double result"
  fw_parse_iso :: "string \<Rightarrow> int result"
  fw_missing_point :: point
  fw_new_point :: point
  fw_max_np :: double
  fw_separate :: bool
  fw_query_id :: string
  fw_outermost :: bool

definition select_producer ::
    "('dt, 'p, 'loc, 'tz, 'lt, 'h, 'v, 'q) forecast_env \<Rightarrow> ('dt, 'p, 'loc, 'h) forecast_query \<Rightarrow> 'loc \<Rightarrow> string result" where
  "select_producer W q loc =
     rbind (fw_find W \<lparr>mq_models = if fq_models q = [] then None else Some (fq_models q),
              mq_longitude = lo_longitude (fw_loc W) loc, mq_latitude = lo_latitude (fw_loc W) loc,
              mq_km = fw_km W (fq_max_distance q), mq_level_type = fq_level_type q\<rparr>) (\<lambda>producer.
     if producer = []
     then Inl (Thrown ProcessingFailed (''No data available for '' @ gn_loc_name (le_geo (fw_locations W)) loc))
     else Inr producer)"

text \<open>The parameters of a model by their names in lower case; the first description of a name counts.\<close>

definition get_model_parameters ::
    "('dt, 'p, 'loc, 'tz, 'lt, 'h, 'v, 'q) forecast_env \<Rightarrow> string \<Rightarrow> 'dt \<Rightarrow> (string \<times> int) list result" where
  "get_model_parameters W producer origin =
     rbind (fw_metadata W producer origin) (\<lambda>items.
     Inr (fold (\<lambda>(name, prec) m. or_default m (sm_emplace (fw_lc W name) prec m)) (concat items) []))"

definition param_precision ::
    "(string \<Rightarrow> string) \<Rightarrow> meteo_options \<Rightarrow> (string \<times> int) list \<Rightarrow> string \<Rightarrow> int" where
  "param_precision lc ms param_map name =
     (if have_meteo_param_options lc ms name
      then sint (ucast (mp_precision (get_meteo_parameter_options lc ms name)) :: 32 word)
      else or_default 6 (map_of param_map (lc name)))"

definition get_param_precisions ::
    "('dt, 'p, 'loc, 'tz, 'lt, 'h, 'v, 'q) forecast_env \<Rightarrow> string \<Rightarrow> 'dt \<Rightarrow> 'p list \<Rightarrow> (string \<times> int) list result" where
  "get_param_precisions W producer origin params =
     rbind (get_model_parameters W producer origin) (\<lambda>param_map.
     Inr (fold (\<lambda>p. let name = op_name (fw_params W) p in
                 sm_put name (param_precision (fw_lc W) (fw_meteo W) param_map name)) params []))"

definition set_model_area :: "'dt model_data \<Rightarrow> ('dt, 'p, 'loc, 'h) forecast_query \<Rightarrow> ('dt, 'p, 'loc, 'h) forecast_query" where
  "set_model_area d q = (case md_area d of
       None \<Rightarrow> q\<lparr>fq_have_area := False\<rparr>
     | Some corners \<Rightarrow> q\<lparr>fq_have_area := True, fq_area := corners\<rparr>)"

definition check_level_options :: "'dt model_data \<Rightarrow> ('dt, 'p, 'loc, 'h) forecast_query \<Rightarrow> unit result" where
  "check_level_options d q =
     (if fq_heights q \<noteq> [] \<and> \<not> md_hybrid d
      then Inl (Thrown ProcessingFailed ''Only hybrid data supports data fetching from an arbitrary height.'')
      else if fq_levels q \<noteq> [] \<and> fq_heights q \<noteq> []
      then Inl (Thrown ProcessingFailed
        (''Fetching data from a level and an arbitrary height is not '' @ ''supported in a same request.''))
      else Inr ())"

record ('p, 'loc) row_context =
  fz_precisions :: "(string \<times> int) list"
  fz_producer :: string
  fz_loc :: 'loc
  fz_country :: string
  fz_place :: string
  fz_zone :: string

definition row_value ::
    "('dt, 'p, 'loc, 'tz, 'lt, 'h, 'v, 'q) forecast_env \<Rightarrow> ('dt, 'p, 'loc, 'h) forecast_query \<Rightarrow> ('p, 'loc) row_context \<Rightarrow>
     'q \<Rightarrow> 'h row_slot \<Rightarrow> 'lt \<Rightarrow> 'p \<Rightarrow> point \<Rightarrow> (string \<times> point) result" where
  "row_value W q X data slot t p lastpoint =
     (case map_of (fz_precisions X) (op_name (fw_params W) p) of
        None \<Rightarrow> Inl (Thrown NoCode ''out of range'')
      | Some prec \<Rightarrow>
          rbind (fw_value W data \<lparr>vr_param = p, vr_producer = fz_producer X, vr_loc = fz_loc X,
             vr_country = fz_country X, vr_place = fz_place X, vr_time_string = '''', vr_language = fq_language q,
             vr_locale = fq_locale q, vr_zone = fz_zone X, vr_nearest = fq_nearest q,
             vr_km = fw_km W (fq_np_distance q)\<rparr> slot t lastpoint) (\<lambda>(v, lastpoint).
          Inr (fw_print W (fq_missing_text q) prec v, lastpoint)))"

definition set_row_values ::
    "('dt, 'p, 'loc, 'tz, 'lt, 'h, 'v, 'q) forecast_env \<Rightarrow> ('dt, 'p, 'loc, 'h) forecast_query \<Rightarrow> ('p, 'loc) row_context \<Rightarrow>
     'q \<Rightarrow> 'h row_slot \<Rightarrow> 'lt \<Rightarrow> point \<Rightarrow> (string list \<times> point) result" where
  "set_row_values W q X data slot t lastpoint =
     fold_result (\<lambda>p (cells, lastpoint).
         rbind (row_value W q X data slot t p lastpoint) (\<lambda>(cell, lastpoint). Inr (cells @ [cell], lastpoint)))
       (fq_params q) ([], lastpoint)"

text \<open>Without heights all levels of the data are taken, or those asked for.\<close>

definition row_slots :: "'h list \<Rightarrow> int list \<Rightarrow> int list \<Rightarrow> 'h row_slot list" where
  "row_slots heights levels data_levels =
     map At_height heights @
     (if heights = [] then map At_level (filter (\<lambda>i. levels = [] \<or> data_levels ! i \<in> set levels) [0..<length data_levels])
      else [])"

definition set_location_rows ::
    "('dt, 'p, 'loc, 'tz, 'lt, 'h, 'v, 'q) forecast_env \<Rightarrow> ('p, 'loc) row_context \<Rightarrow> 'q \<Rightarrow> 'lt list \<Rightarrow>
     ('dt, 'p, 'loc, 'h) forecast_query \<times> string list list \<Rightarrow>
     (('dt, 'p, 'loc, 'h) forecast_query \<times> string list list) result" where
  "set_location_rows W X data tlist s = (case s of (q, rows) \<Rightarrow>
     fold_result (\<lambda>(slot, t) (q, rows).
         rbind (set_row_values W q X data slot t (fq_lastpoint q)) (\<lambda>(cells, lastpoint).
         Inr (q\<lparr>fq_lastpoint := lastpoint\<rparr>, rows @ [cells])))
       (List.product (row_slots (fq_heights q) (fq_levels q) (md_levels (fw_data W data))) tlist) (q, rows))"

text \<open>
  The state of the loop: the query, the origin time all models must have, and the rows.  With a model
  of several files the origin time is shown but not kept for the places that follow.
\<close>

definition lock_origin ::
    "bool \<Rightarrow> 'dt \<Rightarrow> ('dt, 'p, 'loc, 'h) forecast_query \<times> 'dt option \<Rightarrow> ('dt, 'p, 'loc, 'h) forecast_query \<times> 'dt option" where
  "lock_origin multifile t s = (case s of (q, origin) \<Rightarrow>
     if fq_origin q = None then (q\<lparr>fq_origin := Some t\<rparr>, if multifile then origin else Some t) else s)"

definition extract_location ::
    "('dt, 'p, 'loc, 'tz, 'lt, 'h, 'v, 'q) forecast_env \<Rightarrow> string \<Rightarrow> 'loc located \<Rightarrow>
     ('dt, 'p, 'loc, 'h) forecast_query \<times> 'dt option \<times> string list list \<Rightarrow>
     (('dt, 'p, 'loc, 'h) forecast_query \<times> 'dt option \<times> string list list) result" where
  "extract_location W lang item s = (case (s, snd item) of
       (_, None) \<Rightarrow> Inl (Undefined ''null location'')
     | ((q, origin, rows), Some loc) \<Rightarrow>
         rbind (fw_country W (fw_iso2 W loc) lang) (\<lambda>country.
         rbind (select_producer W q loc) (\<lambda>producer.
         rbind (fw_get W producer origin) (\<lambda>data.
         let d = fw_data W data in
         case lock_origin (fw_multifile W producer) (md_origin d) (q\<lparr>fq_modified := Some (md_modified d)\<rparr>, origin) of
           (q, origin) \<Rightarrow>
         let q = (set_model_area d q)\<lparr>fq_producer := producer\<rparr> in
         rbind (tz_region (fw_tz W) ''UTC'') (\<lambda>tz.
         rbind (fw_generate W (fq_times q) data tz) (\<lambda>tlist.
         rbind (get_param_precisions W producer (md_origin d) (fq_params q)) (\<lambda>precisions.
         rbind (check_level_options d q) (\<lambda>_.
         rbind (set_location_rows W \<lparr>fz_precisions = precisions, fz_producer = producer, fz_loc = loc,
                  fz_country = country, fz_place = gn_loc_name (le_geo (fw_locations W)) loc, fz_zone = ''UTC''\<rparr>
                  data tlist (q, rows)) (\<lambda>(q, rows).
         Inr (q, origin, rows))))))))))"

definition extract_forecast ::
    "('dt, 'p, 'loc, 'tz, 'lt, 'h, 'v, 'q) forecast_env \<Rightarrow> ('dt, 'p, 'loc, 'h) forecast_query \<Rightarrow>
     (('dt, 'p, 'loc, 'h) forecast_query \<times> string list list) result" where
  "extract_forecast W q =
     rbind (fold_result (extract_location W (engOrFinToEnOrFi (fw_lc W) (fw_lc W (fq_language q)))) (fq_locations q)
              (q, fq_origin q, [])) (\<lambda>(q, _, rows). Inr (q, rows))"

section \<open>Groups\<close>

text \<open>The rows by geoid, the geoids, and the groups with their geoids.\<close>

definition table_cell :: "string list list \<Rightarrow> nat \<Rightarrow> nat \<Rightarrow> string result" where
  "table_cell rows k i =
     (if i < length rows \<and> k < length (rows ! i) then Inr (rows ! i ! k) else Inl (Undefined ''cell of the table''))"

definition rows_by_geoid :: "string list \<Rightarrow> (string, nat) mmap" where
  "rows_by_geoid geoids = fold (\<lambda>i. mm_insert (geoids ! i) i) [0..<length geoids] []"

definition geoid_groups :: "bool \<Rightarrow> string list \<Rightarrow> nat \<times> (nat, string) mmap" where
  "geoid_groups separate geoids =
     (let geo_id_set = fold sset_insert geoids [];
          (n, group_map) = fold (\<lambda>geo_id (n, m). (if separate then n + 1 else n, mm_insert n geo_id m)) geo_id_set (0, [])
      in (if \<not> separate \<and> geo_id_set \<noteq> [] then n + 1 else n, group_map))"

record forecast_station =
  fy_geoid :: string
  fy_name :: string
  fy_xy :: "string \<times> string"
  fy_elev :: "string option"
  fy_iso2 :: string
  fy_country :: string
  fy_localtz :: string
  fy_region :: "string option"

record forecast_row =
  fk_xy :: "string \<times> string"
  fk_elev :: "string option"
  fk_epoch :: int
  fk_epoch_text :: string
  fk_data :: "string list"

text \<open>The corners are upper left, upper right, lower left and lower right, X before Y.\<close>

record forecast_group =
  fg_feature_id :: string
  fg_group_id :: string
  fg_origin :: "string option"
  fg_modified :: "string option"
  fg_params :: "(string \<times> string) list"
  fg_corners :: "point \<times> point \<times> point \<times> point"
  fg_producer :: string
  fg_stations :: "forecast_station list"
  fg_rows :: "forecast_row list"
  fg_period :: "(int \<times> int) option"

record ('dt, 'p, 'loc, 'tz, 'h) forecast_context =
  fj_query :: "('dt, 'p, 'loc, 'h) forecast_query"
  fj_rows :: "string list list"
  fj_coord :: "(string, 'loc, 'tz) obs_ops"
  fj_height :: bool

text \<open>The columns as numbers go through \<open>Fmi::stod\<close>; the coordinates are latitude and longitude.\<close>

definition set_station_info ::
    "('dt, 'p, 'loc, 'tz, 'lt, 'h, 'v, 'q) forecast_env \<Rightarrow> ('dt, 'p, 'loc, 'tz, 'h) forecast_context \<Rightarrow> string \<Rightarrow> nat \<Rightarrow>
     (forecast_station \<times> 'tz) result" where
  "set_station_info W X geo_id i =
     (let cell = (\<lambda>k. table_cell (fj_rows X) k i) in
      rbind (cell ind_place) (\<lambda>name.
      rbind (cell ind_country_iso) (\<lambda>country_code.
      rbind (cell ind_country) (\<lambda>country.
      rbind (cell ind_region) (\<lambda>region.
      rbind (cell ind_localtz) (\<lambda>localtz.
      rbind (rbind (cell ind_lat) (fw_stod W)) (\<lambda>latitude.
      rbind (rbind (cell ind_lon) (fw_stod W)) (\<lambda>longitude.
      rbind (get_tz_for_site (fw_lc W) (fw_tz W) longitude latitude (fq_tz_name (fj_query X))) (\<lambda>tzp.
      rbind (get_2D_coord (fj_coord X) latitude longitude) (\<lambda>xy.
      rbind (if fj_height X then rbind (cell ind_elev) (\<lambda>e. Inr (Some e)) else Inr None) (\<lambda>elev.
      Inr (\<lparr>fy_geoid = geo_id, fy_name = name, fy_xy = xy, fy_elev = elev, fy_iso2 = country_code,
            fy_country = country, fy_localtz = localtz,
            fy_region = if country_code = ''FI'' \<or> name \<noteq> region then Some region else None\<rparr>, tzp))))))))))))"

definition set_row_data ::
    "('dt, 'p, 'loc, 'tz, 'lt, 'h, 'v, 'q) forecast_env \<Rightarrow> ('dt, 'p, 'loc, 'tz, 'h) forecast_context \<Rightarrow> 'tz \<Rightarrow> nat \<Rightarrow>
     forecast_row result" where
  "set_row_data W X tzp i =
     (let cell = (\<lambda>k. table_cell (fj_rows X) k i); q = fj_query X in
      rbind (cell ind_lat) (\<lambda>lat.
      rbind (cell ind_lon) (\<lambda>lon.
      rbind (set_2D_coord (fj_coord X) lat lon) (\<lambda>xy.
      rbind (if fj_height X then rbind (cell ind_level) (\<lambda>l. Inr (Some l)) else Inr None) (\<lambda>elev.
      rbind (rbind (cell ind_epoch) (fw_parse_iso W)) (\<lambda>epoch.
      rbind (map_result (\<lambda>k. rbind (cell k) remove_trailing_0) [fq_first q..<Suc (fq_last q)]) (\<lambda>data.
      Inr \<lparr>fk_xy = xy, fk_elev = elev, fk_epoch = epoch, fk_epoch_text = ob_local_time (fj_coord X) epoch tzp,
           fk_data = data\<rparr>)))))))"

text \<open>The interval begins as that from plus to minus infinity, which is \<open>None\<close> here.\<close>

definition widen :: "nat \<Rightarrow> int \<Rightarrow> (int \<times> int) option \<Rightarrow> (int \<times> int) option" where
  "widen i epoch period =
     (if i = 0 then Some (epoch, epoch)
      else case period of None \<Rightarrow> Some (epoch, epoch) | Some (b, e) \<Rightarrow> Some (min b epoch, max e epoch))"

definition add_group_row ::
    "('dt, 'p, 'loc, 'tz, 'lt, 'h, 'v, 'q) forecast_env \<Rightarrow> ('dt, 'p, 'loc, 'tz, 'h) forecast_context \<Rightarrow> 'tz \<Rightarrow> nat \<Rightarrow>
     forecast_group \<Rightarrow> forecast_group result" where
  "add_group_row W X tzp i g =
     rbind (set_row_data W X tzp i) (\<lambda>r.
     Inr (g\<lparr>fg_rows := fg_rows g @ [r], fg_period := widen i (fk_epoch r) (fg_period g)\<rparr>))"

definition add_group_site ::
    "('dt, 'p, 'loc, 'tz, 'lt, 'h, 'v, 'q) forecast_env \<Rightarrow> ('dt, 'p, 'loc, 'tz, 'h) forecast_context \<Rightarrow>
     (string, nat) mmap \<Rightarrow> string \<Rightarrow> forecast_group \<Rightarrow> forecast_group result" where
  "add_group_site W X result_map geo_id g = (case mm_values result_map geo_id of
       [] \<Rightarrow> Inr g
     | i # is \<Rightarrow>
         rbind (set_station_info W X geo_id i) (\<lambda>(st, tzp).
         fold_result (add_group_row W X tzp) (i # is) (g\<lparr>fg_stations := fg_stations g @ [st]\<rparr>)))"

definition set_group_data ::
    "('dt, 'p, 'loc, 'tz, 'lt, 'h, 'v, 'q) forecast_env \<Rightarrow> ('dt, 'p, 'loc, 'tz, 'h) forecast_context \<Rightarrow>
     (string, nat) mmap \<Rightarrow> string list \<Rightarrow> forecast_group \<Rightarrow> forecast_group result" where
  "set_group_data W X result_map sites = fold_result (add_group_site W X result_map) sites"

definition forecast_place_params :: "string list" where
  "forecast_place_params = [''places'', ''latlons'', ''geoids'', ''keyword'']"

definition forecast_feature :: "string list \<Rightarrow> 'dt feature_id \<Rightarrow> 'dt feature_id" where
  "forecast_feature geo_ids f = fold (\<lambda>g. add_param ''geoids'' (VString g)) geo_ids (fold erase_param forecast_place_params f)"

text \<open>What the group has of the query; the feature identifier is left as it is for the last parameter.\<close>

definition forecast_param_ids ::
    "('dt, 'p, 'loc, 'tz, 'lt, 'h, 'v, 'q) forecast_env \<Rightarrow> ('dt, 'p, 'loc, 'h) forecast_query \<Rightarrow> 'dt feature_id \<Rightarrow>
     ((string \<times> string) list \<times> 'dt feature_id) result" where
  "forecast_param_ids W q f =
     fold_result (\<lambda>i (ps, f).
         if length (fq_params q) \<le> i then Inl (Thrown NoCode ''out of range'')
         else let name = op_name (fw_params W) (fq_params q ! i);
                  f = add_param ''param'' (VString name) (erase_param ''param'' f)
              in rbind (make_id (fw_ids W) f) (\<lambda>pid. Inr (ps @ [(name, pid)], f)))
       [fq_first q..<Suc (fq_last q)] ([], f)"

definition set_forecast_group_info ::
    "('dt, 'p, 'loc, 'tz, 'lt, 'h, 'v, 'q) forecast_env \<Rightarrow> ('dt, 'p, 'loc, 'h) forecast_query \<Rightarrow> 'dt feature_id \<Rightarrow>
     string \<Rightarrow> string \<Rightarrow> forecast_group result" where
  "set_forecast_group_info W q f feature_id group_id =
     (let K = fw_clock W in
      rbind (forecast_param_ids W q f) (\<lambda>(ps, _).
      Inr \<lparr>fg_feature_id = feature_id, fg_group_id = group_id,
           fg_origin = map_option (\<lambda>t. ck_extended K t @ ''Z'') (fq_origin q),
           fg_modified = (case fq_modified q of
               Some t \<Rightarrow> if ck_invalid K t then None else Some (ck_extended K t @ ''Z'')
             | None \<Rightarrow> None),
           fg_params = ps, fg_corners = fq_area q, fg_producer = fq_producer q, fg_stations = [], fg_rows = [],
           fg_period = None\<rparr>))"

definition forecast_group_of ::
    "('dt, 'p, 'loc, 'tz, 'lt, 'h, 'v, 'q) forecast_env \<Rightarrow> ('dt, 'p, 'loc, 'tz, 'h) forecast_context \<Rightarrow> 32 word \<Rightarrow>
     'dt spine_value rpm \<Rightarrow> (nat, string) mmap \<Rightarrow> (string, nat) mmap \<Rightarrow> nat \<Rightarrow> forecast_group result" where
  "forecast_group_of W X sqid params group_map result_map group_id =
     (let sites = mm_values group_map group_id;
          f = forecast_feature sites \<lparr>fid_query = fw_query_id W, fid_params = get_map True params, fid_seq = sqid\<rparr>
      in rbind (make_id (fw_ids W) f) (\<lambda>feature_id.
         rbind (set_forecast_group_info W (fj_query X) f feature_id
                  (dec_int (sint sqid) @ ''-'' @ dec_nat (group_id + 1))) (\<lambda>g.
         set_group_data W X result_map sites g)))"

section \<open>The handler\<close>

record forecast_answer =
  fu_groups :: "forecast_group list"
  fu_num_groups :: nat
  fu_num_param :: nat
  fu_language :: string
  fu_srs :: "nat \<times> string"
  fu_epoch_srs :: "nat \<times> string"

definition forecast_query_of ::
    "('dt, 'p, 'loc, 'tz, 'lt, 'h::linorder, 'v, 'q) forecast_env \<Rightarrow> string \<Rightarrow> 'dt spine_value rpm \<Rightarrow>
     ('dt, 'p, 'loc, 'h) forecast_query result" where
  "forecast_query_of W lang params =
     (let lc = fw_lc W; C = fw_conv W; missing = fw_missing_point W in
      rbind (get_single lc (vc_string C) ''missingText'' params) (\<lambda>missing_text.
      rbind (get_single lc (vc_string C) ''locale'' params) (\<lambda>locale_name.
      if \<not> fw_has_locale W locale_name then Inl (Thrown ProcessingFailed ''Failed to set locale'')
      else rbind (get_single lc (vc_double C) ''maxDistance'' params) (\<lambda>max_distance.
      rbind (get_optional_default lc (vc_string C) ''keyword'' '''' params) (\<lambda>_.
      rbind (get_single lc (vc_int C) ''findNearestValid'' params) (\<lambda>nearest.
      rbind (get_tz_name lc C params) (\<lambda>tz_name.
      rbind (rpm_get lc (vc_string C) ''model'' 0 SIZE_MAX 0 params) (\<lambda>models.
      rbind (get_location_options lc C (fw_locations W) all_location_flags lang params) (\<lambda>locs.
      rbind (parse_level_heights lc C (fw_float W) params) (\<lambda>heights.
      rbind (parse_levels lc C params) (\<lambda>(level_type, levels).
      rbind (parse_params lc C (fw_params W) params) (\<lambda>(ps, fi, la).
      rbind (parse_times lc C (fw_tm W) params) (\<lambda>(times, origin).
      Inr \<lparr>fq_models = models, fq_levels = levels, fq_heights = heights, fq_level_type = level_type,
           fq_locations = locs, fq_params = ps, fq_max_distance = max_distance,
           fq_np_distance = if fw_positive W (fw_max_np W) then fw_max_np W else max_distance,
           fq_missing_text = missing_text, fq_language = lang, fq_locale = locale_name, fq_nearest = nearest \<noteq> 0,
           fq_tz_name = tz_name, fq_origin = origin, fq_modified = None, fq_times = times,
           fq_area = (missing, missing, missing, missing), fq_have_area = False, fq_producer = '''',
           fq_lastpoint = fw_new_point W, fq_first = fi, fq_last = la\<rparr>)))))))))))))"

definition forecast_groups ::
    "('dt, 'p, 'loc, 'tz, 'lt, 'h, 'v, 'q) forecast_env \<Rightarrow> ('dt, 'p, 'loc, 'tz, 'h) forecast_context \<Rightarrow> 32 word \<Rightarrow>
     'dt spine_value rpm \<Rightarrow> (nat \<times> forecast_group list) result" where
  "forecast_groups W X sqid params =
     rbind (map_result (table_cell (fj_rows X) ind_geoid) [0..<length (fj_rows X)]) (\<lambda>geoids.
     let result_map = rows_by_geoid geoids; (num_groups, group_map) = geoid_groups (fw_separate W) geoids
     in rbind (map_result (forecast_group_of W X sqid params group_map result_map) [0..<num_groups]) (\<lambda>gs.
        Inr (num_groups, gs)))"

text \<open>All exceptions get a layer with the code of a failed parsing.\<close>

definition parsing_layer :: "bool \<Rightarrow> 'a result \<Rightarrow> 'a result" where
  "parsing_layer outermost r = (case r of
       Inl (Thrown c m) \<Rightarrow> Inl (Thrown (if outermost \<or> c = NoCode then ParsingFailed else c) m) | _ \<Rightarrow> r)"

definition forecast_query_result ::
    "('dt, 'p, 'loc, 'tz, 'lt, 'h::linorder, 'v, 'q) forecast_env \<Rightarrow> string \<Rightarrow> 32 word \<Rightarrow> 'dt spine_value rpm \<Rightarrow>
     forecast_answer result" where
  "forecast_query_result W lang sqid params =
     parsing_layer (fw_outermost W)
      (rbind (forecast_query_of W lang params) (\<lambda>q.
       rbind (get_single (fw_lc W) (vc_string (fw_conv W)) ''crs'' params) (\<lambda>crs.
       rbind (fw_transformed W DATA_CRS_NAME crs) (\<lambda>B.
       let info = fw_crs W crs; show_height = or_default False (ci_show_height info) in
       rbind (extract_forecast W q) (\<lambda>(q, rows).
       rbind (forecast_groups W \<lparr>fj_query = q, fj_rows = rows, fj_coord = B, fj_height = show_height\<rparr> sqid params)
         (\<lambda>(num_groups, gs).
       Inr \<lparr>fu_groups = gs, fu_num_groups = num_groups, fu_num_param = fq_last q - fq_first q + 1, fu_language = lang,
            fu_srs = (if show_height then 3 else 2, or_default ''UNKNOWN'' (ci_proj_uri info)),
            fu_epoch_srs = (if show_height then 4 else 3, or_default ''UNKNOWN'' (ci_proj_epoch_uri info))\<rparr>))))))"

section \<open>The columns\<close>

lemma length_common_params: "length (common_params P) = 11"
  by (simp add: common_params_def)

lemma push_forecast_param_step:
  "push_forecast_param P name (ps, fi, la) = Inr s \<longleftrightarrow>
   (\<exists>x. op_make P name = Inr x \<and> s = (ps @ [x], if fi = 0 then length ps else fi, length ps))"
  by (auto simp: push_forecast_param_def result_simps)

lemma push_forecast_params:
  assumes "fold_result (push_forecast_param P) names (ps, fi, la) = Inr (ps', fi', la')"
    and "ps \<noteq> []" and "fi \<noteq> 0" and "length ps = Suc la"
  shows "\<exists>xs. ps' = ps @ xs \<and> list_all2 (\<lambda>n x. op_make P n = Inr x) names xs \<and> fi' = fi \<and> Suc la' = length ps'"
  using assms
proof (induction names arbitrary: ps fi la)
  case Nil
  then show ?case by simp
next
  case (Cons n ns)
  from Cons.prems obtain x where x: "op_make P n = Inr x"
    and run: "fold_result (push_forecast_param P) ns (ps @ [x], fi, length ps) = Inr (ps', fi', la')"
    by (auto simp: push_forecast_param_step result_simps)
  from Cons.IH [OF run] Cons.prems(3) obtain xs where "ps' = (ps @ [x]) @ xs"
      "list_all2 (\<lambda>n x. op_make P n = Inr x) ns xs" "fi' = fi" "Suc la' = length ps'" by auto
  with x show ?case by (intro exI [of _ "x # xs"]) simp
qed

text \<open>
  C39.  The columns of the table are the common parameters followed by those the request asks for, in its
  order, and the columns of the answer are exactly the latter: every row of a group has one value for each
  parameter of the request.
\<close>

theorem forecast_columns:
  assumes "parse_params lc C P params = Inr (ps, fi, la)"
    and "rpm_get lc (vc_string C) ''param'' 0 SIZE_MAX 0 params = Inr names" and "names \<noteq> []"
    and "fq_first (fj_query X) = fi" and "fq_last (fj_query X) = la" and "set_row_data W X tz i = Inr r"
  shows "\<exists>xs. ps = common_params P @ xs \<and> list_all2 (\<lambda>n x. op_make P n = Inr x) names xs \<and>
    list_all2 (\<lambda>k v. rbind (table_cell (fj_rows X) k i) remove_trailing_0 = Inr v)
      [length (common_params P)..<length ps] (fk_data r) \<and> length (fk_data r) = length names"
proof -
  obtain n ns where names: "names = n # ns" using assms(3) by (cases names) auto
  from assms(1,2) obtain x where x: "op_make P n = Inr x"
    and run: "fold_result (push_forecast_param P) ns (common_params P @ [x], 11, 11) = Inr (ps, fi, la)"
    by (auto simp: parse_params_def names push_forecast_param_step result_simps length_common_params)
  from push_forecast_params [OF run] obtain xs where xs: "ps = common_params P @ x # xs"
      "list_all2 (\<lambda>n x. op_make P n = Inr x) ns xs" "fi = 11" "Suc la = length ps"
    by (auto simp: length_common_params)
  have "map_result (\<lambda>k. rbind (table_cell (fj_rows X) k i) remove_trailing_0) [11..<length ps] = Inr (fk_data r)"
    using assms(4,5,6) xs(3,4) by (auto simp: set_row_data_def Let_def result_simps simp del: upt_Suc)
  then have "list_all2 (\<lambda>k v. rbind (table_cell (fj_rows X) k i) remove_trailing_0 = Inr v) [11..<length ps] (fk_data r)"
    and "length (fk_data r) = length ps - 11"
    by (auto simp: map_result_Inr_iff dest: list_all2_lengthD)
  with x xs(1,2) show ?thesis
    by (intro exI [of _ "x # xs"]) (auto simp: names length_common_params dest: list_all2_lengthD)
qed

section \<open>The rows\<close>

lemma set_row_values_length:
  assumes "set_row_values W q X data slot t lp = Inr (cells, lp')"
  shows "length cells = length (fq_params q)"
proof -
  have "length cells = length acc + length ps"
    if "fold_result (\<lambda>p (cells, lp). rbind (row_value W q X data slot t p lp) (\<lambda>(cell, lp). Inr (cells @ [cell], lp))) ps
          (acc, lp) = Inr (cells, lp')" for ps acc lp
    using that by (induction ps arbitrary: acc lp) (auto simp: result_simps)
  with assms show ?thesis by (fastforce simp: set_row_values_def)
qed

text \<open>What the loops over the rows of a place leave alone.\<close>

definition same_request :: "('dt, 'p, 'loc, 'h) forecast_query \<Rightarrow> ('dt, 'p, 'loc, 'h) forecast_query \<Rightarrow> bool" where
  "same_request q q' \<longleftrightarrow> fq_params q' = fq_params q \<and> fq_heights q' = fq_heights q \<and> fq_levels q' = fq_levels q \<and>
     fq_first q' = fq_first q \<and> fq_last q' = fq_last q \<and> fq_times q' = fq_times q"

lemma same_request_trans: "same_request p q \<Longrightarrow> same_request q r \<Longrightarrow> same_request p r"
  by (simp add: same_request_def)

lemma set_location_rows_block:
  assumes "set_location_rows W X data tlist (q, rows) = Inr (q', rows')"
  shows "\<exists>block. rows' = rows @ block \<and> same_request q q' \<and> (\<forall>r \<in> set block. length r = length (fq_params q)) \<and>
    length block = length (row_slots (fq_heights q) (fq_levels q) (md_levels (fw_data W data))) * length tlist"
proof -
  let ?step = "\<lambda>(slot, t) (q, rows). rbind (set_row_values W q X data slot t (fq_lastpoint q)) (\<lambda>(cells, lastpoint).
         Inr (q\<lparr>fq_lastpoint := lastpoint\<rparr>, rows @ [cells]))"
  have "\<exists>block. rows' = rows @ block \<and> same_request q q' \<and> (\<forall>r \<in> set block. length r = length (fq_params q)) \<and>
      length block = length xs"
    if "fold_result ?step xs (q, rows) = Inr (q', rows')" for xs q rows
    using that
  proof (induction xs arbitrary: q rows)
    case Nil
    then show ?case by (auto simp: same_request_def)
  next
    case (Cons st xs)
    from Cons.prems obtain cells lp where cells: "set_row_values W q X data (fst st) (snd st) (fq_lastpoint q) = Inr (cells, lp)"
      and run: "fold_result ?step xs (q\<lparr>fq_lastpoint := lp\<rparr>, rows @ [cells]) = Inr (q', rows')"
      by (auto simp: result_simps split: prod.splits)
    from Cons.IH [OF run] obtain block where "rows' = (rows @ [cells]) @ block" "same_request (q\<lparr>fq_lastpoint := lp\<rparr>) q'"
        "\<forall>r \<in> set block. length r = length (fq_params q)" "length block = length xs" by auto
    with set_row_values_length [OF cells] show ?case
      by (intro exI [of _ "cells # block"]) (auto simp: same_request_def)
  qed
  from this [of _ q rows] assms show ?thesis
    by (fastforce simp: set_location_rows_def length_product)
qed

text \<open>The rows of one place, made of a data set \<open>data\<close> and the times \<open>tlist\<close>.\<close>

definition location_block ::
    "('dt, 'p, 'loc, 'tz, 'lt, 'h, 'v, 'q) forecast_env \<Rightarrow> ('dt, 'p, 'loc, 'h) forecast_query \<Rightarrow> string list list \<Rightarrow> bool" where
  "location_block W q block \<longleftrightarrow> (\<exists>producer origin data tz tlist.
     fw_get W producer origin = Inr data \<and> producer \<noteq> [] \<and> fw_generate W (fq_times q) data tz = Inr tlist \<and>
     length block = length (row_slots (fq_heights q) (fq_levels q) (md_levels (fw_data W data))) * length tlist \<and>
     (\<forall>r \<in> set block. length r = length (fq_params q)) \<and>
     (fq_heights q \<noteq> [] \<longrightarrow> md_hybrid (fw_data W data) \<and> fq_levels q = []))"

lemma location_block_same: "same_request q q' \<Longrightarrow> location_block W q' b \<longleftrightarrow> location_block W q b"
  by (simp add: same_request_def location_block_def)

lemma lock_origin_same: "same_request q (fst (lock_origin m t (q, origin)))"
  by (auto simp: lock_origin_def same_request_def split: if_splits)

lemma model_area_same: "same_request q ((set_model_area d q)\<lparr>fq_producer := p\<rparr>)"
  by (auto simp: set_model_area_def same_request_def split: option.splits)

lemma extract_location_block:
  assumes "extract_location W lang item (q, origin, rows) = Inr (q', origin', rows')"
  shows "\<exists>block. rows' = rows @ block \<and> same_request q q' \<and> location_block W q block"
proof -
  from assms obtain loc where loc: "snd item = Some loc" by (auto simp: extract_location_def split: option.splits)
  from assms obtain producer data q1 tz tlist X where
    producer: "select_producer W q loc = Inr producer" and data: "fw_get W producer origin = Inr data"
    and q1: "q1 = fst (lock_origin (fw_multifile W producer) (md_origin (fw_data W data))
        (q\<lparr>fq_modified := Some (md_modified (fw_data W data))\<rparr>, origin))"
    and tlist: "fw_generate W (fq_times ((set_model_area (fw_data W data) q1)\<lparr>fq_producer := producer\<rparr>)) data tz = Inr tlist"
    and check: "check_level_options (fw_data W data) ((set_model_area (fw_data W data) q1)\<lparr>fq_producer := producer\<rparr>) = Inr ()"
    and run: "set_location_rows W X data tlist ((set_model_area (fw_data W data) q1)\<lparr>fq_producer := producer\<rparr>, rows) =
        Inr (q', rows')"
    by (auto simp: extract_location_def loc Let_def result_simps case_prod_unfold)
  let ?q2 = "(set_model_area (fw_data W data) q1)\<lparr>fq_producer := producer\<rparr>"
  have same: "same_request q ?q2"
  proof -
    have "same_request q (q\<lparr>fq_modified := Some (md_modified (fw_data W data))\<rparr>)" by (simp add: same_request_def)
    from same_request_trans [OF same_request_trans [OF this lock_origin_same] model_area_same] show ?thesis
      unfolding q1 .
  qed
  from set_location_rows_block [OF run] obtain block where block: "rows' = rows @ block" "same_request ?q2 q'"
      "\<forall>r \<in> set block. length r = length (fq_params ?q2)"
      "length block = length (row_slots (fq_heights ?q2) (fq_levels ?q2) (md_levels (fw_data W data))) * length tlist"
    by blast
  have "producer \<noteq> []" using producer by (auto simp: select_producer_def result_simps split: if_splits)
  moreover have "fq_heights ?q2 \<noteq> [] \<longrightarrow> md_hybrid (fw_data W data) \<and> fq_levels ?q2 = []"
    using check by (auto simp: check_level_options_def split: if_splits)
  ultimately have "location_block W ?q2 block" using block(3,4) data tlist unfolding location_block_def by blast
  then have "location_block W q block" by (simp only: location_block_same [OF same])
  with block(1) same_request_trans [OF same block(2)] show ?thesis by blast
qed


section \<open>The groups\<close>

text \<open>The rows of every geoid, in their order.\<close>

lemma rows_by_geoid_values: "mm_values (rows_by_geoid geoids) g = filter (\<lambda>i. geoids ! i = g) [0..<length geoids]"
proof -
  have "mm_sorted (fold (\<lambda>i. mm_insert (geoids ! i) i) is m) \<and>
      mm_values (fold (\<lambda>i. mm_insert (geoids ! i) i) is m) g = mm_values m g @ filter (\<lambda>i. geoids ! i = g) is"
    if "mm_sorted m" for "is" m
    using that by (induction "is" arbitrary: m) (auto simp: mm_simps)
  from this [of "[]" "[0..<length geoids]"] show ?thesis by (simp add: rows_by_geoid_def mm_sorted_Nil)
qed

lemma rows_by_geoid_some: "s \<in> set geoids \<Longrightarrow> mm_values (rows_by_geoid geoids) s \<noteq> []"
  by (auto simp: rows_by_geoid_values filter_empty_conv in_set_conv_nth)

lemma fold_sset: "sorted acc \<Longrightarrow> distinct acc \<Longrightarrow>
   sorted (fold sset_insert xs acc) \<and> distinct (fold sset_insert xs acc) \<and> set (fold sset_insert xs acc) = set acc \<union> set xs"
  by (induction xs arbitrary: acc) (auto simp: sorted_sset_insert distinct_sset_insert)

lemma separate_groups:
  assumes "\<forall>p \<in> set m. fst p < n"
  shows "fold (\<lambda>g (n, m). (n + 1, mm_insert n g m)) ids (n, m) = (n + length ids, m @ zip [n..<n + length ids] ids)"
  using assms
proof (induction ids arbitrary: n m)
  case Nil
  then show ?case by simp
next
  case (Cons g ids)
  have "mm_insert n g m = m @ [(n, g)]" using Cons.prems by (intro mm_insert_last) (auto intro: less_imp_le)
  moreover have "[n..<n + length (g # ids)] = n # [Suc n..<Suc n + length ids]" by (simp add: upt_conv_Cons del: upt_Suc)
  ultimately show ?case using Cons.IH [of "m @ [(n, g)]" "n + 1"] Cons.prems by (auto simp: less_Suc_eq)
qed

lemma one_group: "fold (\<lambda>g (n, m). (n, mm_insert n g m)) ids (n, map (\<lambda>g. (n, g)) acc) = (n, map (\<lambda>g. (n, g)) (acc @ ids))"
proof (induction ids arbitrary: acc)
  case Nil
  then show ?case by simp
next
  case (Cons g ids)
  have "mm_insert n g (map (\<lambda>g. (n, g)) acc) = map (\<lambda>g. (n, g)) (acc @ [g])"
    by (subst mm_insert_last) auto
  with Cons.IH [of "acc @ [g]"] show ?case by simp
qed

lemma mm_values_zip: "k < length xs \<Longrightarrow> mm_values (zip [0..<length xs] xs) k = [xs ! k]"
proof -
  assume k: "k < length xs"
  have "filter (\<lambda>p. fst p = k) (zip [m..<m + length ys] ys) = (if m \<le> k \<and> k < m + length ys then [(k, ys ! (k - m))] else [])"
    for m and ys :: "'a list"
  proof (induction ys arbitrary: m)
    case Nil
    then show ?case by simp
  next
    case (Cons y ys)
    have "[m..<m + length (y # ys)] = m # [Suc m..<Suc m + length ys]" by (simp add: upt_conv_Cons del: upt_Suc)
    with Cons.IH [of "Suc m"] show ?case by (auto simp: nth_Cons')
  qed
  from this [of 0 xs] k show ?thesis by (simp add: mm_values_def)
qed

text \<open>Every geoid is in one group; separate groups have one geoid each.\<close>

lemma geoid_groups_partition:
  assumes "geoid_groups separate geoids = (n, group_map)"
  shows "distinct (concat (map (mm_values group_map) [0..<n]))"
    and "set (concat (map (mm_values group_map) [0..<n])) = set geoids"
    and "separate \<Longrightarrow> k < n \<Longrightarrow> length (mm_values group_map k) = 1"
    and "\<not> separate \<Longrightarrow> n \<le> 1"
    and "k < n \<Longrightarrow> sorted (mm_values group_map k)"
    and "k < n \<Longrightarrow> mm_values group_map k \<noteq> []"
proof -
  define ids where "ids = fold sset_insert geoids []"
  have ids: "distinct ids" "set ids = set geoids" "sorted ids" using fold_sset [of "[]" geoids] by (simp_all add: ids_def)
  have groups: "map (mm_values group_map) [0..<n] = (if separate then map (\<lambda>g. [g]) ids else if ids = [] then [] else [ids])"
    and n: "n = (if separate then length ids else if ids = [] then 0 else 1)"
  proof (atomize(full), cases separate)
    case True
    then have m: "n = length ids" "group_map = zip [0..<length ids] ids"
      using assms separate_groups [of "[]" 0 ids] by (auto simp: geoid_groups_def Let_def ids_def)
    then have "map (mm_values group_map) [0..<n] = map (\<lambda>k. [ids ! k]) [0..<length ids]"
      by (intro map_cong) (simp_all add: mm_values_zip)
    also have "\<dots> = map (\<lambda>g. [g]) ids" by (intro nth_equalityI) simp_all
    finally show "map (mm_values group_map) [0..<n] = (if separate then map (\<lambda>g. [g]) ids else if ids = [] then [] else [ids]) \<and>
        n = (if separate then length ids else if ids = [] then 0 else 1)" using True m by simp
  next
    case False
    then have "n = (if ids = [] then 0 else 1)" "group_map = map (\<lambda>g. (0, g)) ids"
      using assms one_group [of ids "0 :: nat" "[]"] by (auto simp: geoid_groups_def Let_def ids_def split: if_splits)
    with False show "map (mm_values group_map) [0..<n] = (if separate then map (\<lambda>g. [g]) ids else if ids = [] then [] else [ids]) \<and>
        n = (if separate then length ids else if ids = [] then 0 else 1)"
      by (auto simp: mm_values_def filter_map comp_def)
  qed
  show "distinct (concat (map (mm_values group_map) [0..<n]))" "set (concat (map (mm_values group_map) [0..<n])) = set geoids"
    using ids by (auto simp: groups)
  show "length (mm_values group_map k) = 1" if separate "k < n"
    using arg_cong [OF groups, of "\<lambda>l. l ! k"] that n by simp
  show "\<not> separate \<Longrightarrow> n \<le> 1" by (simp add: n)
  show "sorted (mm_values group_map k)" "mm_values group_map k \<noteq> []" if "k < n"
  proof -
    from arg_cong [OF groups, of "\<lambda>l. l ! k"] that
    have "mm_values group_map k = (if separate then map (\<lambda>g. [g]) ids else if ids = [] then [] else [ids]) ! k" by simp
    with that ids(3) show "sorted (mm_values group_map k)" "mm_values group_map k \<noteq> []" by (auto simp: n split: if_splits)
  qed
qed

text \<open>What a group gets from its sites.\<close>

definition geoid_rows :: "(string, nat) mmap \<Rightarrow> string list \<Rightarrow> nat list" where
  "geoid_rows result_map sites = concat (map (mm_values result_map) sites)"

definition row_of ::
    "('dt, 'p, 'loc, 'tz, 'lt, 'h, 'v, 'q) forecast_env \<Rightarrow> ('dt, 'p, 'loc, 'tz, 'h) forecast_context \<Rightarrow> nat \<Rightarrow> forecast_row \<Rightarrow> bool" where
  "row_of W X i r \<longleftrightarrow> (\<exists>tz. set_row_data W X tz i = Inr r)"

lemma row_ofI: "set_row_data W X tz i = Inr r \<Longrightarrow> row_of W X i r"
  by (auto simp: row_of_def)

definition widen_all :: "nat list \<Rightarrow> forecast_row list \<Rightarrow> (int \<times> int) option \<Rightarrow> (int \<times> int) option" where
  "widen_all is rs = fold (\<lambda>(i, r). widen i (fk_epoch r)) (zip is rs)"

lemma add_group_row_step:
  "add_group_row W X tz i g = Inr s \<longleftrightarrow>
   (\<exists>r. set_row_data W X tz i = Inr r \<and> s = g\<lparr>fg_rows := fg_rows g @ [r], fg_period := widen i (fk_epoch r) (fg_period g)\<rparr>)"
  by (auto simp: add_group_row_def rbind_eq_Inr)

lemma add_group_rows:
  assumes "fold_result (add_group_row W X tz) is g = Inr g'"
  shows "\<exists>rs. fg_rows g' = fg_rows g @ rs \<and> list_all2 (row_of W X) is rs \<and>
    fg_period g' = widen_all is rs (fg_period g) \<and> fg_stations g' = fg_stations g"
  using assms
proof (induction "is" arbitrary: g)
  case Nil
  then show ?case by (simp add: widen_all_def)
next
  case (Cons i "is")
  from Cons.prems obtain r where r: "set_row_data W X tz i = Inr r"
    and run: "fold_result (add_group_row W X tz) is
      (g\<lparr>fg_rows := fg_rows g @ [r], fg_period := widen i (fk_epoch r) (fg_period g)\<rparr>) = Inr g'"
    by (auto simp: add_group_row_step rbind_eq_Inr)
  from Cons.IH [OF run] obtain rs where "fg_rows g' = (fg_rows g @ [r]) @ rs" "list_all2 (row_of W X) is rs"
      "fg_period g' = widen_all is rs (widen i (fk_epoch r) (fg_period g))" "fg_stations g' = fg_stations g" by auto
  with r show ?case by (intro exI [of _ "r # rs"]) (auto simp: widen_all_def intro: row_ofI)
qed

lemma add_group_site_rows:
  assumes "add_group_site W X rm geo_id g = Inr g'" and "mm_values rm geo_id \<noteq> []"
  shows "\<exists>rs. fg_rows g' = fg_rows g @ rs \<and> list_all2 (row_of W X) (mm_values rm geo_id) rs \<and>
    fg_period g' = widen_all (mm_values rm geo_id) rs (fg_period g) \<and>
    map fy_geoid (fg_stations g') = map fy_geoid (fg_stations g) @ [geo_id]"
proof -
  obtain i "is" where vals: "mm_values rm geo_id = i # is" using assms(2) by (cases "mm_values rm geo_id") auto
  with assms(1) obtain st tz where st: "set_station_info W X geo_id i = Inr (st, tz)"
    and run: "fold_result (add_group_row W X tz) (i # is) (g\<lparr>fg_stations := fg_stations g @ [st]\<rparr>) = Inr g'"
    by (auto simp: add_group_site_def rbind_eq_Inr)
  have "fy_geoid st = geo_id" using st by (auto simp: set_station_info_def Let_def rbind_eq_Inr)
  with add_group_rows [OF run] show ?thesis by (auto simp: vals)
qed

lemma set_group_data_rows:
  assumes "set_group_data W X rm sites g = Inr g'" and "\<forall>s \<in> set sites. mm_values rm s \<noteq> []"
  shows "\<exists>rs. fg_rows g' = fg_rows g @ rs \<and> list_all2 (row_of W X) (geoid_rows rm sites) rs \<and>
    fg_period g' = widen_all (geoid_rows rm sites) rs (fg_period g) \<and>
    map fy_geoid (fg_stations g') = map fy_geoid (fg_stations g) @ sites"
  using assms unfolding set_group_data_def
proof (induction sites arbitrary: g)
  case Nil
  then show ?case by (simp add: geoid_rows_def widen_all_def)
next
  case (Cons s sites)
  from Cons.prems obtain g1 where g1: "add_group_site W X rm s g = Inr g1"
    and run: "fold_result (add_group_site W X rm) sites g1 = Inr g'" by (auto simp: rbind_eq_Inr)
  from add_group_site_rows [OF g1] Cons.prems(2) obtain rs1 where rs1: "fg_rows g1 = fg_rows g @ rs1"
      "list_all2 (row_of W X) (mm_values rm s) rs1" "fg_period g1 = widen_all (mm_values rm s) rs1 (fg_period g)"
      "map fy_geoid (fg_stations g1) = map fy_geoid (fg_stations g) @ [s]" by auto
  from Cons.IH [OF run] Cons.prems(2) obtain rs where rs: "fg_rows g' = fg_rows g1 @ rs"
      "list_all2 (row_of W X) (geoid_rows rm sites) rs" "fg_period g' = widen_all (geoid_rows rm sites) rs (fg_period g1)"
      "map fy_geoid (fg_stations g') = map fy_geoid (fg_stations g1) @ sites" by auto
  have "widen_all (mm_values rm s @ geoid_rows rm sites) (rs1 @ rs) p =
      widen_all (geoid_rows rm sites) rs (widen_all (mm_values rm s) rs1 p)" for p
    using list_all2_lengthD [OF rs1(2)] by (simp add: widen_all_def)
  with rs1 rs show ?case
    by (intro exI [of _ "rs1 @ rs"]) (auto simp: geoid_rows_def intro: list_all2_appendI)
qed

lemma new_forecast_group:
  "set_forecast_group_info W q f fid gid = Inr g \<Longrightarrow> fg_rows g = [] \<and> fg_period g = None \<and> fg_stations g = []"
  by (auto simp: set_forecast_group_info_def Let_def rbind_eq_Inr)

lemma forecast_group_rows:
  assumes "forecast_group_of W X sqid params gm rm k = Inr g" and "\<forall>s \<in> set (mm_values gm k). mm_values rm s \<noteq> []"
  shows "list_all2 (row_of W X) (geoid_rows rm (mm_values gm k)) (fg_rows g) \<and>
    fg_period g = widen_all (geoid_rows rm (mm_values gm k)) (fg_rows g) None \<and>
    map fy_geoid (fg_stations g) = mm_values gm k"
proof -
  from assms(1) obtain g0 where g0: "fg_rows g0 = []" "fg_period g0 = None" "fg_stations g0 = []"
    and run: "set_group_data W X rm (mm_values gm k) g0 = Inr g"
    by (auto simp: forecast_group_of_def Let_def rbind_eq_Inr dest: new_forecast_group)
  from set_group_data_rows [OF run assms(2)] g0 show ?thesis by auto
qed

lemma concat_site_rows: "concat (map (\<lambda>k. geoid_rows rm (f k)) ks) = geoid_rows rm (concat (map f ks))"
  by (induction ks) (simp_all add: geoid_rows_def)

lemma mset_geoid_rows:
  assumes "distinct sites"
  shows "mset (geoid_rows (rows_by_geoid geoids) sites) = filter_mset (\<lambda>i. geoids ! i \<in> set sites) (mset [0..<length geoids])"
  using assms
proof (induction sites)
  case Nil
  then show ?case by (simp add: geoid_rows_def)
next
  case (Cons s sites)
  have "filter_mset (\<lambda>i. geoids ! i = s) M + filter_mset (\<lambda>i. geoids ! i \<in> set sites) M =
      filter_mset (\<lambda>i. geoids ! i \<in> set (s # sites)) M" for M
    using Cons.prems by (induction M) auto
  with Cons show ?case by (simp add: geoid_rows_def rows_by_geoid_values del: mset_upt)
qed

text \<open>
  C24.  The groups of the answer have every row of the table exactly once, under the station of the geoid
  of the row: the rows of a group are those of its stations in their order, no geoid has two stations,
  every geoid of the table has one.  When groups are separate, each of them has one station, otherwise
  there is at most one group.
\<close>

theorem forecast_rows_grouped:
  assumes "forecast_groups W X sqid params = Inr (n, gs)"
  shows "\<exists>geoids parts. map_result (table_cell (fj_rows X) ind_geoid) [0..<length (fj_rows X)] = Inr geoids \<and>
    list_all2 (\<lambda>is g. list_all2 (row_of W X) is (fg_rows g) \<and> is = geoid_rows (rows_by_geoid geoids) (map fy_geoid (fg_stations g)))
      parts gs \<and>
    mset (concat parts) = mset [0..<length (fj_rows X)] \<and>
    distinct (concat (map (map fy_geoid \<circ> fg_stations) gs)) \<and>
    set (concat (map (map fy_geoid \<circ> fg_stations) gs)) = set geoids \<and>
    (if fw_separate W then \<forall>g \<in> set gs. length (fg_stations g) = 1 else length gs \<le> 1)"
proof -
  from assms obtain geoids where geoids: "map_result (table_cell (fj_rows X) ind_geoid) [0..<length (fj_rows X)] = Inr geoids"
    and rest: "case geoid_groups (fw_separate W) geoids of (n', gm) \<Rightarrow>
      rbind (map_result (forecast_group_of W X sqid params gm (rows_by_geoid geoids)) [0..<n']) (\<lambda>gs. Inr (n', gs)) = Inr (n, gs)"
    by (auto simp: forecast_groups_def Let_def rbind_eq_Inr case_prod_unfold)
  obtain n' gm where gm': "geoid_groups (fw_separate W) geoids = (n', gm)" by force
  with rest have gm: "geoid_groups (fw_separate W) geoids = (n, gm)"
    and run: "map_result (forecast_group_of W X sqid params gm (rows_by_geoid geoids)) [0..<n] = Inr gs"
    by (auto simp: rbind_eq_Inr)
  note part = geoid_groups_partition [OF gm]
  let ?rm = "rows_by_geoid geoids"
  have sites: "set (mm_values gm k) \<subseteq> set geoids" if "k < n" for k using part(2) that by auto
  have group: "list_all2 (row_of W X) (geoid_rows ?rm (mm_values gm k)) (fg_rows g) \<and> map fy_geoid (fg_stations g) = mm_values gm k"
    if "k < n" "forecast_group_of W X sqid params gm ?rm k = Inr g" for k g
    using forecast_group_rows [OF that(2)] rows_by_geoid_some sites [OF that(1)] by (metis subsetD)
  have all: "list_all2 (\<lambda>k g. k < n \<and> forecast_group_of W X sqid params gm ?rm k = Inr g) [0..<n] gs"
    using run by (auto simp: map_result_Inr_iff list_all2_conv_all_nth)
  have names: "map (map fy_geoid \<circ> fg_stations) gs = map (mm_values gm) [0..<n]"
    using all group by (intro nth_equalityI) (auto simp: list_all2_conv_all_nth)
  let ?parts = "map (\<lambda>k. geoid_rows ?rm (mm_values gm k)) [0..<n]"
  have parts: "list_all2 (\<lambda>is g. list_all2 (row_of W X) is (fg_rows g) \<and> is = geoid_rows ?rm (map fy_geoid (fg_stations g))) ?parts gs"
    using all group by (auto simp: list_all2_conv_all_nth)
  have "concat ?parts = geoid_rows ?rm (concat (map (mm_values gm) [0..<n]))"
    by (simp add: concat_site_rows)
  then have "mset (concat ?parts) = filter_mset (\<lambda>i. geoids ! i \<in> set geoids) (mset [0..<length geoids])"
    using mset_geoid_rows [OF part(1), of geoids] by (simp only: part(2))
  also have "\<dots> = mset [0..<length geoids]" by (auto intro!: filter_mset_cong simp flip: filter_mset_True)
  also have "length geoids = length (fj_rows X)" using geoids map_result_length by fastforce
  finally have rows: "mset (concat ?parts) = mset [0..<length (fj_rows X)]" .
  have count: "if fw_separate W then \<forall>g \<in> set gs. length (fg_stations g) = 1 else length gs \<le> 1"
  proof (cases "fw_separate W")
    case True
    then have "\<forall>xs \<in> set (map (map fy_geoid \<circ> fg_stations) gs). length xs = 1" using part(3) by (auto simp: names)
    with True show ?thesis by simp
  next
    case False
    with part(4) list_all2_lengthD [OF all] show ?thesis by simp
  qed
  show ?thesis
    by (intro exI [of _ geoids] exI [of _ ?parts] conjI geoids parts rows count) (use names part(1,2) in simp_all)
qed

section \<open>The period of a group\<close>

lemma widen_run:
  assumes "0 \<notin> set is" and "length is = length rs"
  shows "widen_all is rs (Some (b, e)) = Some (Min (insert b (fk_epoch ` set rs)), Max (insert e (fk_epoch ` set rs)))"
  using assms
proof (induction "is" arbitrary: rs b e)
  case Nil
  then show ?case by (simp add: widen_all_def)
next
  case (Cons i "is")
  then obtain r rs' where rs: "rs = r # rs'" by (cases rs) auto
  have "Min (insert (min b x) S) = Min (insert b (insert x S))" "Max (insert (max e x) S) = Max (insert e (insert x S))"
    if "finite S" for x :: int and S
    using that by (cases "S = {}"; simp add: min.assoc max.assoc)+
  with Cons.IH [of rs' "min b (fk_epoch r)" "max e (fk_epoch r)"] Cons.prems show ?case
    by (simp add: rs widen_all_def widen_def)
qed

lemma widen_all_period:
  assumes "0 \<notin> set (tl is)" and "length is = length rs" and "is \<noteq> []"
  shows "widen_all is rs None = Some (Min (fk_epoch ` set rs), Max (fk_epoch ` set rs))"
proof -
  obtain i js r rs' where split: "is = i # js" "rs = r # rs'" using assms(2,3) by (cases "is"; cases rs) auto
  have "widen_all is rs None = widen_all js rs' (Some (fk_epoch r, fk_epoch r))"
    by (simp add: split widen_all_def widen_def)
  with widen_run [of js rs'] assms(1,2) show ?thesis by (simp add: split)
qed

lemma in_set_tl: "x \<in> set (tl xs) \<Longrightarrow> x \<in> set xs"
  by (cases xs) simp_all

lemma zero_only_first: "0 \<notin> set (tl (filter P [0..<n]))"
  by (cases n) (auto simp: upt_conv_Cons simp del: upt_Suc dest: in_set_tl)

lemma zero_first_site:
  assumes "sorted sites" "distinct sites" "\<forall>s \<in> set sites. geoids ! 0 \<le> s" "geoids \<noteq> []"
  shows "0 \<notin> set (tl (geoid_rows (rows_by_geoid geoids) sites))"
proof (cases sites)
  case Nil
  then show ?thesis by (simp add: geoid_rows_def)
next
  case (Cons s ss)
  have "0 \<notin> set (geoid_rows (rows_by_geoid geoids) ss)"
    using assms(1-3) by (fastforce simp: geoid_rows_def rows_by_geoid_values Cons)
  then show ?thesis
    using zero_only_first [of "\<lambda>i. geoids ! i = s" "length geoids"]
    by (cases "filter (\<lambda>i. geoids ! i = s) [0..<length geoids]")
      (auto simp: geoid_rows_def rows_by_geoid_values Cons dest: in_set_tl)
qed

text \<open>
  C37.  The period a group shows is that of its rows, from the least to the greatest of their times, if
  groups are separate, and otherwise if no place has a smaller geoid than that of the first row of the
  table.
\<close>

theorem forecast_period_covers:
  assumes "forecast_groups W X sqid params = Inr (n, gs)" and "g \<in> set gs"
    and "fw_separate W \<or> (\<forall>r \<in> set (fj_rows X). fj_rows X ! 0 ! ind_geoid \<le> r ! ind_geoid)"
  shows "fg_rows g \<noteq> [] \<and> fg_period g = Some (Min (fk_epoch ` set (fg_rows g)), Max (fk_epoch ` set (fg_rows g)))"
proof -
  from assms(1) obtain geoids where geoids: "map_result (table_cell (fj_rows X) ind_geoid) [0..<length (fj_rows X)] = Inr geoids"
    and rest: "case geoid_groups (fw_separate W) geoids of (n', gm) \<Rightarrow>
      rbind (map_result (forecast_group_of W X sqid params gm (rows_by_geoid geoids)) [0..<n']) (\<lambda>gs. Inr (n', gs)) = Inr (n, gs)"
    by (auto simp: forecast_groups_def Let_def rbind_eq_Inr case_prod_unfold)
  obtain n' gm where gm': "geoid_groups (fw_separate W) geoids = (n', gm)" by force
  with rest have gm: "geoid_groups (fw_separate W) geoids = (n, gm)"
    and run: "map_result (forecast_group_of W X sqid params gm (rows_by_geoid geoids)) [0..<n] = Inr gs"
    by (auto simp: rbind_eq_Inr)
  note part = geoid_groups_partition [OF gm]
  let ?rm = "rows_by_geoid geoids"
  from run assms(2) obtain k where k: "k < n" and g: "forecast_group_of W X sqid params gm ?rm k = Inr g"
    by (fastforce simp: map_result_Inr_iff list_all2_conv_all_nth in_set_conv_nth)
  let ?sites = "mm_values gm k" and ?is = "geoid_rows ?rm (mm_values gm k)"
  have sites: "set ?sites \<subseteq> set geoids" using part(2) k by auto
  have distinct: "distinct ?sites" using part(1) k by (auto simp: distinct_concat_iff)
  have some: "\<forall>s \<in> set ?sites. mm_values ?rm s \<noteq> []"
    using sites rows_by_geoid_some by auto
  note rows = forecast_group_rows [OF g some]
  have geoid: "i < length geoids \<Longrightarrow> geoids ! i = fj_rows X ! i ! ind_geoid \<and> i < length (fj_rows X)" for i
    using geoids by (auto simp: map_result_Inr_iff list_all2_conv_all_nth table_cell_def split: if_splits)
  have ne: "?is \<noteq> []" using part(6) [OF k] some by (cases ?sites) (auto simp: geoid_rows_def)
  have "0 \<notin> set (tl ?is)"
  proof (cases "fw_separate W")
    case True
    with part(3) [OF True k] obtain s where "?sites = [s]" by (auto simp: length_Suc_conv)
    then show ?thesis using zero_only_first by (simp add: geoid_rows_def rows_by_geoid_values)
  next
    case False
    have "\<forall>s \<in> set geoids. geoids ! 0 \<le> s"
    proof
      fix s assume "s \<in> set geoids"
      then obtain i where "i < length geoids" "s = geoids ! i" "geoids \<noteq> []" by (force simp: in_set_conv_nth)
      with False assms(3) geoid [of i] geoid [of 0] show "geoids ! 0 \<le> s" by auto
    qed
    moreover have "geoids \<noteq> []" using sites part(6) [OF k] by auto
    ultimately show ?thesis using zero_first_site [OF part(5) [OF k] distinct] sites by auto
  qed
  moreover have "length ?is = length (fg_rows g)" using rows by (auto dest: list_all2_lengthD)
  ultimately show ?thesis using widen_all_period [of ?is "fg_rows g"] rows ne by auto
qed

section \<open>A request for two places\<close>

text \<open>
  Every model has two levels and gives ten times the number of the place; the times of the rows are read
  from their columns.
\<close>

definition demo_row :: "string \<Rightarrow> string \<Rightarrow> string \<Rightarrow> string list" where
  "demo_row geoid t v = geoid # t # replicate 9 ''x'' @ [v]"

definition demo_coord :: "(string, nat, unit) obs_ops" where
  "demo_coord = demo_obs_ops"

definition demo_model_data :: "nat model_data" where
  "demo_model_data = \<lparr>md_modified = 1, md_origin = 0, md_area = None, md_hybrid = True, md_levels = [850, 500]\<rparr>"

definition demo_forecast_ids :: "nat id_ops" where
  "demo_forecast_ids =
     \<lparr>io_dt = \<lparr>dt_special = \<lambda>_. False, dt_is_nat = \<lambda>_. False, dt_is_neg = \<lambda>_. False, dt_is_pos = \<lambda>_. False,
        dt_year = \<lambda>_. 0, dt_month = \<lambda>_. 0, dt_day = \<lambda>_. 0, dt_secs = \<lambda>_. 0, dt_make = \<lambda>_ _ _ _. None,
        dt_NAT = 0, dt_NEG = 0, dt_POS = 0\<rparr>,
      io_sha = \<lambda>_. [], io_encode = \<lambda>_. ''id'', io_decode = \<lambda>_. []\<rparr>"

definition demo_forecast :: "bool \<Rightarrow> (nat, string \<times> 16 word, nat, unit, nat, nat, string, unit) forecast_env" where
  "demo_forecast separate =
     \<lparr>fw_lc = ascii_lower, fw_conv = demo_place_conv, fw_ids = demo_forecast_ids,
      fw_clock = \<lparr>ck_invalid = \<lambda>_. False, ck_le = (\<le>), ck_less = (<), ck_neg_inf = 0, ck_pos_inf = 9,
        ck_extended = \<lambda>_. ''2025-01-01T00:00:00'', ck_iso = \<lambda>_. ''20250101T000000''\<rparr>,
      fw_params = demo_params, fw_tm = undefined, fw_locations = demo_env,
      fw_loc = \<lparr>lo_longitude = \<lambda>_. 0, lo_latitude = \<lambda>_. 0, lo_fmisid = \<lambda>_. None, lo_area = \<lambda>_. ''Uusimaa''\<rparr>,
      fw_iso2 = \<lambda>_. ''FI'', fw_country = \<lambda>_ _. Inr ''Suomi'', fw_float = unat, fw_positive = \<lambda>_. False, fw_km = \<lambda>d. d,
      fw_has_locale = \<lambda>_. True, fw_find = \<lambda>_. Inr ''hirlam'', fw_get = \<lambda>_ _. Inr (), fw_data = \<lambda>_. demo_model_data,
      fw_multifile = \<lambda>_. False, fw_metadata = \<lambda>_ _. Inr [], fw_tz = \<lparr>tz_at = \<lambda>_ _. Inr (), tz_region = \<lambda>_. Inr ()\<rparr>,
      fw_generate = \<lambda>_ _ _. Inr [0, 3],
      fw_value = \<lambda>_ r slot t lp. Inr (dec_nat (10 * vr_loc r + t), lp), fw_print = \<lambda>_ _ v. v, fw_meteo = demo_meteo 1,
      fw_crs = \<lambda>_. \<lparr>ci_show_height = None, ci_proj_uri = None, ci_proj_epoch_uri = None\<rparr>,
      fw_transformed = \<lambda>_ _. Inr demo_coord, fw_stod = \<lambda>_. Inr 0, fw_parse_iso = \<lambda>s. Inr (int (length s)),
      fw_missing_point = (0, 0), fw_new_point = (0, 0), fw_max_np = 0, fw_separate = separate, fw_query_id = ''q'',
      fw_outermost = True\<rparr>"

definition demo_forecast_query :: "(nat, string \<times> 16 word, nat, nat) forecast_query" where
  "demo_forecast_query =
     \<lparr>fq_models = [], fq_levels = [500], fq_heights = [], fq_level_type = ''pressure'',
      fq_locations = [(''a'', Some 7), (''b'', Some 8)], fq_params = common_params demo_params @ [(''t2m'', 0)],
      fq_max_distance = 0, fq_np_distance = 0, fq_missing_text = ''NaN'', fq_language = ''eng'', fq_locale = ''C'',
      fq_nearest = False, fq_tz_name = ''UTC'', fq_origin = None, fq_modified = None,
      fq_times = \<lparr>to_mode = TimeSteps, to_times = [], to_step = None, to_steps = None, to_start = 0, to_end = 3,
        to_start_utc = True, to_end_utc = True\<rparr>,
      fq_area = ((0, 0), (0, 0), (0, 0), (0, 0)), fq_have_area = False, fq_producer = '''', fq_lastpoint = (0, 0),
      fq_first = 11, fq_last = 11\<rparr>"

definition demo_forecast_context :: "string list list \<Rightarrow> (nat, string \<times> 16 word, nat, unit, nat) forecast_context" where
  "demo_forecast_context rows =
     \<lparr>fj_query = demo_forecast_query, fj_rows = rows, fj_coord = demo_coord, fj_height = False\<rparr>"

lemma demo_extracted:
  "rbind (extract_forecast (demo_forecast True) demo_forecast_query) (\<lambda>(q, rows). Inr (fq_origin q, map (\<lambda>r. r ! 11) rows)) =
     Inr (Some 0, [''70'', ''73'', ''80'', ''83''])"
  by code_simp


lemma demo_identifier: "fid_ok (io_dt demo_forecast_ids) f \<Longrightarrow> make_id demo_forecast_ids f = Inr (fid_prefix @ ''id'')"
  by (erule put_feature_new) (simp add: make_id_def get_id_def demo_forecast_ids_def url_char_def)

definition demo_table :: "string list list" where
  "demo_table = [demo_row ''2'' ''tt'' ''1.50'', demo_row ''1'' ''t'' ''2.0'', demo_row ''2'' ''ttt'' ''3'']"

definition demo_empty_group :: "string \<Rightarrow> forecast_group" where
  "demo_empty_group group_id =
     \<lparr>fg_feature_id = fid_prefix @ ''id'', fg_group_id = group_id, fg_origin = None, fg_modified = None,
      fg_params = [(''t2m'', fid_prefix @ ''id'')], fg_corners = ((0, 0), (0, 0), (0, 0), (0, 0)), fg_producer = [],
      fg_stations = [], fg_rows = [], fg_period = None\<rparr>"

lemma demo_site_ids:
  assumes "sites \<in> {[''1''], [''2''], [''1'', ''2'']}"
  defines "f \<equiv> forecast_feature sites \<lparr>fid_query = ''q'', fid_params = [], fid_seq = 1\<rparr>"
  shows "fid_ok (io_dt demo_forecast_ids) f"
    and "fid_ok (io_dt demo_forecast_ids) (add_param ''param'' (VString ''t2m'') (erase_param ''param'' f))"
  using assms
  by (auto simp: fid_ok_def forecast_feature_def forecast_place_params_def add_param_def erase_param_def mm_erase_def
      value_map_ok_def mm_sorted_def value_ok_def less_list_code less_char_def)

lemma demo_group_of:
  assumes "mm_values gm k = sites" "sites \<in> {[''1''], [''2''], [''1'', ''2'']}"
  shows "forecast_group_of (demo_forecast sep) (demo_forecast_context demo_table) 1
      \<lparr>rpm_params = [], rpm_case_sensitive = True\<rparr> gm rm k =
    set_group_data (demo_forecast sep) (demo_forecast_context demo_table) rm sites
      (demo_empty_group (dec_int 1 @ ''-'' @ dec_nat (k + 1)))"
proof -
  have env: "fw_ids (demo_forecast sep) = demo_forecast_ids" "fw_query_id (demo_forecast sep) = ''q''"
    "fw_params (demo_forecast sep) = demo_params" "fj_query (demo_forecast_context demo_table) = demo_forecast_query"
    by (simp_all add: demo_forecast_def demo_forecast_context_def)
  have q: "fq_first demo_forecast_query = 11" "fq_last demo_forecast_query = 11" "length (fq_params demo_forecast_query) = 12"
    "op_name demo_params (fq_params demo_forecast_query ! 11) = ''t2m''" "fq_origin demo_forecast_query = None"
    "fq_modified demo_forecast_query = None" "fq_area demo_forecast_query = ((0, 0), (0, 0), (0, 0), (0, 0))"
    "fq_producer demo_forecast_query = []"
    by (simp_all add: demo_forecast_query_def common_params_def demo_params_def)
  have map: "get_map True \<lparr>rpm_params = [], rpm_case_sensitive = True\<rparr> = ([] :: (string, nat spine_value) mmap)"
    by (simp add: get_map_def)
  note ids = demo_site_ids [OF assms(2), THEN demo_identifier]
  show ?thesis
    by (simp add: forecast_group_of_def assms(1) env map ids q set_forecast_group_info_def forecast_param_ids_def
        Let_def demo_empty_group_def)
qed

lemma demo_filled:
  "(case set_group_data (demo_forecast sep) (demo_forecast_context demo_table) (rows_by_geoid [''2'', ''1'', ''2''])
      [''1'', ''2''] (demo_empty_group s) of
      Inr g \<Rightarrow> map fk_data (fg_rows g) = [[''2.0''], [''1.5''], [''3'']] \<and> fg_period g = Some (2, 3) | _ \<Rightarrow> False)"
  "(case set_group_data (demo_forecast sep) (demo_forecast_context demo_table) (rows_by_geoid [''2'', ''1'', ''2''])
      [''2''] (demo_empty_group s) of
      Inr g \<Rightarrow> map fk_data (fg_rows g) = [[''1.5''], [''3'']] \<and> fg_period g = Some (2, 3) | _ \<Rightarrow> False)"
  "(case set_group_data (demo_forecast sep) (demo_forecast_context demo_table) (rows_by_geoid [''2'', ''1'', ''2''])
      [''1''] (demo_empty_group s) of
      Inr g \<Rightarrow> map fk_data (fg_rows g) = [[''2.0'']] \<and> fg_period g = Some (1, 1) | _ \<Rightarrow> False)"
  by code_simp+

definition demo_groups :: "bool \<Rightarrow> (nat \<times> forecast_group list) result" where
  "demo_groups separate = forecast_groups (demo_forecast separate) (demo_forecast_context demo_table) 1
     \<lparr>rpm_params = [], rpm_case_sensitive = True\<rparr>"

lemma demo_geoids:
  "map_result (table_cell demo_table ind_geoid) [0..<length demo_table] = Inr [''2'', ''1'', ''2'']"
  "geoid_groups True [''2'', ''1'', ''2''] = (2, [(0, ''1''), (1, ''2'')])"
  "geoid_groups False [''2'', ''1'', ''2''] = (1, [(0, ''1''), (0, ''2'')])"
  by code_simp+

lemma case_result: "(case r of Inr g \<Rightarrow> P g | Inl _ \<Rightarrow> False) \<Longrightarrow> \<exists>g. r = Inr g \<and> P g"
  by (auto split: sum.splits)

lemma demo_together:
  "\<exists>g. demo_groups False = Inr (1, [g]) \<and> map fk_data (fg_rows g) = [[''2.0''], [''1.5''], [''3'']] \<and> fg_period g = Some (2, 3)"
proof -
  have "fw_separate (demo_forecast False) = False" "fj_rows (demo_forecast_context demo_table) = demo_table"
    by (simp_all add: demo_forecast_def demo_forecast_context_def)
  moreover have "mm_values [(0 :: nat, ''1''), (0, ''2'')] 0 = [''1'', ''2'']" by (simp add: mm_values_def)
  ultimately show ?thesis
    using case_result [OF demo_filled(1) [of False "dec_int 1 @ ''-'' @ dec_nat (0 + 1)"]]
    by (auto simp: demo_groups_def forecast_groups_def demo_geoids demo_group_of)
qed

lemma demo_separate:
  "\<exists>g h. demo_groups True = Inr (2, [g, h]) \<and> map fk_data (fg_rows g) = [[''2.0'']] \<and> fg_period g = Some (1, 1) \<and>
     map fk_data (fg_rows h) = [[''1.5''], [''3'']] \<and> fg_period h = Some (2, 3)"
proof -
  have "fw_separate (demo_forecast True) = True" "fj_rows (demo_forecast_context demo_table) = demo_table"
    by (simp_all add: demo_forecast_def demo_forecast_context_def)
  moreover have "mm_values [(0 :: nat, ''1''), (1, ''2'')] 0 = [''1'']" "mm_values [(0 :: nat, ''1''), (1, ''2'')] 1 = [''2'']"
    by (simp_all add: mm_values_def)
  moreover have "[0..<2] = [0, 1 :: nat]" by (simp add: upt_rec)
  ultimately show ?thesis
    using case_result [OF demo_filled(3) [of True "dec_int 1 @ ''-'' @ dec_nat (0 + 1)"]]
      case_result [OF demo_filled(2) [of True "dec_int 1 @ ''-'' @ dec_nat (1 + 1)"]]
    by (auto simp: demo_groups_def forecast_groups_def demo_geoids demo_group_of)
qed

lemma forecast_rows_grouped_witness:
  "\<exists>(gs :: forecast_group list) parts. length gs = 2 \<and> mset (concat parts) = mset [0..<3] \<and>
     list_all2 (\<lambda>is g. list_all2 (row_of (demo_forecast True) (demo_forecast_context demo_table)) is (fg_rows g)) parts gs"
proof -
  obtain g h where run: "demo_groups True = Inr (2, [g, h])" using demo_separate by blast
  have "length (fj_rows (demo_forecast_context demo_table)) = 3"
    by (simp add: demo_forecast_context_def demo_table_def)
  moreover from forecast_rows_grouped [OF run [unfolded demo_groups_def]] obtain geoids parts where
    "mset (concat parts) = mset [0..<length (fj_rows (demo_forecast_context demo_table))]"
    "list_all2 (\<lambda>is g. list_all2 (row_of (demo_forecast True) (demo_forecast_context demo_table)) is (fg_rows g) \<and>
       is = geoid_rows (rows_by_geoid geoids) (map fy_geoid (fg_stations g))) parts [g, h]"
    by (elim exE conjE) (erule (1) that)
  ultimately show ?thesis
    by (intro exI [of _ "[g, h]"] exI [of _ parts]) (auto elim: list_all2_mono simp del: mset_upt)
qed

lemma forecast_period_covers_witness:
  "\<exists>g :: forecast_group. fg_rows g \<noteq> [] \<and> Min (fk_epoch ` set (fg_rows g)) = 2 \<and> Max (fk_epoch ` set (fg_rows g)) = 3"
proof -
  obtain g h where run: "demo_groups True = Inr (2, [g, h])" and h: "fg_period h = Some (2, 3)" using demo_separate by blast
  have "fw_separate (demo_forecast True)" by (simp add: demo_forecast_def)
  with forecast_period_covers [OF run [unfolded demo_groups_def], of h] h show ?thesis by auto
qed

text \<open>One group whose first row in the table is not its first row: the time of another place is lost.\<close>

lemma period_forgets_place: "\<exists>g. demo_groups False = Inr (1, [g]) \<and> fg_period g \<noteq> Some (Min {1, 2, 3}, Max {1, 2, 3})"
  using demo_together by auto

section \<open>Columns, levels and origin times\<close>

definition demo_forecast_params :: "nat spine_value rpm" where
  "demo_forecast_params = \<lparr>rpm_params = [demo_entry ''param'' (VString ''t2m'')], rpm_case_sensitive = True\<rparr>"

lemma demo_forecast_values: "rpm_get ascii_lower (vc_string demo_place_conv) ''param'' 0 SIZE_MAX 0 demo_forecast_params = Inr [''t2m'']"
  by (simp add: rpm_get_def get_values_def demo_forecast_params_def demo_entry_def mm_values_def rpm_key_def
      demo_place_conv_def SIZE_MAX_def)

lemma demo_row_data:
  "(case set_row_data (demo_forecast True) (demo_forecast_context demo_table) () 0 of
      Inr r \<Rightarrow> fk_data r = [''1.5''] | _ \<Rightarrow> False)"
  by code_simp

lemma forecast_columns_witness:
  "\<exists>xs. parse_params ascii_lower demo_place_conv demo_params demo_forecast_params = Inr (common_params demo_params @ xs, 11, 11) \<and>
     length xs = length [''1.5'']"
proof -
  obtain r where r: "set_row_data (demo_forecast True) (demo_forecast_context demo_table) () 0 = Inr r" "fk_data r = [''1.5'']"
    using case_result [OF demo_row_data] by blast
  have parsed: "parse_params ascii_lower demo_place_conv demo_params demo_forecast_params =
      Inr (common_params demo_params @ [(''t2m'', 0)], 11, 11)"
    by (simp add: parse_params_def demo_forecast_values push_forecast_param_def length_common_params demo_params_def)
  have "fq_first (fj_query (demo_forecast_context demo_table)) = 11" "fq_last (fj_query (demo_forecast_context demo_table)) = 11"
    by (simp_all add: demo_forecast_context_def demo_forecast_query_def)
  with forecast_columns [OF parsed demo_forecast_values _ _ _ r(1)] parsed r(2) show ?thesis
    by (auto dest: list_all2_lengthD)
qed

lemma insert_new_iff: "insert_new msg x xs = Inr s \<longleftrightarrow> x \<notin> set xs \<and> s = sset_insert x xs"
  by (auto simp: insert_new_def)

lemma insert_new_set:
  assumes "fold_result (\<lambda>x. insert_new msg (f x)) xs acc = Inr s" "sorted acc" "distinct acc"
  shows "sorted s \<and> distinct s \<and> set s = set acc \<union> f ` set xs \<and> length s = length acc + length xs"
  using assms
proof (induction xs arbitrary: acc)
  case Nil
  then show ?case by simp
next
  case (Cons x xs)
  from Cons.prems(1) have x: "f x \<notin> set acc" "fold_result (\<lambda>x. insert_new msg (f x)) xs (sset_insert (f x) acc) = Inr s"
    by (auto simp: rbind_eq_Inr insert_new_iff)
  have "length (sset_insert (f x) acc) = Suc (length acc)" using x(1) by (simp add: sset_insert_def)
  with Cons.IH [OF x(2) sorted_sset_insert [OF Cons.prems(2)] distinct_sset_insert [OF Cons.prems(3)]] show ?case by auto
qed

text \<open>The heights are a sorted set of all that were asked for; two that are equal in single precision are refused.\<close>

lemma level_heights_set:
  assumes "parse_level_heights lc C to_float params = Inr hs"
    and "rpm_get lc (vc_double C) ''levelHeights'' 0 SIZE_MAX 0 params = Inr ds"
  shows "sorted hs \<and> distinct hs \<and> set hs = to_float ` set ds \<and> length hs = length ds"
  using assms insert_new_set [of _ to_float ds "[]" hs] by (simp add: parse_level_heights_def)

text \<open>Once an origin time is kept, all data sets that follow are asked for by it.\<close>

lemma set_location_rows_origin:
  assumes "set_location_rows W X data tlist (q1, rs) = Inr s"
  shows "fq_origin (fst s) = fq_origin q1"
  using assms unfolding set_location_rows_def prod.case
  by (rule fold_result_invariant) (auto simp: rbind_eq_Inr split: prod.splits)

lemma origin_kept:
  assumes "extract_location W lang item (q, Some t, rows) = Inr (q', origin', rows')" and "fq_origin q = Some t"
  shows "origin' = Some t \<and> fq_origin q' = Some t \<and> (\<exists>producer data. fw_get W producer (Some t) = Inr data)"
proof -
  show ?thesis
    using assms by (auto simp: extract_location_def Let_def rbind_eq_Inr lock_origin_def set_model_area_def
        split: option.splits dest!: set_location_rows_origin) blast+
qed

end
