(* ===== verification/GridForecast.thy ===== *)
theory GridForecast
  imports ForecastHandler QEDownload "HOL-Library.AList"
begin

text \<open>
  \<open>wfs/stored_queries/StoredGridForecastQueryHandler.cpp\<close> with \<open>wfs/RequiresGridEngine.cpp\<close>: forecasts at
  places from the grid engine.  What the engine returns for a place is written into a table from which
  the groups of the answer are made as in \<open>StoredForecastQueryHandler\<close>.  The engine, its content server
  and the values of special parameters are arguments.  Row numbers are natural numbers here; the code has
  them as \<open>uint\<close>.
\<close>

section \<open>Results of the engine\<close>

text \<open>
  The values of a parameter at one time: by index, \<open>None\<close> where \<open>getGridValueByIndex\<close> fails; a value has a
  number, \<open>None\<close> if it is missing, and a text.
\<close>

record 'n param_values =
  gv_values :: "('n option \<times> string) option list"
  gv_generation :: int
  gv_geometry :: int
  gv_producer :: int
  gv_level :: int
  gv_level_id :: int
  gv_key :: string
  gv_type :: int
  gv_number :: int
  gv_time :: int

record 'n query_param =
  gp_param :: string
  gp_precision :: int
  gp_values :: "'n param_values list"

record 'n grid_query =
  gq_params :: "'n query_param list"
  gq_times :: "int list"
  gq_producers :: "string list"

record grid_details =
  gk_producer :: string
  gk_geometry :: string
  gk_level_id :: string
  gk_level :: string
  gk_type :: string
  gk_number :: string

text \<open>
  The engine and the libraries, beside what \<open>StoredForecastQueryHandler\<close> takes from them.
  \<open>gw_special\<close> gets parameter, tag, place, country and precision, \<open>gw_special_time\<close> the time and the
  time zone instead of the country; \<open>gw_unset\<close> is what the table gives for a cell that was not set, \<open>gw_data_param\<close> a parameter of
  type \<open>Data\<close> and number \<open>kFmiBadParameter\<close>.
\<close>

record ('dt, 'p, 'loc, 'tz, 'h, 'n) grid_env =
  gw_base :: "('dt, 'p, 'loc, 'tz, unit, 'h, unit, unit) forecast_env"
  gw_enabled :: bool
  gw_content :: bool
  gw_configure :: "(string \<times> string) list \<Rightarrow> 'n grid_query result"
  gw_query :: "'n grid_query \<Rightarrow> int \<times> 'n grid_query"
  gw_special :: "string \<Rightarrow> string \<Rightarrow> 'loc \<Rightarrow> string \<Rightarrow> int \<Rightarrow> string option"
  gw_special_time :: "string \<Rightarrow> string \<Rightarrow> 'loc \<Rightarrow> int \<Rightarrow> 'tz \<Rightarrow> int \<Rightarrow> string option"
  gw_is_additional :: "string \<Rightarrow> bool"
  gw_producer_name :: "string \<Rightarrow> string"
  gw_producer_names :: "string \<Rightarrow> string list"
  gw_producer_by_id :: "int \<Rightarrow> string option"
  gw_generation_by_id :: "int \<Rightarrow> string option"
  gw_last_generation :: "string \<Rightarrow> string option"
  gw_details :: "string \<Rightarrow> string \<Rightarrow> grid_details list"
  gw_area :: "int \<Rightarrow> (point \<times> point \<times> point \<times> point) option"
  gw_time_zone :: "string \<Rightarrow> 'tz result"
  gw_loc_tz :: "'loc \<Rightarrow> string"
  gw_iso_time :: "string \<Rightarrow> 'dt result"
  gw_local_text :: "'dt \<Rightarrow> 'tz \<Rightarrow> string"
  gw_format :: "string \<Rightarrow> 'n \<Rightarrow> int \<Rightarrow> string"
  gw_coordinates :: "double \<Rightarrow> double \<Rightarrow> string"
  gw_levels_text :: "int list \<Rightarrow> string"
  gw_heights_text :: "'h list \<Rightarrow> string"
  gw_point_values :: string
  gw_point_location :: string
  gw_linear :: string
  gw_unset :: string
  gw_data_param :: "string \<Rightarrow> 'p"

section \<open>The qualifier of the cache key\<close>

text \<open>The last finished generations of the producers behind the names of the models.\<close>

definition producers_of :: "('dt, 'p, 'loc, 'tz, 'h, 'n) grid_env \<Rightarrow> string \<Rightarrow> string list" where
  "producers_of E alias =
     (let name = gw_producer_name E alias; names = gw_producer_names E name in if names = [] then [name] else names)"

definition get_grid_generation_qualifier :: "('dt, 'p, 'loc, 'tz, 'h, 'n) grid_env \<Rightarrow> string list \<Rightarrow> string" where
  "get_grid_generation_qualifier E producer_aliases =
     (if \<not> gw_enabled E \<or> \<not> gw_content E then []
      else join_comma (fold (\<lambda>name qs. case gw_last_generation E name of
               None \<Rightarrow> qs | Some t \<Rightarrow> sset_insert (name @ '':'' @ t) qs)
             (concat (map (producers_of E) producer_aliases)) []))"

definition grid_cache_key_qualifier ::
    "('dt, 'p, 'loc, 'tz, 'h, 'n) grid_env \<Rightarrow> 'dt spine_value rpm \<Rightarrow> string result" where
  "grid_cache_key_qualifier E params =
     (let lc = fw_lc (gw_base E); C = fw_conv (gw_base E) in
      if 0 < rpm_count lc params ''originTime'' then Inr []
      else rbind (rpm_get lc (vc_string C) ''model'' 0 SIZE_MAX 0 params) (\<lambda>models.
           Inr (get_grid_generation_qualifier E models)))"

section \<open>The table\<close>

type_synonym table = "((nat \<times> nat) \<times> string) list"

text \<open>Cells by column and row.\<close>

definition cell_set :: "nat \<Rightarrow> nat \<Rightarrow> string \<Rightarrow> table \<Rightarrow> table" where
  "cell_set col row s t = AList.update (col, row) s t"

definition table_row_count :: "table \<Rightarrow> nat" where
  "table_row_count t = length (remdups (map (snd \<circ> fst) t))"

definition nth_of :: "'a list \<Rightarrow> nat \<Rightarrow> 'a result" where
  "nth_of xs i = (if i < length xs then Inr (xs ! i) else Inl (Undefined ''index out of range''))"

definition max_values_per_timestep :: "'n query_param \<Rightarrow> nat" where
  "max_values_per_timestep p = fold (\<lambda>vs m. max (length (gv_values vs)) m) (gp_values p) 0"

text \<open>Only parameters with a single value at each time get into the table.\<close>

definition set_grid_value ::
    "('dt, 'p, 'loc, 'tz, 'h, 'n) grid_env \<Rightarrow> ('dt, 'p, 'loc, 'h) forecast_query \<Rightarrow> 'n param_values \<Rightarrow> int \<Rightarrow> nat \<Rightarrow>
     nat \<Rightarrow> nat \<Rightarrow> nat \<Rightarrow> table \<Rightarrow> table" where
  "set_grid_value E q vals precision v vLen col row t =
     (if vLen \<noteq> 1 then t
      else cell_set col row
        (case (if v < length (gv_values vals) then gv_values vals ! v else None) of
           Some (num, str) \<Rightarrow>
             if str \<noteq> [] then str
             else (case num of
                 Some x \<Rightarrow> gw_format E (fq_missing_text q) x (if 0 \<le> precision then precision else 6)
               | None \<Rightarrow> fq_missing_text q)
         | None \<Rightarrow> fq_missing_text q) t)"

record grid_state =
  gs_last :: nat
  gs_generation :: int
  gs_geometry :: int
  gs_table :: table

text \<open>The list of values has an entry for every time, or the access is beyond its end.\<close>

definition set_data_value ::
    "('dt, 'p, 'loc, 'tz, 'h, 'n) grid_env \<Rightarrow> ('dt, 'p, 'loc, 'h) forecast_query \<Rightarrow> 'n query_param \<Rightarrow> nat \<Rightarrow> nat \<Rightarrow> nat \<Rightarrow>
     nat \<times> nat \<Rightarrow> grid_state \<Rightarrow> grid_state result" where
  "set_data_value E q param vLen col rows vt s = (case vt of (v, t) \<Rightarrow>
     rbind (nth_of (gp_values param) t) (\<lambda>vals.
     Inr (s\<lparr>gs_generation := if gs_generation s = 0 then gv_generation vals else gs_generation s,
            gs_last := max (rows + t) (gs_last s),
            gs_geometry := if \<not> fq_have_area q \<and> gs_geometry s = 0 \<and> gv_geometry vals \<noteq> 0
              then gv_geometry vals else gs_geometry s,
            gs_table := set_grid_value E q vals (gp_precision param) v vLen col (rows + t) (gs_table s)\<rparr>)))"

definition set_data_values ::
    "('dt, 'p, 'loc, 'tz, 'h, 'n) grid_env \<Rightarrow> ('dt, 'p, 'loc, 'h) forecast_query \<Rightarrow> 'n query_param \<Rightarrow> nat \<Rightarrow> nat \<Rightarrow> nat \<Rightarrow>
     nat \<Rightarrow> grid_state \<Rightarrow> grid_state result" where
  "set_data_values E q param vLen tLen col rows =
     fold_result (set_data_value E q param vLen col rows) (List.product [0..<vLen] [0..<tLen])"

section \<open>Special parameters\<close>

fun level_value_at :: "nat \<Rightarrow> 'n query_param list \<Rightarrow> int result" where
  "level_value_at t [] = Inr 0"
| "level_value_at t (p # ps) =
     rbind (nth_of (gp_values p) t) (\<lambda>vals.
     let level = (if 0 < gv_level vals then (if gv_level_id vals = 2 then gv_level vals div 100 else gv_level vals) else 0)
     in if level \<noteq> 0 then Inr level else level_value_at t ps)"

fun find_producer_name :: "(int \<Rightarrow> string option) \<Rightarrow> nat \<Rightarrow> 'n query_param list \<Rightarrow> string option result" where
  "find_producer_name by_id t [] = Inr None"
| "find_producer_name by_id t (p # ps) =
     rbind (nth_of (gp_values p) t) (\<lambda>vals.
     case (if 0 < gv_producer vals then by_id (gv_producer vals) else None) of
       Some name \<Rightarrow> Inr (Some name)
     | None \<Rightarrow> find_producer_name by_id t ps)"

definition default_producer_name :: "('dt, 'p, 'loc, 'tz, 'h, 'n) grid_env \<Rightarrow> 'n grid_query \<Rightarrow> string" where
  "default_producer_name E gq = (case gq_producers gq of
       [name] \<Rightarrow> (case gw_producer_names E name of [] \<Rightarrow> ''Unknown'' | n # _ \<Rightarrow> n)
     | _ \<Rightarrow> ''Unknown'')"

fun find_origin_time ::
    "('dt, 'p, 'loc, 'tz, 'h, 'n) grid_env \<Rightarrow> 'tz \<Rightarrow> nat \<Rightarrow> 'n query_param list \<Rightarrow> string option result" where
  "find_origin_time E tz t [] = Inr None"
| "find_origin_time E tz t (p # ps) =
     rbind (nth_of (gp_values p) t) (\<lambda>vals.
     case (if 0 < gv_generation vals then gw_generation_by_id E (gv_generation vals) else None) of
       Some time \<Rightarrow> rbind (gw_iso_time E time) (\<lambda>d. Inr (Some (gw_local_text E d tz)))
     | None \<Rightarrow> find_origin_time E tz t ps)"

text \<open>The text is printed into a buffer of 10000 characters.\<close>

definition multi_match_item :: "('dt, 'p, 'loc, 'tz, 'h, 'n) grid_env \<Rightarrow> 'n param_values \<Rightarrow> string" where
  "multi_match_item E vals =
     take 9999 (gv_key vals @ '':'' @ dec_int (gv_level_id vals) @ '':'' @ dec_int (gv_level vals) @ '':'' @
       dec_int (gv_type vals) @ '':'' @ dec_int (gv_number vals) @ '':'' @
       or_default '''' (gw_producer_by_id E (gv_producer vals)))"

definition multi_match_value :: "('dt, 'p, 'loc, 'tz, 'h, 'n) grid_env \<Rightarrow> 'n query_param \<Rightarrow> int \<Rightarrow> string" where
  "multi_match_value E param forecast_time =
     ''### MULTI-MATCH ### '' @
     concat (map (\<lambda>p. p @ '' '')
       (fold (sset_insert \<circ> multi_match_item E) (filter (\<lambda>vals. gv_time vals = forecast_time) (gp_values param)) []))"

record ('loc, 'tz, 'n) special_context =
  gx_tag :: string
  gx_loc :: 'loc
  gx_country :: string
  gx_query :: "'n grid_query"
  gx_tz :: 'tz

text \<open>
  The value of a parameter without data at a time; \<open>None\<close> leaves the cell as it is.  The order of the
  tests is that of the code.
\<close>

definition special_value ::
    "('dt, 'p, 'loc, 'tz, 'h, 'n) grid_env \<Rightarrow> ('dt, 'p, 'loc, 'h) forecast_query \<Rightarrow> ('loc, 'tz, 'n) special_context \<Rightarrow>
     'n query_param \<Rightarrow> nat \<Rightarrow> int \<Rightarrow> string option result" where
  "special_value E q X param t ft =
     (let name = gp_param param; gq = gx_query X in
      case gw_special E name (gx_tag X) (gx_loc X) (gx_country X) (gp_precision param) of
        Some v \<Rightarrow> Inr (Some v)
      | None \<Rightarrow>
      (case gw_special_time E name (gx_tag X) (gx_loc X) ft (gx_tz X) (gp_precision param) of
        Some v \<Rightarrow> Inr (Some v)
      | None \<Rightarrow>
        if name = ''level'' then rbind (level_value_at t (gq_params gq)) (\<lambda>l. Inr (Some (dec_int l)))
        else if name = ''model'' \<or> name = ''producer''
        then rbind (find_producer_name (gw_producer_by_id E) t (gq_params gq)) (\<lambda>n.
               Inr (Some (or_default (default_producer_name E gq) n)))
        else if name = ''origintime''
        then rbind (find_origin_time E (gx_tz X) t (gq_params gq)) (\<lambda>ot. Inr (Some (or_default ''Unknown'' ot)))
        else if length (gq_times gq) < length (gp_values param) then Inr (Some (multi_match_value E param ft))
        else if \<not> gw_is_additional E name then Inr (Some (fq_missing_text q))
        else Inr None))"

definition set_special_value ::
    "('dt, 'p, 'loc, 'tz, 'h, 'n) grid_env \<Rightarrow> ('dt, 'p, 'loc, 'h) forecast_query \<Rightarrow> ('loc, 'tz, 'n) special_context \<Rightarrow>
     'n query_param \<Rightarrow> nat \<Rightarrow> nat \<Rightarrow> nat \<times> int \<Rightarrow> grid_state \<Rightarrow> grid_state result" where
  "set_special_value E q X param col rows tft s = (case tft of (t, ft) \<Rightarrow>
     rbind (special_value E q X param t ft) (\<lambda>v.
     Inr (s\<lparr>gs_last := max (rows + t) (gs_last s),
            gs_table := (case v of None \<Rightarrow> gs_table s | Some str \<Rightarrow> cell_set col (rows + t) str (gs_table s))\<rparr>)))"

definition set_special_values ::
    "('dt, 'p, 'loc, 'tz, 'h, 'n) grid_env \<Rightarrow> ('dt, 'p, 'loc, 'h) forecast_query \<Rightarrow> ('loc, 'tz, 'n) special_context \<Rightarrow>
     'n query_param \<Rightarrow> nat \<Rightarrow> nat \<Rightarrow> grid_state \<Rightarrow> grid_state result" where
  "set_special_values E q X param col rows =
     fold_result (set_special_value E q X param col rows) (enumerate 0 (gq_times (gx_query X)))"

section \<open>One place\<close>

definition set_grid_column ::
    "('dt, 'p, 'loc, 'tz, 'h, 'n) grid_env \<Rightarrow> ('dt, 'p, 'loc, 'h) forecast_query \<Rightarrow> ('loc, 'tz, 'n) special_context \<Rightarrow>
     nat \<Rightarrow> nat \<times> 'n query_param \<Rightarrow> grid_state \<Rightarrow> grid_state result" where
  "set_grid_column E q X rows cp = (case cp of (col, param) \<Rightarrow>
     let vLen = max_values_per_timestep param; rLen = length (gp_values param); tLen = length (gq_times (gx_query X))
     in if 0 < vLen \<and> rLen \<le> tLen then set_data_values E q param vLen tLen col rows
        else set_special_values E q X param col rows)"

definition set_origin_time_and_area ::
    "('dt, 'p, 'loc, 'tz, 'h, 'n) grid_env \<Rightarrow> int \<Rightarrow> int \<Rightarrow> ('dt, 'p, 'loc, 'h) forecast_query \<Rightarrow>
     ('dt, 'p, 'loc, 'h) forecast_query result" where
  "set_origin_time_and_area E generation geometry q =
     rbind (case (if 0 < generation then gw_generation_by_id E generation else None) of
              None \<Rightarrow> Inr q
            | Some time \<Rightarrow> rbind (gw_iso_time E time) (\<lambda>d. Inr (q\<lparr>fq_origin := Some d\<rparr>))) (\<lambda>q.
     Inr (case (if 0 < geometry then gw_area E geometry else None) of
            None \<Rightarrow> q
          | Some corners \<Rightarrow> q\<lparr>fq_have_area := True, fq_area := corners\<rparr>))"

definition process_grid_query ::
    "('dt, 'p, 'loc, 'tz, 'h, 'n) grid_env \<Rightarrow> string \<Rightarrow> 'loc \<Rightarrow> string \<Rightarrow> 'n grid_query \<Rightarrow>
     ('dt, 'p, 'loc, 'h) forecast_query \<times> table \<times> nat \<Rightarrow> (('dt, 'p, 'loc, 'h) forecast_query \<times> table \<times> nat) result" where
  "process_grid_query E tag loc country gq s = (case s of (q, table, row_count) \<Rightarrow>
     if \<not> gw_enabled E then Inl (Thrown NoCode ''The grid-engine is disabled!'')
     else rbind (gw_time_zone E (gw_loc_tz E loc)) (\<lambda>localtz.
       rbind (if fq_tz_name q \<noteq> ''localtime'' then gw_time_zone E (fq_tz_name q) else Inr localtz) (\<lambda>tz.
       case gw_query E gq of (rc, gq) \<Rightarrow>
         if rc \<noteq> 0 then Inl (Thrown NoCode ''The query server returns an error message!'')
         else rbind (fold_result (set_grid_column E q
                  \<lparr>gx_tag = tag, gx_loc = loc, gx_country = country, gx_query = gq, gx_tz = tz\<rparr> row_count)
                (enumerate 0 (gq_params gq))
                \<lparr>gs_last = row_count, gs_generation = 0, gs_geometry = 0, gs_table = table\<rparr>) (\<lambda>st.
           rbind (set_origin_time_and_area E (gs_generation st) (gs_geometry st) q) (\<lambda>q.
           Inr (q, gs_table st, gs_last st + 1))))))"

section \<open>The query for the engine\<close>

definition producer_list :: "('dt, 'p, 'loc, 'tz, 'h, 'n) grid_env \<Rightarrow> string list \<Rightarrow> string" where
  "producer_list E models =
     fold (\<lambda>n list. if list = [] then n else list @ '','' @ n)
       (concat (map (\<lambda>model. gw_producer_names E (gw_producer_name E model)) models)) []"

text \<open>The first \<open>.raw\<close> of a name asks for linear interpolation.\<close>

definition split_raw :: "string \<Rightarrow> string \<times> bool" where
  "split_raw name = (case List.find (\<lambda>i. take 4 (drop i name) = ''.raw'') [0..<length name] of
       None \<Rightarrow> (name, False)
     | Some i \<Rightarrow> (take i name @ drop (i + 4) name, True))"

definition grid_param_name :: "('dt, 'p, 'loc, 'tz, 'h, 'n) grid_env \<Rightarrow> string list \<Rightarrow> string \<Rightarrow> string" where
  "grid_param_name E models name = (case split_raw name of (param, raw) \<Rightarrow>
     fold (\<lambda>model _. let producer = gw_producer_name E model in
         case gw_details E producer param of
           d # _ \<Rightarrow>
             if \<not> iequals (fw_lc (gw_base E)) (gk_producer d) (producer @ '';'' @ param)
             then param @ '':'' @ gk_producer d @ '':'' @ gk_geometry d @ '':'' @ gk_level_id d @ '':'' @ gk_level d @ '':'' @
                  gk_type d @ '':'' @ gk_number d @ ''::'' @ (if raw then gw_linear E else [])
             else param
         | [] \<Rightarrow> param) models param)"

definition grid_param_list :: "('dt, 'p, 'loc, 'tz, 'h, 'n) grid_env \<Rightarrow> ('dt, 'p, 'loc, 'h) forecast_query \<Rightarrow> string" where
  "grid_param_list E q =
     join_comma (map (grid_param_name E (fq_models q) \<circ> op_name (fw_params (gw_base E))) (fq_params q))"

definition level_attributes ::
    "('dt, 'p, 'loc, 'tz, 'h, 'n) grid_env \<Rightarrow> ('dt, 'p, 'loc, 'h) forecast_query \<Rightarrow> (string \<times> string) list" where
  "level_attributes E q =
     (let lc = fw_lc (gw_base E) in
      (if fq_levels q \<noteq> [] then [(''levels'', gw_levels_text E (fq_levels q))] else []) @
      (if iequals lc (fq_level_type q) ''pressure'' then [(''levelId'', ''2'')] else []) @
      (if iequals lc (fq_level_type q) ''hybrid'' then [(''levelId'', ''3'')] else []) @
      (if fq_heights q \<noteq> [] then [(''heights'', gw_heights_text E (fq_heights q))] else []) @
      (if fq_level_type q \<noteq> [] then [(''levelId'', fq_level_type q)] else []))"

definition time_attributes :: "'dt clock_ops \<Rightarrow> 'dt time_options \<Rightarrow> (string \<times> string) list" where
  "time_attributes K op =
     [(''starttime'', ck_iso K (to_start op)), (''endtime'', ck_iso K (to_end op))] @
     (case to_steps op of None \<Rightarrow> [] | Some n \<Rightarrow> [(''timesteps'', dec_nat n)]) @
     (case to_step op of None \<Rightarrow> [] | Some n \<Rightarrow> [(''timestep'', dec_nat n)])"

definition grid_attributes ::
    "('dt, 'p, 'loc, 'tz, 'h, 'n) grid_env \<Rightarrow> ('dt, 'p, 'loc, 'h) forecast_query \<Rightarrow> 'loc \<Rightarrow> (string \<times> string) list" where
  "grid_attributes E q loc =
     (let B = gw_base E; L = fw_loc B in
      [(''type'', gw_point_values E), (''locationType'', gw_point_location E),
       (''coordinates'', gw_coordinates E (lo_longitude L loc) (lo_latitude L loc))] @
      (if fq_language q \<noteq> [] then [(''language'', fq_language q)] else []) @
      (if fq_models q \<noteq> [] then [(''producer'', producer_list E (fq_models q))] else []) @
      level_attributes E q @
      [(''timezone'', if fq_tz_name q \<noteq> ''localtime'' then fq_tz_name q else gw_loc_tz E loc)] @
      time_attributes (fw_clock B) (fq_times q) @
      [(''param'', grid_param_list E q)])"

definition extract_grid_location ::
    "('dt, 'p, 'loc, 'tz, 'h, 'n) grid_env \<Rightarrow> 'loc located \<Rightarrow> ('dt, 'p, 'loc, 'h) forecast_query \<times> table \<times> nat \<Rightarrow>
     (('dt, 'p, 'loc, 'h) forecast_query \<times> table \<times> nat) result" where
  "extract_grid_location E item s = (case snd item of
       None \<Rightarrow> Inl (Undefined ''null location'')
     | Some loc \<Rightarrow>
         rbind (fw_country (gw_base E) (fw_iso2 (gw_base E) loc) (fq_language (fst s))) (\<lambda>country.
         rbind (gw_configure E (grid_attributes E (fst s) loc)) (\<lambda>gq.
         process_grid_query E (fst item) loc country gq s)))"

definition extract_grid_forecast ::
    "('dt, 'p, 'loc, 'tz, 'h, 'n) grid_env \<Rightarrow> ('dt, 'p, 'loc, 'h) forecast_query \<Rightarrow>
     (('dt, 'p, 'loc, 'h) forecast_query \<times> table) result" where
  "extract_grid_forecast E q =
     (if \<not> gw_enabled E then Inl (Thrown NoCode ''The grid-engine is disabled!'')
      else rbind (fold_result (extract_grid_location E) (fq_locations q) (q\<lparr>fq_have_area := False\<rparr>, [], 0)) (\<lambda>(q, t, _).
        Inr (q, t)))"

section \<open>The handler\<close>

definition grid_common_params :: "'p param_ops \<Rightarrow> 'p list" where
  "grid_common_params P =
     map (\<lambda>name. op_param P name DataIndependent ''kFmiBadParameter'')
       [''geoid'', ''time'', ''name'', ''latitude'', ''longitude'', ''elevation'', ''level'', ''region'', ''countryname'',
        ''iso2'', ''localtz'']"

definition grid_location_flags :: location_flags where
  "grid_location_flags =
     \<lparr>lf_keywords = True, lf_geoids = True, lf_fmisids = False, lf_wmos = False, lf_lpnns = False\<rparr>"

definition register_grid_forecast :: "(string \<Rightarrow> string) \<Rightarrow> 'dt settings \<Rightarrow> 'dt reg_state \<Rightarrow> 'dt reg_state result" where
  "register_grid_forecast lc S st =
     rbind (register_location_params lc S grid_location_flags st) (\<lambda>st.
     rbind (register_time_params lc S st) (\<lambda>st.
     rbind (register_time_zone lc S st) (\<lambda>st.
     rbind (reg_array lc S P_STRING ''model'' '''' 0 st) (\<lambda>st.
     rbind (reg_scalar lc S P_TIME ''originTime'' '''' False st) (\<lambda>st.
     rbind (register_array lc P_DOUBLE ''levelHeights'' '''' 0 99 1 (st_array S ''levelHeights'') st) (\<lambda>st.
     rbind (register_array lc P_INT ''level'' '''' 0 99 1 (st_array S ''level'') st) (\<lambda>st.
     rbind (reg_scalar lc S P_STRING ''levelType'' '''' True st) (\<lambda>st.
     rbind (register_array lc P_STRING ''param''
       ''An array of fields whose values should be returned in the response.'' 1 99 1 (st_array S ''param'') st) (\<lambda>st.
     rbind (reg_scalar lc S P_INT ''findNearestValid'' '''' True st) (\<lambda>st.
     rbind (reg_scalar lc S P_STRING ''locale'' ''value of the Locale (for example fi_FI.UTF8).'' True st) (\<lambda>st.
     rbind (reg_scalar lc S P_STRING ''missingText''
       ''value that is returned when the value of the requested numeric field is missing.'' True st) (\<lambda>st.
     reg_scalar lc S P_STRING ''crs'' ''coordinate projection used in the response.'' True st))))))))))))"

definition parse_grid_params ::
    "('dt, 'p, 'loc, 'tz, 'h, 'n) grid_env \<Rightarrow> 'dt spine_value rpm \<Rightarrow> ('p list \<times> nat \<times> nat) result" where
  "parse_grid_params E params =
     rbind (rpm_get (fw_lc (gw_base E)) (vc_string (fw_conv (gw_base E))) ''param'' 0 SIZE_MAX 0 params) (\<lambda>names.
     Inr (fold (\<lambda>name (ps, fi, la). (ps @ [gw_data_param E name], if fi = 0 then length ps else fi, length ps))
            names (grid_common_params (fw_params (gw_base E)), 0, 0)))"

definition grid_query_of ::
    "('dt, 'p, 'loc, 'tz, 'h::linorder, 'n) grid_env \<Rightarrow> string \<Rightarrow> 'dt spine_value rpm \<Rightarrow>
     ('dt, 'p, 'loc, 'h) forecast_query result" where
  "grid_query_of E lang params =
     (let W = gw_base E; lc = fw_lc W; C = fw_conv W; missing = fw_missing_point W in
      rbind (get_single lc (vc_string C) ''missingText'' params) (\<lambda>missing_text.
      rbind (get_single lc (vc_string C) ''locale'' params) (\<lambda>locale_name.
      if \<not> fw_has_locale W locale_name then Inl (Thrown ProcessingFailed ''Failed to set locale'')
      else rbind (get_single lc (vc_double C) ''maxDistance'' params) (\<lambda>max_distance.
      rbind (get_optional_default lc (vc_string C) ''keyword'' '''' params) (\<lambda>_.
      rbind (get_single lc (vc_int C) ''findNearestValid'' params) (\<lambda>nearest.
      rbind (get_tz_name lc C params) (\<lambda>tz_name.
      rbind (rpm_get lc (vc_string C) ''model'' 0 SIZE_MAX 0 params) (\<lambda>models.
      rbind (get_location_options lc C (fw_locations W) grid_location_flags lang params) (\<lambda>locs.
      rbind (parse_level_heights lc C (fw_float W) params) (\<lambda>heights.
      rbind (parse_levels lc C params) (\<lambda>(level_type, levels).
      rbind (parse_grid_params E params) (\<lambda>(ps, fi, la).
      rbind (parse_times lc C (fw_tm W) params) (\<lambda>(times, origin).
      Inr \<lparr>fq_models = models, fq_levels = levels, fq_heights = heights, fq_level_type = level_type,
           fq_locations = locs, fq_params = ps, fq_max_distance = max_distance,
           fq_np_distance = if fw_positive W (fw_max_np W) then fw_max_np W else max_distance,
           fq_missing_text = missing_text, fq_language = lang, fq_locale = locale_name, fq_nearest = nearest \<noteq> 0,
           fq_tz_name = tz_name, fq_origin = origin, fq_modified = None, fq_times = times,
           fq_area = (missing, missing, missing, missing), fq_have_area = False, fq_producer = '''',
           fq_lastpoint = fw_new_point W, fq_first = fi, fq_last = la\<rparr>)))))))))))))"

text \<open>The rows from the first up to as many as there are different row numbers, whatever these are.\<close>

definition table_lines :: "string \<Rightarrow> nat \<Rightarrow> table \<Rightarrow> string list list" where
  "table_lines unset columns t =
     map (\<lambda>r. map (\<lambda>c. or_default unset (map_of t (c, r))) [0..<columns]) [0..<table_row_count t]"

text \<open>The groups are made as by the other handler, the time of the result is the origin time.\<close>

definition grid_group_info ::
    "('dt, 'p, 'loc, 'tz, 'h, 'n) grid_env \<Rightarrow> ('dt, 'p, 'loc, 'h) forecast_query \<Rightarrow> 'dt feature_id \<Rightarrow>
     string \<Rightarrow> string \<Rightarrow> forecast_group result" where
  "grid_group_info E q f feature_id group_id =
     rbind (set_forecast_group_info (gw_base E) q f feature_id group_id) (\<lambda>g. Inr (g\<lparr>fg_modified := fg_origin g\<rparr>))"

definition grid_group_of ::
    "('dt, 'p, 'loc, 'tz, 'h, 'n) grid_env \<Rightarrow> ('dt, 'p, 'loc, 'tz, 'h) forecast_context \<Rightarrow> 32 word \<Rightarrow>
     'dt spine_value rpm \<Rightarrow> (nat, string) mmap \<Rightarrow> (string, nat) mmap \<Rightarrow> nat \<Rightarrow> forecast_group result" where
  "grid_group_of E X sqid params group_map result_map group_id =
     (let W = gw_base E; sites = mm_values group_map group_id;
          f = forecast_feature sites \<lparr>fid_query = fw_query_id W, fid_params = get_map True params, fid_seq = sqid\<rparr>
      in rbind (make_id (fw_ids W) f) (\<lambda>feature_id.
         rbind (grid_group_info E (fj_query X) f feature_id
                  (dec_int (sint sqid) @ ''-'' @ dec_nat (group_id + 1))) (\<lambda>g.
         set_group_data W X result_map sites g)))"

definition grid_groups ::
    "('dt, 'p, 'loc, 'tz, 'h, 'n) grid_env \<Rightarrow> ('dt, 'p, 'loc, 'tz, 'h) forecast_context \<Rightarrow> 32 word \<Rightarrow>
     'dt spine_value rpm \<Rightarrow> (nat \<times> forecast_group list) result" where
  "grid_groups E X sqid params =
     rbind (map_result (table_cell (fj_rows X) ind_geoid) [0..<length (fj_rows X)]) (\<lambda>geoids.
     let result_map = rows_by_geoid geoids; (num_groups, group_map) = geoid_groups (fw_separate (gw_base E)) geoids
     in rbind (map_result (grid_group_of E X sqid params group_map result_map) [0..<num_groups]) (\<lambda>gs.
        Inr (num_groups, gs)))"

definition grid_forecast_result ::
    "('dt, 'p, 'loc, 'tz, 'h::linorder, 'n) grid_env \<Rightarrow> string \<Rightarrow> 32 word \<Rightarrow> 'dt spine_value rpm \<Rightarrow>
     forecast_answer result" where
  "grid_forecast_result E lang sqid params =
     (let W = gw_base E in
      parsing_layer (fw_outermost W)
      (rbind (grid_query_of E lang params) (\<lambda>q.
       rbind (get_single (fw_lc W) (vc_string (fw_conv W)) ''crs'' params) (\<lambda>crs.
       rbind (fw_transformed W DATA_CRS_NAME crs) (\<lambda>B.
       let info = fw_crs W crs; show_height = or_default False (ci_show_height info) in
       rbind (extract_grid_forecast E q) (\<lambda>(q, t).
       rbind (grid_groups E \<lparr>fj_query = q, fj_rows = table_lines (gw_unset E) (length (fq_params q)) t,
                fj_coord = B, fj_height = show_height\<rparr> sqid params) (\<lambda>(num_groups, gs).
       Inr \<lparr>fu_groups = gs, fu_num_groups = num_groups, fu_num_param = fq_last q - fq_first q + 1, fu_language = lang,
            fu_srs = (if show_height then 3 else 2, or_default ''UNKNOWN'' (ci_proj_uri info)),
            fu_epoch_srs = (if show_height then 4 else 3, or_default ''UNKNOWN'' (ci_proj_epoch_uri info))\<rparr>)))))))"

section \<open>Cells\<close>

definition cell_of :: "table \<Rightarrow> nat \<Rightarrow> nat \<Rightarrow> string option" where
  "cell_of t c r = map_of t (c, r)"

lemma cell_of_set: "cell_of (cell_set col row s t) c r = (if c = col \<and> r = row then Some s else cell_of t c r)"
  by (simp add: cell_of_def cell_set_def update_conv')

lemma cell_of_grid_value:
  "cell_of (set_grid_value E q vals pr v n col row t) c r \<noteq> cell_of t c r \<Longrightarrow> c = col \<and> r = row"
  by (auto simp: set_grid_value_def cell_of_set split: if_splits)

text \<open>
  What one column does to the state, for a place whose rows begin at \<open>rows\<close> and with \<open>n\<close> times: cells
  of this column in these rows, and a new last row.
\<close>

definition column_step :: "nat \<Rightarrow> nat \<Rightarrow> nat \<Rightarrow> grid_state \<Rightarrow> grid_state \<Rightarrow> bool" where
  "column_step col rows n s s' \<longleftrightarrow> gs_last s \<le> gs_last s' \<and> gs_last s' \<le> max (gs_last s) (rows + n - 1) \<and>
     (\<forall>c r. cell_of (gs_table s') c r \<noteq> cell_of (gs_table s) c r \<longrightarrow>
       c = col \<and> rows \<le> r \<and> r < rows + n \<and> r \<le> gs_last s') \<and>
     (\<forall>c r. cell_of (gs_table s) c r \<noteq> None \<longrightarrow> cell_of (gs_table s') c r \<noteq> None)"

lemma column_step_refl: "column_step col rows n s s"
  by (simp add: column_step_def)

lemma column_stepD:
  assumes "column_step col rows n s s'"
  shows "gs_last s \<le> gs_last s'" and "gs_last s' \<le> max (gs_last s) (rows + n - 1)"
    and "cell_of (gs_table s') c r \<noteq> cell_of (gs_table s) c r \<Longrightarrow> c = col \<and> rows \<le> r \<and> r < rows + n \<and> r \<le> gs_last s'"
    and "cell_of (gs_table s) c r \<noteq> None \<Longrightarrow> cell_of (gs_table s') c r \<noteq> None"
  using assms unfolding column_step_def by blast+

lemma column_step_trans:
  assumes st: "column_step col rows n s t" and tu: "column_step col rows n t u"
  shows "column_step col rows n s u"
  unfolding column_step_def
proof (intro conjI allI impI)
  show "gs_last s \<le> gs_last u" "gs_last u \<le> max (gs_last s) (rows + n - 1)"
    using column_stepD(1,2) [OF st] column_stepD(1,2) [OF tu] by linarith+
  show "cell_of (gs_table s) c r \<noteq> None \<Longrightarrow> cell_of (gs_table u) c r \<noteq> None" for c r
    by (rule column_stepD(4) [OF tu], rule column_stepD(4) [OF st])
  have "c = col \<and> rows \<le> r \<and> r < rows + n \<and> r \<le> gs_last u"
    if "cell_of (gs_table u) c r \<noteq> cell_of (gs_table s) c r" for c r
  proof (cases "cell_of (gs_table t) c r = cell_of (gs_table s) c r")
    case True
    with that show ?thesis by (intro column_stepD(3) [OF tu]) simp
  next
    case False
    from column_stepD(3) [OF st False] column_stepD(1) [OF tu] show ?thesis by simp
  qed
  then show "cell_of (gs_table u) c r \<noteq> cell_of (gs_table s) c r \<Longrightarrow> c = col"
    "cell_of (gs_table u) c r \<noteq> cell_of (gs_table s) c r \<Longrightarrow> rows \<le> r"
    "cell_of (gs_table u) c r \<noteq> cell_of (gs_table s) c r \<Longrightarrow> r < rows + n"
    "cell_of (gs_table u) c r \<noteq> cell_of (gs_table s) c r \<Longrightarrow> r \<le> gs_last u" for c r by blast+
qed

lemma column_step_fold:
  assumes "fold_result f xs s = Inr s'" and "\<And>x s s'. x \<in> set xs \<Longrightarrow> f x s = Inr s' \<Longrightarrow> column_step col rows n s s'"
  shows "column_step col rows n s s'"
  by (rule fold_result_invariant [OF assms(1), where P = "column_step col rows n s"])
    (auto intro: column_step_refl column_step_trans assms(2))

lemma set_data_value_step:
  assumes "set_data_value E q param vLen col rows (v, t) s = Inr s'" and "t < n"
  shows "column_step col rows n s s'"
proof -
  have "cell_of (set_grid_value E q vals pr v vLen col row tb) c r \<noteq> None" if "cell_of tb c r \<noteq> None" for vals pr row tb c r
    using that by (auto simp: set_grid_value_def cell_of_set)
  with assms show ?thesis
    by (auto simp: set_data_value_def rbind_eq_Inr column_step_def dest!: cell_of_grid_value)
qed

lemma set_special_value_step:
  assumes "set_special_value E q X param col rows (t, ft) s = Inr s'" and "t < n"
  shows "column_step col rows n s s'"
  using assms by (auto simp: set_special_value_def rbind_eq_Inr column_step_def cell_of_set split: option.splits if_splits)

lemma set_grid_column_step:
  assumes "set_grid_column E q X rows (col, param) s = Inr s'"
  shows "column_step col rows (length (gq_times (gx_query X))) s s'"
proof (cases "0 < max_values_per_timestep param \<and> length (gp_values param) \<le> length (gq_times (gx_query X))")
  case True
  with assms have "set_data_values E q param (max_values_per_timestep param) (length (gq_times (gx_query X))) col rows s = Inr s'"
    by (simp add: set_grid_column_def Let_def)
  then show ?thesis unfolding set_data_values_def
    by (rule column_step_fold) (auto intro: set_data_value_step)
next
  case False
  with assms have "set_special_values E q X param col rows s = Inr s'" by (auto simp: set_grid_column_def Let_def)
  then show ?thesis unfolding set_special_values_def
    by (rule column_step_fold) (auto simp: in_set_enumerate_eq intro: set_special_value_step)
qed

text \<open>The rows of a place: they begin where those of the place before ended.\<close>

definition place_step :: "nat \<Rightarrow> nat \<Rightarrow> table \<Rightarrow> table \<Rightarrow> bool" where
  "place_step n n' t t' \<longleftrightarrow> n < n' \<and> (\<forall>c r. r < n \<or> n' \<le> r \<longrightarrow> cell_of t' c r = cell_of t c r)"

lemma grid_columns_step:
  assumes "fold_result (set_grid_column E q X rows) (enumerate k ps) s = Inr s'" and "rows \<le> gs_last s"
    and "gs_last s \<le> rows + (length (gq_times (gx_query X)) - 1)"
  shows "rows \<le> gs_last s' \<and> gs_last s \<le> gs_last s' \<and> gs_last s' \<le> rows + (length (gq_times (gx_query X)) - 1) \<and>
    (\<forall>c r. cell_of (gs_table s') c r \<noteq> cell_of (gs_table s) c r \<longrightarrow> rows \<le> r \<and> r \<le> gs_last s')"
  using assms
proof (induction ps arbitrary: k s)
  case Nil
  then show ?case by simp
next
  case (Cons p ps)
  from Cons.prems(1) obtain s1 where s1: "set_grid_column E q X rows (k, p) s = Inr s1"
    and run: "fold_result (set_grid_column E q X rows) (enumerate (Suc k) ps) s1 = Inr s'"
    by (auto simp: rbind_eq_Inr)
  from set_grid_column_step [OF s1] have step: "gs_last s \<le> gs_last s1"
      "gs_last s1 \<le> max (gs_last s) (rows + length (gq_times (gx_query X)) - 1)"
      "\<forall>c r. cell_of (gs_table s1) c r \<noteq> cell_of (gs_table s) c r \<longrightarrow> c = k \<and> rows \<le> r \<and> r \<le> gs_last s1"
    by (auto simp: column_step_def)
  with Cons.prems have "rows \<le> gs_last s1" "gs_last s1 \<le> rows + (length (gq_times (gx_query X)) - 1)" by auto
  note ih = Cons.IH [OF run this]
  have "rows \<le> r \<and> r \<le> gs_last s'" if "cell_of (gs_table s') c r \<noteq> cell_of (gs_table s) c r" for c r
  proof (cases "cell_of (gs_table s1) c r = cell_of (gs_table s) c r")
    case True
    with that have "cell_of (gs_table s') c r \<noteq> cell_of (gs_table s1) c r" by simp
    with ih show ?thesis by blast
  next
    case False
    with step(3) ih show ?thesis by (meson order_trans)
  qed
  with ih step(1) show ?case by (meson order_trans)
qed

lemma origin_and_area: "set_origin_time_and_area E g a q = Inr q' \<Longrightarrow>
   fq_params q' = fq_params q \<and> fq_locations q' = fq_locations q \<and> fq_missing_text q' = fq_missing_text q"
  by (auto simp: set_origin_time_and_area_def rbind_eq_Inr split: option.splits if_splits)

lemma process_grid_query_step:
  assumes "process_grid_query E tag loc country gq (q, t, n) = Inr (q', t', n')"
  shows "place_step n n' t t'"
proof -
  obtain rc gq1 where ran: "gw_query E gq = (rc, gq1)" by force
  with assms obtain tz st where
    cols: "fold_result (set_grid_column E q \<lparr>gx_tag = tag, gx_loc = loc, gx_country = country, gx_query = gq1, gx_tz = tz\<rparr> n)
        (enumerate 0 (gq_params gq1)) \<lparr>gs_last = n, gs_generation = 0, gs_geometry = 0, gs_table = t\<rparr> = Inr st"
    and t': "t' = gs_table st" "n' = Suc (gs_last st)"
    by (auto simp: process_grid_query_def rbind_eq_Inr split: if_splits)
  from grid_columns_step [OF cols] have last: "n \<le> gs_last st"
    and cells: "\<And>c r. cell_of t' c r \<noteq> cell_of t c r \<Longrightarrow> n \<le> r \<and> r \<le> gs_last st"
    by (auto simp: t')
  show ?thesis
    unfolding place_step_def using last cells by (metis t'(2) le_imp_less_Suc not_le)
qed

text \<open>A run over the places: the tables and first rows after each of them.\<close>

lemma grid_places:
  assumes "fold_result (extract_grid_location E) locs (q, t, n) = Inr (q', t', n')"
  shows "\<exists>ts ns. length ts = Suc (length locs) \<and> length ns = Suc (length locs) \<and> ns ! 0 = n \<and> ts ! 0 = t \<and>
    last ts = t' \<and> (\<forall>k < length locs. place_step (ns ! k) (ns ! Suc k) (ts ! k) (ts ! Suc k))"
  using assms
proof (induction locs arbitrary: q t n)
  case Nil
  then show ?case by (intro exI [of _ "[t]"] exI [of _ "[n]"]) simp
next
  case (Cons l locs)
  from Cons.prems obtain q1 t1 n1 where one: "extract_grid_location E l (q, t, n) = Inr (q1, t1, n1)"
    and run: "fold_result (extract_grid_location E) locs (q1, t1, n1) = Inr (q', t', n')"
    by (auto simp: rbind_eq_Inr)
  from one have step: "place_step n n1 t t1"
    by (auto simp: extract_grid_location_def rbind_eq_Inr split: option.splits dest: process_grid_query_step)
  from Cons.IH [OF run] obtain ts ns where "length ts = Suc (length locs)" "length ns = Suc (length locs)"
      "ns ! 0 = n1" "ts ! 0 = t1" "last ts = t'"
      "\<forall>k < length locs. place_step (ns ! k) (ns ! Suc k) (ts ! k) (ts ! Suc k)" by blast
  with step show ?case
    by (intro exI [of _ "t # ts"] exI [of _ "n # ns"]) (auto simp: nth_Cons' less_Suc_eq_0_disj)
qed

lemma place_step_later:
  assumes "\<forall>k < m. place_step (ns ! k) (ns ! Suc k) (ts ! k) (ts ! Suc k)" and "i \<le> j" and "j \<le> m"
  shows "ns ! i \<le> ns ! j \<and> (\<forall>c r. r < ns ! i \<longrightarrow> cell_of (ts ! j) c r = cell_of (ts ! i) c r)"
  using assms(2,3)
proof (induction j rule: dec_induct)
  case base
  then show ?case by simp
next
  case (step j)
  with assms(1) have "place_step (ns ! j) (ns ! Suc j) (ts ! j) (ts ! Suc j)" by simp
  with step show ?case by (fastforce simp: place_step_def)
qed


section \<open>Rows without gaps\<close>

lemma fold_result_reaches:
  assumes "fold_result f xs s = Inr s'" and "\<And>x s s'. x \<in> set xs \<Longrightarrow> f x s = Inr s' \<Longrightarrow> P x s'"
    and "\<And>x y s s'. y \<in> set xs \<Longrightarrow> P x s \<Longrightarrow> f y s = Inr s' \<Longrightarrow> P x s'"
  shows "\<forall>x \<in> set xs. P x s'"
  using assms
proof (induction xs arbitrary: s)
  case Nil
  then show ?case by simp
next
  case (Cons x xs)
  from Cons.prems(1) obtain s1 where s1: "f x s = Inr s1" and run: "fold_result f xs s1 = Inr s'" by (auto simp: rbind_eq_Inr)
  have "P x s'"
  proof (rule fold_result_invariant [OF run, where P = "P x"])
    show "P x s1" using Cons.prems(2) s1 by simp
    show "P x t" if "y \<in> set xs" "P x s" "f y s = Inr t" for y s t using Cons.prems(3) [of y x s t] that by simp
  qed
  moreover have "\<forall>y \<in> set xs. P y s'"
  proof (rule Cons.IH [OF run])
    show "P y t" if "y \<in> set xs" "f y s = Inr t" for y s t using Cons.prems(2) [of y s t] that by simp
    show "P y t" if "z \<in> set xs" "P y s" "f z s = Inr t" for y z s t using Cons.prems(3) [of z y s t] that by simp
  qed
  ultimately show ?case by simp
qed

text \<open>A cell that is written, and the row counted.\<close>

definition reached :: "nat \<Rightarrow> nat \<Rightarrow> grid_state \<Rightarrow> bool" where
  "reached col row s \<longleftrightarrow> cell_of (gs_table s) col row \<noteq> None \<and> row \<le> gs_last s"

lemma reached_step:
  assumes "reached c r s" and "column_step col rows n s s'"
  shows "reached c r s'"
  using assms(1) column_stepD(1,4) [OF assms(2)] by (auto simp: reached_def intro: order_trans)

text \<open>
  A parameter that has a text at every time: one with data has a single value at each time, and one
  without data is not left to a library that may not know it.
\<close>

definition column_shown :: "('dt, 'p, 'loc, 'tz, 'h, 'n) grid_env \<Rightarrow> 'n grid_query \<Rightarrow> 'n query_param \<Rightarrow> bool" where
  "column_shown E gq p \<longleftrightarrow>
     (if 0 < max_values_per_timestep p \<and> length (gp_values p) \<le> length (gq_times gq) then max_values_per_timestep p = 1
      else \<not> gw_is_additional E (gp_param p) \<or> gp_param p \<in> {''level'', ''model'', ''producer'', ''origintime''} \<or>
        length (gq_times gq) < length (gp_values p))"

lemma special_value_shown:
  assumes "special_value E q X param t ft = Inr v"
    and "\<not> gw_is_additional E (gp_param param) \<or> gp_param param \<in> {''level'', ''model'', ''producer'', ''origintime''} \<or>
      length (gq_times (gx_query X)) < length (gp_values param)"
  shows "v \<noteq> None"
  using assms by (cases v) (auto simp: special_value_def Let_def rbind_eq_Inr split: option.splits if_splits)

lemma column_filled:
  assumes "set_grid_column E q X rows (col, param) s = Inr s'" and "column_shown E (gx_query X) param"
    and "t < length (gq_times (gx_query X))"
  shows "reached col (rows + t) s'"
proof (cases "0 < max_values_per_timestep param \<and> length (gp_values param) \<le> length (gq_times (gx_query X))")
  case True
  let ?n = "length (gq_times (gx_query X))"
  from True assms have "fold_result (set_data_value E q param 1 col rows) (List.product [0..<1] [0..<?n]) s = Inr s'"
    by (simp add: set_grid_column_def set_data_values_def column_shown_def Let_def)
  then have "\<forall>vt \<in> set (List.product [0..<1] [0..<?n]). reached col (rows + snd vt) s'"
  proof (rule fold_result_reaches)
    fix vt and s s' :: grid_state
    assume "set_data_value E q param 1 col rows vt s = Inr s'"
    then show "reached col (rows + snd vt) s'"
      by (cases vt) (auto simp: set_data_value_def rbind_eq_Inr reached_def set_grid_value_def cell_of_set)
  next
    fix vt wt and s s' :: grid_state
    assume "wt \<in> set (List.product [0..<1] [0..<?n])" "set_data_value E q param 1 col rows wt s = Inr s'"
    then have "snd wt < ?n" "set_data_value E q param 1 col rows (fst wt, snd wt) s = Inr s'" by auto
    then have "column_step col rows ?n s s'" by (rule set_data_value_step [rotated])
    then show "reached col (rows + snd vt) s \<Longrightarrow> reached col (rows + snd vt) s'" by (rule reached_step [rotated])
  qed
  with assms(3) show ?thesis by fastforce
next
  case False
  let ?n = "length (gq_times (gx_query X))"
  from False assms have "fold_result (set_special_value E q X param col rows) (enumerate 0 (gq_times (gx_query X))) s = Inr s'"
    by (auto simp: set_grid_column_def set_special_values_def Let_def)
  then have "\<forall>tf \<in> set (enumerate 0 (gq_times (gx_query X))). reached col (rows + fst tf) s'"
  proof (rule fold_result_reaches)
    fix tf and s s' :: grid_state
    assume "set_special_value E q X param col rows tf s = Inr s'"
    then obtain v where v: "special_value E q X param (fst tf) (snd tf) = Inr v"
      "s' = s\<lparr>gs_last := max (rows + fst tf) (gs_last s),
        gs_table := (case v of None \<Rightarrow> gs_table s | Some str \<Rightarrow> cell_set col (rows + fst tf) str (gs_table s))\<rparr>"
      by (cases tf) (auto simp: set_special_value_def rbind_eq_Inr cong del: option.case_cong_weak)
    have "v \<noteq> None"
      using False assms(2) by (intro special_value_shown [OF v(1)]) (simp only: column_shown_def if_False)
    with v(2) show "reached col (rows + fst tf) s'" by (auto simp: reached_def cell_of_set)
  next
    fix tf uf and s s' :: grid_state
    assume "uf \<in> set (enumerate 0 (gq_times (gx_query X)))" "set_special_value E q X param col rows uf s = Inr s'"
    then have "fst uf < ?n" "set_special_value E q X param col rows (fst uf, snd uf) s = Inr s'"
      by (simp_all only: in_set_enumerate_eq prod.collapse) simp
    then have "column_step col rows ?n s s'" by (rule set_special_value_step [rotated])
    then show "reached col (rows + fst tf) s \<Longrightarrow> reached col (rows + fst tf) s'" by (rule reached_step [rotated])
  qed
  moreover have "(t, gq_times (gx_query X) ! t) \<in> set (enumerate 0 (gq_times (gx_query X)))"
    using assms(3) by (simp add: in_set_enumerate_eq)
  ultimately show ?thesis by fastforce
qed


text \<open>A place without times takes a row that is counted but empty: the row after it is not read any more.\<close>

lemma place_without_times:
  assumes "process_grid_query E tag loc country gq (q, t, n) = Inr (q', t', n')"
    and "gw_query E gq = (0, gq')" and "gq_times gq' = []"
  shows "n' = Suc n \<and> (\<forall>c r. cell_of t' c r = cell_of t c r)"
proof -
  from assms(1,2) obtain tz st where
    cols: "fold_result (set_grid_column E q \<lparr>gx_tag = tag, gx_loc = loc, gx_country = country, gx_query = gq', gx_tz = tz\<rparr> n)
        (enumerate 0 (gq_params gq')) \<lparr>gs_last = n, gs_generation = 0, gs_geometry = 0, gs_table = t\<rparr> = Inr st"
    and t': "t' = gs_table st" "n' = Suc (gs_last st)"
    by (auto simp: process_grid_query_def rbind_eq_Inr split: if_splits)
  let ?X = "\<lparr>gx_tag = tag, gx_loc = loc, gx_country = country, gx_query = gq', gx_tz = tz\<rparr>"
  have "\<forall>c r. cell_of (gs_table st) c r = cell_of t c r"
    by (rule fold_result_invariant [OF cols, where P = "\<lambda>s. \<forall>c r. cell_of (gs_table s) c r = cell_of t c r"])
      (use assms(3) set_grid_column_step [where X = ?X] in \<open>fastforce simp: column_step_def\<close>)+
  with grid_columns_step [OF cols] assms(3) show ?thesis by (auto simp: t')
qed

lemma row_after_gap_lost: "table_lines ''-'' 1 [((0, 1), ''x'')] = [[''-'']]"
  by code_simp

text \<open>
  The special parameters look at the values of all parameters from the first on, which is a special one
  itself: when the engine has an empty list for it, the access is beyond its end.
\<close>

lemma level_of_empty_list: "gp_values p = [] \<Longrightarrow> level_value_at t (p # ps) = Inl (Undefined ''index out of range'')"
  by (simp add: nth_of_def)

text \<open>Requests without a model get no generation into their key, whatever generations there are.\<close>

lemma no_model_no_generation: "get_grid_generation_qualifier E [] = []"
  by (simp add: get_grid_generation_qualifier_def)

section \<open>A request for two places\<close>

text \<open>The engine has two times for every place, and values for the temperature only.\<close>

definition demo_grid_values :: "int \<Rightarrow> string \<Rightarrow> string param_values" where
  "demo_grid_values time v =
     \<lparr>gv_values = [Some (Some v, '''')], gv_generation = 7, gv_geometry = 0, gv_producer = 1, gv_level = 85000,
      gv_level_id = 2, gv_key = ''T'', gv_type = 1, gv_number = 0, gv_time = time\<rparr>"

definition demo_grid_query :: "string grid_query" where
  "demo_grid_query =
     \<lparr>gq_params = [\<lparr>gp_param = ''t2m'', gp_precision = 1, gp_values = [demo_grid_values 0 ''1.5'', demo_grid_values 60 ''2.5'']\<rparr>,
        \<lparr>gp_param = ''unknown'', gp_precision = 1, gp_values = []\<rparr>],
      gq_times = [0, 60], gq_producers = [''hirlam'']\<rparr>"

definition demo_grid_base :: "(nat, string \<times> 16 word, nat, unit, unit, nat, unit, unit) forecast_env" where
  "demo_grid_base =
     \<lparr>fw_lc = ascii_lower, fw_conv = demo_place_conv, fw_ids = demo_forecast_ids,
      fw_clock = \<lparr>ck_invalid = \<lambda>_. False, ck_le = (\<le>), ck_less = (<), ck_neg_inf = 0, ck_pos_inf = 9,
        ck_extended = \<lambda>_. ''2025-01-01T00:00:00'', ck_iso = \<lambda>_. ''20250101T000000''\<rparr>,
      fw_params = demo_params, fw_tm = undefined, fw_locations = demo_env,
      fw_loc = \<lparr>lo_longitude = \<lambda>_. 0, lo_latitude = \<lambda>_. 0, lo_fmisid = \<lambda>_. None, lo_area = \<lambda>_. ''Uusimaa''\<rparr>,
      fw_iso2 = \<lambda>_. ''FI'', fw_country = \<lambda>_ _. Inr ''Suomi'', fw_float = unat, fw_positive = \<lambda>_. False, fw_km = \<lambda>d. d,
      fw_has_locale = \<lambda>_. True, fw_find = \<lambda>_. Inr ''hirlam'', fw_get = \<lambda>_ _. Inr (), fw_data = \<lambda>_. demo_model_data,
      fw_multifile = \<lambda>_. False, fw_metadata = \<lambda>_ _. Inr [], fw_tz = \<lparr>tz_at = \<lambda>_ _. Inr (), tz_region = \<lambda>_. Inr ()\<rparr>,
      fw_generate = \<lambda>_ _ _. Inr [],
      fw_value = \<lambda>_ _ _ _ lp. Inr ((), lp), fw_print = \<lambda>_ _ _. [], fw_meteo = demo_meteo 1,
      fw_crs = \<lambda>_. \<lparr>ci_show_height = None, ci_proj_uri = None, ci_proj_epoch_uri = None\<rparr>,
      fw_transformed = \<lambda>_ _. Inr demo_coord, fw_stod = \<lambda>_. Inr 0, fw_parse_iso = \<lambda>s. Inr (int (length s)),
      fw_missing_point = (0, 0), fw_new_point = (0, 0), fw_max_np = 0, fw_separate = True, fw_query_id = ''q'',
      fw_outermost = True\<rparr>"

definition demo_grid :: "(nat, string \<times> 16 word, nat, unit, nat, string) grid_env" where
  "demo_grid =
     \<lparr>gw_base = demo_grid_base, gw_enabled = True, gw_content = True, gw_configure = \<lambda>_. Inr demo_grid_query,
      gw_query = \<lambda>gq. (0, gq), gw_special = \<lambda>_ _ _ _ _. None, gw_special_time = \<lambda>_ _ _ _ _ _. None,
      gw_is_additional = \<lambda>_. False, gw_producer_name = \<lambda>n. n, gw_producer_names = \<lambda>n. [n],
      gw_producer_by_id = \<lambda>_. Some ''hirlam'', gw_generation_by_id = \<lambda>_. Some ''now'', gw_last_generation = \<lambda>_. Some ''now'',
      gw_details = \<lambda>_ _. [], gw_area = \<lambda>_. None, gw_time_zone = \<lambda>_. Inr (), gw_loc_tz = \<lambda>_. ''UTC'',
      gw_iso_time = \<lambda>_. Inr 0, gw_local_text = \<lambda>_ _. ''now'', gw_format = \<lambda>_ x _. x, gw_coordinates = \<lambda>_ _. '''',
      gw_levels_text = \<lambda>_. '''', gw_heights_text = \<lambda>_. '''', gw_point_values = '''', gw_point_location = '''',
      gw_linear = '''', gw_unset = '''', gw_data_param = \<lambda>name. (name, 0)\<rparr>"

lemma demo_grid_run:
  "(case extract_grid_forecast demo_grid demo_forecast_query of
      Inr (q, t) \<Rightarrow> table_lines '''' 2 t = [[''1.5'', ''NaN''], [''2.5'', ''NaN''], [''1.5'', ''NaN''], [''2.5'', ''NaN'']]
    | Inl _ \<Rightarrow> False)"
  by code_simp


lemma demo_place_run:
  "(case process_grid_query demo_grid ''a'' 7 ''Suomi'' demo_grid_query (demo_forecast_query, [], 0) of
      Inr s \<Rightarrow> snd (snd s) = 2 | Inl _ \<Rightarrow> False)"
  by code_simp


end
