(* ===== verification/Spec2Isabelle.thy ===== *)
theory Spec2Isabelle
  imports FilterDnf FeatureRequests Frontend Describe QEDownload FlashHandler GridForecast
begin

text \<open>
  A model of the core of \<open>smartmet-plugin-wfs\<close>, a WFS 2.0 server for weather data: what the
  plugin does between an HTTP request and the handlers of the stored queries.  Every definition
  follows a function, class or loop of \<open>src/libwfs\<close> and \<open>src/wfs\<close>; the theories read in the order
  of the data flow.

  \<^bold>\<open>The program.\<close>  \<open>PluginImpl\<close> takes an HTTP request, finds the parser of its request name in
  \<open>RequestFactory\<close> and runs the request object.  \<open>GetFeature\<close> and \<open>GetPropertyValue\<close> hold a list
  of queries: stored queries, whose parameters \<open>StoredQuery\<close> extracts and checks against their
  configuration, and ad hoc queries, which \<open>AdHocQuery\<close> rewrites into stored queries and a filter
  expression.  \<open>StoredQueryMap\<close> keeps the active handlers and reloads them when their
  configuration files change.  A handler gets its parameters through
  \<open>StoredQueryParamRegistry\<close>: templates of the configuration are filled with the values of the
  request.  Every answer carries feature identifiers, which encode the query that reproduces one
  member of it.

  \<^bold>\<open>The theories.\<close>
  \<^item> \<open>Prelude\<close>: results (\<open>Inl\<close> of an exception, \<open>Inr\<close> of a value), folds that stop at the first
    exception, operations of \<open>std::string\<close> and \<open>std::multimap\<close>.  \<open>Qi\<close>: the Boost.Spirit parsers
    with their skipper.  \<open>Convenience\<close>: \<open>WfsConvenience.cpp\<close> and decimal printing.
  \<^item> \<open>BitStream\<close>, \<open>BitCodec\<close>, \<open>BitValue\<close>, \<open>FeatureId\<close>: \<open>BStream.cpp\<close> and \<open>FeatureID.cpp\<close>.  The
    buffer of the stream with its growth, the codes of integers, strings, times and values at
    their width; what is written is read back, and an identifier decodes to the feature it was
    made of and cannot be changed unnoticed.
  \<^item> \<open>ParamMap\<close>, \<open>ParamDef\<close>, \<open>QueryConfig\<close>, \<open>ParamItem\<close>, \<open>Templates\<close>, \<open>ParamRegistry\<close>: from the
    text of a parameter (\<open>RequestParameterMap\<close>, \<open>StoredQueryParamDef\<close>) and the configuration of a
    query (\<open>StoredQueryConfig\<close>) over the items \<open>${name[i]:default}\<close> (\<open>ParameterTemplateItem\<close>,
    \<open>ScalarParameterTemplate\<close>, \<open>ArrayParameterTemplate\<close>) to the typed map of a handler.
  \<^item> \<open>Handler\<close>, \<open>QueryMap\<close>: the states of a handler, and the step relation of the map of stored
    queries under the update of its directory; its invariants are by rule induction.
  \<^item> \<open>QueryExtract\<close>, \<open>StoredQueries\<close>: the parameters of a stored query request and the query
    object, with redirection and the identifiers it makes.
  \<^item> \<open>Requests\<close>, \<open>GetFeature\<close>, \<open>PropertyValue\<close>, \<open>FeatureRequests\<close>: \<open>RequestBase\<close>,
    \<open>RequestFactory\<close>, the presentation parameters, the execution of the queries with the cache of
    responses, paging, and the composition from the parameters of a request to its answer.
  \<^item> \<open>XmlParams\<close>, \<open>Filters\<close>, \<open>FilterDnf\<close>, \<open>AdHoc\<close>: GML parameters, the filters of ad hoc queries
    and the disjunctive normal form they are brought to, and the queries that come out.
  \<^item> \<open>XmlParsing\<close>, \<open>Frontend\<close>, \<open>Describe\<close>: the XML parser with its entity resolver (a step
    relation), the plugin's request loop with its error responses, and the requests that describe
    the service.
  \<^item> \<open>TimeParams\<close>, \<open>HandlerParams\<close>, \<open>UrlTemplate\<close>: the groups of parameters that handlers share
    (\<open>SupportsTimeParameters\<close>, \<open>SupportsLocationParameters\<close>, \<open>SupportsBoundingBox\<close> and the like), and
    URLs made of templates.
  \<^item> \<open>ObsParams\<close>, \<open>ObsHandler\<close>: the handler of observation queries, \<open>StoredObsQueryHandler\<close>: the
    columns it asks for with their index, the settings of the query, and the answer, with every row
    of the result in its group once.
  \<^item> \<open>FileHandlers\<close>, \<open>QEDownload\<close>: answers made of links, \<open>StoredAtomQueryHandlerBase\<close> with the sets of
    files of \<open>DataSetIndex\<close>, \<open>StoredFileQueryHandler\<close>, the query by feature identifier, and the download
    of model data with the qualifier of its cache key.  The identifier of a file selects this file.
  \<^item> \<open>FlashHandler\<close>: lightning observations, \<open>StoredFlashQueryHandler\<close>: the period made of blocks of
    time, and the rows written as text.
  \<^item> \<open>ForecastHandler\<close>: forecasts at places, \<open>StoredForecastQueryHandler\<close>: the table with its rows for
    each place, height or level and time, and the groups that have every row once.
  \<^item> \<open>GridForecast\<close>: forecasts of the grid engine, \<open>StoredGridForecastQueryHandler\<close> and
    \<open>RequiresGridEngine\<close>: the query for the engine, and the table in which every place has a range of
    rows of its own.

  \<^bold>\<open>Interfaces.\<close>  Where a component uses another through a contract (a code of the bit stream, a
  case policy of names, an ordered container, the environment of the query map) the contract is a
  locale, interpreted on the definitions of the component that provides it.

  \<^bold>\<open>Parameters.\<close>  Code outside the repository is an argument: conversions of \<open>Spine::Value\<close>, time
  arithmetic, the hash and base 64 functions, XML documents and XPath, file and directory reads,
  the engines and the template formatter.  Hypotheses on them are named in the statements.

  \<^bold>\<open>Loops.\<close>  No loop is cut off by fuel.  Loops over data are recursive on the data or have a
  measure; the loop that follows the redirections of a query is a \<open>partial_function\<close> into an
  option, and that it returns is proved from the set of the query ids it has visited.  The loop over
  the sensors of a parameter is one too: it returns for steps that do not wrap around, and does not
  for others.

  \<^bold>\<open>Not modelled.\<close>  Locks and thread scheduling (each locked section is one step), logging,
  statistics, the text of messages that no caller inspects, generated template output, and the
  handlers whose work is a call of an engine with its data; \<open>PROJECT.json\<close> lists every part.
\<close>

end
